(* ===== verification/SD_Prelude.thy ===== *)
theory SD_Prelude
  imports
    Complex_Main
    "HOL-Library.List_Lexorder"
    "HOL-Library.Char_ord"
    "HOL-Library.Product_Lexorder"
begin

text \<open>
  Shared vocabulary of the development: Python exceptions as values of a sum type, strings
  with the operations the sources use, the rendering of integers, percentages and dates, and
  the few relational operations every SQL statement of the sources is built from (grouping,
  \<open>MIN\<close> and \<open>MAX\<close> with SQL's NULL, the newest row of a partition).

  Conventions. Python's \<open>int\<close> is \<^typ>\<open>int\<close>. Python's \<open>float\<close> arithmetic is read over
  \<^typ>\<open>real\<close>: a float literal denotes its decimal value and every operation is exact. Strings
  are lists of bytes (UTF-8), so the em dash of the published texts is three characters.
  SQL's NULL and Python's None are \<^term>\<open>None\<close>.
\<close>

section \<open>Collections of facts\<close>

named_theorems frame_simps \<open>what an operation leaves unchanged\<close>
named_theorems bound_intros \<open>introduction rules for bounds\<close>

section \<open>Exceptions as values\<close>

datatype py_exn =
    TypeErr
  | ValueErr
  | KeyErr
  | IndexErr
  | AttributeErr
  | OverflowErr
  | OperationalErr
  | OSErr
  | SystemExit string
  | OutOfModel

text \<open>
  \<^term>\<open>OutOfModel\<close> is no exception of the program: it marks the few runs the model does not
  follow (an infinite or not-a-number float where a finite one is expected), so that no result
  is ever claimed for them.
\<close>

type_synonym 'a py = "py_exn + 'a"

definition py_bind :: "'a py \<Rightarrow> ('a \<Rightarrow> 'b py) \<Rightarrow> 'b py" where
  "py_bind m f = (case m of Inl e \<Rightarrow> Inl e | Inr x \<Rightarrow> f x)"

lemma py_bind_simps [simp]:
  "py_bind (Inl e) f = Inl e"
  "py_bind (Inr x) f = f x"
  by (simp_all add: py_bind_def)

lemma py_bind_Inr: "py_bind m f = Inr y \<longleftrightarrow> (\<exists>x. m = Inr x \<and> f x = Inr y)"
  by (cases m) auto

lemma py_bindE:
  assumes "py_bind m f = Inr y"
  obtains x where "m = Inr x" "f x = Inr y"
  using assms by (auto simp: py_bind_Inr)

lemma py_bind_Inl: "py_bind m f = Inl e \<longleftrightarrow> m = Inl e \<or> (\<exists>x. m = Inr x \<and> f x = Inl e)"
  by (cases m) auto

text \<open>A comprehension whose element expression may raise.\<close>

fun py_map :: "('a \<Rightarrow> 'b py) \<Rightarrow> 'a list \<Rightarrow> 'b list py" where
  "py_map f [] = Inr []"
| "py_map f (x # xs) = py_bind (f x) (\<lambda>y. py_bind (py_map f xs) (\<lambda>ys. Inr (y # ys)))"

section \<open>Strings\<close>

definition em_dash :: string where
  "em_dash = [CHR 0xE2, CHR 0x80, CHR 0x94]"

definition starts_with :: "string \<Rightarrow> string \<Rightarrow> bool" where
  "starts_with p s \<longleftrightarrow> take (length p) s = p"

definition ends_with :: "string \<Rightarrow> string \<Rightarrow> bool" where
  "ends_with p s \<longleftrightarrow> starts_with (rev p) (rev s)"

fun contains :: "string \<Rightarrow> string \<Rightarrow> bool" where
  "contains p [] = (p = [])"
| "contains p (c # cs) = (starts_with p (c # cs) \<or> contains p cs)"

text \<open>\<open>s.split(sep)[0]\<close>: everything before the first occurrence of \<open>sep\<close>.\<close>

fun before_sep :: "string \<Rightarrow> string \<Rightarrow> string" where
  "before_sep sep [] = []"
| "before_sep sep (c # cs) =
     (if starts_with sep (c # cs) then [] else c # before_sep sep cs)"

fun join_with :: "string \<Rightarrow> string list \<Rightarrow> string" where
  "join_with sep [] = []"
| "join_with sep [x] = x"
| "join_with sep (x # xs) = x @ sep @ join_with sep xs"

definition is_ws :: "char \<Rightarrow> bool" where
  "is_ws c \<longleftrightarrow> c \<in> {CHR '' '', CHR 0x09, CHR 0x0A, CHR 0x0B, CHR 0x0C, CHR 0x0D,
     CHR 0x1C, CHR 0x1D, CHR 0x1E, CHR 0x1F}"

definition strip :: "string \<Rightarrow> string" where
  "strip s = rev (dropWhile is_ws (rev (dropWhile is_ws s)))"

lemma strip_nonempty: "\<not> is_ws c \<Longrightarrow> strip (c # s) \<noteq> []"
  by (simp add: strip_def dropWhile_eq_Nil_conv)

definition is_digit :: "char \<Rightarrow> bool" where
  "is_digit c \<longleftrightarrow> c \<in> set ''0123456789''"

definition digit_val :: "char \<Rightarrow> nat" where
  "digit_val c = length (takeWhile (\<lambda>d. d \<noteq> c) ''0123456789'')"

definition lower_char :: "char \<Rightarrow> char" where
  "lower_char c = (let n = of_char c :: nat in if 65 \<le> n \<and> n \<le> 90 then char_of (n + 32) else c)"

text \<open>SQLite's \<open>LIKE 'p%'\<close>: a prefix test that ignores ASCII case.\<close>

definition like_prefix :: "string \<Rightarrow> string \<Rightarrow> bool" where
  "like_prefix p s \<longleftrightarrow> starts_with (map lower_char p) (map lower_char s)"

text \<open>SQLite's \<open>LIKE\<close> in general: \<open>%\<close> matches any run of characters and \<open>_\<close> any one.\<close>

fun like :: "string \<Rightarrow> string \<Rightarrow> bool" where
  "like [] s = (s = [])"
| "like (c # p) [] = (c = CHR ''%'' \<and> like p [])"
| "like (c # p) (d # s) =
     (if c = CHR ''%'' then like p (d # s) \<or> like (c # p) s
      else (c = CHR ''_'' \<or> lower_char c = lower_char d) \<and> like p s)"

lemma starts_with_append [simp]: "starts_with p (p @ s)"
  by (simp add: starts_with_def)

lemma starts_with_Nil [simp]: "starts_with [] s"
  by (simp add: starts_with_def)

lemma starts_with_Cons [simp]:
  "starts_with (a # p) (b # s) \<longleftrightarrow> a = b \<and> starts_with p s"
  "\<not> starts_with (a # p) []"
  by (auto simp: starts_with_def)

lemma contains_append: "contains p s \<Longrightarrow> contains p (t @ s)"
  by (induction t) auto

lemma starts_with_mono: "starts_with p s \<Longrightarrow> starts_with p (s @ t)"
  by (metis append_take_drop_id append.assoc starts_with_append starts_with_def)

lemma contains_mono: "contains p s \<Longrightarrow> contains p (s @ t)"
proof (induction s)
  case Nil
  then show ?case by (cases t) auto
next
  case (Cons c s)
  then show ?case
    using starts_with_mono [of p "c # s" t] by auto
qed

lemma contains_infix [simp]: "contains p (s @ p @ t)"
proof -
  have "contains p p" by (cases p) (simp_all add: starts_with_def)
  then show ?thesis by (simp add: contains_append contains_mono)
qed

lemma before_sep_suffix: "\<not> contains sep k \<Longrightarrow> sep \<noteq> [] \<Longrightarrow> before_sep sep k = k"
  by (induction k) auto

lemma like_any: "like (CHR ''%'' # p) (s @ t)" if "like p t"
proof (induction s)
  case Nil
  then show ?case using that by (cases t) simp_all
qed simp

lemma like_self: "like (p @ q) (p @ s)" if "like q s"
proof (induction p)
  case (Cons c p)
  then show ?case using like_any [of "p @ q" "p @ s" "[]"] by simp
qed (simp add: that)

text \<open>A text that contains the word between two \<open>%\<close> is matched.\<close>

lemma like_contains: "like (CHR ''%'' # p @ ''%'') (s @ p @ t)"
proof -
  have "like ''%'' t" using like_any [of "[]" "[]" t] by simp
  then show ?thesis by (intro like_any like_self)
qed

subsection \<open>Integers, percentages and dates as text\<close>

definition digit_char :: "nat \<Rightarrow> char" where
  "digit_char d = ''0123456789'' ! d"

fun str_nat :: "nat \<Rightarrow> string" where
  "str_nat n = (if n < 10 then [digit_char n] else str_nat (n div 10) @ [digit_char (n mod 10)])"

declare str_nat.simps [simp del]

definition str_int :: "int \<Rightarrow> string" where
  "str_int i = (if i < 0 then ''-'' @ str_nat (nat (- i)) else str_nat (nat i))"

definition pad_left :: "nat \<Rightarrow> string \<Rightarrow> string" where
  "pad_left k s = replicate (k - length s) (CHR ''0'') @ s"

text \<open>Round half to even, the rule of Python's number formatting.\<close>

definition round_even :: "real \<Rightarrow> int" where
  "round_even x =
     (let f = \<lfloor>x\<rfloor>; d = x - of_int f
      in if d < 1/2 then f else if d > 1/2 then f + 1 else if even f then f else f + 1)"

text \<open>\<open>f"{x:.0%}"\<close> and \<open>f"{x:.1%}"\<close>.\<close>

definition pct0 :: "real \<Rightarrow> string" where
  "pct0 x = str_int (round_even (x * 100)) @ ''%''"

definition pct1 :: "real \<Rightarrow> string" where
  "pct1 x =
     (let t = round_even (x * 1000); a = \<bar>t\<bar>
      in (if t < 0 then ''-'' else []) @ str_int (a div 10) @ ''.'' @ str_int (a mod 10) @ ''%'')"

text \<open>
  The calendar date of a day number counted from 1970-01-01 (\<open>date.isoformat\<close> of
  \<open>datetime.fromtimestamp(ts, utc).date()\<close>), by the proleptic Gregorian calendar.
\<close>

definition year_of_era :: "int \<Rightarrow> int" where
  "year_of_era doe = (doe - doe div 1460 + doe div 36524 - doe div 146096) div 365"

definition day_of_year :: "int \<Rightarrow> int \<Rightarrow> int" where
  "day_of_year doe yoe = doe - (365 * yoe + yoe div 4 - yoe div 100)"

definition month_index :: "int \<Rightarrow> int" where
  "month_index doy = (5 * doy + 2) div 153"

definition civil_of_march :: "int \<Rightarrow> int \<Rightarrow> int \<Rightarrow> int \<times> int \<times> int" where
  "civil_of_march y doy mp =
     (if mp < 10 then y else y + 1, if mp < 10 then mp + 3 else mp - 9,
      doy - (153 * mp + 2) div 5 + 1)"

definition civil_of_era :: "int \<Rightarrow> int \<Rightarrow> int \<Rightarrow> int \<times> int \<times> int" where
  "civil_of_era era yoe doy = civil_of_march (yoe + era * 400) doy (month_index doy)"

definition civil_of_days :: "int \<Rightarrow> int \<times> int \<times> int" where
  "civil_of_days z =
     civil_of_era ((z + 719468) div 146097) (year_of_era ((z + 719468) mod 146097))
       (day_of_year ((z + 719468) mod 146097) (year_of_era ((z + 719468) mod 146097)))"

lemmas civil_defs = civil_of_days_def civil_of_era_def civil_of_march_def month_index_def
  day_of_year_def year_of_era_def

definition iso_date :: "int \<Rightarrow> string" where
  "iso_date z =
     (case civil_of_days z of
        (y, m, d) \<Rightarrow> pad_left 4 (str_int y) @ ''-'' @ pad_left 2 (str_int m)
                       @ ''-'' @ pad_left 2 (str_int d))"


lemmas text_defs = iso_date_def civil_defs str_int_def str_nat.simps digit_char_def pad_left_def

lemma iso_date_epochs:
  "iso_date 0 = ''1970-01-01''"
  "iso_date 20662 = ''2026-07-28''"
  "iso_date 20729 = ''2026-10-03''"
  by (simp_all add: text_defs)

section \<open>Relational operations\<close>

text \<open>
  \<open>GROUP BY\<close> with \<open>ORDER BY\<close> on the same key: one group per key value, keys ascending,
  each group in the order of the table.
\<close>

definition group_by :: "('a \<Rightarrow> 'k::linorder) \<Rightarrow> 'a list \<Rightarrow> ('k \<times> 'a list) list" where
  "group_by f xs = map (\<lambda>k. (k, filter (\<lambda>x. f x = k) xs)) (remdups (sort (map f xs)))"

lemma sort_Nil_iff [simp]: "sort xs = [] \<longleftrightarrow> xs = []"
  by (metis length_0_conv length_sort)

lemma group_by_Nil_iff [simp]: "group_by f xs = [] \<longleftrightarrow> xs = []"
  by (simp add: group_by_def)

lemma group_by_keys [simp]: "map fst (group_by f xs) = remdups (sort (map f xs))"
  by (simp add: group_by_def comp_def)

lemma set_group_by: "(k, g) \<in> set (group_by f xs) \<longleftrightarrow>
    k \<in> f ` set xs \<and> g = filter (\<lambda>x. f x = k) xs"
  by (auto simp: group_by_def)

lemma distinct_group_by: "distinct (map fst (group_by f xs))"
  by simp

lemma sorted_remdups: "sorted xs \<Longrightarrow> sorted (remdups xs)"
  by (induction xs) auto

lemma sorted_group_by: "sorted (map fst (group_by f xs))"
  by (simp add: sorted_remdups)

lemma group_nonempty: "(k, g) \<in> set (group_by f xs) \<Longrightarrow> g \<noteq> []"
  by (auto simp: set_group_by filter_empty_conv)

lemma group_keyed: "(k, g) \<in> set (group_by f xs) \<Longrightarrow> x \<in> set g \<Longrightarrow> f x = k \<and> x \<in> set xs"
  by (auto simp: set_group_by)

text \<open>A sum over the groups is the sum over the table.\<close>

lemma sum_list_filter_keys:
  fixes w :: "'a \<Rightarrow> 'b::comm_monoid_add"
  shows "distinct ks \<Longrightarrow> f ` set xs \<subseteq> set ks \<Longrightarrow>
   (\<Sum>k\<leftarrow>ks. \<Sum>x\<leftarrow>filter (\<lambda>x. f x = k) xs. w x) = (\<Sum>x\<leftarrow>xs. w x)"
proof (induction xs)
  case Nil
  then show ?case by simp
next
  case (Cons x xs)
  have one: "(\<Sum>k\<leftarrow>ks. if f x = k then w x else 0) = w x"
    using Cons.prems by (simp add: sum_list_distinct_conv_sum_set sum.delta')
  have "(\<Sum>k\<leftarrow>ks. \<Sum>y\<leftarrow>filter (\<lambda>y. f y = k) (x # xs). w y) =
        (\<Sum>k\<leftarrow>ks. (if f x = k then w x else 0) + (\<Sum>y\<leftarrow>filter (\<lambda>y. f y = k) xs. w y))"
    by (rule arg_cong [where f = sum_list], rule map_cong) auto
  also have "\<dots> = w x + (\<Sum>y\<leftarrow>xs. w y)"
    using Cons one by (simp add: sum_list_addf)
  finally show ?case by simp
qed

lemma sum_group: "(\<Sum>(k, g)\<leftarrow>group_by f xs. \<Sum>x\<leftarrow>g. w x) = (\<Sum>x\<leftarrow>xs. w x)"
  for w :: "'a \<Rightarrow> 'b::comm_monoid_add"
proof -
  have "(\<Sum>(k, g)\<leftarrow>group_by f xs. \<Sum>x\<leftarrow>g. w x)
      = (\<Sum>k\<leftarrow>remdups (sort (map f xs)). \<Sum>x\<leftarrow>filter (\<lambda>x. f x = k) xs. w x)"
    by (simp add: group_by_def comp_def)
  also have "\<dots> = (\<Sum>x\<leftarrow>xs. w x)"
    by (rule sum_list_filter_keys) auto
  finally show ?thesis .
qed

lemma sum_group_sizes: "(\<Sum>(k, g)\<leftarrow>group_by f xs. length g) = length xs"
  using sum_group [of "\<lambda>_. 1 :: nat" f xs] by (simp add: sum_list_triv)

text \<open>SQL's \<open>MAX\<close> and \<open>MIN\<close> over a column: NULL on an empty table.\<close>

definition max_opt :: "int list \<Rightarrow> int option" where
  "max_opt xs = (case xs of [] \<Rightarrow> None | y # ys \<Rightarrow> Some (fold max ys y))"

definition min_opt :: "int list \<Rightarrow> int option" where
  "min_opt xs = (case xs of [] \<Rightarrow> None | y # ys \<Rightarrow> Some (fold min ys y))"

lemma fold_max_Max: "fold max ys (y::int) = Max (set (y # ys))"
  by (simp only: Max.set_eq_fold)

lemma fold_min_Min: "fold min ys (y::int) = Min (set (y # ys))"
  by (simp only: Min.set_eq_fold)

lemma max_opt_Some: "max_opt xs = Some m \<longleftrightarrow> m \<in> set xs \<and> (\<forall>x \<in> set xs. x \<le> m)"
proof (cases xs)
  case (Cons y ys)
  then show ?thesis
    using Max_eq_iff [of "set xs" m] by (auto simp: max_opt_def fold_max_Max)
qed (simp add: max_opt_def)

lemma max_opt_None [simp]: "max_opt xs = None \<longleftrightarrow> xs = []"
  by (simp add: max_opt_def split: list.splits)

lemma min_opt_Some: "min_opt xs = Some m \<longleftrightarrow> m \<in> set xs \<and> (\<forall>x \<in> set xs. m \<le> x)"
proof (cases xs)
  case (Cons y ys)
  then show ?thesis
    using Min_eq_iff [of "set xs" m] by (auto simp: min_opt_def fold_min_Min)
qed (simp add: min_opt_def)

lemma min_opt_None [simp]: "min_opt xs = None \<longleftrightarrow> xs = []"
  by (simp add: min_opt_def split: list.splits)

text \<open>
  \<open>ROW_NUMBER() OVER (PARTITION BY k ORDER BY t DESC) = 1\<close>: the newest row of every
  partition (the first of the newest, where the ordering key has ties).
\<close>

fun newest :: "('a \<Rightarrow> int) \<Rightarrow> 'a \<Rightarrow> 'a list \<Rightarrow> 'a" where
  "newest t x [] = x"
| "newest t x (y # ys) = newest t (if t x < t y then y else x) ys"

definition newest_of :: "('a \<Rightarrow> int) \<Rightarrow> 'a list \<Rightarrow> 'a" where
  "newest_of t xs = newest t (hd xs) (tl xs)"

definition row_number_1 :: "('a \<Rightarrow> 'k::linorder) \<Rightarrow> ('a \<Rightarrow> int) \<Rightarrow> 'a list \<Rightarrow> 'a list" where
  "row_number_1 k t xs = map (\<lambda>(_, g). newest_of t g) (group_by k xs)"

lemma newest_in: "newest t x ys \<in> set (x # ys)"
proof (induction ys arbitrary: x)
  case (Cons y ys)
  show ?case using Cons.IH [of y] Cons.IH [of x] by auto
qed simp

lemma newest_ge: "y \<in> set (x # ys) \<Longrightarrow> t y \<le> t (newest t x ys)"
proof (induction ys arbitrary: x y)
  case Nil
  then show ?case by simp
next
  case (Cons z ys)
  let ?w = "if t x < t z then z else x"
  have "t ?w \<le> t (newest t ?w ys)" by (rule Cons.IH) simp
  moreover have "t y \<le> t (newest t ?w ys)" if "y \<in> set ys"
    using that by (intro Cons.IH) simp
  ultimately show ?case using Cons.prems by (auto split: if_splits)
qed

lemma newest_of_in: "xs \<noteq> [] \<Longrightarrow> newest_of t xs \<in> set xs"
  using newest_in [of t "hd xs" "tl xs"] by (simp add: newest_of_def)

lemma newest_of_ge: "y \<in> set xs \<Longrightarrow> t y \<le> t (newest_of t xs)"
  using newest_ge [of y "hd xs" "tl xs" t] by (cases xs) (auto simp: newest_of_def)

lemma row_number_1_keys: "map k (row_number_1 k t xs) = remdups (sort (map k xs))"
proof -
  have "k (newest_of t g) = ky" if "(ky, g) \<in> set (group_by k xs)" for ky g
    using that group_keyed [OF that] newest_of_in [OF group_nonempty [OF that], of t] by blast
  then have "map k (row_number_1 k t xs) = map fst (group_by k xs)"
    unfolding row_number_1_def map_map by (intro map_cong) auto
  then show ?thesis by simp
qed

lemma row_number_1_distinct: "distinct (map k (row_number_1 k t xs))"
  by (simp add: row_number_1_keys)

lemma row_number_1_subset: "x \<in> set (row_number_1 k t xs) \<Longrightarrow> x \<in> set xs"
proof -
  assume "x \<in> set (row_number_1 k t xs)"
  then obtain ky g where g: "(ky, g) \<in> set (group_by k xs)" and x: "x = newest_of t g"
    by (auto simp: row_number_1_def)
  have "x \<in> set g" using x newest_of_in [OF group_nonempty [OF g]] by simp
  with g show "x \<in> set xs" by (auto simp: set_group_by)
qed

lemma row_number_1_newest:
  assumes "x \<in> set (row_number_1 k t xs)" and "y \<in> set xs" and "k y = k x"
  shows "t y \<le> t x"
proof -
  obtain ky g where g: "(ky, g) \<in> set (group_by k xs)" and x: "x = newest_of t g"
    using assms(1) by (auto simp: row_number_1_def)
  have "k x = ky" using x newest_of_in [OF group_nonempty [OF g]] group_keyed [OF g] by blast
  with assms g have "y \<in> set g" by (auto simp: set_group_by)
  with x show ?thesis by (simp add: newest_of_ge)
qed

lemma row_number_1_length: "length (row_number_1 k t xs) = card (k ` set xs)"
proof -
  have "length (row_number_1 k t xs) = length (map k (row_number_1 k t xs))" by simp
  also have "\<dots> = card (set (remdups (sort (map k xs))))"
    by (simp add: row_number_1_keys distinct_card length_remdups_card_conv)
  finally show ?thesis by simp
qed

lemma map_filter_total:
  "(\<And>x. x \<in> set xs \<Longrightarrow> f x \<noteq> None) \<Longrightarrow> List.map_filter f xs = [] \<longleftrightarrow> xs = []"
  by (cases xs) (auto simp: map_filter_def)

definition count_if :: "('a \<Rightarrow> bool) \<Rightarrow> 'a list \<Rightarrow> int" where
  "count_if P xs = int (length (filter P xs))"

lemma count_if_nonneg [simp]: "0 \<le> count_if P xs"
  by (simp add: count_if_def)

lemma count_if_le [simp]: "count_if P xs \<le> int (length xs)"
  by (simp add: count_if_def)

lemma count_if_mono: "(\<And>x. x \<in> set xs \<Longrightarrow> P x \<Longrightarrow> Q x) \<Longrightarrow> count_if P xs \<le> count_if Q xs"
proof (induction xs)
  case (Cons x xs)
  have "count_if P xs \<le> count_if Q xs" by (rule Cons.IH) (auto intro: Cons.prems)
  then show ?case using Cons.prems [of x] by (auto simp: count_if_def)
qed (simp add: count_if_def)

lemma count_if_Nil [simp]: "count_if P [] = 0"
  by (simp add: count_if_def)

lemma count_if_Cons [simp]: "count_if P (x # xs) = (if P x then 1 else 0) + count_if P xs"
  by (simp add: count_if_def)

lemma count_if_split: "count_if P xs + count_if (\<lambda>x. \<not> P x) xs = int (length xs)"
  by (induction xs) auto

end
