(* ===== verification/Py_Json.thy ===== *)
theory Py_Json
  imports SD_Prelude
begin

text \<open>
  JSON documents as Python values, and the conversions the sources apply to them. A stored
  text is modelled together with what \<open>json.loads\<close> makes of it: \<^term>\<open>Blob s None\<close> is a text on
  which the parser raises its \<open>ValueError\<close>, \<^term>\<open>Blob s (Some j)\<close> one that parses to \<open>j\<close>.
  Numbers with an exponent or a point are floats, and a float may be infinite or not a number.
\<close>

datatype pyfloat = Fin real | PosInf | NegInf | NaN

datatype json =
    JNull
  | JBool bool
  | JInt int
  | JFloat pyfloat
  | JStr string
  | JArr "json list"
  | JObj "(string \<times> json) list"

datatype blob = Blob (blob_text: string) (blob_json: "json option")

text \<open>\<open>d.get(k, default)\<close> on a dict.\<close>

definition jget_or :: "json \<Rightarrow> string \<Rightarrow> (string \<times> json) list \<Rightarrow> json" where
  "jget_or dflt k d = (case map_of d k of None \<Rightarrow> dflt | Some v \<Rightarrow> v)"

abbreviation jget :: "string \<Rightarrow> (string \<times> json) list \<Rightarrow> json" where
  "jget \<equiv> jget_or JNull"

text \<open>Python's truth value of a document, for \<open>x or default\<close>.\<close>

fun truthy :: "json \<Rightarrow> bool" where
  "truthy JNull = False"
| "truthy (JBool b) = b"
| "truthy (JInt i) = (i \<noteq> 0)"
| "truthy (JFloat f) = (f \<noteq> Fin 0)"
| "truthy (JStr s) = (s \<noteq> [])"
| "truthy (JArr xs) = (xs \<noteq> [])"
| "truthy (JObj d) = (d \<noteq> [])"

section \<open>int()\<close>

definition trunc :: "real \<Rightarrow> int" where
  "trunc x = (if 0 \<le> x then \<lfloor>x\<rfloor> else \<lceil>x\<rceil>)"

text \<open>A digit string with single underscores between digits.\<close>

fun digits_ok :: "string \<Rightarrow> bool" where
  "digits_ok [] = False"
| "digits_ok [c] = is_digit c"
| "digits_ok (c # d # cs) =
     (is_digit c \<and> (if d = CHR ''_'' then digits_ok cs else digits_ok (d # cs)))"

definition digits_val :: "string \<Rightarrow> nat" where
  "digits_val s = foldl (\<lambda>a c. 10 * a + digit_val c) 0 (filter is_digit s)"

definition int_of_str :: "string \<Rightarrow> int py" where
  "int_of_str s =
     (let t = strip s;
          neg = starts_with ''-'' t;
          body = (if neg \<or> starts_with ''+'' t then tl t else t)
      in if digits_ok body
         then Inr (if neg then - int (digits_val body) else int (digits_val body))
         else Inl ValueErr)"

fun py_int :: "json \<Rightarrow> int py" where
  "py_int JNull = Inl TypeErr"
| "py_int (JBool b) = Inr (if b then 1 else 0)"
| "py_int (JInt i) = Inr i"
| "py_int (JFloat (Fin x)) = Inr (trunc x)"
| "py_int (JFloat NaN) = Inl ValueErr"
| "py_int (JFloat PosInf) = Inl OverflowErr"
| "py_int (JFloat NegInf) = Inl OverflowErr"
| "py_int (JStr s) = int_of_str s"
| "py_int (JArr xs) = Inl TypeErr"
| "py_int (JObj d) = Inl TypeErr"

section \<open>float()\<close>

definition digits_or_empty :: "string \<Rightarrow> bool" where
  "digits_or_empty s \<longleftrightarrow> s = [] \<or> digits_ok s"

definition after_sep :: "char \<Rightarrow> string \<Rightarrow> string option" where
  "after_sep c s = (case dropWhile (\<lambda>x. x \<noteq> c) s of [] \<Rightarrow> None | _ # r \<Rightarrow> Some r)"

definition unsigned :: "string \<Rightarrow> bool \<times> string" where
  "unsigned s = (if starts_with ''-'' s then (True, tl s)
                 else if starts_with ''+'' s then (False, tl s) else (False, s))"

definition scale10 :: "nat \<Rightarrow> int \<Rightarrow> real" where
  "scale10 m e = (if 0 \<le> e then of_nat m * 10 ^ nat e else of_nat m / 10 ^ nat (- e))"

text \<open>Mantissa and exponent of a decimal literal, \<open>12\<close>, \<open>.5\<close>, \<open>1.\<close>, \<open>1_0.5e-3\<close>.\<close>

definition mantissa_of :: "string \<Rightarrow> (nat \<times> nat) option" where
  "mantissa_of m =
     (let ip = takeWhile (\<lambda>c. c \<noteq> CHR ''.'') m;
          fp = (case after_sep (CHR ''.'') m of None \<Rightarrow> [] | Some r \<Rightarrow> r)
      in if digits_or_empty ip \<and> digits_or_empty fp \<and> (ip \<noteq> [] \<or> fp \<noteq> [])
         then Some (digits_val (ip @ fp), length (filter is_digit fp)) else None)"

definition exponent_of :: "string option \<Rightarrow> int option" where
  "exponent_of e =
     (case e of
        None \<Rightarrow> Some 0
      | Some x \<Rightarrow> (case unsigned x of (neg, d) \<Rightarrow>
          if digits_ok d then Some (if neg then - int (digits_val d) else int (digits_val d))
          else None))"

definition decimal_of :: "bool \<Rightarrow> string \<Rightarrow> pyfloat option" where
  "decimal_of neg b =
     (case (mantissa_of (takeWhile (\<lambda>c. c \<noteq> CHR ''e'') b), exponent_of (after_sep (CHR ''e'') b)) of
        (Some (v, k), Some e) \<Rightarrow>
          Some (Fin (if neg then - scale10 v (e - int k) else scale10 v (e - int k)))
      | _ \<Rightarrow> None)"

definition float_of_str :: "string \<Rightarrow> pyfloat option" where
  "float_of_str s =
     (case unsigned (map lower_char (strip s)) of (neg, b) \<Rightarrow>
        if b = ''inf'' \<or> b = ''infinity'' then Some (if neg then NegInf else PosInf)
        else if b = ''nan'' then Some NaN
        else decimal_of neg b)"

lemmas float_text_defs = float_of_str_def decimal_of_def mantissa_of_def exponent_of_def
  scale10_def unsigned_def after_sep_def digits_or_empty_def digits_val_def digit_val_def
  is_digit_def strip_def is_ws_def lower_char_def

lemma float_of_str_examples:
  "float_of_str ''0.82'' = Some (Fin (82 / 100))" "float_of_str ''-1_0.5e-1'' = Some (Fin (- 105 / 100))"
  "float_of_str ''.'' = None" "float_of_str ''Inf'' = Some PosInf" "float_of_str '' 7. '' = Some (Fin 7)"
  by code_simp+

section \<open>Files\<close>

text \<open>
  A path the sources read a document from: absent, present but unreadable (\<open>OSError\<close>), or
  readable with a text.
\<close>

datatype source_file = NoFile | Unreadable | Readable blob

lemma jget_or_simps [simp]:
  "jget_or v k [] = v"
  "jget_or v k ((k', w) # d) = (if k' = k then w else jget_or v k d)"
  by (simp_all add: jget_or_def)

lemma py_int_of_str_digits: "int_of_str ''1_000'' = Inr 1000" "int_of_str '' -7 '' = Inr (- 7)"
    "int_of_str ''1__0'' = Inl ValueErr" "int_of_str ''x'' = Inl ValueErr"
  by (simp_all add: int_of_str_def strip_def is_ws_def is_digit_def digits_val_def digit_val_def)

section \<open>Integers survive being written\<close>

lemma digit_char_is: "d < 10 \<Longrightarrow> is_digit (digit_char d) \<and> digit_val (digit_char d) = d"
proof -
  assume "d < 10"
  then have "d \<in> {0, 1, 2, 3, 4, 5, 6, 7, 8, 9}" by auto
  then show ?thesis by (auto simp: digit_char_def is_digit_def digit_val_def)
qed

lemma digits_val_snoc: "is_digit c \<Longrightarrow> digits_val (s @ [c]) = 10 * digits_val s + digit_val c"
  by (simp add: digits_val_def)

lemma str_nat_digits: "str_nat n \<noteq> [] \<and> (\<forall>c \<in> set (str_nat n). is_digit c) \<and> digits_val (str_nat n) = n"
proof (induction n rule: str_nat.induct)
  case step: (1 n)
  then show ?case
    using digit_char_is [of n] digit_char_is [of "n mod 10"]
    by (cases "10 \<le> n"; subst (1 2 3) str_nat.simps) (auto simp: digits_val_snoc, simp_all add: digits_val_def)
qed

lemma is_digit_cases: "is_digit c \<Longrightarrow> c \<noteq> CHR ''_'' \<and> c \<noteq> CHR ''-'' \<and> c \<noteq> CHR ''+'' \<and> \<not> is_ws c
    \<and> c \<noteq> CHR ''|'' \<and> c \<noteq> CHR 0x0A"
  by (auto simp: is_digit_def is_ws_def)

lemma digits_ok_all: "s \<noteq> [] \<Longrightarrow> \<forall>c \<in> set s. is_digit c \<Longrightarrow> digits_ok s"
proof (induction s rule: digits_ok.induct)
  case (3 c d cs)
  then have "d \<noteq> CHR ''_''" using is_digit_cases [of d] by simp
  with 3 show ?case by simp
qed simp_all

lemma strip_self: "s \<noteq> [] \<Longrightarrow> \<not> is_ws (hd s) \<Longrightarrow> \<not> is_ws (last s) \<Longrightarrow> strip s = s"
proof -
  assume a: "s \<noteq> []" "\<not> is_ws (hd s)" "\<not> is_ws (last s)"
  have "dropWhile is_ws s = s" using a by (cases s) simp_all
  moreover have "dropWhile is_ws (rev s) = rev s"
    using a by (cases "rev s") (simp, metis dropWhile.simps(2) hd_rev list.sel(1))
  ultimately show ?thesis by (simp add: strip_def)
qed

lemma int_of_str_nat: "int_of_str (str_nat n) = Inr (int n)"
proof -
  note d = str_nat_digits [of n]
  obtain c cs where s: "str_nat n = c # cs" using d by (cases "str_nat n") auto
  have c: "is_digit c" and l: "is_digit (last (str_nat n))"
    using d last_in_set [of "str_nat n"] by (simp_all add: s)
  have strip: "strip (str_nat n) = str_nat n"
    using d c l is_digit_cases [of c] is_digit_cases [of "last (str_nat n)"]
    by (intro strip_self) (simp_all add: s)
  have "\<not> starts_with ''-'' (str_nat n)" "\<not> starts_with ''+'' (str_nat n)"
    using is_digit_cases [OF c] by (auto simp: s)
  then show ?thesis using d digits_ok_all [of "str_nat n"] by (simp add: int_of_str_def Let_def strip)
qed

lemma int_of_str_neg: "int_of_str (CHR ''-'' # str_nat n) = Inr (- int n)"
proof -
  note d = str_nat_digits [of n]
  have l: "is_digit (last (str_nat n))" using d last_in_set [of "str_nat n"] by simp
  have "strip (CHR ''-'' # str_nat n) = CHR ''-'' # str_nat n"
    using d l is_digit_cases [of "last (str_nat n)"] by (intro strip_self) (simp_all add: is_ws_def)
  then show ?thesis using d digits_ok_all [of "str_nat n"] by (simp add: int_of_str_def Let_def)
qed

lemma int_of_str_int [simp]: "int_of_str (str_int i) = Inr i"
  using int_of_str_nat [of "nat i"] int_of_str_neg [of "nat (- i)"] by (auto simp: str_int_def)

lemma py_map_int_of_str [simp]: "py_map int_of_str (map str_int xs) = Inr xs"
  by (induction xs) simp_all

lemma str_int_clean: "CHR ''|'' \<notin> set (str_int i) \<and> CHR 0x0A \<notin> set (str_int i)"
  using str_nat_digits [of "nat i"] str_nat_digits [of "nat (- i)"] is_digit_cases
  by (auto simp: str_int_def)

lemma split_unique: "c \<notin> set a \<Longrightarrow> c \<notin> set b \<Longrightarrow> a @ c # r = b @ c # s \<longleftrightarrow> a = b \<and> r = s"
  by (induction a arbitrary: b) (auto simp: append_eq_Cons_conv Cons_eq_append_conv, (case_tac b; auto)+)

lemma str_int_eq_iff: "str_int i = str_int j \<longleftrightarrow> i = j"
  by (metis int_of_str_int sum.inject(2))

end
