(* ===== verification/Market_Tables.thy ===== *)
theory Market_Tables
  imports Py_Json
begin

text \<open>
  The tables of the daemon's SQLite database that the Python tools read, one record per table
  with the columns the statements name (\<open>daemon/internal/store/schema.sql\<close>). A nullable column
  is an option. A table that a source may lack is an option of a list, and a column that older
  databases lack is a flag of the database: reading what is not there raises
  \<open>sqlite3.OperationalError\<close>, which the tools handle case by case.
\<close>

record outcome_row =      \<comment> \<open>\<open>prediction_outcomes\<close>\<close>
  po_symbol :: int
  po_horizon :: string
  po_ts :: int
  po_prob :: "real option"
  po_up :: "int option"
  po_resolved :: "int option"
  po_settle :: "int option"

record bar_row =          \<comment> \<open>\<open>bars\<close>\<close>
  bar_symbol :: int
  bar_tf :: string
  bar_ts :: int

record symbol_row =       \<comment> \<open>\<open>symbols\<close>\<close>
  sy_id :: int
  sy_market :: string
  sy_active :: int
  sy_delisted :: "int option"

record dq_row =           \<comment> \<open>\<open>dq_events\<close>\<close>
  dq_symbol :: "int option"
  dq_ts :: int
  dq_kind :: string
  dq_detail :: string

record regime_row =       \<comment> \<open>\<open>regime_outcomes\<close>\<close>
  ro_id :: int
  ro_symbol :: int
  ro_kind :: string
  ro_ts :: int
  ro_day :: int
  ro_horizon_days :: int
  ro_historical :: real
  ro_resolved :: "int option"
  ro_actual :: "string option"
  ro_correct :: "int option"
  ro_naive :: "string option"
  ro_revision :: "string option"
  ro_superseded :: "int option"

record prereg_row =       \<comment> \<open>\<open>prereg_records\<close>\<close>
  pr_seq :: int
  pr_ts :: int
  pr_kind :: string
  pr_spec :: blob
  pr_hash :: string

record ledger_row =       \<comment> \<open>\<open>prediction_ledger\<close>\<close>
  pl_at :: int
  pl_horizon :: "string option"
  pl_revision :: "string option"

record worker_run =       \<comment> \<open>\<open>worker_runs\<close>\<close>
  wr_id :: int
  wr_worker :: string
  wr_started :: int
  wr_finished :: "int option"
  wr_status :: string
  wr_detail :: string
  wr_revision :: string

record quarantine_row =   \<comment> \<open>\<open>regime_outcome_quarantine\<close>\<close>
  qr_outcome :: int
  qr_symbol :: int
  qr_kind :: string
  qr_day :: int

record manifest_row =     \<comment> \<open>\<open>regime_outcome_quarantine_manifest\<close>, at most the row of id 1\<close>
  qm_digest :: string
  qm_rows :: int

record loop_run =         \<comment> \<open>\<open>research_loop_runs\<close>\<close>
  lr_day :: string
  lr_judged :: int
  lr_refusal :: string

record database =
  db_outcomes :: "outcome_row list"
  db_has_settle_ts :: bool
  db_bars :: "bar_row list option"
  db_symbols :: "symbol_row list option"
  db_dq :: "dq_row list option"
  db_regime :: "regime_row list option"
  db_has_naive :: bool
  db_has_revision :: bool
  db_has_superseded :: bool
  db_quarantine :: "quarantine_row list option"
  db_manifest :: "manifest_row list option"
  db_prereg :: "prereg_row list option"
  db_ledger :: "ledger_row list option"
  db_ledger_has_revision :: bool
  db_worker_runs :: "worker_run list option"
  db_runs_has_revision :: bool
  db_loop_runs :: "loop_run list option"
  db_judgments :: "string list option"    \<comment> \<open>\<open>research_loop_judgments.day\<close>, one per row\<close>
  db_meta :: "(string \<times> blob) list option"

definition empty_db :: database where
  "empty_db =
     \<lparr>db_outcomes = [], db_has_settle_ts = True, db_bars = None, db_symbols = None, db_dq = None,
      db_regime = None, db_has_naive = False, db_has_revision = False, db_has_superseded = False,
      db_quarantine = None, db_manifest = None, db_prereg = None, db_ledger = None, db_ledger_has_revision = False,
      db_worker_runs = None, db_runs_has_revision = True, db_loop_runs = None, db_judgments = None, db_meta = None\<rparr>"

end
