(* ===== verification/Day_Fold.thy ===== *)
theory Day_Fold
  imports Market_Tables
begin

text \<open>
  The unit of independent evidence (\<open>tools/accuracy_registry.py\<close>): \<open>trading_day\<close> folds a
  timestamp to a day index whose boundary is five hours after UTC midnight, and \<open>settle_day\<close>
  folds a resolved row on the bar it was graded from, falling back to its own calendar day when
  that bar is unknown. The epochs that bound the graded populations are here too.
\<close>

definition TRADING_DAY_OFFSET_SECS :: int where "TRADING_DAY_OFFSET_SECS = 5 * 3600"
definition SECONDS_PER_DAY :: int where "SECONDS_PER_DAY = 86400"

definition SURVIVORSHIP_EPOCH_TS :: int where "SURVIVORSHIP_EPOCH_TS = 1784851200"
definition GRADING_EPOCH_TS :: int where "GRADING_EPOCH_TS = 1791072000"
definition NULL_AMENDMENT_EPOCH_TS :: int where "NULL_AMENDMENT_EPOCH_TS = 1785110400"
definition REVISION_EPOCH_TS :: int where "REVISION_EPOCH_TS = 1785801600"

lemmas epoch_defs = SURVIVORSHIP_EPOCH_TS_def GRADING_EPOCH_TS_def NULL_AMENDMENT_EPOCH_TS_def
  REVISION_EPOCH_TS_def

definition population_epoch_ts :: "string \<Rightarrow> int" where
  "population_epoch_ts table =
     (if table = ''regime_outcomes'' then SURVIVORSHIP_EPOCH_TS else GRADING_EPOCH_TS)"

definition day_index :: "int \<Rightarrow> int" where
  "day_index ts = (ts - TRADING_DAY_OFFSET_SECS) div SECONDS_PER_DAY"

definition trading_day :: "int option \<Rightarrow> int option" where
  "trading_day ts = (case ts of None \<Rightarrow> None | Some t \<Rightarrow> Some (day_index t))"

definition settle_day :: "int option \<Rightarrow> int option \<Rightarrow> int option" where
  "settle_day settle_ts ts =
     (case settle_ts of
        Some s \<Rightarrow> (if 0 < s then trading_day (Some s) else trading_day ts)
      | None \<Rightarrow> trading_day ts)"

text \<open>\<open>settle_ts_expr\<close>: the column where the database has it, NULL otherwise.\<close>

definition settle_ts_expr :: "database \<Rightarrow> outcome_row \<Rightarrow> int option" where
  "settle_ts_expr con r = (if db_has_settle_ts con then po_settle r else None)"

text \<open>The fold of one stored row, whose \<open>ts\<close> is never NULL.\<close>

definition row_day :: "database \<Rightarrow> outcome_row \<Rightarrow> int" where
  "row_day con r = (case settle_day (settle_ts_expr con r) (Some (po_ts r)) of Some d \<Rightarrow> d | None \<Rightarrow> 0)"

lemma epochs_are_dates:
  "iso_date (SURVIVORSHIP_EPOCH_TS div SECONDS_PER_DAY) = ''2026-07-24''"
  "iso_date (GRADING_EPOCH_TS div SECONDS_PER_DAY) = ''2026-10-04''"
  "iso_date (NULL_AMENDMENT_EPOCH_TS div SECONDS_PER_DAY) = ''2026-07-27''"
  "iso_date (REVISION_EPOCH_TS div SECONDS_PER_DAY) = ''2026-08-04''"
  by (simp_all add: epoch_defs SECONDS_PER_DAY_def text_defs)

lemma epochs_at_midnight:
  "SURVIVORSHIP_EPOCH_TS mod SECONDS_PER_DAY = 0" "GRADING_EPOCH_TS mod SECONDS_PER_DAY = 0"
  "NULL_AMENDMENT_EPOCH_TS mod SECONDS_PER_DAY = 0" "REVISION_EPOCH_TS mod SECONDS_PER_DAY = 0"
  by (simp_all add: epoch_defs SECONDS_PER_DAY_def)

lemma day_index_iff:
  "day_index ts = d \<longleftrightarrow> d * SECONDS_PER_DAY + TRADING_DAY_OFFSET_SECS \<le> ts
     \<and> ts < (d + 1) * SECONDS_PER_DAY + TRADING_DAY_OFFSET_SECS"
  by (auto simp: day_index_def SECONDS_PER_DAY_def TRADING_DAY_OFFSET_SECS_def)

lemma day_index_mono: "s \<le> t \<Longrightarrow> day_index s \<le> day_index t"
  by (simp add: day_index_def SECONDS_PER_DAY_def zdiv_mono1)

lemma row_day_eq:
  "row_day con r =
     (case settle_ts_expr con r of
        Some s \<Rightarrow> day_index (if 0 < s then s else po_ts r)
      | None \<Rightarrow> day_index (po_ts r))"
  by (simp add: row_day_def settle_day_def trading_day_def split: option.splits)

section \<open>Properties\<close>

text \<open>
  A trading day is a window of 24 hours that opens five hours after UTC midnight: two stamps
  of one day are less than a day apart, later stamps never fall on an earlier day, and a stored
  row folds on the bar it was graded from whenever that bar is known and on its own day otherwise.
\<close>

theorem trading_day_window:
  "(day_index s = day_index t) = (day_index t * SECONDS_PER_DAY + TRADING_DAY_OFFSET_SECS \<le> s
      \<and> s < (day_index t + 1) * SECONDS_PER_DAY + TRADING_DAY_OFFSET_SECS)
   \<and> day_index (min s t) \<le> day_index (max s t)
   \<and> row_day con r = day_index (case settle_ts_expr con r of
        Some u \<Rightarrow> (if 0 < u then u else po_ts r) | None \<Rightarrow> po_ts r)"
  using day_index_iff [of s "day_index t"] day_index_mono [of "min s t" "max s t"]
  by (auto simp: row_day_eq split: option.splits)

end
