(* ===== verification/Normal_Quantile.thy ===== *)
theory Normal_Quantile
  imports SD_Prelude
begin

text \<open>
  The standard normal quantile the grader calls as \<open>statistics.NormalDist().inv_cdf\<close>. The
  standard library computes it by Wichura's algorithm AS241: a rational function of the
  probability near the centre and two rational functions of \<open>sqrt (- log (1 - p))\<close> in the
  tails. The coefficients below are the library's. Nothing here depends on how well the
  algorithm approximates the true quantile: what the grader relies on is that the computed
  value is positive and increases with the probability on the tail it is asked for, and that is
  proved for the algorithm itself.
\<close>

section \<open>Rational functions with increasing coefficient ratios\<close>

text \<open>Horner evaluation, lowest coefficient first.\<close>

fun horner :: "real list \<Rightarrow> real \<Rightarrow> real" where
  "horner [] x = 0"
| "horner (c # cs) x = c + x * horner cs x"

definition ratio :: "(real \<times> real) list \<Rightarrow> real \<Rightarrow> real" where
  "ratio cs x = horner (map fst cs) x / horner (map snd cs) x"

fun increasing_ratios :: "(real \<times> real) list \<Rightarrow> bool" where
  "increasing_ratios [] = True"
| "increasing_ratios [(n, d)] = (0 < d)"
| "increasing_ratios ((n, d) # (n', d') # cs) =
     (0 < d \<and> n * d' \<le> n' * d \<and> increasing_ratios ((n', d') # cs))"

lemma increasing_ratios_tl: "increasing_ratios (c # cs) \<Longrightarrow> increasing_ratios cs"
  by (cases "c # cs" rule: increasing_ratios.cases) auto

lemma increasing_ratios_den_pos_hd: "increasing_ratios ((n, d) # cs) \<Longrightarrow> 0 < d"
  by (cases cs) auto

lemma ratio_trans:
  fixes n :: real
  assumes "0 < d" "0 < d'" "0 < d''" "n * d' \<le> n' * d" "n' * d'' \<le> n'' * d'"
  shows "n * d'' \<le> n'' * d"
proof -
  have "n / d \<le> n' / d'" using assms by (simp add: divide_simps)
  also have "\<dots> \<le> n'' / d''" using assms by (simp add: divide_simps)
  finally show ?thesis using assms by (simp add: divide_simps)
qed

lemma increasing_ratios_later:
  "increasing_ratios ((n, d) # cs) \<Longrightarrow> (n'', d'') \<in> set cs \<Longrightarrow> 0 < d'' \<and> n * d'' \<le> n'' * d"
proof (induction cs arbitrary: n d)
  case (Cons c cs)
  obtain n' d' where c: "c = (n', d')" by (cases c)
  have head: "0 < d" "n * d' \<le> n' * d" "increasing_ratios ((n', d') # cs)"
    using Cons.prems(1) by (auto simp: c)
  have d': "0 < d'" using increasing_ratios_den_pos_hd [OF head(3)] .
  show ?case
  proof (cases "(n'', d'') = c")
    case True
    then show ?thesis using head d' by (simp add: c)
  next
    case False
    then have "0 < d'' \<and> n' * d'' \<le> n'' * d'"
      using Cons.IH [OF head(3)] Cons.prems(2) by auto
    then show ?thesis using ratio_trans [of d d' d'' n n' n''] head d' by blast
  qed
qed simp

lemma horner_nonneg: "\<forall>c \<in> set cs. 0 \<le> c \<Longrightarrow> 0 \<le> x \<Longrightarrow> 0 \<le> horner cs x"
  by (induction cs) auto

lemma horner_mono:
  "\<forall>c \<in> set cs. 0 \<le> c \<Longrightarrow> 0 \<le> x \<Longrightarrow> x \<le> y \<Longrightarrow> horner cs x \<le> horner cs y"
  by (induction cs) (auto intro!: mult_mono horner_nonneg)

lemma horner_combine:
  "horner (map (\<lambda>(n', d'). d * n' - n * d') cs) x
     = d * horner (map fst cs) x - n * horner (map snd cs) x"
proof (induction cs)
  case (Cons c cs)
  then show ?case by (cases c) (simp, simp add: algebra_simps)
qed simp

lemma increasing_ratios_den_nonneg:
  "increasing_ratios cs \<Longrightarrow> \<forall>c \<in> set (map snd cs). 0 \<le> c"
  by (induction cs rule: increasing_ratios.induct) auto



lemma increasing_ratios_den_pos:
  "increasing_ratios cs \<Longrightarrow> cs \<noteq> [] \<Longrightarrow> 0 \<le> x \<Longrightarrow> 0 < horner (map snd cs) x"
proof (cases cs)
  case (Cons c ds)
  assume "increasing_ratios cs" "0 \<le> x"
  then show ?thesis
    using increasing_ratios_den_nonneg [OF increasing_ratios_tl [of c ds]]
      increasing_ratios_den_pos_hd [of "fst c" "snd c" ds] Cons
    by (auto intro!: add_pos_nonneg mult_nonneg_nonneg horner_nonneg)
qed simp

lemma horner_cross_mono:
  assumes "increasing_ratios cs" and "0 \<le> x" and "x \<le> y"
  shows "horner (map fst cs) x * horner (map snd cs) y
       \<le> horner (map fst cs) y * horner (map snd cs) x"
  using assms(1)
proof (induction cs)
  case Nil
  then show ?case by simp
next
  case (Cons c cs)
  obtain n d where c: "c = (n, d)" by (cases c)
  let ?N = "\<lambda>x. horner (map fst cs) x" and ?D = "\<lambda>x. horner (map snd cs) x"
  let ?C = "\<lambda>x. horner (map (\<lambda>(n', d'). d * n' - n * d') cs) x"
  have coeffs: "\<forall>e \<in> set (map (\<lambda>(n', d'). d * n' - n * d') cs). 0 \<le> e"
    using increasing_ratios_later [of n d cs] Cons.prems by (auto simp: c mult.commute)
  have "x * ?C x \<le> y * ?C y"
    using assms(2,3) coeffs by (intro mult_mono horner_mono horner_nonneg) auto
  then have low: "0 \<le> y * (d * ?N y - n * ?D y) - x * (d * ?N x - n * ?D x)"
    by (simp add: horner_combine)
  have high: "0 \<le> x * y * (?N y * ?D x - ?N x * ?D y)"
    using Cons.IH [OF increasing_ratios_tl [OF Cons.prems]] assms(2,3) by simp
  have "(n + y * ?N y) * (d + x * ?D x) - (n + x * ?N x) * (d + y * ?D y)
      = (y * (d * ?N y - n * ?D y) - x * (d * ?N x - n * ?D x))
        + x * y * (?N y * ?D x - ?N x * ?D y)"
    by (simp add: algebra_simps)
  with low high show ?case by (simp add: c)
qed

lemma ratio_mono:
  assumes "increasing_ratios cs" and "cs \<noteq> []" and "0 \<le> x" and "x \<le> y"
  shows "ratio cs x \<le> ratio cs y"
  using horner_cross_mono [OF assms(1,3,4)]
    increasing_ratios_den_pos [OF assms(1,2), of x] increasing_ratios_den_pos [OF assms(1,2), of y]
    assms(3,4)
  by (simp add: ratio_def divide_le_eq le_divide_eq field_simps)

section \<open>The algorithm\<close>

definition as241_centre :: "(real \<times> real) list" where
  "as241_centre =
     [(3.3871328727963666080, 1.0),
      (133.14166789178437745, 42.313330701600911252),
      (1971.5909503065514427, 687.18700749205790830),
      (13731.693765509461125, 5394.1960214247511077),
      (45921.953931549871457, 21213.794301586595867),
      (67265.770927008700853, 39307.895800092710610),
      (33430.575583588128105, 28729.085735721942674),
      (2509.0809287301226727, 5226.4952788528545610)]"

definition as241_mid :: "(real \<times> real) list" where
  "as241_mid =
     [(1.42343711074968357734, 1.0),
      (4.63033784615654529590, 2.05319162663775882187),
      (5.76949722146069140550, 1.67638483018380384940),
      (3.64784832476320460504, 0.689767334985100004550),
      (1.27045825245236838258, 0.148103976427480074590),
      (0.241780725177450611770, 0.0151986665636164571966),
      (0.0227238449892691845833, 0.000547593808499534494600),
      (0.00077454501427834140764, 0.00000000105075007164441684324)]"

definition as241_far :: "(real \<times> real) list" where
  "as241_far =
     [(6.65790464350110377720, 1.0),
      (5.46378491116411436990, 0.599832206555887937690),
      (1.78482653991729133580, 0.136929880922735805310),
      (0.296560571828504891230, 0.0148753612908506148525),
      (0.0265321895265761230930, 0.000786869131145613259100),
      (0.00124266094738807843860, 0.0000184631831751005468180),
      (0.0000271155556874348757815, 0.000000142151175831644588870),
      (0.000000201033439929228813265, 0.00000000000000204426310338993978564)]"

definition as241_tail :: "real \<Rightarrow> real" where
  "as241_tail r = (if r \<le> 5 then ratio as241_mid (r - 1.6) else ratio as241_far (r - 5))"

definition norm_inv_cdf :: "real \<Rightarrow> real" where
  "norm_inv_cdf p =
     (let q = p - 0.5
      in if \<bar>q\<bar> \<le> 0.425 then q * ratio as241_centre (0.180625 - q * q)
         else let x = as241_tail (sqrt (- ln (if q \<le> 0 then p else 1 - p)))
              in if q < 0 then - x else x)"

lemma increasing_ratios_mid: "increasing_ratios as241_mid"
  by (simp add: as241_mid_def)

lemma increasing_ratios_far: "increasing_ratios as241_far"
  by (simp add: as241_far_def)

lemma as241_join: "ratio as241_mid 3.4 \<le> ratio as241_far 0"
  by (simp add: ratio_def as241_mid_def as241_far_def)

lemma as241_tail_mono:
  assumes "1.6 \<le> r" and "r \<le> s"
  shows "as241_tail r \<le> as241_tail s"
proof -
  note mid = ratio_mono [OF increasing_ratios_mid]
  note far = ratio_mono [OF increasing_ratios_far]
  have ne: "as241_mid \<noteq> []" "as241_far \<noteq> []"
    by (simp_all add: as241_mid_def as241_far_def)
  consider "s \<le> 5" | "r \<le> 5" "5 < s" | "5 < r" by linarith
  then show ?thesis
  proof cases
    case 1
    then show ?thesis using assms mid [OF ne(1), of "r - 1.6" "s - 1.6"]
      by (simp add: as241_tail_def)
  next
    case 2
    have "ratio as241_mid (r - 1.6) \<le> ratio as241_mid 3.4"
      using assms 2 by (intro mid ne) auto
    also note as241_join
    also have "ratio as241_far 0 \<le> ratio as241_far (s - 5)"
      using 2 by (intro far ne) auto
    finally show ?thesis using 2 by (simp add: as241_tail_def)
  next
    case 3
    then show ?thesis using assms far [OF ne(2), of "r - 5" "s - 5"]
      by (simp add: as241_tail_def)
  qed
qed

lemma as241_tail_pos:
  assumes "1.6 \<le> r"
  shows "1.42 \<le> as241_tail r"
proof -
  have "1.42 \<le> as241_tail 1.6"
    by (simp add: as241_tail_def ratio_def as241_mid_def)
  also have "\<dots> \<le> as241_tail r" using assms by (intro as241_tail_mono) auto
  finally show ?thesis .
qed

lemma tail_argument:
  assumes "0.975 \<le> p" and "p < 1"
  shows "1.6 \<le> sqrt (- ln (1 - p))"
proof -
  have "exp (2.56::real) \<le> exp 3" by simp
  also have "exp (3::real) = exp 1 ^ 3"
    by (simp add: exp_of_nat_mult [symmetric])
  also have "\<dots> \<le> 3 ^ 3" by (intro power_mono exp_le) auto
  finally have "exp (2.56::real) \<le> 40" by simp
  then have "1 / 40 \<le> exp (- 2.56 :: real)"
    by (simp add: exp_minus field_simps)
  with assms have "1 - p \<le> exp (- 2.56)" by (auto simp: field_simps)
  then have "ln (1 - p) \<le> - 2.56"
    using assms by (metis diff_gt_0_iff_gt ln_exp ln_mono)
  then have "1.6 ^ 2 \<le> - ln (1 - p)" by (simp add: power2_eq_square)
  then show ?thesis by (rule real_le_rsqrt)
qed

lemma norm_inv_cdf_upper: "0.925 < p \<Longrightarrow> norm_inv_cdf p = as241_tail (sqrt (- ln (1 - p)))"
  by (simp add: norm_inv_cdf_def Let_def abs_if)

lemma norm_inv_cdf_mono:
  assumes "0.975 \<le> p" and "p \<le> q" and "q < 1"
  shows "norm_inv_cdf p \<le> norm_inv_cdf q"
proof -
  have "sqrt (- ln (1 - p)) \<le> sqrt (- ln (1 - q))"
    using assms by simp
  with tail_argument [of p] assms show ?thesis
    by (simp add: norm_inv_cdf_upper) (rule as241_tail_mono, auto)
qed

lemma norm_inv_cdf_pos:
  assumes "0.975 \<le> p" and "p < 1"
  shows "1.42 \<le> norm_inv_cdf p"
  using as241_tail_pos [OF tail_argument [OF assms]] norm_inv_cdf_upper [of p] assms by simp

end
