(* ===== verification/Score_Intervals.thy ===== *)
theory Score_Intervals
  imports Normal_Quantile
begin

text \<open>
  The interval arithmetic of the grader (\<open>tools/accuracy_registry.py\<close>): the Wilson score
  interval at the row count (\<open>wilson\<close>) and at an effective sample size (\<open>wilson_eff\<close>), and the
  measured clustering penalty (\<open>design_effect\<close>). Where the source defaults \<open>z\<close> to the cycle's
  \<open>current_z()\<close> the model takes that number as its first argument.

  The lemmas put both intervals in one closed form of the single parameter
  \<open>c = z * z / n\<close>, from which containment in \<open>[0, 1]\<close>, containment of the point estimate and
  monotonicity in \<open>c\<close> follow: a larger \<open>z\<close> or a smaller sample can only widen the interval.
\<close>

section \<open>Definitions\<close>

definition wilson_at :: "real \<Rightarrow> real \<Rightarrow> real \<Rightarrow> real \<times> real" where
  "wilson_at z p n =
     (let d = 1 + z * z / n;
          centre = (p + z * z / (2 * n)) / d;
          half = z * sqrt (p * (1 - p) / n + z * z / (4 * n * n)) / d;
          lo = max 0 (centre - half);
          hi = min 1 (centre + half)
      in (if p \<le> 0 then 0 else lo, if p \<ge> 1 then 1 else hi))"

definition wilson :: "real \<Rightarrow> int \<Rightarrow> int \<Rightarrow> real \<times> real" where
  "wilson z k n = (if n \<le> 0 then (0, 0) else wilson_at z (of_int k / of_int n) (of_int n))"

definition wilson_eff :: "real \<Rightarrow> real \<Rightarrow> real \<Rightarrow> real \<times> real" where
  "wilson_eff z p eff_n =
     (if eff_n \<le> 0 then (0, 1) else wilson_at z (min 1 (max 0 p)) eff_n)"

text \<open>Per-cluster tallies are pairs of a size and a number of hits.\<close>

type_synonym tally = "int \<times> real"

definition tally_n :: "tally list \<Rightarrow> int" where
  "tally_n days = sum_list (map fst days)"

definition tally_hits :: "tally list \<Rightarrow> real" where
  "tally_hits days = sum_list (map snd days)"

definition design_effect :: "tally list \<Rightarrow> real option" where
  "design_effect days =
     (let k = length days
      in if k < 2 then None
         else let n = tally_n days; hits = tally_hits days
              in if n \<le> 0 then None
                 else let p = hits / of_int n
                      in if p \<le> 0 \<or> p \<ge> 1 then Some (of_int n / of_nat k)
                         else let s = (\<Sum>(dn, dh)\<leftarrow>days. (dh - of_int dn * p) ^ 2);
                                  cluster_var = of_nat k / ((of_nat k - 1) * of_int n * of_int n) * s;
                                  binom_var = p * (1 - p) / of_int n
                              in if binom_var \<le> 0 \<or> cluster_var \<le> 0 then Some 1
                                 else Some (max 1 (cluster_var / binom_var)))"

section \<open>The closed form\<close>

definition w_rad :: "real \<Rightarrow> real \<Rightarrow> real" where
  "w_rad c p = sqrt (c * p * (1 - p) + c ^ 2 / 4)"

definition w_lo :: "real \<Rightarrow> real \<Rightarrow> real" where
  "w_lo c p = (p + c / 2 - w_rad c p) / (1 + c)"

definition w_hi :: "real \<Rightarrow> real \<Rightarrow> real" where
  "w_hi c p = (p + c / 2 + w_rad c p) / (1 + c)"

lemma w_arg_nonneg: "0 \<le> c \<Longrightarrow> 0 \<le> p \<Longrightarrow> p \<le> 1 \<Longrightarrow> 0 \<le> c * p * (1 - p) + c ^ 2 / (4::real)"
  by simp

lemma w_rad_nonneg: "0 \<le> c \<Longrightarrow> 0 \<le> p \<Longrightarrow> p \<le> 1 \<Longrightarrow> 0 \<le> w_rad c p"
  unfolding w_rad_def using w_arg_nonneg by simp

lemma w_rad_square: "0 \<le> c \<Longrightarrow> 0 \<le> p \<Longrightarrow> p \<le> 1 \<Longrightarrow> w_rad c p ^ 2 = c * p * (1 - p) + c ^ 2 / 4"
  unfolding w_rad_def using w_arg_nonneg by simp

lemma w_lo_sym: "w_lo c p = 1 - w_hi c (1 - p)" if "0 \<le> c"
proof -
  have "w_rad c (1 - p) = w_rad c p" by (simp add: w_rad_def mult.assoc mult.commute)
  with that show ?thesis by (simp add: w_lo_def w_hi_def field_simps)
qed

lemma w_hi_ge: "0 \<le> c \<Longrightarrow> 0 \<le> p \<Longrightarrow> p \<le> 1 \<Longrightarrow> p \<le> w_hi c p"
proof -
  assume a: "0 \<le> c" "0 \<le> p" "p \<le> 1"
  have "(c * (p - 1/2)) ^ 2 + c * p * (1 - p) * (1 + c) = w_rad c p ^ 2"
    unfolding w_rad_square [OF a] by (simp add: power2_eq_square algebra_simps)
  moreover have "0 \<le> c * p * (1 - p) * (1 + c)" using a by simp
  ultimately have "(c * (p - 1/2)) ^ 2 \<le> w_rad c p ^ 2" by linarith
  then have "c * (p - 1/2) \<le> w_rad c p" using w_rad_nonneg [OF a] by (rule power2_le_imp_le)
  then have "p * (1 + c) \<le> p + c / 2 + w_rad c p" by (simp add: algebra_simps)
  with a show ?thesis by (simp add: w_hi_def le_divide_eq)
qed

lemma w_hi_le_1: "0 \<le> c \<Longrightarrow> 0 \<le> p \<Longrightarrow> p \<le> 1 \<Longrightarrow> w_hi c p \<le> 1"
proof -
  assume a: "0 \<le> c" "0 \<le> p" "p \<le> 1"
  have "((1 - p) + c / 2) ^ 2 - w_rad c p ^ 2 = (1 - p) ^ 2 + c * (1 - p) * (1 - p)"
    unfolding w_rad_square [OF a] by (simp add: power2_eq_square algebra_simps)
  moreover have "0 \<le> (1 - p) ^ 2 + c * (1 - p) * (1 - p)"
    using a by (intro add_nonneg_nonneg mult_nonneg_nonneg) auto
  ultimately have "w_rad c p ^ 2 \<le> ((1 - p) + c / 2) ^ 2" by linarith
  then have "w_rad c p \<le> (1 - p) + c / 2" by (rule power2_le_imp_le) (use a in simp)
  then have "p + c / 2 + w_rad c p \<le> 1 + c" by simp
  with a show ?thesis unfolding w_hi_def by (subst pos_divide_le_eq) auto
qed

lemma w_lo_le: "0 \<le> c \<Longrightarrow> 0 \<le> p \<Longrightarrow> p \<le> 1 \<Longrightarrow> w_lo c p \<le> p"
  using w_hi_ge [of c "1 - p"] by (simp add: w_lo_sym)

lemma w_lo_ge_0: "0 \<le> c \<Longrightarrow> 0 \<le> p \<Longrightarrow> p \<le> 1 \<Longrightarrow> 0 \<le> w_lo c p"
  using w_hi_le_1 [of c "1 - p"] by (simp add: w_lo_sym)

lemmas w_bounds = w_hi_ge w_hi_le_1 w_lo_le w_lo_ge_0

text \<open>The upper end is the larger root of a quadratic that decreases in \<open>c\<close> on \<open>[0, 1]\<close>.\<close>

lemma w_hi_root:
  assumes "0 \<le> c" "0 \<le> p" "p \<le> 1"
  shows "(w_hi c p - p) ^ 2 = c * w_hi c p * (1 - w_hi c p)"
proof -
  let ?x = "w_hi c p" and ?r = "w_rad c p"
  have x: "(1 + c) * ?x - (p + c / 2) = ?r" using assms by (simp add: w_hi_def)
  have "(1 + c) * ((?x - p) ^ 2 - c * ?x * (1 - ?x))
      = ((1 + c) * ?x - (p + c / 2)) ^ 2 - (c * p * (1 - p) + c ^ 2 / 4)"
    by (simp add: power2_eq_square algebra_simps)
  also have "\<dots> = 0" unfolding x using w_rad_square [OF assms] by simp
  finally show ?thesis using assms by simp
qed

lemma w_hi_mono_c:
  assumes "0 \<le> c" "c \<le> c'" "0 \<le> p" "p \<le> 1"
  shows "w_hi c p \<le> w_hi c' p"
proof -
  let ?x = "w_hi c p" and ?r = "w_rad c' p"
  have c': "0 \<le> c'" using assms by simp
  have x: "0 \<le> ?x" "?x \<le> 1" using w_bounds [of c p] assms by auto
  have "c * (?x * (1 - ?x)) \<le> c' * (?x * (1 - ?x))"
    using assms x by (intro mult_right_mono) auto
  then have "(?x - p) ^ 2 - c' * ?x * (1 - ?x) \<le> 0"
    using w_hi_root [of c p] assms by (simp add: mult.assoc)
  then have "(1 + c') * ((?x - p) ^ 2 - c' * ?x * (1 - ?x)) \<le> 0"
    using c' by (intro mult_nonneg_nonpos) auto
  moreover have "(1 + c') * ((?x - p) ^ 2 - c' * ?x * (1 - ?x))
      = ((1 + c') * ?x - (p + c' / 2)) ^ 2 - ?r ^ 2"
    unfolding w_rad_square [OF c' assms(3,4)] by (simp add: power2_eq_square algebra_simps)
  ultimately have "((1 + c') * ?x - (p + c' / 2)) ^ 2 \<le> ?r ^ 2" by linarith
  then have "(1 + c') * ?x - (p + c' / 2) \<le> ?r"
    using w_rad_nonneg [OF c' assms(3,4)] by (rule power2_le_imp_le)
  with c' show ?thesis by (simp add: w_hi_def [of c'] le_divide_eq algebra_simps)
qed

lemma w_lo_mono_c: "0 \<le> c \<Longrightarrow> c \<le> c' \<Longrightarrow> 0 \<le> p \<Longrightarrow> p \<le> 1 \<Longrightarrow> w_lo c' p \<le> w_lo c p"
  using w_hi_mono_c [of c c' "1 - p"] by (simp add: w_lo_sym)

section \<open>The computed interval is the closed form\<close>

lemma w_hi_1 [simp]: "0 \<le> c \<Longrightarrow> w_hi c 1 = 1"
  by (simp add: w_hi_def w_rad_def real_sqrt_divide)

lemma w_lo_0 [simp]: "0 \<le> c \<Longrightarrow> w_lo c 0 = 0"
  by (simp add: w_lo_sym)

lemma wilson_at_closed:
  assumes "0 \<le> z" "0 < n" "0 \<le> p" "p \<le> 1"
  shows "wilson_at z p n = (w_lo (z * z / n) p, w_hi (z * z / n) p)"
proof -
  let ?c = "z * z / n"
  have c: "0 \<le> ?c" using assms by simp
  have "z * sqrt (p * (1 - p) / n + z * z / (4 * n * n))
      = sqrt (z ^ 2 * (p * (1 - p) / n + z * z / (4 * n * n)))"
    using assms by (simp add: real_sqrt_mult)
  also have "z ^ 2 * (p * (1 - p) / n + z * z / (4 * n * n)) = ?c * p * (1 - p) + ?c ^ 2 / 4"
    using assms by (simp add: power2_eq_square field_simps)
  finally have half: "z * sqrt (p * (1 - p) / n + z * z / (4 * n * n)) = w_rad ?c p"
    by (simp add: w_rad_def)
  have centre: "z * z / (2 * n) = ?c / 2" by simp
  have lo: "(p + z * z / (2 * n)) / (1 + ?c)
      - z * sqrt (p * (1 - p) / n + z * z / (4 * n * n)) / (1 + ?c) = w_lo ?c p"
    unfolding half centre by (simp add: w_lo_def diff_divide_distrib)
  have hi: "(p + z * z / (2 * n)) / (1 + ?c)
      + z * sqrt (p * (1 - p) / n + z * z / (4 * n * n)) / (1 + ?c) = w_hi ?c p"
    unfolding half centre by (simp add: w_hi_def add_divide_distrib)
  have "w_lo ?c p = 0" if "p \<le> 0"
    using w_lo_0 [OF c] that assms(3) by (metis order_antisym)
  moreover have "w_hi ?c p = 1" if "p \<ge> 1"
    using w_hi_1 [OF c] that assms(4) by (metis order_antisym)
  ultimately show ?thesis
    using w_bounds [OF c assms(3,4)] unfolding wilson_at_def Let_def lo hi by auto
qed

lemma wilson_eff_closed:
  "0 \<le> z \<Longrightarrow> 0 < n \<Longrightarrow> 0 \<le> p \<Longrightarrow> p \<le> 1 \<Longrightarrow>
   wilson_eff z p n = (w_lo (z * z / n) p, w_hi (z * z / n) p)"
  by (simp add: wilson_eff_def wilson_at_closed)

lemma scale_mono: "0 \<le> z \<Longrightarrow> z \<le> z' \<Longrightarrow> 0 < n' \<Longrightarrow> n' \<le> n \<Longrightarrow> z * z / n \<le> z' * z' / (n'::real)"
  by (intro frac_le mult_mono) auto

section \<open>The design effect\<close>

lemma design_effect_cases:
  assumes "design_effect days = Some d"
  shows "2 \<le> length days" and "0 < tally_n days"
    and "1 \<le> d \<or> (d = of_int (tally_n days) / of_nat (length days) \<and>
            (tally_hits days / of_int (tally_n days) \<le> 0 \<or> 1 \<le> tally_hits days / of_int (tally_n days)))"
  using assms by (auto simp: design_effect_def Let_def split: if_splits)

lemma tally_n_ge_length:
  "\<forall>(dn, dh) \<in> set days. 1 \<le> dn \<Longrightarrow> int (length days) \<le> tally_n days"
  by (induction days) (auto simp: tally_n_def)

lemma design_effect_ge_1:
  assumes "\<forall>(dn, dh) \<in> set days. 1 \<le> dn" and "design_effect days = Some d"
  shows "1 \<le> d"
proof -
  have "real (length days) \<le> real_of_int (tally_n days)"
    using tally_n_ge_length [OF assms(1)] by linarith
  then have "1 \<le> real_of_int (tally_n days) / real (length days)"
    using design_effect_cases(1) [OF assms(2)] by (subst le_divide_eq) auto
  then show ?thesis using design_effect_cases(3) [OF assms(2)] by auto
qed

lemma design_effect_pos: "design_effect days = Some d \<Longrightarrow> 0 < d"
  using design_effect_cases [of days d] by (auto intro!: divide_pos_pos)

lemma design_effect_defined:
  "2 \<le> length days \<Longrightarrow> 0 < tally_n days \<Longrightarrow> \<exists>d. design_effect days = Some d"
  by (simp add: design_effect_def Let_def)

section \<open>Properties\<close>

text \<open>
  The interval over an effective sample size always contains the (clamped) observed accuracy
  and never leaves the unit interval, at every effective size, the refused ones included.
\<close>

theorem wilson_eff_contains:
  assumes "0 \<le> z"
  shows "0 \<le> fst (wilson_eff z p n) \<and> fst (wilson_eff z p n) \<le> min 1 (max 0 p)
    \<and> min 1 (max 0 p) \<le> snd (wilson_eff z p n) \<and> snd (wilson_eff z p n) \<le> 1"
proof (cases "n \<le> 0")
  case False
  let ?q = "min 1 (max 0 p)" and ?c = "z * z / n"
  have q: "0 \<le> ?c" "0 \<le> ?q" "?q \<le> 1" using False assms by simp_all
  have "wilson_eff z p n = (w_lo ?c ?q, w_hi ?c ?q)"
    using False assms q by (simp add: wilson_eff_def wilson_at_closed)
  then show ?thesis using w_bounds [OF q] by simp
qed (simp add: wilson_eff_def)

theorem wilson_eff_contains_witness:
  "fst (wilson_eff 2 (3/5) 40) \<le> (3/5::real)"
  using wilson_eff_contains [of 2 "3/5" 40] by simp

text \<open>
  A larger quantile or a smaller effective sample size gives an interval that contains the
  old one.
\<close>

theorem wilson_eff_nested:
  assumes "0 \<le> z" "z \<le> z'" "0 < n'" "n' \<le> n" "0 \<le> p" "p \<le> 1"
  shows "fst (wilson_eff z' p n') \<le> fst (wilson_eff z p n)
    \<and> snd (wilson_eff z p n) \<le> snd (wilson_eff z' p n')"
proof -
  have n: "0 < n" and z': "0 \<le> z'" using assms by simp_all
  have c: "0 \<le> z * z / n" using n by simp
  from scale_mono [OF assms(1-4)] show ?thesis
    using w_hi_mono_c [OF c _ assms(5,6)] w_lo_mono_c [OF c _ assms(5,6)] assms n z'
    by (simp add: wilson_eff_closed)
qed

theorem wilson_eff_nested_witness:
  "fst (wilson_eff 2 (3/5) 20) \<le> fst (wilson_eff 1 (3/5) 40)"
  using wilson_eff_nested [of 1 2 20 40 "3/5"] by simp

text \<open>
  When every cluster holds an observation, clustering can only cost evidence: the design
  effect is at least one, so the effective sample size is at most the number of rows.
\<close>

theorem design_effect_costs:
  assumes "\<forall>(dn, dh) \<in> set days. 1 \<le> dn" and "design_effect days = Some d"
  shows "1 \<le> d \<and> of_int (tally_n days) / d \<le> of_int (tally_n days)"
proof -
  have d: "1 \<le> d" by (rule design_effect_ge_1 [OF assms])
  moreover have "0 \<le> tally_n days" using design_effect_cases(2) [OF assms(2)] by simp
  ultimately show ?thesis by (simp add: divide_le_eq mult_le_cancel_left1)
qed

theorem design_effect_costs_witness:
  "\<exists>d. design_effect [(3, 1), (4, 2)] = Some d \<and> 1 \<le> d"
proof -
  obtain d where d: "design_effect [(3, 1), (4, 2)] = Some d"
    using design_effect_defined [of "[(3, 1), (4, 2)]"] by (auto simp: tally_n_def)
  from design_effect_costs [OF _ this] d show ?thesis by simp
qed

end
