(* ===== verification/Evidence_Blocks.thy ===== *)
theory Evidence_Blocks
  imports Score_Intervals
begin

text \<open>
  How the grader turns per-day tallies into evidence (\<open>tools/accuracy_registry.py\<close>):
  \<open>horizon_blocks\<close> folds call days into non-overlapping forward windows, \<open>clustered_ci\<close> and
  \<open>clustered_ci_blocks\<close> grade the tallies into an interval or a refusal, and
  \<open>prequential_null\<close> is the walk-forward majority baseline graded through the same machinery.
\<close>

section \<open>Definitions\<close>

definition MIN_INDEPENDENT_N :: int where "MIN_INDEPENDENT_N = 30"
definition MIN_DISTINCT_DAYS :: nat where "MIN_DISTINCT_DAYS = 10"
definition MIN_DISTINCT_BLOCKS :: nat where "MIN_DISTINCT_BLOCKS = 10"
definition MIN_DAY_OBSERVATIONS :: int where "MIN_DAY_OBSERVATIONS = 30"
definition DEGENERATE_BLOCK_FRACTION :: real where "DEGENERATE_BLOCK_FRACTION = 0.10"

lemmas floor_defs = MIN_INDEPENDENT_N_def MIN_DISTINCT_DAYS_def MIN_DISTINCT_BLOCKS_def
  MIN_DAY_OBSERVATIONS_def DEGENERATE_BLOCK_FRACTION_def

text \<open>A per-day row is (day, n, hits); so is a block, with its anchor day first.\<close>

type_synonym day_row = "int \<times> int \<times> real"

definition hd_width :: "int \<Rightarrow> int" where
  "hd_width horizon_days = max 1 horizon_days"

definition agg_days :: "day_row list \<Rightarrow> day_row list" where
  "agg_days day_rows =
     map (\<lambda>(d, g). (d, (\<Sum>(_, n, _)\<leftarrow>g. n), (\<Sum>(_, _, h)\<leftarrow>g. h))) (group_by fst day_rows)"

text \<open>
  The chronological sweep. The second argument is the open block, \<open>blocks[-1]\<close> of the source,
  whose first component is the current \<open>anchor\<close>.
\<close>

fun sweep :: "int \<Rightarrow> day_row option \<Rightarrow> day_row list \<Rightarrow> day_row list" where
  "sweep w None [] = []"
| "sweep w (Some b) [] = [b]"
| "sweep w None ((day, n, h) # rest) = sweep w (Some (day, n, h)) rest"
| "sweep w (Some (a, pn, ph)) ((day, n, h) # rest) =
     (if a + w \<le> day then (a, pn, ph) # sweep w (Some (day, n, h)) rest
      else sweep w (Some (a, pn + n, ph + h)) rest)"

definition horizon_blocks :: "day_row list \<Rightarrow> int \<Rightarrow> day_row list" where
  "horizon_blocks day_rows horizon_days = sweep (hd_width horizon_days) None (agg_days day_rows)"

text \<open>\<open>statistics.median\<close>: the middle value, or the mean of the two middle values.\<close>

definition median :: "int list \<Rightarrow> real" where
  "median xs =
     (let ys = sort xs; n = length ys
      in if odd n then of_int (ys ! (n div 2))
         else (of_int (ys ! (n div 2 - 1)) + of_int (ys ! (n div 2))) / 2)"

datatype ci_reason =
    FewClusters nat nat string nat nat   \<comment> \<open>credible, required, unit, degenerate, all clusters\<close>
  | NoDesignEffect

record ci_out =
  g_n :: int
  g_hits :: real
  g_distinct_days :: int
  g_acc :: "real option"
  g_ci :: "(real \<times> real) option"
  g_design_effect :: "real option"
  g_effective_n :: "real option"
  g_ci_method :: string
  g_credible :: "nat option"
  g_reason :: "ci_reason option"
  g_distinct_blocks :: "int option"
  g_block_span :: "int option"
  g_horizon_days :: "int option"

definition degenerate_floor :: "tally list \<Rightarrow> real" where
  "degenerate_floor days =
     (if days = [] then 0 else median (map fst days) * DEGENERATE_BLOCK_FRACTION)"

definition credible_clusters :: "tally list \<Rightarrow> tally list" where
  "credible_clusters days = filter (\<lambda>(dn, _). degenerate_floor days \<le> of_int dn) days"

definition ungraded_ci :: "tally list \<Rightarrow> ci_out" where
  "ungraded_ci days =
     \<lparr>g_n = tally_n days, g_hits = tally_hits days, g_distinct_days = int (length days),
      g_acc = (if tally_n days = 0 then None else Some (tally_hits days / of_int (tally_n days))),
      g_ci = None, g_design_effect = None, g_effective_n = None, g_ci_method = ''withheld'',
      g_credible = None, g_reason = None, g_distinct_blocks = None, g_block_span = None,
      g_horizon_days = None\<rparr>"

definition clustered_ci :: "real \<Rightarrow> tally list \<Rightarrow> nat \<Rightarrow> string \<Rightarrow> string \<Rightarrow> ci_out" where
  "clustered_ci z days min_clusters unit method =
     (let out = ungraded_ci days; n = tally_n days; hits = tally_hits days
      in if n \<le> 0 then out
         else let credible = length (credible_clusters days);
                  out = out\<lparr>g_credible := Some credible\<rparr>
              in if credible < min_clusters
                 then out\<lparr>g_reason := Some (FewClusters credible min_clusters unit
                            (length days - credible) (length days))\<rparr>
                 else case design_effect days of
                        None \<Rightarrow> out\<lparr>g_reason := Some NoDesignEffect\<rparr>
                      | Some deff \<Rightarrow>
                          let eff = of_int n / deff
                          in out\<lparr>g_ci := Some (wilson_eff z (hits / of_int n) eff),
                                 g_design_effect := Some deff,
                                 g_effective_n := Some eff,
                                 g_ci_method := method\<rparr>)"

definition clustered_ci_blocks :: "real \<Rightarrow> day_row list \<Rightarrow> int \<Rightarrow> ci_out" where
  "clustered_ci_blocks z day_rows horizon_days =
     (let blocks = horizon_blocks day_rows horizon_days;
          out = clustered_ci z (map snd blocks) MIN_DISTINCT_BLOCKS
                  ''non-overlapping horizon blocks'' ''block-clustered-wilson'';
          w = hd_width horizon_days
      in out\<lparr>g_distinct_blocks := Some (int (length blocks)),
             g_distinct_days := int (length (remdups (map fst day_rows))),
             g_block_span := Some (if blocks = [] then 0
                                   else (fst (last blocks) - fst (hd blocks) + w) div w),
             g_horizon_days := Some w\<rparr>)"

text \<open>The constant guess of one day, from the tallies of the days before it.\<close>

definition null_hits :: "int \<Rightarrow> int \<Rightarrow> int \<Rightarrow> int \<Rightarrow> real" where
  "null_hits prior_n prior_ups n ups =
     (if prior_n = 0 \<or> prior_ups * 2 = prior_n then of_int n / 2
      else if prior_ups * 2 > prior_n then of_int ups
      else of_int (n - ups))"

fun null_days :: "int \<Rightarrow> int \<Rightarrow> (int \<times> int \<times> int) list \<Rightarrow> day_row list" where
  "null_days prior_n prior_ups [] = []"
| "null_days prior_n prior_ups ((day, n, ups) # rest) =
     (day, n, null_hits prior_n prior_ups n ups) # null_days (prior_n + n) (prior_ups + ups) rest"

definition prequential_null :: "real \<Rightarrow> (int \<times> int \<times> int) list \<Rightarrow> int \<Rightarrow> ci_out" where
  "prequential_null z days horizon_days = clustered_ci_blocks z (null_days 0 0 days) horizon_days"

section \<open>The sweep builds non-overlapping windows\<close>

definition cover_of :: "int \<Rightarrow> day_row list \<Rightarrow> int \<Rightarrow> bool" where
  "cover_of w blocks d \<longleftrightarrow> (\<exists>b \<in> set blocks. fst b \<le> d \<and> d < fst b + w)"

lemma hd_width_pos [simp]: "0 < hd_width h" "1 \<le> hd_width h"
  by (simp_all add: hd_width_def)

lemma sweep_first: "sweep w (Some (a, n, h)) rest = [] \<longleftrightarrow> False"
  by (induction w "Some (a, n, h)" rest arbitrary: a n h rule: sweep.induct) (auto split: if_splits)

lemma sweep_Some_anchor:
  assumes w: "0 < w"
  shows "b \<in> set (sweep w (Some (a, n, h)) rest) \<Longrightarrow> fst b = a \<or> (a + w \<le> fst b \<and> fst b \<in> fst ` set rest)"
proof (induction rest arbitrary: a n h)
  case (Cons r rest)
  obtain day m k where r: "r = (day, m, k)" by (cases r) auto
  show ?case
  proof (cases "a + w \<le> day")
    case True
    then have "b = (a, n, h) \<or> b \<in> set (sweep w (Some (day, m, k)) rest)"
      using Cons.prems by (simp add: r)
    then show ?thesis using Cons.IH [of day m k] True w by (auto simp: r)
  next
    case False
    then have "b \<in> set (sweep w (Some (a, n + m, h + k)) rest)" using Cons.prems by (simp add: r)
    then show ?thesis using Cons.IH [of a "n + m" "h + k"] by (auto simp: r)
  qed
qed simp

lemma sweep_spaced:
  assumes "0 < w"
  shows "sorted_wrt (\<lambda>a b. a + w \<le> b) (map fst (sweep w (Some (a, n, h)) rest))"
  using assms
proof (induction rest arbitrary: a n h)
  case (Cons r rest)
  obtain day m k where r: "r = (day, m, k)" by (cases r) auto
  have far: "a + w \<le> x" if "a + w \<le> day" and "x \<in> fst ` set (sweep w (Some (day, m, k)) rest)" for x
    using that sweep_Some_anchor [OF Cons.prems, of _ day m k rest] Cons.prems by force
  show ?case using Cons far by (auto simp: r)
qed simp

lemma sweep_first_anchor: "fst (hd (sweep w (Some (a, n, h)) rest)) = a"
  by (induction rest arbitrary: n h) auto

lemma sweep_covers:
  assumes "0 < w" and "sorted_wrt (<) (map fst ((a, n, h) # rest))" and "d \<in> insert a (fst ` set rest)"
  shows "cover_of w (sweep w (Some (a, n, h)) rest) d"
  using assms
proof (induction rest arbitrary: a n h d)
  case Nil
  then show ?case by (simp add: cover_of_def)
next
  case (Cons r rest)
  obtain day m k where r: "r = (day, m, k)" by (cases r) auto
  show ?case
  proof (cases "a + w \<le> day")
    case True
    have "cover_of w (sweep w (Some (day, m, k)) rest) d" if "d \<noteq> a"
      using Cons.prems that by (intro Cons.IH) (auto simp: r)
    then have "d = a \<or> cover_of w (sweep w (Some (day, m, k)) rest) d" by blast
    with True Cons.prems(1) show ?thesis by (auto simp: r cover_of_def)
  next
    case False
    have first: "cover_of w (sweep w (Some (a, n + m, h + k)) rest) x" if "x \<in> insert a (fst ` set rest)" for x
      using Cons.prems that by (intro Cons.IH) (auto simp: r)
    show ?thesis
    proof (cases "d = day")
      case True
      have ne: "sweep w (Some (a, n + m, h + k)) rest \<noteq> []" by (simp add: sweep_first)
      then have "hd (sweep w (Some (a, n + m, h + k)) rest) \<in> set (sweep w (Some (a, n + m, h + k)) rest)"
        by simp
      moreover have "a < day" using Cons.prems by (simp add: r)
      ultimately show ?thesis using False True sweep_first_anchor [of w a "n + m" "h + k" rest]
        by (auto simp: r cover_of_def intro!: bexI)
    next
      case False
      with \<open>\<not> a + w \<le> day\<close> first Cons.prems(3) show ?thesis by (auto simp: r)
    qed
  qed
qed

lemma sweep_totals:
  "sum_list (map (fst \<circ> snd) (sweep w (Some (a, n, h)) rest)) = n + sum_list (map (fst \<circ> snd) rest)"
  "sum_list (map (snd \<circ> snd) (sweep w (Some (a, n, h)) rest)) = h + sum_list (map (snd \<circ> snd) rest)"
  by (induction rest arbitrary: a n h) auto

lemma sweep_None: "sweep w None rows = (case rows of [] \<Rightarrow> [] | r # rest \<Rightarrow> sweep w (Some r) rest)"
  by (cases rows) auto

lemma agg_days_sorted: "sorted_wrt (<) (map fst (agg_days rows))"
proof -
  have "map fst (agg_days rows) = remdups (sort (map fst rows))"
    by (simp add: agg_days_def comp_def case_prod_beta' flip: group_by_keys)
  then show ?thesis
    by (simp add: strict_sorted_iff sorted_remdups)
qed

lemma agg_days_keys: "fst ` set (agg_days rows) = fst ` set rows"
proof -
  have "map fst (agg_days rows) = remdups (sort (map fst rows))"
    by (simp add: agg_days_def comp_def case_prod_beta' flip: group_by_keys)
  then have "set (map fst (agg_days rows)) = set (remdups (sort (map fst rows)))" by (rule arg_cong)
  then show ?thesis by simp
qed

lemma horizon_blocks_spaced:
  "sorted_wrt (\<lambda>a b. a + hd_width h \<le> b) (map fst (horizon_blocks rows h))"
  by (auto simp: horizon_blocks_def sweep_None sweep_spaced split: list.splits)

lemma horizon_blocks_covers:
  "d \<in> fst ` set rows \<Longrightarrow> cover_of (hd_width h) (horizon_blocks rows h) d"
proof -
  assume d: "d \<in> fst ` set rows"
  obtain r rest where rr: "agg_days rows = r # rest"
    using d agg_days_keys [of rows] by (cases "agg_days rows") auto
  obtain a n k where r: "r = (a, n, k)" by (cases r) auto
  have "cover_of (hd_width h) (sweep (hd_width h) (Some (a, n, k)) rest) d"
    using agg_days_sorted [of rows] agg_days_keys [of rows] d
    by (intro sweep_covers) (auto simp: rr r)
  then show ?thesis by (simp add: horizon_blocks_def rr r)
qed

lemma horizon_blocks_anchor: "b \<in> set (horizon_blocks rows h) \<Longrightarrow> fst b \<in> fst ` set rows"
proof -
  assume b: "b \<in> set (horizon_blocks rows h)"
  then obtain r rest where rr: "agg_days rows = r # rest"
    by (cases "agg_days rows") (auto simp: horizon_blocks_def)
  obtain a n k where r: "r = (a, n, k)" by (cases r) auto
  have "fst b \<in> fst ` set (agg_days rows)"
    using b sweep_Some_anchor [of "hd_width h" b a n k rest] by (auto simp: horizon_blocks_def rr r)
  then show ?thesis by (simp only: agg_days_keys)
qed

lemma horizon_blocks_n: "tally_n (map snd (horizon_blocks rows h)) = tally_n (map snd rows)"
proof -
  have "tally_n (map snd (horizon_blocks rows h)) = sum_list (map (fst \<circ> snd) (agg_days rows))"
    by (auto simp: tally_n_def horizon_blocks_def sweep_None sweep_totals [unfolded comp_def] comp_def split: list.splits)
  also have "\<dots> = (\<Sum>(d, g)\<leftarrow>group_by fst rows. \<Sum>r\<leftarrow>g. fst (snd r))"
    by (simp add: agg_days_def comp_def case_prod_beta')
  also have "\<dots> = (\<Sum>r\<leftarrow>rows. fst (snd r))" by (rule sum_group)
  finally show ?thesis by (simp add: tally_n_def comp_def)
qed

lemma horizon_blocks_hits: "tally_hits (map snd (horizon_blocks rows h)) = tally_hits (map snd rows)"
proof -
  have "tally_hits (map snd (horizon_blocks rows h)) = sum_list (map (snd \<circ> snd) (agg_days rows))"
    by (auto simp: tally_hits_def horizon_blocks_def sweep_None sweep_totals [unfolded comp_def] comp_def split: list.splits)
  also have "\<dots> = (\<Sum>(d, g)\<leftarrow>group_by fst rows. \<Sum>r\<leftarrow>g. snd (snd r))"
    by (simp add: agg_days_def comp_def case_prod_beta')
  also have "\<dots> = (\<Sum>r\<leftarrow>rows. snd (snd r))" by (rule sum_group)
  finally show ?thesis by (simp add: tally_hits_def comp_def)
qed

lemmas horizon_blocks_totals = horizon_blocks_n horizon_blocks_hits

text \<open>No selection of pairwise non-overlapping call days is longer than the list of blocks.\<close>

lemma sorted_wrt_gap:
  "sorted_wrt (\<lambda>a b. a + w \<le> b) ds \<Longrightarrow> x \<in> set ds \<Longrightarrow> y \<in> set ds \<Longrightarrow> x \<noteq> y \<Longrightarrow>
   x + w \<le> y \<or> y + w \<le> (x::int)"
  by (induction ds) auto

lemma sorted_wrt_gap_distinct: "0 < w \<Longrightarrow> sorted_wrt (\<lambda>a b. a + w \<le> b) ds \<Longrightarrow> distinct (ds :: int list)"
  by (induction ds) force+

lemma horizon_blocks_maximal:
  assumes "set ds \<subseteq> fst ` set rows" and gap: "sorted_wrt (\<lambda>a b. a + hd_width h \<le> b) ds"
  shows "length ds \<le> length (horizon_blocks rows h)"
proof -
  let ?w = "hd_width h" and ?B = "set (horizon_blocks rows h)"
  have "\<forall>d \<in> set ds. \<exists>b \<in> ?B. fst b \<le> d \<and> d < fst b + ?w"
    using horizon_blocks_covers [of _ rows h] assms(1) unfolding cover_of_def by blast
  then obtain f where f: "\<And>d. d \<in> set ds \<Longrightarrow> f d \<in> ?B \<and> fst (f d) \<le> d \<and> d < fst (f d) + ?w"
    by metis
  have "inj_on f (set ds)"
  proof (rule inj_onI)
    fix x y assume xy: "x \<in> set ds" "y \<in> set ds" "f x = f y"
    show "x = y"
    proof (rule ccontr)
      assume "x \<noteq> y"
      with sorted_wrt_gap [OF gap xy(1,2)] f [OF xy(1)] f [OF xy(2)] xy(3) show False by auto
    qed
  qed
  moreover have "f ` set ds \<subseteq> ?B" using f by blast
  ultimately have "card (set ds) \<le> card ?B" by (intro card_inj_on_le) auto
  also have "card ?B \<le> length (horizon_blocks rows h)" by (rule card_length)
  finally show ?thesis
    using distinct_card [OF sorted_wrt_gap_distinct [OF hd_width_pos(1) gap]] by simp
qed

section \<open>What a published interval rests on\<close>

definition rows_ok :: "day_row list \<Rightarrow> bool" where
  "rows_ok rows \<longleftrightarrow> (\<forall>(_, n, h) \<in> set rows. 0 \<le> h \<and> h \<le> of_int n)"

lemma rows_ok_totals: "rows_ok rows \<Longrightarrow> 0 \<le> tally_hits (map snd rows)"
    "rows_ok rows \<Longrightarrow> tally_hits (map snd rows) \<le> of_int (tally_n (map snd rows))"
  by (induction rows) (auto simp: rows_ok_def tally_hits_def tally_n_def)

lemma clustered_ci_Some:
  assumes "g_ci (clustered_ci z days m u me) = Some (lo, hi)"
  obtains deff where "0 < tally_n days" and "m \<le> length (credible_clusters days)"
    and "design_effect days = Some deff"
    and "(lo, hi) = wilson_eff z (tally_hits days / of_int (tally_n days)) (of_int (tally_n days) / deff)"
    and "g_acc (clustered_ci z days m u me) = Some (tally_hits days / of_int (tally_n days))"
    and "g_effective_n (clustered_ci z days m u me) = Some (of_int (tally_n days) / deff)"
  using assms
  by (auto simp: clustered_ci_def Let_def ungraded_ci_def split: if_splits option.splits)

lemma clustered_ci_fields [simp]:
  "g_n (clustered_ci z days m u me) = tally_n days"
  "g_hits (clustered_ci z days m u me) = tally_hits days"
  "g_distinct_days (clustered_ci z days m u me) = int (length days)"
  "g_acc (clustered_ci z days m u me) =
     (if tally_n days = 0 then None else Some (tally_hits days / of_int (tally_n days)))"
  by (simp_all add: clustered_ci_def Let_def ungraded_ci_def split: option.splits)

lemma clustered_ci_credible:
  "0 < tally_n days \<Longrightarrow> g_credible (clustered_ci z days m u me) = Some (length (credible_clusters days))"
  by (simp add: clustered_ci_def Let_def ungraded_ci_def split: option.splits)

lemma clustered_ci_z: "(clustered_ci z days m u me)\<lparr>g_ci := None\<rparr> = (clustered_ci z' days m u me)\<lparr>g_ci := None\<rparr>"
  "g_ci (clustered_ci z days m u me) = None \<longleftrightarrow> g_ci (clustered_ci z' days m u me) = None"
  by (simp_all add: clustered_ci_def Let_def ungraded_ci_def split: option.splits)

lemma clustered_ci_bounds:
  assumes "0 \<le> z" and "0 \<le> tally_hits days" and "tally_hits days \<le> of_int (tally_n days)"
    and "g_ci (clustered_ci z days m u me) = Some (lo, hi)"
    and "g_acc (clustered_ci z days m u me) = Some acc"
  shows "0 \<le> lo \<and> lo \<le> acc \<and> acc \<le> hi \<and> hi \<le> 1"
proof -
  obtain deff where d: "0 < tally_n days" "design_effect days = Some deff"
    "(lo, hi) = wilson_eff z (tally_hits days / of_int (tally_n days)) (of_int (tally_n days) / deff)"
    using assms(4) by (rule clustered_ci_Some)
  have acc: "acc = tally_hits days / of_int (tally_n days)" using assms(5) d(1) by simp
  have p: "0 \<le> acc" "acc \<le> 1" using assms(2,3) d(1) by (auto simp: acc divide_le_eq)
  define e where "e = of_int (tally_n days) / deff"
  have e: "0 < e" using d design_effect_pos [OF d(2)] by (simp add: e_def)
  then have "0 \<le> z * z / e" using assms(1) by simp
  from w_bounds [OF this p] show ?thesis
    using d(3) assms(1) e p by (simp add: acc [symmetric] e_def [symmetric] wilson_eff_closed)
qed

lemma clustered_ci_widens:
  assumes "0 \<le> z" "z \<le> z'" and "0 \<le> tally_hits days" "tally_hits days \<le> of_int (tally_n days)"
    and "g_ci (clustered_ci z days m u me) = Some (lo, hi)"
    and "g_ci (clustered_ci z' days m u me) = Some (lo', hi')"
  shows "lo' \<le> lo \<and> hi \<le> hi'"
proof -
  let ?p = "tally_hits days / of_int (tally_n days)"
  obtain deff where d: "0 < tally_n days" "design_effect days = Some deff"
    "(lo, hi) = wilson_eff z ?p (of_int (tally_n days) / deff)"
    using assms(5) by (rule clustered_ci_Some)
  have d': "(lo', hi') = wilson_eff z' ?p (of_int (tally_n days) / deff)"
    using assms(6) by (rule clustered_ci_Some) (use d(2) in auto)
  define e where "e = of_int (tally_n days) / deff"
  have p: "0 \<le> ?p" "?p \<le> 1" using assms(3,4) d(1) by (auto simp: divide_le_eq)
  have e: "0 < e" using d design_effect_pos [OF d(2)] by (simp add: e_def)
  have c: "0 \<le> z * z / e" "z * z / e \<le> z' * z' / e"
    using scale_mono [OF assms(1,2) e order_refl] assms(1) e by auto
  from w_hi_mono_c [OF c p] w_lo_mono_c [OF c p] show ?thesis
    using d(3) d' assms(1,2) e p by (simp add: e_def [symmetric] wilson_eff_closed)
qed

lemma blocks_fields [simp]:
  "g_n (clustered_ci_blocks z rows h) = tally_n (map snd rows)"
  "g_hits (clustered_ci_blocks z rows h) = tally_hits (map snd rows)"
  "g_acc (clustered_ci_blocks z rows h) =
     (if tally_n (map snd rows) = 0 then None
      else Some (tally_hits (map snd rows) / of_int (tally_n (map snd rows))))"
  "g_ci (clustered_ci_blocks z rows h) = g_ci (clustered_ci z (map snd (horizon_blocks rows h))
      MIN_DISTINCT_BLOCKS ''non-overlapping horizon blocks'' ''block-clustered-wilson'')"
  "g_distinct_blocks (clustered_ci_blocks z rows h) = Some (int (length (horizon_blocks rows h)))"
  "g_distinct_days (clustered_ci_blocks z rows h) = int (length (remdups (map fst rows)))"
  by (simp_all add: clustered_ci_blocks_def Let_def horizon_blocks_totals)

lemma blocks_z:
  "(clustered_ci_blocks z rows h)\<lparr>g_ci := None\<rparr> = (clustered_ci_blocks z' rows h)\<lparr>g_ci := None\<rparr>"
proof -
  let ?c = "\<lambda>z. clustered_ci z (map snd (horizon_blocks rows h)) MIN_DISTINCT_BLOCKS
      ''non-overlapping horizon blocks'' ''block-clustered-wilson''"
  have "(?c z)\<lparr>g_ci := None\<rparr> = (?c z')\<lparr>g_ci := None\<rparr>" by (rule clustered_ci_z)
  then show ?thesis
    by (cases "?c z"; cases "?c z'") (simp add: clustered_ci_blocks_def Let_def)
qed

lemma blocks_credible:
  assumes "g_ci (clustered_ci_blocks z rows h) = Some ci"
  shows "MIN_DISTINCT_BLOCKS \<le> length (credible_clusters (map snd (horizon_blocks rows h)))"
  using assms by (cases ci) (auto elim: clustered_ci_Some)

lemma blocks_priced:
  assumes "g_ci (clustered_ci_blocks z rows h) = Some ci"
  shows "\<exists>a e. g_acc (clustered_ci_blocks z rows h) = Some a
    \<and> g_effective_n (clustered_ci_blocks z rows h) = Some e \<and> ci = wilson_eff z a e"
proof -
  let ?c = "clustered_ci z (map snd (horizon_blocks rows h)) MIN_DISTINCT_BLOCKS
    ''non-overlapping horizon blocks'' ''block-clustered-wilson''"
  have same: "g_acc (clustered_ci_blocks z rows h) = g_acc ?c"
    "g_effective_n (clustered_ci_blocks z rows h) = g_effective_n ?c"
    by (simp_all add: clustered_ci_blocks_def Let_def del: clustered_ci_fields)
  obtain lo hi where "ci = (lo, hi)" by (cases ci)
  with assms have "g_ci ?c = Some (lo, hi)" by simp
  then show ?thesis
    by (elim clustered_ci_Some) (simp only: same, simp add: \<open>ci = (lo, hi)\<close>)
qed

section \<open>The prequential null looks only backwards\<close>

lemma null_days_append:
  "null_days pn pu (xs @ ys) = null_days pn pu xs
     @ null_days (pn + (\<Sum>(_, n, _)\<leftarrow>xs. n)) (pu + (\<Sum>(_, _, u)\<leftarrow>xs. u)) ys"
  by (induction xs arbitrary: pn pu) (auto simp: add.assoc)

lemma null_days_shape: "map (\<lambda>(d, n, _). (d, n)) (null_days pn pu xs) = map (\<lambda>(d, n, _). (d, n)) xs"
  by (induction xs arbitrary: pn pu) auto

lemma null_hits_bounds: "0 \<le> u \<Longrightarrow> u \<le> n \<Longrightarrow> 0 \<le> null_hits pn pu n u \<and> null_hits pn pu n u \<le> of_int n"
  by (simp add: null_hits_def)

lemma null_days_ok: "\<forall>(_, n, u) \<in> set xs. 0 \<le> u \<and> u \<le> n \<Longrightarrow> rows_ok (null_days pn pu xs)"
proof (induction xs arbitrary: pn pu)
  case (Cons x xs)
  obtain d n u where x: "x = (d, n, u)" by (cases x) auto
  have "rows_ok (null_days (pn + n) (pu + u) xs)" using Cons by simp
  then show ?case using Cons.prems null_hits_bounds [of u n pn pu] by (simp add: x rows_ok_def)
qed (simp add: rows_ok_def)

lemma null_days_n: "tally_n (map snd (null_days pn pu xs)) = (\<Sum>(_, n, _)\<leftarrow>xs. n)"
  by (induction xs arbitrary: pn pu) (auto simp: tally_n_def)

section \<open>Properties\<close>

text \<open>
  C13. The horizon blocks are non-overlapping forward windows anchored at call days, they cover
  every call day, and no row or hit is lost or counted twice in the fold.
\<close>

theorem horizon_blocks_partition:
  "sorted_wrt (\<lambda>a b. a + hd_width h \<le> b) (map fst (horizon_blocks rows h))
   \<and> fst ` set (horizon_blocks rows h) \<subseteq> fst ` set rows
   \<and> fst ` set rows \<subseteq> {d. cover_of (hd_width h) (horizon_blocks rows h) d}
   \<and> tally_n (map snd (horizon_blocks rows h)) = tally_n (map snd rows)
   \<and> tally_hits (map snd (horizon_blocks rows h)) = tally_hits (map snd rows)"
  using horizon_blocks_spaced horizon_blocks_anchor [of _ rows h] horizon_blocks_covers [of _ rows h]
    horizon_blocks_totals by blast

text \<open>
  C14. The greedy sweep leaves no evidence out: no set of call days whose forward windows are
  pairwise disjoint is larger than the number of blocks it builds.
\<close>

theorem horizon_blocks_most:
  assumes "set ds \<subseteq> fst ` set rows" and "sorted_wrt (\<lambda>a b. a + hd_width h \<le> b) ds"
  shows "length ds \<le> length (horizon_blocks rows h)"
  by (rule horizon_blocks_maximal [OF assms])

theorem horizon_blocks_most_witness:
  "length [1, 8 :: int] \<le> length (horizon_blocks [(8, 2, 1), (1, 3, 2), (4, 5, 5)] 7)"
  by (rule horizon_blocks_most) (simp_all add: hd_width_def)

text \<open>
  C7. An interval is published only over at least ten credible non-overlapping blocks and a
  positive number of rows, and when the tallies are those of real days it contains the accuracy
  it is published beside.
\<close>

theorem interval_rests_on_blocks:
  assumes "g_ci (clustered_ci_blocks z rows h) = Some (lo, hi)" and "0 \<le> z" and "rows_ok rows"
  shows "MIN_DISTINCT_BLOCKS \<le> length (credible_clusters (map snd (horizon_blocks rows h)))
    \<and> 0 < g_n (clustered_ci_blocks z rows h)
    \<and> (\<exists>acc. g_acc (clustered_ci_blocks z rows h) = Some acc
          \<and> 0 \<le> lo \<and> lo \<le> acc \<and> acc \<le> hi \<and> hi \<le> 1)"
proof -
  let ?days = "map snd (horizon_blocks rows h)"
  have ci: "g_ci (clustered_ci z ?days MIN_DISTINCT_BLOCKS ''non-overlapping horizon blocks''
      ''block-clustered-wilson'') = Some (lo, hi)"
    using assms(1) by simp
  obtain acc where acc: "0 < tally_n ?days" "MIN_DISTINCT_BLOCKS \<le> length (credible_clusters ?days)"
    and a: "g_acc (clustered_ci z ?days MIN_DISTINCT_BLOCKS ''non-overlapping horizon blocks''
      ''block-clustered-wilson'') = Some acc"
    by (rule clustered_ci_Some [OF ci]) simp
  have "0 \<le> tally_hits ?days" "tally_hits ?days \<le> of_int (tally_n ?days)"
    using rows_ok_totals [OF assms(3)] by (simp_all add: horizon_blocks_totals)
  from clustered_ci_bounds [OF assms(2) this ci a] acc a show ?thesis
    by (auto simp: horizon_blocks_totals)
qed

definition ten_days :: "day_row list" where
  "ten_days = map (\<lambda>d. (d, 4, if even d then 3 else 1)) [0..9]"

lemma ten_days_rows: "ten_days =
   [(0, 4, 3), (1, 4, 1), (2, 4, 3), (3, 4, 1), (4, 4, 3), (5, 4, 1), (6, 4, 3), (7, 4, 1),
    (8, 4, 3), (9, 4, 1)]"
  by (simp add: ten_days_def upto_rec1)

lemma ten_days_blocks: "horizon_blocks ten_days 1 = ten_days"
  unfolding ten_days_rows by code_simp

lemma ten_days_interval: "\<exists>ci. g_ci (clustered_ci_blocks 2 ten_days 1) = Some ci"
proof -
  have credible: "credible_clusters (map snd ten_days) = map snd ten_days"
    unfolding ten_days_rows by code_simp
  obtain d where d: "design_effect (map snd ten_days) = Some d"
    using design_effect_defined [of "map snd ten_days"] by (auto simp: ten_days_rows tally_n_def)
  have "g_ci (clustered_ci_blocks 2 ten_days 1) \<noteq> None"
    by (simp add: ten_days_blocks clustered_ci_def credible d Let_def)
      (simp add: ten_days_rows tally_n_def MIN_DISTINCT_BLOCKS_def)
  then show ?thesis by blast
qed

theorem interval_rests_on_blocks_witness:
  "\<exists>lo hi. g_ci (clustered_ci_blocks 2 ten_days 1) = Some (lo, hi) \<and> 0 \<le> lo \<and> lo \<le> 1/2 \<and> 1/2 \<le> hi"
proof -
  obtain lo hi where ci: "g_ci (clustered_ci_blocks 2 ten_days 1) = Some (lo, hi)"
    using ten_days_interval by auto
  have "rows_ok ten_days" by (simp add: rows_ok_def ten_days_rows)
  from interval_rests_on_blocks [OF ci _ this] ci show ?thesis
    by (auto simp: ten_days_rows tally_n_def tally_hits_def)
qed

text \<open>
  The prequential null is walk-forward: what it guesses on the days of a prefix does not
  depend on the days after it, and each guess scores between none and all of the day's rows.
\<close>

theorem null_is_walk_forward:
  "take (length xs) (null_days pn pu (xs @ ys)) = null_days pn pu xs
   \<and> map (\<lambda>(d, n, _). (d, n)) (null_days pn pu xs) = map (\<lambda>(d, n, _). (d, n)) xs"
proof -
  have "length (null_days pn pu xs) = length xs"
    using arg_cong [OF null_days_shape [of pn pu xs], where f = length] by simp
  then show ?thesis by (simp add: null_days_append null_days_shape)
qed

end
