(* ===== verification/Verdicts.thy ===== *)
theory Verdicts
  imports Evidence_Blocks
begin

text \<open>
  The verdict of one registry row: \<open>verdict_for\<close> of \<open>tools/accuracy_registry.py\<close>. Every string
  the source can produce as a verdict is one constructor of \<^term>\<open>verdict\<close>, carrying the numbers
  the string interpolates; \<open>verdict_text\<close> renders it as the published text.
\<close>

section \<open>Definitions\<close>

datatype verdict =
    Insufficient int                \<comment> \<open>n\<close>
  | InsufficientBlocks int          \<comment> \<open>distinct blocks\<close>
  | InsufficientCredible nat int    \<comment> \<open>credible blocks, distinct days\<close>
  | InsufficientDays int            \<comment> \<open>distinct days\<close>
  | NoInterval
  | PartialBaseline real            \<comment> \<open>coverage of the null\<close>
  | Failed
  | Validated
  | NoSkill
  | Decayed real                    \<comment> \<open>claimed accuracy\<close>
  | Holding real
  | Wide real
  | Ungraded
  | NoBaseline
  | Pending int int                 \<comment> \<open>first grading day, resolved rows\<close>
  | Benchmark
  | BenchmarkInsufficient int       \<comment> \<open>n\<close>

definition VERDICT_EPS :: real where "VERDICT_EPS = 1 / 10 ^ 12"

definition verdict_for ::
  "real option \<Rightarrow> real option \<Rightarrow> real option \<Rightarrow> int \<Rightarrow> real option \<Rightarrow> real option \<Rightarrow>
   int option \<Rightarrow> real option \<Rightarrow> int option \<Rightarrow> nat option \<Rightarrow> verdict" where
  "verdict_for acc lo hi n null_acc claimed distinct_days null_coverage distinct_blocks credible_blocks =
     (if n < MIN_INDEPENDENT_N then Insufficient n
      else case (lo, hi) of
        (Some l, Some h) \<Rightarrow>
          (if (case null_coverage of None \<Rightarrow> False | Some c \<Rightarrow> c < 1)
           then PartialBaseline (the null_coverage)
           else case null_acc of
             Some na \<Rightarrow>
               (if h < na - VERDICT_EPS then Failed
                else if l > na + VERDICT_EPS then Validated
                else NoSkill)
           | None \<Rightarrow>
               (case claimed of
                  Some c \<Rightarrow>
                    (if h < c - 0.05 then Decayed c
                     else if l \<ge> c - 0.05 then Holding c
                     else Wide c)
                | None \<Rightarrow> Ungraded))
      | _ \<Rightarrow>
          (case distinct_blocks of
             Some b \<Rightarrow> InsufficientBlocks b
           | None \<Rightarrow>
               (case distinct_days of
                  Some d \<Rightarrow>
                    (case credible_blocks of
                       Some c \<Rightarrow> (if c < MIN_DISTINCT_DAYS then InsufficientCredible c d
                                 else InsufficientDays d)
                     | None \<Rightarrow> InsufficientDays d)
                | None \<Rightarrow> NoInterval)))"

definition str_of_nat :: "nat \<Rightarrow> string" where
  "str_of_nat n = str_int (int n)"

definition no_verdict_tail :: string where
  "no_verdict_tail = '' '' @ em_dash @ '' no interval, so no verdict''"

fun verdict_text :: "verdict \<Rightarrow> string" where
  "verdict_text (Insufficient n) =
     ''INSUFFICIENT ('' @ str_int n @ ''/'' @ str_int MIN_INDEPENDENT_N @ '')''"
| "verdict_text (InsufficientBlocks b) =
     ''INSUFFICIENT BLOCKS ('' @ str_int b @ ''/'' @ str_of_nat MIN_DISTINCT_BLOCKS
       @ '' non-overlapping horizon blocks)'' @ no_verdict_tail"
| "verdict_text (InsufficientCredible c d) =
     ''INSUFFICIENT DAYS ('' @ str_of_nat c @ ''/'' @ str_of_nat MIN_DISTINCT_DAYS
       @ '' credible days of '' @ str_int d
       @ (if d - int c > 0 then '', '' @ str_int (d - int c) @ '' degenerate'' else [])
       @ '')'' @ no_verdict_tail"
| "verdict_text (InsufficientDays d) =
     ''INSUFFICIENT DAYS ('' @ str_int d @ ''/'' @ str_of_nat MIN_DISTINCT_DAYS
       @ '' distinct days)'' @ no_verdict_tail"
| "verdict_text NoInterval = ''NO INTERVAL '' @ em_dash @ '' no verdict''"
| "verdict_text (PartialBaseline c) =
     ''PARTIAL BASELINE ('' @ pct1 c @ '' of graded rows carry a frozen null)''"
| "verdict_text Failed =
     ''FAILED '' @ em_dash @ '' significantly worse than the naive baseline''"
| "verdict_text Validated = ''VALIDATED '' @ em_dash @ '' beats baseline''"
| "verdict_text NoSkill = ''NO SKILL '' @ em_dash @ '' indistinguishable from baseline''"
| "verdict_text (Decayed c) =
     ''DECAYED '' @ em_dash @ '' live materially below the '' @ pct0 c @ '' claim''"
| "verdict_text (Holding c) =
     ''HOLDING '' @ em_dash @ '' live supports the '' @ pct0 c @ '' claim''"
| "verdict_text (Wide c) =
     ''WIDE '' @ em_dash @ '' cannot confirm or reject the '' @ pct0 c @ '' claim yet''"
| "verdict_text Ungraded = ''UNGRADED''"
| "verdict_text NoBaseline =
     ''NO BASELINE '' @ em_dash @ '' naive-persistence null not frozen for these calls''"
| "verdict_text (Pending day resolved) =
     ''PENDING (first grade '' @ iso_date day @ '', '' @ str_int resolved @ ''/''
       @ str_int MIN_INDEPENDENT_N @ '' resolved)''"
| "verdict_text Benchmark =
     ''BENCHMARK '' @ em_dash @ '' the frozen naive-persistence null itself''"
| "verdict_text (BenchmarkInsufficient n) =
     ''BENCHMARK (INSUFFICIENT '' @ str_int n @ ''/'' @ str_int MIN_INDEPENDENT_N @ '')''"

text \<open>\<open>retire\<close> reads the published text: \<open>v.startswith("FAILED")\<close>.\<close>

definition reads_failed :: "verdict \<Rightarrow> bool" where
  "reads_failed v = starts_with ''FAILED'' (verdict_text v)"

section \<open>Reading a verdict back\<close>

lemma reads_failed_iff: "reads_failed v \<longleftrightarrow> v = Failed"
  by (cases v) (simp_all add: reads_failed_def)

lemma verdict_for_Failed:
  "verdict_for acc lo hi n null_acc claimed dd nc db cb = Failed \<longleftrightarrow>
   MIN_INDEPENDENT_N \<le> n \<and> (\<exists>l h na. lo = Some l \<and> hi = Some h \<and> null_acc = Some na
     \<and> h < na - VERDICT_EPS) \<and> (case nc of None \<Rightarrow> True | Some c \<Rightarrow> 1 \<le> c)"
  by (auto simp: verdict_for_def split: option.splits if_splits)

lemma verdict_for_Validated:
  "verdict_for acc lo hi n null_acc claimed dd nc db cb = Validated \<longleftrightarrow>
   MIN_INDEPENDENT_N \<le> n \<and> (\<exists>l h na. lo = Some l \<and> hi = Some h \<and> null_acc = Some na
     \<and> \<not> h < na - VERDICT_EPS \<and> na + VERDICT_EPS < l) \<and> (case nc of None \<Rightarrow> True | Some c \<Rightarrow> 1 \<le> c)"
  by (auto simp: verdict_for_def split: option.splits if_splits)

lemma verdict_eps_pos: "0 < VERDICT_EPS"
  by (simp add: VERDICT_EPS_def)

text \<open>A wider interval never turns a row into a decided one.\<close>

lemma verdict_for_wider:
  assumes "lo' \<le> lo" and "hi \<le> hi'" and "lo \<le> hi"
  shows "verdict_for acc (Some lo') (Some hi') n na c dd nc db cb = Failed \<Longrightarrow>
         verdict_for acc (Some lo) (Some hi) n na c dd nc db cb = Failed"
    and "verdict_for acc (Some lo') (Some hi') n na c dd nc db cb = Validated \<Longrightarrow>
         verdict_for acc (Some lo) (Some hi) n na c dd nc db cb = Validated"
    and "verdict_for acc (Some lo') (Some hi') n na (Some k) dd nc db cb = Holding k \<Longrightarrow>
         verdict_for acc (Some lo) (Some hi) n na (Some k) dd nc db cb = Holding k"
    and "verdict_for acc (Some lo') (Some hi') n na (Some k) dd nc db cb = Decayed k \<Longrightarrow>
         verdict_for acc (Some lo) (Some hi) n na (Some k) dd nc db cb = Decayed k"
proof -
  show "verdict_for acc (Some lo) (Some hi) n na c dd nc db cb = Failed"
    if "verdict_for acc (Some lo') (Some hi') n na c dd nc db cb = Failed"
    using that assms by (auto simp: verdict_for_Failed)
  show "verdict_for acc (Some lo) (Some hi) n na c dd nc db cb = Validated"
    if "verdict_for acc (Some lo') (Some hi') n na c dd nc db cb = Validated"
    using that assms verdict_eps_pos by (auto simp: verdict_for_Validated)
  show "verdict_for acc (Some lo) (Some hi) n na (Some k) dd nc db cb = Holding k"
    if "verdict_for acc (Some lo') (Some hi') n na (Some k) dd nc db cb = Holding k"
    using that assms by (auto simp: verdict_for_def split: option.splits if_splits)
  show "verdict_for acc (Some lo) (Some hi) n na (Some k) dd nc db cb = Decayed k"
    if "verdict_for acc (Some lo') (Some hi') n na (Some k) dd nc db cb = Decayed k"
    using that assms by (auto simp: verdict_for_def split: option.splits if_splits)
qed

section \<open>Properties\<close>

text \<open>
  A row reads FAILED exactly when it has the observations, a fully matched null, an interval,
  and the whole interval lies below the null by more than the float guard; it reads VALIDATED
  exactly when the whole interval lies above it. No other input can produce either verdict.
\<close>

theorem decided_iff:
  "(verdict_for acc lo hi n null_acc claimed dd nc db cb = Failed \<longleftrightarrow>
      MIN_INDEPENDENT_N \<le> n \<and> (\<exists>l h na. lo = Some l \<and> hi = Some h \<and> null_acc = Some na
        \<and> h < na - VERDICT_EPS) \<and> (case nc of None \<Rightarrow> True | Some c \<Rightarrow> 1 \<le> c))
   \<and> (verdict_for acc lo hi n null_acc claimed dd nc db cb = Validated \<longleftrightarrow>
      MIN_INDEPENDENT_N \<le> n \<and> (\<exists>l h na. lo = Some l \<and> hi = Some h \<and> null_acc = Some na
        \<and> \<not> h < na - VERDICT_EPS \<and> na + VERDICT_EPS < l) \<and> (case nc of None \<Rightarrow> True | Some c \<Rightarrow> 1 \<le> c))"
  using verdict_for_Failed verdict_for_Validated by simp

text \<open>
  Widening an interval never turns an undecided row into a decided one: a verdict FAILED,
  VALIDATED, HOLDING or DECAYED read off the wider interval is already the verdict of the
  narrower one.
\<close>

theorem widening_decides_nothing:
  assumes "lo' \<le> lo" and "hi \<le> hi'" and "lo \<le> hi"
    and "v \<in> {Failed, Validated} \<union> (case c of None \<Rightarrow> {} | Some k \<Rightarrow> {Holding k, Decayed k})"
    and "verdict_for acc (Some lo') (Some hi') n na c dd nc db cb = v"
  shows "verdict_for acc (Some lo) (Some hi) n na c dd nc db cb = v"
  using assms(4,5) verdict_for_wider [OF assms(1-3)] by (auto split: option.splits)

theorem widening_decides_nothing_witness:
  "verdict_for None (Some (3/10)) (Some (4/10)) 40 (Some (6/10)) None None None None None = Failed"
  by (rule widening_decides_nothing [of "2/10" _ _ "5/10" _ None])
    (simp_all add: verdict_for_def MIN_INDEPENDENT_N_def VERDICT_EPS_def)

end
