(* ===== verification/Registry_Rows.thy ===== *)
theory Registry_Rows
  imports Verdicts Py_Json
begin

text \<open>
  The rows of the published registry (the dicts \<open>grade_directional_days\<close> and
  \<open>grade_structural_days\<close> append in \<open>tools/accuracy_registry.py\<close>). A key that a kind of row
  does not have is \<^term>\<open>None\<close>; popping a key sets it to \<^term>\<open>None\<close>.

  The locale \<open>withholding_gate\<close> is the contract of every post-grading gate of the grader: a gate
  may take verdicts away and must leave every number as it was.
\<close>

section \<open>The row\<close>

record breadth =
  br_agreement :: real
  br_days :: nat
  br_correct :: int
  br_accuracy :: real
  br_ci :: "real \<times> real"

record claim_part =
  cl_claimed :: "real option"
  cl_source :: "string option"
  cl_spec_hash :: "string option"
  cl_registered_ts :: "int option"
  cl_db_avg :: "real option"

record evidence_part =
  ev_ci_method :: "string option"
  ev_distinct_days :: "int option"
  ev_distinct_blocks :: "int option"
  ev_block_span :: "int option"
  ev_horizon_days :: "int option"
  ev_design_effect :: "real option"
  ev_effective_n :: "real option"

record null_part =
  nl_prequential :: "real option"
  nl_acc :: "real option"
  nl_method :: "string option"
  nl_n :: "int option"
  nl_coverage :: "real option"
  nl_ci :: "(real \<times> real) option"

datatype unmeasured =
    FromSnapshot
  | NoListing
  | NoGradedSymbols
  | Shortfall int int int int      \<comment> \<open>resolvable, graded, inactive undated, unknown\<close>
  | NoBars
  | NoSettlement
  | NoDqTable

record surv_stamp =
  ss_clean :: bool
  ss_reason :: "unmeasured option"
  ss_coverage :: "real option"

record settle_stamp =
  st_filtered :: bool
  st_excluded :: "int option"
  st_reason :: "unmeasured option"

record price =
  px_family_size :: int
  px_looks :: int
  px_divisor :: int
  px_corrected_alpha :: real
  px_z :: real

record grade_row =
  r_predictor :: string
  r_family :: string
  r_band :: string
  r_claim :: claim_part
  r_n :: int
  r_acc :: "real option"
  r_ci :: "(real \<times> real) option"
  r_evidence :: evidence_part
  r_null :: null_part
  r_skill :: "real option"
  r_verdict :: "verdict option"
  r_claim_verdict :: "verdict option"
  r_retire :: "bool option"
  r_breadth :: "breadth option"
  r_recorded :: "int option"
  r_surv :: surv_stamp
  r_settle :: "settle_stamp option"
  r_revision_gate :: "string list option"
  r_null_gate :: bool
  r_price :: "price option"

definition no_claim :: claim_part where
  "no_claim = \<lparr>cl_claimed = None, cl_source = None, cl_spec_hash = None,
     cl_registered_ts = None, cl_db_avg = None\<rparr>"

text \<open>
  The intervals of a row are those of the quantile \<open>z\<close>: Wilson's formula at the accuracy and the
  effective sample the row itself publishes, and at the accuracy over days of its breadth.
\<close>

definition priced_at :: "real \<Rightarrow> grade_row \<Rightarrow> bool" where
  "priced_at z r \<longleftrightarrow>
     (\<forall>ci. r_ci r = Some ci \<longrightarrow>
        (\<exists>a e. r_acc r = Some a \<and> ev_effective_n (r_evidence r) = Some e \<and> ci = wilson_eff z a e))
     \<and> (\<forall>b. r_breadth r = Some b \<longrightarrow> br_ci b = wilson_eff z (br_accuracy b) (of_nat (br_days b)))"

section \<open>The contract of a gate\<close>

definition bare :: "grade_row \<Rightarrow> grade_row" where
  "bare r = r\<lparr>r_verdict := None, r_claim_verdict := None, r_retire := None,
     r_revision_gate := None, r_null_gate := False\<rparr>"

definition withholds :: "grade_row \<Rightarrow> grade_row \<Rightarrow> bool" where
  "withholds r r' \<longleftrightarrow> bare r' = bare r
     \<and> r_verdict r' \<in> {r_verdict r, None}
     \<and> r_claim_verdict r' \<in> {r_claim_verdict r, None}
     \<and> r_retire r' \<in> {r_retire r, None}"

lemma withholds_refl [simp]: "withholds r r"
  by (simp add: withholds_def)

lemma withholds_trans: "withholds r s \<Longrightarrow> withholds s t \<Longrightarrow> withholds r t"
  by (auto simp: withholds_def)

lemma withholds_priced: "withholds r r' \<Longrightarrow> priced_at z r' = priced_at z r"
proof -
  assume "withholds r r'"
  then have b: "bare r' = bare r" by (simp add: withholds_def)
  have "priced_at z s = priced_at z (bare s)" for s by (simp add: priced_at_def bare_def)
  then show ?thesis using b by metis
qed

lemma list_withholds_refl [simp]: "list_all2 withholds rs rs"
  by (simp add: list.rel_refl)

lemma list_withholds_trans:
  "list_all2 withholds rs ss \<Longrightarrow> list_all2 withholds ss ts \<Longrightarrow> list_all2 withholds rs ts"
  by (rule list_all2_trans [of withholds withholds withholds]) (auto intro: withholds_trans)

lemma list_withholds_map:
  "(\<And>r. r \<in> set rs \<Longrightarrow> withholds r (f r)) \<Longrightarrow> list_all2 withholds rs (map f rs)"
  by (induction rs) auto

locale withholding_gate =
  fixes gate :: "grade_row list \<Rightarrow> grade_row list"
  assumes gate_withholds: "list_all2 withholds rows (gate rows)"
begin

lemma gate_length: "length (gate rows) = length rows"
  using gate_withholds [of rows] by (simp add: list_all2_lengthD)

lemma gate_from:
  assumes "r' \<in> set (gate rows)"
  obtains r where "r \<in> set rows" and "withholds r r'"
  using assms gate_withholds [of rows] by (metis in_set_conv_nth list_all2_conv_all_nth)

lemma gate_no_new_verdict:
  "r' \<in> set (gate rows) \<Longrightarrow> r_verdict r' = Some v \<Longrightarrow>
   \<exists>r \<in> set rows. r_verdict r = Some v \<and> bare r' = bare r"
  by (erule gate_from) (auto simp: withholds_def)

lemma gate_no_new_retire:
  "r' \<in> set (gate rows) \<Longrightarrow> r_retire r' = Some True \<Longrightarrow>
   \<exists>r \<in> set rows. r_retire r = Some True \<and> bare r' = bare r"
  by (erule gate_from) (auto simp: withholds_def)

lemma gate_bare: "map bare (gate rows) = map bare rows"
  using gate_withholds [of rows]
  by (auto simp: list_eq_iff_nth_eq list_all2_conv_all_nth withholds_def)

lemma gate_predictors: "map r_predictor (gate rows) = map r_predictor rows"
proof -
  have "map r_predictor rs = map r_predictor (map bare rs)" for rs
    by (simp add: bare_def)
  then show ?thesis by (metis gate_bare)
qed

end

lemma withholding_gate_comp:
  "withholding_gate f \<Longrightarrow> withholding_gate g \<Longrightarrow> withholding_gate (\<lambda>rows. g (f rows))"
  unfolding withholding_gate_def by (blast intro: list_withholds_trans)

end
