(* ===== verification/Population.thy ===== *)
theory Population
  imports Day_Fold Registry_Rows
begin

text \<open>
  The graded population of the directional predictors (\<open>tools/accuracy_registry.py\<close>): which
  resolved rows of \<open>prediction_outcomes\<close> count, after the settlement quarantine and the
  stale-feed quarantine, and the collapse to one row per symbol, horizon and day that every
  statement of the grader shares. The SQL statements are read as list functions: a fragment that
  may be the empty string is an optional predicate, \<open>ROW_NUMBER() \<dots> = 1\<close> is
  \<^const>\<open>row_number_1\<close> and \<open>GROUP BY\<close> with \<open>ORDER BY\<close> is \<^const>\<open>group_by\<close>.
\<close>

section \<open>Settlement\<close>

definition CLOSE_SECS_STOCKS :: int where "CLOSE_SECS_STOCKS = 16 * 3600"
definition CLOSE_SECS_CRYPTO :: int where "CLOSE_SECS_CRYPTO = 24 * 3600"
definition DST_STAMP_SLACK_SECS :: int where "DST_STAMP_SLACK_SECS = 6 * 3600"

definition horizon_secs :: "string \<Rightarrow> int" where
  "horizon_secs h = (if like_prefix ''1w'' h then 604800 else 86400)"

definition base_ts :: "bar_row list \<Rightarrow> outcome_row \<Rightarrow> int option" where
  "base_ts bars r =
     max_opt (map bar_ts (filter (\<lambda>b. bar_symbol b = po_symbol r \<and> bar_tf b = ''1d''
       \<and> bar_ts b \<le> po_ts r) bars))"

definition fwd_ts :: "bar_row list \<Rightarrow> outcome_row \<Rightarrow> int option" where
  "fwd_ts bars r =
     (case base_ts bars r of
        None \<Rightarrow> None
      | Some base \<Rightarrow>
          min_opt (map bar_ts (filter (\<lambda>f. bar_symbol f = po_symbol r \<and> bar_tf f = ''1d''
            \<and> base + horizon_secs (po_horizon r) - DST_STAMP_SLACK_SECS \<le> bar_ts f) bars)))"

definition close_offset :: "symbol_row list \<Rightarrow> outcome_row \<Rightarrow> int" where
  "close_offset syms r =
     (case find (\<lambda>s. sy_id s = po_symbol r) syms of
        Some s \<Rightarrow> (if sy_market s = ''crypto'' then CLOSE_SECS_CRYPTO else CLOSE_SECS_STOCKS)
      | None \<Rightarrow> CLOSE_SECS_STOCKS)"

definition settlement_at :: "bar_row list \<Rightarrow> symbol_row list \<Rightarrow> outcome_row \<Rightarrow> int option" where
  "settlement_at bars syms r =
     (case (base_ts bars r, fwd_ts bars r) of
        (Some base, Some fwd) \<Rightarrow>
          (if fwd - (base + horizon_secs (po_horizon r)) > 3 * horizon_secs (po_horizon r) then None
           else Some (fwd + close_offset syms r))
      | _ \<Rightarrow> None)"

definition settled :: "bar_row list \<Rightarrow> symbol_row list \<Rightarrow> outcome_row \<Rightarrow> bool" where
  "settled bars syms r =
     (case (po_resolved r, settlement_at bars syms r) of
        (Some resolved, Some final) \<Rightarrow> final \<le> resolved
      | _ \<Rightarrow> False)"

type_synonym fragment = "(outcome_row \<Rightarrow> bool) option"

definition admits :: "fragment \<Rightarrow> outcome_row \<Rightarrow> bool" where
  "admits c r = (case c of None \<Rightarrow> True | Some p \<Rightarrow> p r)"

definition settlement_clause :: "database \<Rightarrow> fragment" where
  "settlement_clause con =
     (case (db_bars con, db_symbols con) of
        (Some bars, Some syms) \<Rightarrow> Some (settled bars syms)
      | _ \<Rightarrow> None)"

section \<open>Stale feeds\<close>

definition stale_feed :: "dq_row list \<Rightarrow> (int \<times> int) list" where
  "stale_feed dq =
     List.map_filter (\<lambda>q. if dq_kind q = ''stale''
        then map_option (\<lambda>s. (s, day_index (dq_ts q))) (dq_symbol q) else None) dq"

definition on_stale_day :: "dq_row list \<Rightarrow> outcome_row \<Rightarrow> bool" where
  "on_stale_day dq r \<longleftrightarrow> (po_symbol r, day_index (po_ts r)) \<in> set (stale_feed dq)"

definition stale_feed_sql :: "database \<Rightarrow> fragment" where
  "stale_feed_sql con =
     (case db_dq con of None \<Rightarrow> None | Some dq \<Rightarrow> Some (\<lambda>r. \<not> on_stale_day dq r))"

section \<open>The candidates and the collapse\<close>

definition resolved_in_window :: "outcome_row \<Rightarrow> bool" where
  "resolved_in_window r \<longleftrightarrow> po_resolved r \<noteq> None \<and> po_up r \<noteq> None \<and> po_prob r \<noteq> None
     \<and> GRADING_EPOCH_TS \<le> po_ts r"

definition candidates :: "database \<Rightarrow> outcome_row list" where
  "candidates con = filter (\<lambda>r. resolved_in_window r \<and> admits (settlement_clause con) r
     \<and> admits (stale_feed_sql con) r) (db_outcomes con)"

definition evidence_key :: "database \<Rightarrow> outcome_row \<Rightarrow> int \<times> string \<times> int" where
  "evidence_key con r = (po_symbol r, po_horizon r, row_day con r)"

definition dedup :: "database \<Rightarrow> outcome_row list" where
  "dedup con = row_number_1 (evidence_key con) po_ts (candidates con)"

section \<open>Per-day tallies\<close>

record day_tally =
  dt_day :: int
  dt_n :: int
  dt_hits :: int
  dt_ups :: int
  dt_hc_n :: int
  dt_hc_hits :: int
  dt_hc_ups :: int
  dt_pred_ups :: "int option"
  dt_hc_pred_ups :: "int option"

definition calls_up :: "outcome_row \<Rightarrow> bool" where
  "calls_up r = (case po_prob r of Some p \<Rightarrow> 0.5 \<le> p | None \<Rightarrow> False)"

definition went_up :: "outcome_row \<Rightarrow> bool" where
  "went_up r \<longleftrightarrow> po_up r = Some 1"

definition high_conviction :: "outcome_row \<Rightarrow> bool" where
  "high_conviction r = (case po_prob r of Some p \<Rightarrow> 0.15 \<le> \<bar>p - 0.5\<bar> | None \<Rightarrow> False)"

definition tally_of :: "int \<Rightarrow> outcome_row list \<Rightarrow> day_tally" where
  "tally_of day g =
     \<lparr>dt_day = day,
      dt_n = int (length g),
      dt_hits = count_if (\<lambda>r. calls_up r = went_up r) g,
      dt_ups = count_if went_up g,
      dt_hc_n = count_if high_conviction g,
      dt_hc_hits = count_if (\<lambda>r. high_conviction r \<and> calls_up r = went_up r) g,
      dt_hc_ups = count_if (\<lambda>r. high_conviction r \<and> went_up r) g,
      dt_pred_ups = Some (count_if calls_up g),
      dt_hc_pred_ups = Some (count_if (\<lambda>r. high_conviction r \<and> calls_up r) g)\<rparr>"

definition fetch_directional_days :: "database \<Rightarrow> (string \<times> day_tally list) list" where
  "fetch_directional_days con =
     map (\<lambda>(h, g). (h, map (\<lambda>(d, g'). tally_of d g') (group_by (row_day con) g)))
       (group_by po_horizon (dedup con))"

section \<open>Reliability bins\<close>

definition BENCHMARK_SUFFIX :: string where "BENCHMARK_SUFFIX = ''#pm''"
definition PERSISTENCE_SUFFIX :: string where "PERSISTENCE_SUFFIX = ''#persist''"
definition CALIBRATION_BINS :: int where "CALIBRATION_BINS = 10"

record calibration_bin =
  cb_lo :: real
  cb_hi :: real
  cb_mean :: real
  cb_realized :: real
  cb_n :: int
  cb_days :: int

definition prob_of :: "outcome_row \<Rightarrow> real" where
  "prob_of r = (case po_prob r of Some p \<Rightarrow> p | None \<Rightarrow> 0)"

definition bin_of :: "outcome_row \<Rightarrow> int" where
  "bin_of r = trunc (min (prob_of r * of_int CALIBRATION_BINS) (of_int (CALIBRATION_BINS - 1)))"

definition bin_row :: "database \<Rightarrow> int \<Rightarrow> outcome_row list \<Rightarrow> calibration_bin" where
  "bin_row con b g =
     \<lparr>cb_lo = of_int b / of_int CALIBRATION_BINS,
      cb_hi = (of_int b + 1) / of_int CALIBRATION_BINS,
      cb_mean = sum_list (map prob_of g) / of_nat (length g),
      cb_realized = of_int (count_if went_up g) / of_nat (length g),
      cb_n = int (length g),
      cb_days = int (length (remdups (map (row_day con) g)))\<rparr>"

definition fetch_calibration_bins :: "database \<Rightarrow> (string \<times> calibration_bin list) list" where
  "fetch_calibration_bins con =
     map (\<lambda>(h, g). (h, map (\<lambda>(b, g'). bin_row con b g') (group_by bin_of g)))
       (filter (\<lambda>(h, g). \<not> ends_with BENCHMARK_SUFFIX h) (group_by po_horizon (dedup con)))"

end
