(* ===== verification/Measures.thy ===== *)
theory Measures
  imports Population
begin

text \<open>
  The measured exclusions the grader publishes beside every grade
  (\<open>tools/accuracy_registry.py\<close>): how complete the listing status of the graded symbols is, what
  the settlement quarantine, the stale-feed quarantine and the thin-day floor remove, and the
  fields of a row that carry the first two. A dict with an \<open>applied: False\<close> answer is a value of
  its own with the reason; the texts of the reasons are the constructors of \<^typ>\<open>unmeasured\<close>.
\<close>

section \<open>Listing status\<close>

record completeness =
  mc_clean :: bool
  mc_counts :: "(int \<times> int \<times> int \<times> int) option"  \<comment> \<open>graded, resolvable, undated, unknown\<close>
  mc_coverage :: "real option"
  mc_reason :: "unmeasured option"

definition graded_symbols :: "database \<Rightarrow> string \<Rightarrow> int list option" where
  "graded_symbols con table =
     (if table = ''regime_outcomes''
      then map_option (\<lambda>rows. remdups (map ro_symbol (filter (\<lambda>r. ro_resolved r \<noteq> None
             \<and> population_epoch_ts table \<le> ro_ts r) rows))) (db_regime con)
      else Some (remdups (map po_symbol (filter (\<lambda>r. po_resolved r \<noteq> None
             \<and> population_epoch_ts table \<le> po_ts r) (db_outcomes con)))))"

definition symbol_unknown :: "symbol_row list \<Rightarrow> int \<Rightarrow> bool" where
  "symbol_unknown syms i \<longleftrightarrow> find (\<lambda>s. sy_id s = i) syms = None"

definition symbol_undated :: "symbol_row list \<Rightarrow> int \<Rightarrow> bool" where
  "symbol_undated syms i \<longleftrightarrow>
     (case find (\<lambda>s. sy_id s = i) syms of
        None \<Rightarrow> False
      | Some s \<Rightarrow> sy_delisted s = None \<and> sy_active s = 0)"

definition unmeasured_completeness :: "unmeasured \<Rightarrow> completeness" where
  "unmeasured_completeness why =
     \<lparr>mc_clean = False, mc_counts = None, mc_coverage = None, mc_reason = Some why\<rparr>"

definition measured_completeness :: "int \<Rightarrow> int \<Rightarrow> int \<Rightarrow> completeness" where
  "measured_completeness n unknown undated =
     (let resolvable = n - unknown - undated;
          clean = (resolvable = n)
      in \<lparr>mc_clean = clean,
          mc_counts = Some (n, resolvable, undated, unknown),
          mc_coverage = Some (of_int resolvable / of_int n),
          mc_reason = (if clean then None else Some (Shortfall resolvable n undated unknown))\<rparr>)"

definition measure_universe_completeness :: "database option \<Rightarrow> string \<Rightarrow> completeness" where
  "measure_universe_completeness src table =
     (case src of
        None \<Rightarrow> unmeasured_completeness FromSnapshot
      | Some con \<Rightarrow>
          (case (graded_symbols con table, db_symbols con) of
             (Some ids, Some syms) \<Rightarrow>
               (if ids = [] then unmeasured_completeness NoGradedSymbols
                else measured_completeness (int (length ids)) (count_if (symbol_unknown syms) ids)
                       (count_if (symbol_undated syms) ids))
           | _ \<Rightarrow> unmeasured_completeness NoListing))"

definition survivorship_stamp :: "completeness option \<Rightarrow> surv_stamp" where
  "survivorship_stamp surv =
     (let s = (case surv of None \<Rightarrow> measure_universe_completeness None [] | Some s \<Rightarrow> s)
      in if mc_clean s then \<lparr>ss_clean = True, ss_reason = None, ss_coverage = None\<rparr>
         else \<lparr>ss_clean = False, ss_reason = mc_reason s, ss_coverage = mc_coverage s\<rparr>)"

section \<open>The settlement quarantine\<close>

record quarantine_count =
  qh_considered :: int
  qh_unsettled :: int
  qh_unverifiable :: int
  qh_excluded :: int
  qh_before :: int
  qh_after :: int

record quarantine_census =
  qc_considered :: int
  qc_excluded :: int
  qc_unsettled :: int
  qc_unverifiable :: int
  qc_fraction :: "real option"
  qc_before :: int
  qc_after :: int
  qc_dropped :: int
  qc_by_horizon :: "(string \<times> quarantine_count) list"

definition window_rows :: "database \<Rightarrow> outcome_row list" where
  "window_rows con = filter resolved_in_window (db_outcomes con)"

definition unsettled :: "bar_row list \<Rightarrow> symbol_row list \<Rightarrow> outcome_row \<Rightarrow> bool" where
  "unsettled bars syms r =
     (case (po_resolved r, settlement_at bars syms r) of
        (Some resolved, Some final) \<Rightarrow> resolved < final
      | _ \<Rightarrow> False)"

definition unverifiable :: "bar_row list \<Rightarrow> symbol_row list \<Rightarrow> outcome_row \<Rightarrow> bool" where
  "unverifiable bars syms r \<longleftrightarrow> settlement_at bars syms r = None"

text \<open>\<open>COUNT(DISTINCT symbol_id || ':' || settle_day(\<dots>))\<close>, over the rows of one horizon.\<close>

definition distinct_keys :: "database \<Rightarrow> outcome_row list \<Rightarrow> int" where
  "distinct_keys con g = int (length (remdups (map (\<lambda>r. (po_symbol r, row_day con r)) g)))"

definition quarantine_horizon ::
    "database \<Rightarrow> bar_row list \<Rightarrow> symbol_row list \<Rightarrow> outcome_row list \<Rightarrow> quarantine_count" where
  "quarantine_horizon con bars syms g =
     (let u = count_if (unsettled bars syms) g; v = count_if (unverifiable bars syms) g
      in \<lparr>qh_considered = int (length g), qh_unsettled = u, qh_unverifiable = v,
          qh_excluded = u + v,
          qh_before = distinct_keys con g,
          qh_after = distinct_keys con (filter (settled bars syms) g)\<rparr>)"

definition quarantine_totals :: "(string \<times> quarantine_count) list \<Rightarrow> quarantine_census" where
  "quarantine_totals by_h =
     (let total = (\<Sum>(_, q)\<leftarrow>by_h. qh_considered q);
          excluded = (\<Sum>(_, q)\<leftarrow>by_h. qh_excluded q);
          gb = (\<Sum>(_, q)\<leftarrow>by_h. qh_before q);
          ga = (\<Sum>(_, q)\<leftarrow>by_h. qh_after q)
      in \<lparr>qc_considered = total, qc_excluded = excluded,
          qc_unsettled = (\<Sum>(_, q)\<leftarrow>by_h. qh_unsettled q),
          qc_unverifiable = (\<Sum>(_, q)\<leftarrow>by_h. qh_unverifiable q),
          qc_fraction = (if total = 0 then None else Some (of_int excluded / of_int total)),
          qc_before = gb, qc_after = ga, qc_dropped = gb - ga, qc_by_horizon = by_h\<rparr>)"

definition measure_settlement_quarantine :: "database option \<Rightarrow> quarantine_census option" where
  "measure_settlement_quarantine src =
     (case src of
        None \<Rightarrow> None
      | Some con \<Rightarrow>
          (case (settlement_clause con, db_bars con, db_symbols con) of
             (Some _, Some bars, Some syms) \<Rightarrow>
               Some (quarantine_totals (map (\<lambda>(h, g). (h, quarantine_horizon con bars syms g))
                       (group_by po_horizon (window_rows con))))
           | _ \<Rightarrow> None))"

definition settlement_stamp :: "quarantine_census option \<Rightarrow> settle_stamp" where
  "settlement_stamp quar =
     (case quar of
        Some q \<Rightarrow> \<lparr>st_filtered = True, st_excluded = Some (qc_excluded q), st_reason = None\<rparr>
      | None \<Rightarrow> \<lparr>st_filtered = False, st_excluded = None, st_reason = Some NoBars\<rparr>)"

section \<open>The thin-day floor and the stale-feed quarantine\<close>

record thin_count =
  th_days_dropped :: int
  th_days_kept :: int
  th_rows_dropped :: int
  th_rows_considered :: int

definition day_sizes :: "database \<Rightarrow> outcome_row list \<Rightarrow> int list" where
  "day_sizes con g = map (\<lambda>(_, g'). int (length g')) (group_by (row_day con) g)"

definition thin_horizon :: "int list \<Rightarrow> thin_count" where
  "thin_horizon ns =
     \<lparr>th_days_dropped = count_if (\<lambda>n. n < MIN_DAY_OBSERVATIONS) ns,
      th_days_kept = count_if (\<lambda>n. MIN_DAY_OBSERVATIONS \<le> n) ns,
      th_rows_dropped = sum_list (filter (\<lambda>n. n < MIN_DAY_OBSERVATIONS) ns),
      th_rows_considered = sum_list ns\<rparr>"

definition measure_thin_day_exclusion :: "database option \<Rightarrow> (string \<times> thin_count) list option" where
  "measure_thin_day_exclusion src =
     map_option (\<lambda>con. map (\<lambda>(h, g). (h, thin_horizon (day_sizes con g)))
       (group_by po_horizon (dedup con))) src"

record stale_count =
  sx_rows :: int
  sx_symbols :: int
  sx_days :: int

definition stale_keys :: "database \<Rightarrow> dq_row list \<Rightarrow> (int \<times> string \<times> int) list" where
  "stale_keys con dq =
     remdups (map (\<lambda>r. (po_symbol r, po_horizon r, day_index (po_ts r)))
       (filter (\<lambda>r. admits (settlement_clause con) r \<and> on_stale_day dq r) (window_rows con)))"

definition measure_stale_feed_exclusion :: "database option \<Rightarrow> unmeasured + stale_count" where
  "measure_stale_feed_exclusion src =
     (case src of
        None \<Rightarrow> Inl FromSnapshot
      | Some con \<Rightarrow>
          (case db_dq con of
             None \<Rightarrow> Inl NoDqTable
           | Some dq \<Rightarrow>
               (let ks = stale_keys con dq
                in Inr \<lparr>sx_rows = int (length ks),
                        sx_symbols = int (length (remdups (map fst ks))),
                        sx_days = int (length (remdups (map (snd \<circ> snd) ks)))\<rparr>)))"

section \<open>Completeness is claimed only when every listing status is known\<close>

definition listing_resolvable :: "symbol_row list \<Rightarrow> int \<Rightarrow> bool" where
  "listing_resolvable syms i \<longleftrightarrow>
     (\<exists>s. find (\<lambda>s. sy_id s = i) syms = Some s \<and> (sy_delisted s \<noteq> None \<or> sy_active s \<noteq> 0))"

lemma listing_split: "listing_resolvable syms i \<longleftrightarrow> \<not> symbol_unknown syms i \<and> \<not> symbol_undated syms i"
  by (auto simp: listing_resolvable_def symbol_unknown_def symbol_undated_def split: option.splits)

lemma count_if_0: "count_if P xs = 0 \<longleftrightarrow> (\<forall>x \<in> set xs. \<not> P x)"
  by (simp add: count_if_def filter_empty_conv)

lemma completeness_shortfall_disjoint:
  "count_if (symbol_unknown syms) ids + count_if (symbol_undated syms) ids
     + count_if (listing_resolvable syms) ids = int (length ids)"
  by (induction ids)
    (auto simp: listing_resolvable_def symbol_unknown_def symbol_undated_def split: option.splits)

lemma measured_clean:
  "mc_clean (measured_completeness n u v) \<longleftrightarrow> u + v = 0"
  by (auto simp: measured_completeness_def Let_def)

lemma survivorship_stamp_reason: "\<not> mc_clean s \<Longrightarrow> mc_reason s \<noteq> None \<Longrightarrow>
    ss_reason (survivorship_stamp (Some s)) \<noteq> None"
  by (simp add: survivorship_stamp_def)

lemma completeness_reason: "mc_clean (measure_universe_completeness src t) \<longleftrightarrow>
    mc_reason (measure_universe_completeness src t) = None"
  by (auto simp: measure_universe_completeness_def unmeasured_completeness_def
      measured_completeness_def Let_def split: option.splits)

section \<open>Every considered row is settled, unsettled or unverifiable\<close>

lemma settle_cases:
  "resolved_in_window r \<Longrightarrow>
   (if settled bars syms r then 1 else 0) + (if unsettled bars syms r then 1 else 0)
     + (if unverifiable bars syms r then 1 else 0) = (1::int)"
  by (auto simp: settled_def unsettled_def unverifiable_def resolved_in_window_def split: option.splits)

lemma settle_count:
  "\<forall>r \<in> set g. resolved_in_window r \<Longrightarrow>
   count_if (settled bars syms) g + count_if (unsettled bars syms) g
     + count_if (unverifiable bars syms) g = int (length g)"
proof (induction g)
  case (Cons r g)
  then show ?case using settle_cases [of r bars syms] by simp
qed simp

lemma count_if_sum: "count_if P xs = (\<Sum>x\<leftarrow>xs. if P x then 1 else 0)"
  by (induction xs) auto

lemma sum_group_count: "(\<Sum>(k, g)\<leftarrow>group_by f xs. count_if P g) = count_if P xs"
  using sum_group [of "\<lambda>x. if P x then 1 else (0::int)" f xs] by (simp add: count_if_sum)

lemma sum_group_int: "(\<Sum>(k, g)\<leftarrow>group_by f xs. int (length g)) = int (length xs)"
  using sum_group [of "\<lambda>_. 1 :: int" f xs] by (simp add: sum_list_triv)

text \<open>Summed over the horizons, the distinct keys of a horizon are the distinct evidence keys.\<close>

lemma length_remdups_card: "length (remdups xs) = card (set xs)"
  by (simp add: length_remdups_card_conv)

lemma sum_group_keys:
  fixes f :: "'a \<Rightarrow> 'k::linorder" and g :: "'a \<Rightarrow> 'b"
  shows "(\<Sum>(k, xs')\<leftarrow>group_by f xs. int (length (remdups (map g xs'))))
         = int (card ((\<lambda>x. (f x, g x)) ` set xs))"
proof -
  let ?S = "\<lambda>k. g ` {x \<in> set xs. f x = k}"
  have "(\<Sum>(k, xs')\<leftarrow>group_by f xs. int (length (remdups (map g xs'))))
      = (\<Sum>k\<leftarrow>remdups (sort (map f xs)). int (card (?S k)))"
    by (simp add: group_by_def comp_def length_remdups_card)
  also have "\<dots> = (\<Sum>k\<in>f ` set xs. int (card (?S k)))"
    by (simp add: sum_list_distinct_conv_sum_set)
  also have "\<dots> = int (card (SIGMA k : f ` set xs. ?S k))"
    by (simp add: card_SigmaI)
  also have "(SIGMA k : f ` set xs. ?S k) = (\<lambda>x. (f x, g x)) ` set xs"
    by (auto simp: image_iff) metis
  finally show ?thesis .
qed

section \<open>The collapse\<close>

lemma candidates_window: "r \<in> set (candidates con) \<Longrightarrow> resolved_in_window r"
  by (simp add: candidates_def)

lemma candidates_settled: "db_bars con = Some bars \<Longrightarrow> db_symbols con = Some syms \<Longrightarrow>
    r \<in> set (candidates con) \<Longrightarrow> settled bars syms r"
  by (simp add: candidates_def settlement_clause_def admits_def)

lemma dedup_candidate: "r \<in> set (dedup con) \<Longrightarrow> r \<in> set (candidates con)"
  unfolding dedup_def by (rule row_number_1_subset)

lemma dedup_length: "length (dedup con) = card (evidence_key con ` set (candidates con))"
  by (simp add: dedup_def row_number_1_length)

lemma dedup_distinct: "distinct (map (evidence_key con) (dedup con))"
  by (simp add: dedup_def row_number_1_distinct)

lemma tally_bounds:
  "dt_day (tally_of d g) = d"
  "0 \<le> dt_hits (tally_of d g)" "dt_hits (tally_of d g) \<le> dt_n (tally_of d g)"
  "0 \<le> dt_ups (tally_of d g)" "dt_ups (tally_of d g) \<le> dt_n (tally_of d g)"
  "0 \<le> dt_hc_n (tally_of d g)" "dt_hc_n (tally_of d g) \<le> dt_n (tally_of d g)"
  "0 \<le> dt_hc_hits (tally_of d g)" "dt_hc_hits (tally_of d g) \<le> dt_hc_n (tally_of d g)"
  "0 \<le> dt_hc_ups (tally_of d g)" "dt_hc_ups (tally_of d g) \<le> dt_hc_n (tally_of d g)"
  by (auto simp: tally_of_def intro: count_if_mono)

text \<open>The keys left of a horizon are the keys of that horizon's clean rows.\<close>

lemma after_keys:
  "(\<Sum>(h, g)\<leftarrow>group_by po_horizon (window_rows con). distinct_keys con (filter P g))
   = (\<Sum>(h, g)\<leftarrow>group_by po_horizon (filter P (window_rows con)). distinct_keys con g)"
proof -
  let ?W = "window_rows con"
  let ?f = "\<lambda>h. distinct_keys con (filter (\<lambda>r. po_horizon r = h) (filter P ?W))"
  have "(\<Sum>(h, g)\<leftarrow>group_by po_horizon ?W. distinct_keys con (filter P g))
      = (\<Sum>h\<leftarrow>remdups (sort (map po_horizon ?W)). ?f h)"
    by (simp add: group_by_def comp_def filter_filter conj_commute)
  also have "\<dots> = (\<Sum>h\<in>po_horizon ` set ?W. ?f h)"
    by (simp add: sum_list_distinct_conv_sum_set)
  also have "\<dots> = (\<Sum>h\<in>po_horizon ` set (filter P ?W). ?f h)"
    by (rule sum.mono_neutral_right)
      (auto simp: distinct_keys_def filter_empty_conv image_iff, metis)
  also have "\<dots> = (\<Sum>h\<leftarrow>remdups (sort (map po_horizon (filter P ?W))). ?f h)"
    by (simp add: sum_list_distinct_conv_sum_set)
  also have "\<dots> = (\<Sum>(h, g)\<leftarrow>group_by po_horizon (filter P ?W). distinct_keys con g)"
    by (simp add: group_by_def comp_def)
  finally show ?thesis .
qed

section \<open>Properties\<close>

text \<open>
  A clean call, read off the tables: resolved with an outcome and a probability, made inside the
  grading window, resolved no earlier than its forward bar settles where the tables can say, and not
  on a day its symbol's feed is recorded as stale.
\<close>

definition clean_call :: "database \<Rightarrow> outcome_row \<Rightarrow> bool" where
  "clean_call con r \<longleftrightarrow> r \<in> set (db_outcomes con)
     \<and> po_up r \<noteq> None \<and> po_prob r \<noteq> None \<and> GRADING_EPOCH_TS \<le> po_ts r
     \<and> (\<exists>t. po_resolved r = Some t \<and> (\<forall>bars syms. db_bars con = Some bars \<and> db_symbols con = Some syms \<longrightarrow>
          (\<exists>final. settlement_at bars syms r = Some final \<and> final \<le> t)))
     \<and> (\<forall>dq. db_dq con = Some dq \<longrightarrow> \<not> (\<exists>q \<in> set dq. dq_kind q = ''stale''
          \<and> dq_symbol q = Some (po_symbol r) \<and> day_index (dq_ts q) = day_index (po_ts r)))"

text \<open>The same observation: of one symbol, for one horizon, graded from the bar of one day.\<close>

definition same_observation :: "database \<Rightarrow> outcome_row \<Rightarrow> outcome_row \<Rightarrow> bool" where
  "same_observation con s r \<longleftrightarrow>
     po_symbol s = po_symbol r \<and> po_horizon s = po_horizon r \<and> row_day con s = row_day con r"

lemma on_stale_day_iff:
  "on_stale_day dq r \<longleftrightarrow> (\<exists>q \<in> set dq. dq_kind q = ''stale'' \<and> dq_symbol q = Some (po_symbol r)
     \<and> day_index (dq_ts q) = day_index (po_ts r))"
  by (auto simp: on_stale_day_def stale_feed_def map_filter_def image_iff split: if_splits)

lemma settled_iff:
  "settled bars syms r \<longleftrightarrow> (\<exists>t final. po_resolved r = Some t \<and> settlement_at bars syms r = Some final \<and> final \<le> t)"
  by (auto simp: settled_def split: option.splits)

lemma candidates_iff: "r \<in> set (candidates con) \<longleftrightarrow> clean_call con r"
proof -
  have "admits (settlement_clause con) r \<longleftrightarrow> (\<forall>bars syms. db_bars con = Some bars \<and> db_symbols con = Some syms
      \<longrightarrow> settled bars syms r)"
    by (auto simp: admits_def settlement_clause_def split: option.splits)
  moreover have "admits (stale_feed_sql con) r \<longleftrightarrow> (\<forall>dq. db_dq con = Some dq \<longrightarrow> \<not> on_stale_day dq r)"
    by (auto simp: admits_def stale_feed_sql_def split: option.splits)
  ultimately show ?thesis
    by (auto simp: candidates_def clean_call_def resolved_in_window_def settled_iff on_stale_day_iff)
qed

lemma same_observation_iff: "same_observation con s r \<longleftrightarrow> evidence_key con s = evidence_key con r"
  by (simp add: same_observation_def evidence_key_def)

text \<open>
  C6. The graded population holds exactly one row for every symbol, horizon and graded day that has
  any clean call, it is a clean call itself, and the newest of them: no call that is unresolved,
  outside the window, settled after it was resolved or made on a stale feed counts or displaces one
  that does.
\<close>

theorem one_observation_per_key:
  "(\<forall>r \<in> set (dedup con). clean_call con r
      \<and> (\<forall>s. clean_call con s \<and> same_observation con s r \<longrightarrow> po_ts s \<le> po_ts r))
   \<and> (\<forall>s. clean_call con s \<longrightarrow> (\<exists>r \<in> set (dedup con). same_observation con s r))
   \<and> distinct (map (\<lambda>r. (po_symbol r, po_horizon r, row_day con r)) (dedup con))"
proof (intro conjI)
  show "\<forall>r \<in> set (dedup con). clean_call con r
      \<and> (\<forall>s. clean_call con s \<and> same_observation con s r \<longrightarrow> po_ts s \<le> po_ts r)"
    unfolding same_observation_iff candidates_iff [symmetric]
    using dedup_candidate [of _ con] row_number_1_newest [of _ "evidence_key con" po_ts "candidates con"]
    unfolding dedup_def by blast
  show "\<forall>s. clean_call con s \<longrightarrow> (\<exists>r \<in> set (dedup con). same_observation con s r)"
  proof (intro allI impI)
    fix s assume "clean_call con s"
    then have "evidence_key con s \<in> set (map (evidence_key con) (candidates con))"
      by (simp add: candidates_iff [symmetric])
    then have "evidence_key con s \<in> set (map (evidence_key con) (dedup con))"
      by (simp only: dedup_def row_number_1_keys set_remdups set_sort)
    then show "\<exists>r \<in> set (dedup con). same_observation con s r"
      by (auto simp: same_observation_iff)
  qed
  show "distinct (map (\<lambda>r. (po_symbol r, po_horizon r, row_day con r)) (dedup con))"
    using dedup_distinct [of con] by (simp add: evidence_key_def [abs_def])
qed

definition two_calls :: database where
  "two_calls = empty_db\<lparr>db_outcomes :=
     [\<lparr>po_symbol = 1, po_horizon = ''1d'', po_ts = GRADING_EPOCH_TS + 40000, po_prob = Some 0.6,
       po_up = Some 1, po_resolved = Some 2000000000, po_settle = Some (GRADING_EPOCH_TS + 90000)\<rparr>,
      \<lparr>po_symbol = 1, po_horizon = ''1d'', po_ts = GRADING_EPOCH_TS + 110000, po_prob = Some 0.7,
       po_up = Some 1, po_resolved = Some 2000000000, po_settle = Some (GRADING_EPOCH_TS + 90000)\<rparr>]\<rparr>"

lemma two_calls_clean: "\<forall>r \<in> set (db_outcomes two_calls). clean_call two_calls r"
  by (simp add: candidates_iff [symmetric]) code_simp

lemma two_calls_same:
  "\<forall>r \<in> set (db_outcomes two_calls). \<forall>s \<in> set (db_outcomes two_calls). same_observation two_calls s r"
  unfolding same_observation_def by code_simp

theorem one_observation_per_key_witness:
  "\<exists>r. set (dedup two_calls) = {r} \<and> po_ts r = GRADING_EPOCH_TS + 110000"
proof -
  let ?a = "db_outcomes two_calls ! 0" and ?b = "db_outcomes two_calls ! 1"
  have outs: "db_outcomes two_calls = [?a, ?b]" "po_ts ?a < po_ts ?b" "po_ts ?b = GRADING_EPOCH_TS + 110000"
    by (simp_all add: two_calls_def)
  have clean: "clean_call two_calls ?b" using two_calls_clean outs(1) by (metis list.set_intros)
  have "?b = r" if "r \<in> set (dedup two_calls)" for r
  proof -
    have "clean_call two_calls r" "po_ts ?b \<le> po_ts r"
      using one_observation_per_key [of two_calls] that clean two_calls_same outs(1)
      by (auto simp: clean_call_def)
    then have "r \<in> set [?a, ?b]" "po_ts ?b \<le> po_ts r" using outs(1) by (auto simp: clean_call_def)
    then show ?thesis using outs(2) by auto
  qed
  moreover have "dedup two_calls \<noteq> []" using one_observation_per_key [of two_calls] clean by auto
  ultimately have "set (dedup two_calls) = {?b}" by (cases "dedup two_calls") auto
  with outs(3) show ?thesis by blast
qed

text \<open>
  The per-day tallies account for every observation of the graded population exactly once:
  summed over horizons and days, their sizes are the number of distinct evidence keys.
\<close>

theorem tallies_count_each_key_once:
  "(\<Sum>(h, ds)\<leftarrow>fetch_directional_days con. \<Sum>d\<leftarrow>ds. dt_n d)
   = int (card (evidence_key con ` set (candidates con)))"
proof -
  have inner: "(\<Sum>p\<leftarrow>group_by (row_day con) g. dt_n (tally_of (fst p) (snd p))) = int (length g)"
    for g
    using sum_group_int [of "row_day con" g] by (simp add: case_prod_unfold tally_of_def)
  have "(\<Sum>(h, ds)\<leftarrow>fetch_directional_days con. \<Sum>d\<leftarrow>ds. dt_n d)
      = (\<Sum>(h, g)\<leftarrow>group_by po_horizon (dedup con). int (length g))"
    unfolding fetch_directional_days_def map_map comp_def case_prod_unfold
    by (simp add: comp_def inner)
  also have "\<dots> = int (length (dedup con))" by (rule sum_group_int)
  finally show ?thesis by (simp add: dedup_length)
qed

text \<open>
  The settlement census is an exact account: every considered row is settled, unsettled or
  unverifiable, the rows that are not excluded are exactly the settled ones, and the graded
  observations it reports are the distinct evidence keys before and after the filter, of which
  the filter can only remove some.
\<close>

theorem settlement_census_balances:
  assumes "measure_settlement_quarantine (Some con) = Some q"
    and "db_bars con = Some bars" and "db_symbols con = Some syms"
  shows "qc_considered q = int (length (window_rows con))
    \<and> qc_considered q - qc_excluded q = count_if (settled bars syms) (window_rows con)
    \<and> qc_excluded q = qc_unsettled q + qc_unverifiable q
    \<and> qc_before q = int (card (evidence_key con ` set (window_rows con)))
    \<and> qc_after q = int (card (evidence_key con ` set (filter (settled bars syms) (window_rows con))))
    \<and> 0 \<le> qc_dropped q"
proof -
  let ?W = "window_rows con" and ?S = "filter (settled bars syms) (window_rows con)"
  let ?hs = "map (\<lambda>(h, g). (h, quarantine_horizon con bars syms g)) (group_by po_horizon ?W)"
  have q: "q = quarantine_totals ?hs"
    using assms by (simp add: measure_settlement_quarantine_def settlement_clause_def)
  note defs = q quarantine_totals_def Let_def quarantine_horizon_def comp_def case_prod_unfold
  have total: "qc_considered q = int (length ?W)"
    using sum_group_int [of po_horizon ?W] by (simp add: defs)
  have u: "qc_unsettled q = count_if (unsettled bars syms) ?W"
    and v: "qc_unverifiable q = count_if (unverifiable bars syms) ?W"
    using sum_group_count [of "unsettled bars syms" po_horizon ?W]
      sum_group_count [of "unverifiable bars syms" po_horizon ?W] by (simp_all add: defs)
  have ex: "qc_excluded q = qc_unsettled q + qc_unverifiable q"
    by (simp add: defs sum_list_addf)
  have keys: "(\<Sum>(h, g)\<leftarrow>group_by po_horizon xs. distinct_keys con g)
      = int (card (evidence_key con ` set xs))" for xs
  proof -
    have "(\<Sum>(h, g)\<leftarrow>group_by po_horizon xs. distinct_keys con g)
        = int (card ((\<lambda>r. (po_horizon r, po_symbol r, row_day con r)) ` set xs))"
      unfolding distinct_keys_def by (rule sum_group_keys)
    also have "\<dots> = int (card (evidence_key con ` set xs))"
    proof -
      have "evidence_key con ` set xs
          = (\<lambda>(h, s, d). (s, h, d)) ` (\<lambda>r. (po_horizon r, po_symbol r, row_day con r)) ` set xs"
        by (auto simp: evidence_key_def image_iff)
      moreover have "inj (\<lambda>(h::string, s::int, d::int). (s, h, d))" by (auto intro: injI)
      ultimately show ?thesis by (simp add: card_image inj_on_subset)
    qed
    finally show ?thesis .
  qed
  have before: "qc_before q = int (card (evidence_key con ` set ?W))"
    using keys [of ?W] by (simp add: defs)
  have after: "qc_after q = int (card (evidence_key con ` set ?S))"
    using after_keys [of con "settled bars syms"] keys [of ?S] by (simp add: defs)
  have "qc_dropped q = qc_before q - qc_after q" by (simp add: defs)
  moreover have "card (evidence_key con ` set ?S) \<le> card (evidence_key con ` set ?W)"
    by (intro card_mono image_mono) auto
  moreover have "count_if (settled bars syms) ?W + count_if (unsettled bars syms) ?W
      + count_if (unverifiable bars syms) ?W = int (length ?W)"
    by (rule settle_count) (simp add: window_rows_def)
  ultimately show ?thesis using total u v ex before after by simp
qed

definition settled_sample :: database where
  "settled_sample = two_calls\<lparr>db_symbols := Some [\<lparr>sy_id = 1, sy_market = ''stocks'', sy_active = 1, sy_delisted = None\<rparr>],
     db_bars := Some [\<lparr>bar_symbol = 1, bar_tf = ''1d'', bar_ts = GRADING_EPOCH_TS\<rparr>,
                      \<lparr>bar_symbol = 1, bar_tf = ''1d'', bar_ts = GRADING_EPOCH_TS + 86400\<rparr>]\<rparr>"

theorem settlement_census_balances_witness:
  "map_option (\<lambda>q. (qc_considered q, qc_excluded q, qc_dropped q))
     (measure_settlement_quarantine (Some settled_sample)) = Some (2, 1, 0)
   \<and> 0 \<le> (0::int)"
proof -
  have run: "map_option (\<lambda>q. (qc_considered q, qc_excluded q, qc_dropped q))
     (measure_settlement_quarantine (Some settled_sample)) = Some (2, 1, 0)"
    by code_simp
  then obtain q where q: "measure_settlement_quarantine (Some settled_sample) = Some q"
    by auto
  obtain bars syms where b: "db_bars settled_sample = Some bars" "db_symbols settled_sample = Some syms"
    by (simp add: settled_sample_def)
  from settlement_census_balances [OF q b] run q show ?thesis by simp
qed

text \<open>
  The listing history is declared complete exactly when there are graded symbols and every
  one of them is in the symbols table and either still listed or delisted on a known date; every
  other answer carries a reason.
\<close>

theorem clean_means_every_listing_known:
  "(mc_clean (measure_universe_completeness src table) \<longleftrightarrow>
      (\<exists>con ids syms. src = Some con \<and> graded_symbols con table = Some ids \<and> db_symbols con = Some syms
         \<and> ids \<noteq> [] \<and> set ids \<subseteq> {i. listing_resolvable syms i}))
   \<and> (mc_clean (measure_universe_completeness src table) \<longleftrightarrow>
        mc_reason (measure_universe_completeness src table) = None)"
proof -
  have count: "count_if (symbol_unknown syms) ids + count_if (symbol_undated syms) ids = 0 \<longleftrightarrow>
      set ids \<subseteq> {i. listing_resolvable syms i}" for syms ids
  proof -
    have "count_if (symbol_unknown syms) ids + count_if (symbol_undated syms) ids = 0 \<longleftrightarrow>
        count_if (symbol_unknown syms) ids = 0 \<and> count_if (symbol_undated syms) ids = 0"
      using count_if_nonneg [of "symbol_unknown syms" ids] count_if_nonneg [of "symbol_undated syms" ids]
      by linarith
    then show ?thesis by (auto simp: count_if_0 listing_split)
  qed
  show ?thesis
    using completeness_reason [of src table]
    by (auto simp: measure_universe_completeness_def unmeasured_completeness_def measured_clean count
        split: option.splits if_splits)
qed

text \<open>
  The number of observations the stale-feed measure reports as excluded is not the number of
  graded observations the quarantine removes. The measure counts keys on the mint day
  (\<open>trading_day(ts)\<close>) while the collapse keys on the settled bar (\<open>settle_day\<close>): here one of two
  calls that settle on one bar was minted on a stale day, the measure reports one excluded
  observation, and the graded population has as many rows with the quarantine as without.
\<close>

definition half_stale :: database where
  "half_stale = two_calls\<lparr>db_dq := Some
     [\<lparr>dq_symbol = Some 1, dq_ts = GRADING_EPOCH_TS + 41000, dq_kind = ''stale'', dq_detail = []\<rparr>]\<rparr>"

theorem stale_measure_is_not_the_loss:
  "measure_stale_feed_exclusion (Some half_stale) = Inr \<lparr>sx_rows = 1, sx_symbols = 1, sx_days = 1\<rparr>
   \<and> length (dedup half_stale) = 1
   \<and> length (dedup (half_stale\<lparr>db_dq := None\<rparr>)) = 1"
proof (intro conjI)
  show "measure_stale_feed_exclusion (Some half_stale) = Inr \<lparr>sx_rows = 1, sx_symbols = 1, sx_days = 1\<rparr>"
    by code_simp
  show "length (dedup half_stale) = 1" by code_simp
  show "length (dedup (half_stale\<lparr>db_dq := None\<rparr>)) = 1" by code_simp
qed

end
