(* ===== verification/Multiplicity.thy ===== *)
theory Multiplicity
  imports Registry_Rows Market_Tables
begin

text \<open>
  The price of multiplicity (\<open>tools/accuracy_registry.py\<close>): the corrected quantile, the module
  state \<open>_MULT\<close> and \<open>_FAMILY_FLOOR\<close> with the operations that write it, the two-pass grading
  \<open>grade_with_multiplicity\<close>, and the monotone counters read off the pre-registration chain and
  the published registry file.
\<close>

section \<open>The corrected quantile\<close>

definition MAX_ALPHA :: real where "MAX_ALPHA = 0.05"

definition UNCORRECTED_Z :: real where "UNCORRECTED_Z = norm_inv_cdf (1 - MAX_ALPHA / 2)"

definition corrected_z :: "int \<Rightarrow> int \<Rightarrow> real \<times> int \<times> real" where
  "corrected_z family_size looks =
     (let divisor = max 1 family_size * max 1 looks;
          alpha = MAX_ALPHA / of_int divisor;
          z = max UNCORRECTED_Z (norm_inv_cdf (1 - alpha / 2))
      in (z, divisor, alpha))"

section \<open>The module state\<close>

record grader =
  gr_mult :: price
  gr_family_floor :: int

definition initial_grader :: grader where
  "initial_grader =
     \<lparr>gr_mult = \<lparr>px_family_size = 1, px_looks = 1, px_divisor = 1,
                 px_corrected_alpha = MAX_ALPHA, px_z = UNCORRECTED_Z\<rparr>,
      gr_family_floor = 1\<rparr>"

definition set_family_floor :: "int \<Rightarrow> grader \<Rightarrow> grader" where
  "set_family_floor n g = g\<lparr>gr_family_floor := max (max (gr_family_floor g) 1) n\<rparr>"

definition set_multiplicity :: "int \<Rightarrow> int \<Rightarrow> grader \<Rightarrow> grader" where
  "set_multiplicity family_size looks g =
     (let fam = max family_size (gr_family_floor g)
      in case corrected_z fam looks of (z, divisor, alpha) \<Rightarrow>
           g\<lparr>gr_mult := \<lparr>px_family_size = max 1 fam, px_looks = max 1 looks, px_divisor = divisor,
                         px_corrected_alpha = alpha, px_z = z\<rparr>\<rparr>)"

definition current_z :: "grader \<Rightarrow> real" where
  "current_z g = px_z (gr_mult g)"

definition stamp_multiplicity :: "grader \<Rightarrow> grade_row list \<Rightarrow> grade_row list" where
  "stamp_multiplicity g rows = map (\<lambda>r. r\<lparr>r_price := Some (gr_mult g)\<rparr>) rows"

fun regrade :: "(grader \<Rightarrow> grade_row list) \<Rightarrow> int \<Rightarrow> nat \<Rightarrow> int \<Rightarrow> grade_row list \<Rightarrow> grader
    \<Rightarrow> grader \<times> grade_row list" where
  "regrade grade_once looks 0 fam rows g =
     (let g = set_multiplicity (max fam (int (length rows))) looks g;
          rows = grade_once g
      in (g, stamp_multiplicity g rows))"
| "regrade grade_once looks (Suc k) fam rows g =
     (let g = set_multiplicity fam looks g;
          rows = grade_once g
      in if int (length rows) \<le> fam then (g, stamp_multiplicity g rows)
         else regrade grade_once looks k (int (length rows)) rows g)"

definition grade_with_multiplicity ::
    "(grader \<Rightarrow> grade_row list) \<Rightarrow> int \<Rightarrow> grader \<Rightarrow> grader \<times> grade_row list" where
  "grade_with_multiplicity grade_once looks g =
     (let rows = grade_once g
      in regrade grade_once looks 3 (int (length rows)) rows g)"

section \<open>The counters\<close>

definition LOOK_KIND :: string where "LOOK_KIND = ''grading-look''"

text \<open>One record: \<open>int(json.loads(blob).get(key, 0))\<close> folded with \<open>max\<close>.\<close>

definition fold_counter :: "string \<Rightarrow> int \<Rightarrow> blob \<Rightarrow> int py" where
  "fold_counter key n b =
     (case blob_json b of
        None \<Rightarrow> Inr n
      | Some (JObj d) \<Rightarrow>
          (case py_int (jget_or (JInt 0) key d) of
             Inr v \<Rightarrow> Inr (max n v)
           | Inl TypeErr \<Rightarrow> Inr n
           | Inl ValueErr \<Rightarrow> Inr n
           | Inl e \<Rightarrow> Inl e)
      | Some _ \<Rightarrow> Inl AttributeErr)"

fun fold_counters :: "string \<Rightarrow> int \<Rightarrow> blob list \<Rightarrow> int py" where
  "fold_counters key n [] = Inr n"
| "fold_counters key n (b # bs) = py_bind (fold_counter key n b) (\<lambda>n. fold_counters key n bs)"

definition look_specs :: "prereg_row list \<Rightarrow> blob list" where
  "look_specs recs = map pr_spec (filter (\<lambda>r. pr_kind r = LOOK_KIND) recs)"

definition chain_looks :: "database \<Rightarrow> int py" where
  "chain_looks con =
     (case db_prereg con of
        None \<Rightarrow> Inr 0
      | Some recs \<Rightarrow> fold_counters ''counter'' (int (length (look_specs recs))) (look_specs recs))"

definition chain_families :: "database \<Rightarrow> int py" where
  "chain_families con =
     (case db_prereg con of
        None \<Rightarrow> Inr 0
      | Some recs \<Rightarrow> fold_counters ''family'' 0 (look_specs recs))"

definition published_int :: "source_file \<Rightarrow> string \<Rightarrow> int py" where
  "published_int file key =
     (case file of
        Readable (Blob _ (Some (JObj d))) \<Rightarrow>
          (let v = jget key d
           in case py_int (if truthy v then v else JInt 0) of
                Inl OverflowErr \<Rightarrow> Inl OverflowErr
              | Inl _ \<Rightarrow> Inr 0
              | Inr i \<Rightarrow> Inr i)
      | _ \<Rightarrow> Inr 0)"

definition published_looks :: "source_file \<Rightarrow> int py" where
  "published_looks file = published_int file ''looks''"

definition published_family :: "source_file \<Rightarrow> int py" where
  "published_family file = published_int file ''family_size''"

section \<open>The quantile never narrows\<close>

definition z_of_divisor :: "int \<Rightarrow> real" where
  "z_of_divisor d = max UNCORRECTED_Z (norm_inv_cdf (1 - MAX_ALPHA / of_int d / 2))"

lemma corrected_z_eq:
  "corrected_z f l = (z_of_divisor (max 1 f * max 1 l), max 1 f * max 1 l,
     MAX_ALPHA / of_int (max 1 f * max 1 l))"
  by (simp add: corrected_z_def z_of_divisor_def Let_def)

lemma tail_probability: "1 \<le> d \<Longrightarrow> 0.975 \<le> 1 - MAX_ALPHA / of_int d / 2 \<and> 1 - MAX_ALPHA / of_int d / 2 < 1"
  by (simp add: MAX_ALPHA_def divide_simps)

lemma z_of_divisor_mono:
  assumes "1 \<le> d" and "d \<le> d'"
  shows "z_of_divisor d \<le> z_of_divisor d'"
proof -
  have "MAX_ALPHA / of_int d' \<le> MAX_ALPHA / of_int d"
    using assms by (intro divide_left_mono) (auto simp: MAX_ALPHA_def)
  then have "norm_inv_cdf (1 - MAX_ALPHA / of_int d / 2) \<le> norm_inv_cdf (1 - MAX_ALPHA / of_int d' / 2)"
    using tail_probability [of d] tail_probability [of d'] assms by (intro norm_inv_cdf_mono) auto
  then show ?thesis by (auto simp: z_of_divisor_def)
qed

lemma divisor_ge_1: "1 \<le> max 1 f * max 1 (l::int)"
  using mult_mono [of 1 "max 1 f" 1 "max 1 l"] by simp

lemma divisor_mono: "f \<le> f' \<Longrightarrow> l \<le> l' \<Longrightarrow> max 1 f * max 1 l \<le> max 1 f' * max 1 (l'::int)"
  by (intro mult_mono) auto

lemma z_of_divisor_1: "z_of_divisor 1 = UNCORRECTED_Z"
  by (simp add: z_of_divisor_def UNCORRECTED_Z_def)

lemma z_of_divisor_ge: "UNCORRECTED_Z \<le> z_of_divisor d"
  by (simp add: z_of_divisor_def)

lemma UNCORRECTED_Z_pos: "1.42 \<le> UNCORRECTED_Z"
  unfolding UNCORRECTED_Z_def by (rule norm_inv_cdf_pos) (simp_all add: MAX_ALPHA_def)

lemma z_of_divisor_pos: "0 < z_of_divisor d"
  using UNCORRECTED_Z_pos z_of_divisor_ge [of d] by simp

section \<open>The state\<close>

text \<open>
  Every state the operations can reach: the family floor is at least one, and the stored
  quantile is the one the stored divisor prices.
\<close>

definition wf_grader :: "grader \<Rightarrow> bool" where
  "wf_grader g \<longleftrightarrow> 1 \<le> gr_family_floor g
     \<and> 1 \<le> px_family_size (gr_mult g) \<and> 1 \<le> px_looks (gr_mult g)
     \<and> px_divisor (gr_mult g) = px_family_size (gr_mult g) * px_looks (gr_mult g)
     \<and> px_corrected_alpha (gr_mult g) = MAX_ALPHA / of_int (px_divisor (gr_mult g))
     \<and> px_z (gr_mult g) = z_of_divisor (px_divisor (gr_mult g))"

lemma wf_initial: "wf_grader initial_grader"
  by (simp add: wf_grader_def initial_grader_def z_of_divisor_1)

lemma wf_set_family_floor: "wf_grader g \<Longrightarrow> wf_grader (set_family_floor n g)"
  by (auto simp: wf_grader_def set_family_floor_def)

lemma set_multiplicity_mult:
  "gr_mult (set_multiplicity f l g) =
     (let fam = max 1 (max f (gr_family_floor g)); lk = max 1 l
      in \<lparr>px_family_size = fam, px_looks = lk, px_divisor = fam * lk,
          px_corrected_alpha = MAX_ALPHA / of_int (fam * lk), px_z = z_of_divisor (fam * lk)\<rparr>)"
  by (simp add: set_multiplicity_def corrected_z_eq Let_def)

lemma set_multiplicity_floor [simp, frame_simps]:
  "gr_family_floor (set_multiplicity f l g) = gr_family_floor g"
  by (simp add: set_multiplicity_def corrected_z_eq Let_def)

lemma wf_set_multiplicity: "wf_grader g \<Longrightarrow> wf_grader (set_multiplicity f l g)"
  by (simp add: wf_grader_def set_multiplicity_mult Let_def)

lemma wf_current_z: "wf_grader g \<Longrightarrow> UNCORRECTED_Z \<le> current_z g \<and> 0 < current_z g"
  by (simp add: wf_grader_def current_z_def z_of_divisor_ge z_of_divisor_pos)

section \<open>Two passes are a fixed point when the published rows do not depend on the price\<close>

locale price_blind_grading =
  fixes grade_once :: "grader \<Rightarrow> grade_row list"
  assumes same_length: "length (grade_once g) = length (grade_once g')"
begin

lemma two_passes:
  "grade_with_multiplicity grade_once looks g =
     (let g' = set_multiplicity (int (length (grade_once g))) looks g
      in (g', stamp_multiplicity g' (grade_once g')))"
  using same_length
  by (simp add: grade_with_multiplicity_def Let_def eval_nat_numeral)
    (metis order_refl of_nat_le_iff)

lemma family_priced:
  assumes "grade_with_multiplicity grade_once looks g = (g', rows)"
  shows "int (length rows) \<le> px_family_size (gr_mult g')"
    and "gr_family_floor g \<le> px_family_size (gr_mult g')"
    and "rows = stamp_multiplicity g' (grade_once g')"
    and "g' = set_multiplicity (int (length rows)) looks g"
proof -
  have g': "g' = set_multiplicity (int (length (grade_once g))) looks g"
    and rows: "rows = stamp_multiplicity g' (grade_once g')"
    using assms by (auto simp: two_passes Let_def)
  have len: "length rows = length (grade_once g)"
    using same_length [of g' g] by (simp add: rows stamp_multiplicity_def)
  show "g' = set_multiplicity (int (length rows)) looks g" using g' len by simp
  show "rows = stamp_multiplicity g' (grade_once g')" by (rule rows)
  show "int (length rows) \<le> px_family_size (gr_mult g')"
    "gr_family_floor g \<le> px_family_size (gr_mult g')"
    unfolding g' set_multiplicity_mult len by (simp_all add: Let_def)
qed

lemma stamped: "r \<in> set (snd (grade_with_multiplicity grade_once looks g)) \<Longrightarrow>
    r_price r = Some (gr_mult (fst (grade_with_multiplicity grade_once looks g)))"
  by (auto simp: two_passes Let_def stamp_multiplicity_def)

end

section \<open>The counters never fall short of what is on record\<close>

lemma fold_counter_ge: "fold_counter key n b = Inr m \<Longrightarrow> n \<le> m"
  by (auto simp: fold_counter_def split: option.splits json.splits sum.splits py_exn.splits)

lemma fold_counters_ge: "fold_counters key n bs = Inr m \<Longrightarrow> n \<le> m"
  by (induction bs arbitrary: n) (auto simp: py_bind_Inr dest!: fold_counter_ge, force)

lemma fold_counters_each:
  "fold_counters key n bs = Inr m \<Longrightarrow> Blob s (Some (JObj d)) \<in> set bs \<Longrightarrow>
   py_int (jget_or (JInt 0) key d) = Inr v \<Longrightarrow> v \<le> m"
proof (induction bs arbitrary: n)
  case (Cons b bs)
  from Cons.prems(1) obtain k where k: "fold_counter key n b = Inr k" "fold_counters key k bs = Inr m"
    by (auto simp: py_bind_Inr)
  show ?case
  proof (cases "b = Blob s (Some (JObj d))")
    case True
    then have "v \<le> k" using k(1) Cons.prems(3) by (auto simp: fold_counter_def)
    then show ?thesis using fold_counters_ge [OF k(2)] by simp
  next
    case False
    then show ?thesis using Cons.IH [OF k(2)] Cons.prems by auto
  qed
qed simp

text \<open>Dropping records from the chain can only lower the count.\<close>

lemma fold_counter_mono: "n \<le> n' \<Longrightarrow> fold_counter key n b = Inr m \<Longrightarrow> \<exists>m'. fold_counter key n' b = Inr m' \<and> m \<le> m'"
  by (auto simp: fold_counter_def split: option.splits json.splits sum.splits py_exn.splits)

section \<open>Properties\<close>

text \<open>
  The corrected quantile is never below the uncorrected two-sided one, and a larger family or
  more looks never lowers it: the correction can only widen an interval.
\<close>

theorem corrected_z_never_narrows:
  assumes "f \<le> f'" and "l \<le> l'"
  shows "UNCORRECTED_Z \<le> fst (corrected_z f l) \<and> fst (corrected_z f l) \<le> fst (corrected_z f' l')"
  using z_of_divisor_mono [OF divisor_ge_1 divisor_mono [OF assms]]
  by (simp add: corrected_z_eq z_of_divisor_ge)

theorem corrected_z_never_narrows_witness:
  "UNCORRECTED_Z \<le> fst (corrected_z 0 3) \<and> fst (corrected_z 0 3) \<le> fst (corrected_z 7 40)"
  by (rule corrected_z_never_narrows) simp_all

text \<open>
  The look counter read off the chain is at least the number of look records and at least
  every counter such a record carries, so a log that was cut cannot refund a look.
\<close>

theorem chain_looks_never_refunds:
  assumes "chain_looks con = Inr n" and "db_prereg con = Some recs"
  shows "int (length (look_specs recs)) \<le> n
    \<and> (\<forall>s d v. Blob s (Some (JObj d)) \<in> set (look_specs recs) \<longrightarrow>
          py_int (jget_or (JInt 0) ''counter'' d) = Inr v \<longrightarrow> v \<le> n)"
proof -
  have run: "fold_counters ''counter'' (int (length (look_specs recs))) (look_specs recs) = Inr n"
    using assms by (simp add: chain_looks_def)
  show ?thesis using fold_counters_ge [OF run] fold_counters_each [OF run] by blast
qed

definition sample_looks :: "prereg_row list" where
  "sample_looks =
     [\<lparr>pr_seq = 1, pr_ts = 0, pr_kind = LOOK_KIND,
       pr_spec = Blob ''{}'' (Some (JObj [(''counter'', JInt 12)])), pr_hash = ''h''\<rparr>]"

theorem chain_looks_never_refunds_witness:
  "chain_looks (empty_db\<lparr>db_prereg := Some sample_looks\<rparr>) = Inr 12 \<and> (1::int) \<le> 12 \<and> (12::int) \<le> 12"
proof -
  have run: "chain_looks (empty_db\<lparr>db_prereg := Some sample_looks\<rparr>) = Inr 12"
    by (simp add: chain_looks_def sample_looks_def look_specs_def fold_counter_def)
  from chain_looks_never_refunds [OF run, of sample_looks]
  show ?thesis using run by (simp add: sample_looks_def look_specs_def)
qed

end
