(* ===== verification/Grading.thy ===== *)
theory Grading
  imports Measures Multiplicity
begin

text \<open>
  Grading (\<open>tools/accuracy_registry.py\<close>): the directional rows of \<open>grade_directional_days\<close> and
  the structural rows of \<open>grade_structural_days\<close>, from the per-day tallies to the published row,
  with the statements that read the tallies and the frozen claims from the database. Every
  interval is computed at the quantile \<open>z\<close> in force, which is an argument here.
\<close>

section \<open>The directional ensemble\<close>

definition HORIZON_FWD_DAYS :: "(string \<times> int) list" where
  "HORIZON_FWD_DAYS = [(''1d'', 1), (''1w'', 7), (''2w'', 14), (''1m'', 30), (''1q'', 91)]"

definition horizon_fwd_days :: "string \<Rightarrow> int" where
  "horizon_fwd_days label =
     (case map_of HORIZON_FWD_DAYS (strip (before_sep ''#'' label)) of Some d \<Rightarrow> d | None \<Rightarrow> 1)"

text \<open>One entry of \<open>pred_days\<close>: (n, predicted ups, actual ups).\<close>

type_synonym pred_day = "int \<times> int \<times> int"

definition day_agreement :: "pred_day \<Rightarrow> real" where
  "day_agreement d = (case d of (n, pu, au) \<Rightarrow>
     let f = of_int pu / of_int n in max f (1 - f))"

definition day_correct :: "pred_day \<Rightarrow> bool" where
  "day_correct d = (case d of (n, pu, au) \<Rightarrow>
     (of_int pu / of_int n > (0.5::real)) = (of_int au / of_int n > (0.5::real)))"

definition breadth_block :: "real \<Rightarrow> pred_day list \<Rightarrow> breadth option" where
  "breadth_block z days =
     (let usable = filter (\<lambda>(n, _, _). 0 < n) days
      in if usable = [] then None
         else let k = length usable;
                  correct = count_if day_correct usable;
                  acc = of_int correct / of_nat k
              in Some \<lparr>br_agreement = sum_list (map day_agreement usable) / of_nat k,
                       br_days = k, br_correct = correct, br_accuracy = acc,
                       br_ci = wilson_eff z acc (of_nat k)\<rparr>)"

definition pred_all :: "day_tally list \<Rightarrow> pred_day list option" where
  "pred_all per_day =
     (if \<exists>d \<in> set per_day. dt_pred_ups d = None then None
      else Some (map (\<lambda>d. (dt_n d, the (dt_pred_ups d), dt_ups d)) per_day))"

definition pred_hc :: "day_tally list \<Rightarrow> pred_day list option" where
  "pred_hc per_day =
     (if \<exists>d \<in> set per_day. dt_hc_pred_ups d = None then None
      else Some (map (\<lambda>d. (dt_hc_n d, the (dt_hc_pred_ups d), dt_hc_ups d))
                   (filter (\<lambda>d. 0 < dt_hc_n d) per_day)))"

text \<open>\<open>breadth_block(pred_days) if pred_days else None\<close>.\<close>

definition breadth_of :: "real \<Rightarrow> pred_day list option \<Rightarrow> breadth option" where
  "breadth_of z pd =
     (case pd of None \<Rightarrow> None | Some ds \<Rightarrow> if ds = [] then None else breadth_block z ds)"

definition skill_of :: "real option \<Rightarrow> real option \<Rightarrow> real option" where
  "skill_of acc null_acc =
     (case (acc, null_acc) of (Some a, Some n) \<Rightarrow> Some (a - n) | _ \<Rightarrow> None)"

definition preq_method :: string where
  "preq_method = ''prequential-majority (walk-forward)''"

text \<open>One entry of \<open>days\<close>: (day, n, hits, ups).\<close>

type_synonym graded_day = "int \<times> int \<times> int \<times> int"

definition directional_ci :: "real \<Rightarrow> graded_day list \<Rightarrow> int \<Rightarrow> ci_out" where
  "directional_ci z days fwd =
     clustered_ci_blocks z (map (\<lambda>(d, n, h, _). (d, n, of_int h)) days) fwd"

definition directional_null :: "real \<Rightarrow> graded_day list \<Rightarrow> int \<Rightarrow> ci_out" where
  "directional_null z days fwd = prequential_null z (map (\<lambda>(d, n, _, u). (d, n, u)) days) fwd"

definition directional_verdict :: "ci_out \<Rightarrow> ci_out \<Rightarrow> verdict" where
  "directional_verdict g ng =
     verdict_for (g_acc g) (map_option fst (g_ci g)) (map_option snd (g_ci g)) (g_n g)
       (g_acc ng) None (Some (g_distinct_days g)) None None (g_credible g)"

definition directional_row ::
    "ci_out \<Rightarrow> ci_out \<Rightarrow> string \<Rightarrow> string \<Rightarrow> string \<Rightarrow> bool \<Rightarrow> breadth option
     \<Rightarrow> surv_stamp \<Rightarrow> settle_stamp \<Rightarrow> grade_row" where
  "directional_row g ng name band family retirable br surv settle =
     \<lparr>r_predictor = name, r_family = family, r_band = band, r_claim = no_claim,
      r_n = g_n g, r_acc = g_acc g, r_ci = g_ci g,
      r_evidence = \<lparr>ev_ci_method = Some (g_ci_method g), ev_distinct_days = Some (g_distinct_days g),
                    ev_distinct_blocks = None, ev_block_span = None, ev_horizon_days = None,
                    ev_design_effect = g_design_effect g, ev_effective_n = g_effective_n g\<rparr>,
      r_null = \<lparr>nl_prequential = g_acc ng, nl_acc = g_acc ng, nl_method = Some preq_method,
                nl_n = None, nl_coverage = None, nl_ci = g_ci ng\<rparr>,
      r_skill = skill_of (g_acc g) (g_acc ng),
      r_verdict = Some (directional_verdict g ng),
      r_claim_verdict = None,
      r_retire = Some (retirable \<and> reads_failed (directional_verdict g ng)),
      r_breadth = br, r_recorded = None, r_surv = surv, r_settle = Some settle,
      r_revision_gate = None, r_null_gate = False, r_price = None\<rparr>"

definition emit ::
    "real \<Rightarrow> surv_stamp \<Rightarrow> settle_stamp \<Rightarrow> string \<Rightarrow> string \<Rightarrow> graded_day list \<Rightarrow> string
     \<Rightarrow> bool \<Rightarrow> pred_day list option \<Rightarrow> int \<Rightarrow> grade_row list" where
  "emit z surv settle name band days family retirable pred_days fwd =
     (let g = directional_ci z days fwd
      in if g_n g = 0 then []
         else [directional_row g (directional_null z days fwd) name band family retirable
                 (breadth_of z pred_days) surv settle])"

definition all_band :: "day_tally list \<Rightarrow> graded_day list" where
  "all_band per_day = map (\<lambda>d. (dt_day d, dt_n d, dt_hits d, dt_ups d)) per_day"

definition hc_band :: "day_tally list \<Rightarrow> graded_day list" where
  "hc_band per_day = map (\<lambda>d. (dt_day d, dt_hc_n d, dt_hc_hits d, dt_hc_ups d))
     (filter (\<lambda>d. 0 < dt_hc_n d) per_day)"

definition benchmark_base :: "string \<Rightarrow> string" where
  "benchmark_base horizon = take (length horizon - length BENCHMARK_SUFFIX) horizon"

definition grade_horizon ::
    "real \<Rightarrow> surv_stamp \<Rightarrow> settle_stamp \<Rightarrow> string \<times> day_tally list \<Rightarrow> grade_row list" where
  "grade_horizon z surv settle e = (case e of (horizon, per_day) \<Rightarrow>
     if ends_with BENCHMARK_SUFFIX horizon
     then emit z surv settle (''prequential-majority ('' @ benchmark_base horizon @ '')'') ''all''
            (all_band per_day) ''benchmark'' False (pred_all per_day)
            (horizon_fwd_days (benchmark_base horizon))
     else emit z surv settle (''directional-ensemble ('' @ horizon @ '')'') ''all''
            (all_band per_day) ''direction'' True (pred_all per_day) (horizon_fwd_days horizon))"

definition grade_conviction ::
    "real \<Rightarrow> surv_stamp \<Rightarrow> settle_stamp \<Rightarrow> string \<times> day_tally list \<Rightarrow> grade_row list" where
  "grade_conviction z surv settle e = (case e of (horizon, per_day) \<Rightarrow>
     if ends_with BENCHMARK_SUFFIX horizon \<or> hc_band per_day = [] then []
     else emit z surv settle (''directional-ensemble ('' @ horizon @ '', high conviction)'')
            ''|p-0.5|>=0.15'' (hc_band per_day) ''direction'' True (pred_hc per_day)
            (horizon_fwd_days horizon))"

definition grade_directional_days ::
    "real \<Rightarrow> (string \<times> day_tally list) list \<Rightarrow> completeness option \<Rightarrow> quarantine_census option
     \<Rightarrow> grade_row list" where
  "grade_directional_days z by_h surv quar =
     (let hs = sort_key fst by_h; sv = survivorship_stamp surv; st = settlement_stamp quar
      in concat (map (grade_horizon z sv st) hs) @ concat (map (grade_conviction z sv st) hs))"

definition grade_directional ::
    "real \<Rightarrow> database \<Rightarrow> quarantine_census option option \<Rightarrow> grade_row list" where
  "grade_directional z con quar =
     grade_directional_days z (fetch_directional_days con)
       (Some (measure_universe_completeness (Some con) ''prediction_outcomes''))
       (case quar of Some q \<Rightarrow> q | None \<Rightarrow> measure_settlement_quarantine (Some con))"

section \<open>The frozen claims\<close>

record prereg_claim =
  pc_claimed :: real
  pc_hash :: string
  pc_registered :: int

text \<open>A document as a number in a comparison or an arithmetic context.\<close>

fun json_num :: "json \<Rightarrow> real option" where
  "json_num (JInt i) = Some (of_int i)"
| "json_num (JBool b) = Some (if b then 1 else 0)"
| "json_num (JFloat (Fin x)) = Some x"
| "json_num _ = None"

text \<open>\<open>a < b\<close> on two documents. Comparing lists or non-finite floats is outside the model.\<close>

fun json_less :: "json \<Rightarrow> json \<Rightarrow> bool py" where
  "json_less (JStr s) (JStr t) = Inr (s < t)"
| "json_less (JArr xs) (JArr ys) = Inl OutOfModel"
| "json_less a b =
     (case (json_num a, json_num b) of
        (Some x, Some y) \<Rightarrow> Inr (x < y)
      | _ \<Rightarrow> if a \<in> JFloat ` {PosInf, NegInf, NaN} \<or> b \<in> JFloat ` {PosInf, NegInf, NaN}
             then Inl OutOfModel else Inl TypeErr)"

definition min_conviction :: "json \<Rightarrow> json py" where
  "min_conviction b =
     (case b of JObj d \<Rightarrow> Inr (jget_or (JFloat (Fin 0)) ''minConviction'' d) | _ \<Rightarrow> Inl AttributeErr)"

text \<open>\<open>min(bands, key=...)\<close>: the first band of least key.\<close>

fun min_band :: "json \<Rightarrow> json \<Rightarrow> json list \<Rightarrow> json py" where
  "min_band best key [] = Inr best"
| "min_band best key (b # bs) =
     py_bind (min_conviction b) (\<lambda>k. py_bind (json_less k key) (\<lambda>l.
       if l then min_band b k bs else min_band best key bs))"

text \<open>\<open>float(v)\<close>.\<close>

definition finite_float :: "pyfloat \<Rightarrow> real py" where
  "finite_float f = (case f of Fin x \<Rightarrow> Inr x | _ \<Rightarrow> Inl OutOfModel)"

definition py_float :: "json \<Rightarrow> real py" where
  "py_float v =
     (case v of
        JStr s \<Rightarrow> (case float_of_str s of Some f \<Rightarrow> finite_float f | None \<Rightarrow> Inl ValueErr)
      | JFloat f \<Rightarrow> finite_float f
      | _ \<Rightarrow> (case json_num v of Some x \<Rightarrow> Inr x | None \<Rightarrow> Inl TypeErr))"

text \<open>
  One record of the chain. \<^term>\<open>Inr None\<close> is a record that carries no claim: a text that is
  not JSON, a document that is no object, no bands, or no band that covers all decisions.
\<close>

definition bands_of :: "blob \<Rightarrow> json option" where
  "bands_of b =
     (case blob_json b of
        Some (JObj d) \<Rightarrow> if truthy (jget ''bands'' d) then Some (jget ''bands'' d) else None
      | _ \<Rightarrow> None)"

definition base_band :: "json \<Rightarrow> json py" where
  "base_band bands =
     (case bands of
        JArr (b # bs) \<Rightarrow> py_bind (min_conviction b) (\<lambda>k. min_band b k bs)
      | JObj d \<Rightarrow> Inl AttributeErr
      | JStr s \<Rightarrow> Inl AttributeErr
      | _ \<Rightarrow> Inl TypeErr)"

definition claim_of :: "prereg_row \<Rightarrow> prereg_claim option py" where
  "claim_of r =
     (case bands_of (pr_spec r) of
        None \<Rightarrow> Inr None
      | Some bands \<Rightarrow>
          py_bind (base_band bands) (\<lambda>b. py_bind (min_conviction b) (\<lambda>k.
            if json_num k \<noteq> Some 0 then Inr None
            else case b of
              JObj d \<Rightarrow>
                (case map_of d ''claimedAccuracy'' of
                   None \<Rightarrow> Inl KeyErr
                 | Some v \<Rightarrow> py_bind (py_float v) (\<lambda>c.
                     Inr (Some \<lparr>pc_claimed = c, pc_hash = pr_hash r, pc_registered = pr_ts r\<rparr>)))
            | _ \<Rightarrow> Inl AttributeErr)))"

fun collect_claims :: "prereg_row list \<Rightarrow> (string \<times> prereg_claim) list py" where
  "collect_claims [] = Inr []"
| "collect_claims (r # rs) =
     py_bind (claim_of r) (\<lambda>c. py_bind (collect_claims rs) (\<lambda>out.
       Inr ((case c of None \<Rightarrow> [] | Some p \<Rightarrow> [(pr_kind r, p)]) @ out)))"

text \<open>\<open>seq IN (SELECT MAX(seq) \<dots> GROUP BY kind)\<close>.\<close>

definition newest_per_kind :: "prereg_row list \<Rightarrow> prereg_row list" where
  "newest_per_kind recs =
     (let tops = List.map_filter (\<lambda>(_, g). max_opt (map pr_seq g)) (group_by pr_kind recs)
      in filter (\<lambda>r. pr_seq r \<in> set tops) recs)"

definition fetch_prereg_claims :: "database \<Rightarrow> (string \<times> prereg_claim) list py" where
  "fetch_prereg_claims con =
     (case db_prereg con of None \<Rightarrow> Inr [] | Some recs \<Rightarrow> collect_claims (newest_per_kind recs))"

section \<open>The price moves intervals only\<close>

text \<open>Everything a row publishes that is not an interval or read off one.\<close>

definition evidence_view :: "grade_row \<Rightarrow> string \<times> string \<times> string \<times> int \<times> real option
    \<times> evidence_part \<times> real option \<times> real option" where
  "evidence_view r = (r_predictor r, r_family r, r_band r, r_n r, r_acc r, r_evidence r,
     nl_acc (r_null r), r_skill r)"

lemma blocks_price_blind:
  "g_n (clustered_ci_blocks z rows h) = g_n (clustered_ci_blocks z' rows h)"
  "g_acc (clustered_ci_blocks z rows h) = g_acc (clustered_ci_blocks z' rows h)"
  "g_ci_method (clustered_ci_blocks z rows h) = g_ci_method (clustered_ci_blocks z' rows h)"
  "g_distinct_days (clustered_ci_blocks z rows h) = g_distinct_days (clustered_ci_blocks z' rows h)"
  "g_design_effect (clustered_ci_blocks z rows h) = g_design_effect (clustered_ci_blocks z' rows h)"
  "g_effective_n (clustered_ci_blocks z rows h) = g_effective_n (clustered_ci_blocks z' rows h)"
  "g_distinct_blocks (clustered_ci_blocks z rows h) = g_distinct_blocks (clustered_ci_blocks z' rows h)"
  "g_block_span (clustered_ci_blocks z rows h) = g_block_span (clustered_ci_blocks z' rows h)"
  "g_horizon_days (clustered_ci_blocks z rows h) = g_horizon_days (clustered_ci_blocks z' rows h)"
  using blocks_z [of z rows h z'] by (auto dest: arg_cong [where f = g_n] arg_cong [where f = g_acc]
      arg_cong [where f = g_ci_method] arg_cong [where f = g_distinct_days]
      arg_cong [where f = g_design_effect] arg_cong [where f = g_effective_n]
      arg_cong [where f = g_distinct_blocks] arg_cong [where f = g_block_span]
      arg_cong [where f = g_horizon_days])

lemma emit_view:
  "map evidence_view (emit z sv st name band days fam ret pd fwd)
   = map evidence_view (emit z' sv st name band days fam ret pd fwd)"
  unfolding emit_def directional_ci_def directional_null_def prequential_null_def Let_def
  using blocks_price_blind [of z _ fwd z']
  by (simp add: evidence_view_def directional_row_def)

lemma concat_view:
  "(\<And>x. map v (f x) = map v (g x)) \<Longrightarrow> map v (concat (map f xs)) = map v (concat (map g xs))"
  by (induction xs) simp_all

lemma directional_view:
  "map evidence_view (grade_directional_days z by_h surv quar)
   = map evidence_view (grade_directional_days z' by_h surv quar)"
  unfolding grade_directional_days_def Let_def map_append
  by (intro arg_cong2 [where f = "(@)"] concat_view)
    (auto simp: grade_horizon_def grade_conviction_def intro: emit_view)

section \<open>Every interval is computed at the quantile in force\<close>

lemma breadth_priced: "breadth_of z pd = Some b \<Longrightarrow> br_ci b = wilson_eff z (br_accuracy b) (of_nat (br_days b))"
  by (auto simp: breadth_of_def breadth_block_def Let_def split: option.splits if_splits)

lemma directional_row_priced:
  "priced_at z (directional_row (directional_ci z days fwd) ng name band fam ret (breadth_of z pd) sv st)"
  using blocks_priced [of z "map (\<lambda>(d, n, h, _). (d, n, of_int h)) days" fwd]
  by (auto simp: priced_at_def directional_row_def directional_ci_def breadth_priced simp del: blocks_fields)

section \<open>When a directional row retires a predictor\<close>

lemma emit_iff:
  "r \<in> set (emit z sv st name band days fam ret pd fwd) \<longleftrightarrow>
   g_n (directional_ci z days fwd) \<noteq> 0
   \<and> r = directional_row (directional_ci z days fwd) (directional_null z days fwd) name band fam ret
           (breadth_of z pd) sv st"
  by (simp add: emit_def Let_def)

lemma directional_verdict_Failed:
  "directional_verdict g ng = Failed \<longleftrightarrow>
   MIN_INDEPENDENT_N \<le> g_n g \<and> (\<exists>lo hi na. g_ci g = Some (lo, hi) \<and> g_acc ng = Some na
     \<and> hi < na - VERDICT_EPS)"
  by (auto simp: directional_verdict_def verdict_for_Failed)

text \<open>The rows of a horizon the ensemble is graded on: all calls, or those of high conviction.\<close>

definition ensemble_source :: "string \<Rightarrow> day_tally list \<Rightarrow> string \<Rightarrow> graded_day list \<Rightarrow> bool" where
  "ensemble_source h per_day name days \<longleftrightarrow>
     name = ''directional-ensemble ('' @ h @ '')'' \<and> days = all_band per_day
     \<or> name = ''directional-ensemble ('' @ h @ '', high conviction)'' \<and> days = hc_band per_day"

lemma grade_directional_from_emit:
  assumes "r \<in> set (grade_directional_days z by_h surv quar)"
  obtains h ds sv st name band days fam ret pd fwd
  where "(h, ds) \<in> set by_h" and "r \<in> set (emit z sv st name band days fam ret pd fwd)"
    and "ret \<Longrightarrow> fam = ''direction'' \<and> ensemble_source h ds name days \<and> fwd = horizon_fwd_days h"
proof -
  have *: "\<exists>name band days fam ret pd fwd. r \<in> set (emit z sv st name band days fam ret pd fwd)
      \<and> (ret \<longrightarrow> fam = ''direction'' \<and> ensemble_source h ds name days \<and> fwd = horizon_fwd_days h)"
    if "r \<in> set (grade_horizon z sv st (h, ds)) \<union> set (grade_conviction z sv st (h, ds))" for sv st h ds
    using that unfolding grade_horizon_def grade_conviction_def ensemble_source_def
    by (auto split: if_splits) blast+
  from assms obtain h ds where "(h, ds) \<in> set by_h"
    and "r \<in> set (grade_horizon z (survivorship_stamp surv) (settlement_stamp quar) (h, ds))
      \<union> set (grade_conviction z (survivorship_stamp surv) (settlement_stamp quar) (h, ds))"
    by (fastforce simp: grade_directional_days_def Let_def)
  from this(1) * [OF this(2)] that show thesis by blast
qed

lemma directional_priced: "r \<in> set (grade_directional_days z by_h surv quar) \<Longrightarrow> priced_at z r"
  by (erule grade_directional_from_emit) (auto simp: emit_iff directional_row_priced)

text \<open>
  C5. A directional row asks for retirement only for a predictor of the ensemble, never for the
  benchmark, and only on a FAILED verdict: at least thirty observations, which are those of the row's
  own horizon and band and which make at least ten credible blocks of that horizon, with the whole
  interval below the walk-forward null of the same days.
\<close>

theorem retire_needs_failure:
  assumes "r \<in> set (grade_directional_days z by_h surv quar)" and "r_retire r = Some True"
  shows "r_family r = ''direction'' \<and> r_verdict r = Some Failed \<and> MIN_INDEPENDENT_N \<le> r_n r
    \<and> (\<exists>lo hi na. r_ci r = Some (lo, hi) \<and> nl_acc (r_null r) = Some na \<and> hi < na - VERDICT_EPS)
    \<and> (\<exists>h per_day days. (h, per_day) \<in> set by_h \<and> ensemble_source h per_day (r_predictor r) days
         \<and> r_n r = (\<Sum>(d, n, hits, ups)\<leftarrow>days. n)
         \<and> nl_acc (r_null r) = g_acc (directional_null z days (horizon_fwd_days h))
         \<and> MIN_DISTINCT_BLOCKS \<le> length (credible_clusters (map snd
              (horizon_blocks (map (\<lambda>(d, n, hits, ups). (d, n, of_int hits)) days) (horizon_fwd_days h)))))"
proof -
  obtain h ds sv st name band days fam ret pd fwd
    where e: "(h, ds) \<in> set by_h" "r \<in> set (emit z sv st name band days fam ret pd fwd)"
      and src: "ret \<Longrightarrow> fam = ''direction'' \<and> ensemble_source h ds name days \<and> fwd = horizon_fwd_days h"
    by (rule grade_directional_from_emit [OF assms(1)]) blast
  let ?g = "directional_ci z days fwd" and ?ng = "directional_null z days fwd"
  let ?rows = "map (\<lambda>(d, n, h, _). (d, n, of_int h)) days :: day_row list"
  from e have r: "r = directional_row ?g ?ng name band fam ret (breadth_of z pd) sv st"
    by (simp add: emit_iff)
  with assms(2) have fail: "ret" "directional_verdict ?g ?ng = Failed"
    by (auto simp: directional_row_def reads_failed_iff)
  then obtain lo hi na where ci: "MIN_INDEPENDENT_N \<le> g_n ?g" "g_ci ?g = Some (lo, hi)"
      "g_acc ?ng = Some na" "hi < na - VERDICT_EPS"
    by (auto simp: directional_verdict_Failed)
  have cred: "MIN_DISTINCT_BLOCKS \<le> length (credible_clusters (map snd (horizon_blocks ?rows fwd)))"
    using blocks_credible [of z ?rows fwd] ci(2) by (simp add: directional_ci_def)
  have n: "r_n r = (\<Sum>(d, n, hits, ups)\<leftarrow>days. n)"
    by (simp add: r directional_row_def directional_ci_def tally_n_def comp_def case_prod_unfold)
  have "r_family r = ''direction''" "r_verdict r = Some Failed" "MIN_INDEPENDENT_N \<le> r_n r"
      "r_ci r = Some (lo, hi)" "nl_acc (r_null r) = Some na" "r_predictor r = name"
    using ci src [OF fail(1)] fail(2) by (simp_all add: r directional_row_def)
  with e(1) src [OF fail(1)] cred n ci(3,4) show ?thesis by metis
qed

text \<open>Ten days on which four calls were all wrong while every symbol rose.\<close>

definition lost_day :: "int \<Rightarrow> day_tally" where
  "lost_day d = \<lparr>dt_day = d, dt_n = 4, dt_hits = 0, dt_ups = 4, dt_hc_n = 0, dt_hc_hits = 0,
     dt_hc_ups = 0, dt_pred_ups = Some 0, dt_hc_pred_ups = Some 0\<rparr>"

definition lost_days :: "day_tally list" where
  "lost_days = map lost_day [0, 1, 2, 3, 4, 5, 6, 7, 8, 9]"

definition lost_row :: grade_row where
  "lost_row = hd (grade_directional_days 2 [(''1d'', lost_days)] None None)"

lemma lost_blocks:
  "horizon_blocks (map (\<lambda>(d, n, h, _). (d, n, of_int h)) (all_band lost_days)) 1
   = map (\<lambda>d. (d, 4, 0)) [0, 1, 2, 3, 4, 5, 6, 7, 8, 9]"
  unfolding lost_days_def by code_simp

lemma lost_null_blocks:
  "tally_hits (map snd (null_days 0 0 (map (\<lambda>(d, n, _, u). (d, n, u)) (all_band lost_days)))) = 38"
  "tally_n (map snd (null_days 0 0 (map (\<lambda>(d, n, _, u). (d, n, u)) (all_band lost_days)))) = 40"
  unfolding lost_days_def by code_simp+

definition four_misses :: "tally list" where
  "four_misses = [(4, 0), (4, 0), (4, 0), (4, 0), (4, 0), (4, 0), (4, 0), (4, 0), (4, 0), (4, 0)]"

lemma lost_clusters:
  "credible_clusters four_misses = four_misses" "design_effect four_misses = Some 4"
  "tally_n four_misses = 40" "tally_hits four_misses = 0" "length four_misses = 10"
  by code_simp+

lemma lost_ci:
  "g_ci (directional_ci 2 (all_band lost_days) 1) = Some (0, 2 / 7)"
  "g_n (directional_ci 2 (all_band lost_days) 1) = 40"
  "g_acc (directional_null 2 (all_band lost_days) 1) = Some (19 / 20)"
proof -
  have snd: "map snd (map (\<lambda>d. (d::int, 4::int, 0::real)) [0, 1, 2, 3, 4, 5, 6, 7, 8, 9]) = four_misses"
    by (simp add: four_misses_def)
  have w: "wilson_eff 2 0 10 = (0, 2 / 7)"
    by (simp add: wilson_eff_closed w_hi_def w_rad_def power2_eq_square real_sqrt_divide)
  show "g_ci (directional_ci 2 (all_band lost_days) 1) = Some (0, 2 / 7)"
    unfolding directional_ci_def blocks_fields lost_blocks snd
    by (simp add: clustered_ci_def lost_clusters MIN_DISTINCT_BLOCKS_def w)
  show "g_n (directional_ci 2 (all_band lost_days) 1) = 40"
    by (simp add: directional_ci_def) (simp add: all_band_def lost_days_def lost_day_def tally_n_def)
  show "g_acc (directional_null 2 (all_band lost_days) 1) = Some (19 / 20)"
    by (simp add: directional_null_def prequential_null_def lost_null_blocks)
qed

theorem retire_needs_failure_witness:
  "r_retire lost_row = Some True \<and> r_family lost_row = ''direction'' \<and> r_verdict lost_row = Some Failed"
proof -
  let ?g = "directional_ci 2 (all_band lost_days) 1" and ?n = "directional_null 2 (all_band lost_days) 1"
  have fail: "directional_verdict ?g ?n = Failed"
    unfolding directional_verdict_Failed
    by (intro conjI exI [of _ "0"] exI [of _ "2/7"] exI [of _ "19/20"])
      (simp_all add: lost_ci MIN_INDEPENDENT_N_def VERDICT_EPS_def)
  have wd: "horizon_fwd_days ''1d'' = 1" and nb: "\<not> ends_with BENCHMARK_SUFFIX ''1d''"
    by (simp_all add: horizon_fwd_days_def HORIZON_FWD_DAYS_def strip_def is_ws_def
        ends_with_def BENCHMARK_SUFFIX_def)
  have first: "grade_horizon 2 sv st (''1d'', lost_days)
      = [directional_row ?g ?n ''directional-ensemble (1d)'' ''all'' ''direction'' True
           (breadth_of 2 (pred_all lost_days)) sv st]" for sv st
    using lost_ci(2) by (simp add: grade_horizon_def nb wd emit_def Let_def)
  have row: "lost_row \<in> set (grade_directional_days 2 [(''1d'', lost_days)] None None)"
    and ret: "r_retire lost_row = Some True"
    by (simp_all add: lost_row_def grade_directional_days_def Let_def first directional_row_def
        fail reads_failed_iff)
  from retire_needs_failure [OF row ret] ret show ?thesis by simp
qed

text \<open>
  A perfect record is never graded FAILED, at any price: when every call of the band was
  right, the upper end of the interval is one and no null lies above it.
\<close>

theorem perfect_record_never_fails:
  assumes "r \<in> set (emit z sv st name band days fam ret pd fwd)" and "0 \<le> z"
    and "\<forall>(d, n, h, u) \<in> set days. h = n \<and> 0 \<le> u \<and> u \<le> n"
  shows "r_verdict r \<noteq> Some Failed \<and> r_retire r \<noteq> Some True"
proof -
  let ?rows = "map (\<lambda>(d, n, h, _). (d, n, of_int h)) days :: day_row list"
  let ?null = "map (\<lambda>(d, n, _, u). (d, n, u)) days"
  let ?g = "directional_ci z days fwd" and ?ng = "directional_null z days fwd"
  have "rows_ok ?rows" and ok: "rows_ok (null_days 0 0 ?null)"
    using assms(3) by (force simp: rows_ok_def, intro null_days_ok, force)
  have hits: "tally_hits (map snd ?rows) = of_int (tally_n (map snd ?rows))"
    using assms(3)
  proof (induction days)
    case (Cons a days)
    obtain d n h u where a: "a = (d, n, h, u)" by (cases a)
    show ?case using Cons by (simp add: a tally_hits_def tally_n_def)
  qed (simp add: tally_hits_def tally_n_def)
  have False if fail: "directional_verdict ?g ?ng = Failed"
  proof -
    from fail obtain lo hi na where ci: "g_ci ?g = Some (lo, hi)" "g_acc ?ng = Some na"
      "hi < na - VERDICT_EPS" "MIN_INDEPENDENT_N \<le> g_n ?g"
      by (auto simp: directional_verdict_Failed)
    have n: "0 < tally_n (map snd ?rows)"
      using ci(4) by (simp add: directional_ci_def MIN_INDEPENDENT_N_def)
    have "\<exists>acc. g_acc ?g = Some acc \<and> acc \<le> hi"
      using clustered_ci_bounds [OF assms(2), of "map snd (horizon_blocks ?rows fwd)" _ _ _ lo hi]
        rows_ok_totals [OF \<open>rows_ok ?rows\<close>] ci(1) n
      by (auto simp: directional_ci_def horizon_blocks_totals)
    moreover have "g_acc ?g = Some 1" using n hits by (simp add: directional_ci_def)
    moreover have "na \<le> 1"
      using ci(2) rows_ok_totals [OF ok]
      by (auto simp: directional_null_def prequential_null_def divide_le_eq split: if_splits)
    ultimately show False using ci(3) verdict_eps_pos by auto
  qed
  with assms(1) show ?thesis by (auto simp: emit_iff directional_row_def reads_failed_iff)
qed

definition perfect_rows :: "grade_row list" where
  "perfect_rows = emit 2 (survivorship_stamp None) (settlement_stamp None) ''m'' ''all''
     [(0, 3, 3, 1), (1, 4, 4, 4)] ''direction'' True None 1"

theorem perfect_record_never_fails_witness:
  "perfect_rows \<noteq> [] \<and> r_verdict (hd perfect_rows) \<noteq> Some Failed"
proof -
  have some: "perfect_rows \<noteq> []"
    by (simp add: perfect_rows_def emit_def directional_ci_def tally_n_def)
  have "r_verdict (hd perfect_rows) \<noteq> Some Failed \<and> r_retire (hd perfect_rows) \<noteq> Some True"
    using some unfolding perfect_rows_def
    by (intro perfect_record_never_fails [OF hd_in_set]) auto
  with some show ?thesis by simp
qed

text \<open>
  The price of multiplicity moves intervals and what is read off them, and nothing else: two
  gradings of the same tallies at different quantiles publish the same rows with the same
  accuracies, counts, evidence and skill.
\<close>

theorem price_moves_intervals_only:
  "map evidence_view (grade_directional_days z by_h surv quar)
   = map evidence_view (grade_directional_days z' by_h surv quar)"
  by (rule directional_view)

section \<open>The grading target is the frozen one\<close>

lemma newest_per_kind_newest:
  assumes "distinct (map pr_seq recs)" and "r \<in> set (newest_per_kind recs)"
    and "s \<in> set recs" and "pr_kind s = pr_kind r"
  shows "pr_seq s \<le> pr_seq r"
proof -
  obtain k g where kg: "(k, g) \<in> set (group_by pr_kind recs)" and top: "max_opt (map pr_seq g) = Some (pr_seq r)"
    using assms(2) by (auto simp: newest_per_kind_def Let_def map_filter_def)
  have g: "g = filter (\<lambda>x. pr_kind x = k) recs" using kg by (simp add: set_group_by)
  obtain r' where r': "r' \<in> set recs" "pr_kind r' = k" "pr_seq r' = pr_seq r"
    using top by (auto simp: max_opt_Some g)
  have "r \<in> set recs" using assms(2) by (simp add: newest_per_kind_def Let_def)
  with r' assms(1) have "r' = r" by (simp add: distinct_map inj_on_def)
  with r' assms(4) have "s \<in> set g" using assms(3) by (simp add: g)
  then show ?thesis using top by (simp add: max_opt_Some)
qed

lemma collect_claims_iff:
  "collect_claims rs = Inr out \<Longrightarrow>
   (k, c) \<in> set out \<longleftrightarrow> (\<exists>r \<in> set rs. pr_kind r = k \<and> claim_of r = Inr (Some c))"
proof (induction rs arbitrary: out)
  case (Cons r rs)
  from Cons.prems obtain co rest where co: "claim_of r = Inr co" and rest: "collect_claims rs = Inr rest"
    and out: "out = (case co of None \<Rightarrow> [] | Some p \<Rightarrow> [(pr_kind r, p)]) @ rest"
    by (auto simp: py_bind_Inr)
  show ?case using Cons.IH [OF rest] by (auto simp: out co split: option.splits)
qed simp

definition frozen_band :: "prereg_row \<Rightarrow> (string \<times> json) list \<Rightarrow> bool" where
  "frozen_band r d \<longleftrightarrow>
     (\<exists>bands. bands_of (pr_spec r) = Some bands \<and> base_band bands = Inr (JObj d))
     \<and> json_num (jget_or (JFloat (Fin 0)) ''minConviction'' d) = Some 0"

lemma claim_of_Some:
  assumes "claim_of r = Inr (Some c)"
  shows "pc_hash c = pr_hash r \<and> pc_registered c = pr_ts r
    \<and> (\<exists>d v. frozen_band r d \<and> map_of d ''claimedAccuracy'' = Some v \<and> py_float v = Inr (pc_claimed c))"
proof -
  obtain bands b k where "bands_of (pr_spec r) = Some bands" "base_band bands = Inr b"
    "min_conviction b = Inr k"
    using assms by (auto simp: claim_of_def py_bind_Inr split: option.splits)
  then show ?thesis using assms
    by (auto simp: claim_of_def frozen_band_def min_conviction_def py_bind_Inr
        split: json.splits option.splits if_splits)
qed

text \<open>
  A claim the grader holds a predictor to is read, never recomputed: it is the accuracy in the
  all-decisions band (minimum conviction zero) of the newest pre-registration record of that
  kind, together with that record's hash and registration time.
\<close>

theorem target_is_the_newest_frozen_claim:
  assumes "fetch_prereg_claims con = Inr claims" and "db_prereg con = Some recs"
    and "distinct (map pr_seq recs)" and "(k, c) \<in> set claims"
  shows "\<exists>r \<in> set recs. pr_kind r = k \<and> pc_hash c = pr_hash r \<and> pc_registered c = pr_ts r
    \<and> (\<forall>s \<in> set recs. pr_kind s = k \<longrightarrow> pr_seq s \<le> pr_seq r)
    \<and> (\<exists>d v. frozen_band r d \<and> map_of d ''claimedAccuracy'' = Some v \<and> py_float v = Inr (pc_claimed c))"
proof -
  from assms(1,2) have run: "collect_claims (newest_per_kind recs) = Inr claims"
    by (simp add: fetch_prereg_claims_def)
  then obtain r where r: "r \<in> set (newest_per_kind recs)" "pr_kind r = k" "claim_of r = Inr (Some c)"
    using collect_claims_iff [OF run] assms(4) by blast
  moreover have "r \<in> set recs" using r(1) by (simp add: newest_per_kind_def Let_def)
  ultimately show ?thesis
    using claim_of_Some [OF r(3)] newest_per_kind_newest [OF assms(3) r(1)] by blast
qed

definition sample_band :: "real \<Rightarrow> real \<Rightarrow> json" where
  "sample_band least acc = JObj [(''minConviction'', JFloat (Fin least)), (''claimedAccuracy'', JFloat (Fin acc))]"

definition amended_chain :: "prereg_row list" where
  "amended_chain =
     [\<lparr>pr_seq = 4, pr_ts = 10, pr_kind = ''trend21'',
       pr_spec = Blob ''{}'' (Some (JObj [(''bands'', JArr [sample_band 0 (82/100)])])), pr_hash = ''h4''\<rparr>,
      \<lparr>pr_seq = 9, pr_ts = 20, pr_kind = ''trend21'',
       pr_spec = Blob ''{}'' (Some (JObj [(''bands'', JArr [sample_band (1/2) (9/10), sample_band 0 (78/100)])])), pr_hash = ''h9''\<rparr>]"

theorem target_is_the_newest_frozen_claim_witness:
  "fetch_prereg_claims (empty_db\<lparr>db_prereg := Some amended_chain\<rparr>)
     = Inr [(''trend21'', \<lparr>pc_claimed = 78/100, pc_hash = ''h9'', pc_registered = 20\<rparr>)]
   \<and> (\<exists>r \<in> set amended_chain. pr_hash r = ''h9'' \<and> pr_kind r = ''trend21'')"
proof -
  have run: "fetch_prereg_claims (empty_db\<lparr>db_prereg := Some amended_chain\<rparr>)
     = Inr [(''trend21'', \<lparr>pc_claimed = 78/100, pc_hash = ''h9'', pc_registered = 20\<rparr>)]"
    by code_simp
  have seqs: "distinct (map pr_seq amended_chain)" by (simp add: amended_chain_def)
  from target_is_the_newest_frozen_claim [OF run _ seqs, of "''trend21''"] run
  show ?thesis by auto
qed

end
