(* ===== verification/Structural_Grading.thy ===== *)
theory Structural_Grading
  imports Grading
begin

text \<open>
  The structural predictors (\<open>tools/accuracy_registry.py\<close>): the statements of
  \<open>fetch_structural\<close> over \<open>regime_outcomes\<close> and the rows of \<open>grade_structural_days\<close>, each
  predictor graded against its frozen claim and against the frozen naive-persistence null, with
  the null itself as a benchmark row.
\<close>

section \<open>Reading the table\<close>

text \<open>\<open>superseded_clause\<close>: the rows of the table that are observations.\<close>

definition superseded_clause :: "database \<Rightarrow> regime_row \<Rightarrow> bool" where
  "superseded_clause con r \<longleftrightarrow> db_has_superseded con \<longrightarrow> ro_superseded r = None"

definition in_epoch :: "regime_row \<Rightarrow> bool" where
  "in_epoch r \<longleftrightarrow> SURVIVORSHIP_EPOCH_TS \<le> ro_ts r"

definition resolved_call :: "regime_row \<Rightarrow> bool" where
  "resolved_call r \<longleftrightarrow> ro_resolved r \<noteq> None \<and> in_epoch r"

type_synonym structural_key = "string \<times> int"

definition key_of :: "regime_row \<Rightarrow> structural_key" where
  "key_of r = (ro_kind r, ro_horizon_days r)"

record structural_total =
  to_kind :: string
  to_days :: int
  to_recorded :: int
  to_db_avg :: "real option"
  to_first_ts :: int

definition total_row :: "structural_key \<Rightarrow> regime_row list \<Rightarrow> structural_total" where
  "total_row k g =
     \<lparr>to_kind = fst k, to_days = snd k, to_recorded = int (length g),
      to_db_avg = Some (sum_list (map ro_historical g) / of_nat (length g)),
      to_first_ts = (case min_opt (map ro_ts g) of Some t \<Rightarrow> t | None \<Rightarrow> 0)\<rparr>"

text \<open>\<open>GROUP BY kind, horizon_days, day\<close> with the count and the sum of a 0/1 expression.\<close>

definition tally_days :: "(regime_row \<Rightarrow> bool) \<Rightarrow> regime_row list \<Rightarrow> (structural_key \<times> day_row list) list" where
  "tally_days hit rows =
     map (\<lambda>(k, g). (k, map (\<lambda>(d, g'). (d, int (length g'), of_int (count_if hit g')))
                          (group_by ro_day g)))
       (group_by key_of rows)"

definition is_correct :: "regime_row \<Rightarrow> bool" where
  "is_correct r \<longleftrightarrow> ro_correct r = Some 1"

definition naive_correct :: "regime_row \<Rightarrow> bool" where
  "naive_correct r \<longleftrightarrow> ro_naive r \<noteq> None \<and> ro_naive r = ro_actual r"

record structural_input =
  si_totals :: "structural_total list"
  si_days :: "(structural_key \<times> day_row list) list"
  si_naive :: "(structural_key \<times> day_row list) list"

definition model_rows :: "database \<Rightarrow> regime_row list \<Rightarrow> regime_row list" where
  "model_rows con rows = filter (\<lambda>r. resolved_call r \<and> superseded_clause con r) rows"

definition naive_rows :: "database \<Rightarrow> regime_row list \<Rightarrow> regime_row list" where
  "naive_rows con rows =
     (if db_has_naive con then filter (\<lambda>r. resolved_call r \<and> ro_naive r \<noteq> None) rows else [])"

definition fetch_structural :: "database \<Rightarrow> structural_input py" where
  "fetch_structural con =
     (case db_regime con of
        None \<Rightarrow> Inl OperationalErr
      | Some rows \<Rightarrow>
          Inr \<lparr>si_totals = map (\<lambda>(k, g). total_row k g)
                  (group_by key_of (filter (\<lambda>r. in_epoch r \<and> superseded_clause con r) rows)),
               si_days = tally_days is_correct (model_rows con rows),
               si_naive = tally_days naive_correct (naive_rows con rows)\<rparr>)"

section \<open>Grading one predictor\<close>

definition days_of :: "structural_key \<Rightarrow> (structural_key \<times> day_row list) list \<Rightarrow> day_row list" where
  "days_of k per_day = (case map_of per_day k of None \<Rightarrow> [] | Some ds \<Rightarrow> ds)"

definition claim_part_of :: "structural_total \<Rightarrow> prereg_claim option \<Rightarrow> claim_part" where
  "claim_part_of t pre =
     \<lparr>cl_claimed = (case pre of Some p \<Rightarrow> Some (pc_claimed p) | None \<Rightarrow> to_db_avg t),
      cl_source = Some (case pre of Some _ \<Rightarrow> ''prereg chain'' | None \<Rightarrow> ''DB average (NO CHAIN RECORD)''),
      cl_spec_hash = map_option pc_hash pre,
      cl_registered_ts = map_option pc_registered pre,
      cl_db_avg = to_db_avg t\<rparr>"

definition matched_null :: "ci_out \<Rightarrow> real option" where
  "matched_null ng = (if MIN_INDEPENDENT_N \<le> g_n ng then g_acc ng else None)"

definition null_coverage_of :: "ci_out \<Rightarrow> ci_out \<Rightarrow> real option" where
  "null_coverage_of g ng = (if g_n g = 0 then None else Some (of_int (g_n ng) / of_int (g_n g)))"

definition first_grade_day :: "structural_total \<Rightarrow> int" where
  "first_grade_day t = to_first_ts t div SECONDS_PER_DAY + to_days t"

definition interval_verdict ::
    "ci_out \<Rightarrow> real option \<Rightarrow> real option \<Rightarrow> real option \<Rightarrow> verdict" where
  "interval_verdict g null_acc claimed coverage =
     verdict_for (g_acc g) (map_option fst (g_ci g)) (map_option snd (g_ci g)) (g_n g)
       null_acc claimed None coverage (g_distinct_blocks g) None"

definition structural_verdict :: "structural_total \<Rightarrow> ci_out \<Rightarrow> ci_out \<Rightarrow> verdict" where
  "structural_verdict t g ng =
     (if g_n g < MIN_INDEPENDENT_N then Pending (first_grade_day t) (g_n g)
      else if matched_null ng = None then NoBaseline
      else interval_verdict g (matched_null ng) None (null_coverage_of g ng))"

definition structural_claim_verdict :: "claim_part \<Rightarrow> ci_out \<Rightarrow> verdict option" where
  "structural_claim_verdict c g =
     (if g_n g < MIN_INDEPENDENT_N then None
      else Some (interval_verdict g None (cl_claimed c) None))"

definition structural_evidence :: "ci_out \<Rightarrow> evidence_part" where
  "structural_evidence g =
     (let graded = MIN_INDEPENDENT_N \<le> g_n g
      in \<lparr>ev_ci_method = (if graded then Some (g_ci_method g) else None),
          ev_distinct_days = Some (g_distinct_days g),
          ev_distinct_blocks = g_distinct_blocks g,
          ev_block_span = g_block_span g,
          ev_horizon_days = g_horizon_days g,
          ev_design_effect = (if graded then g_design_effect g else None),
          ev_effective_n = (if graded then g_effective_n g else None)\<rparr>)"

definition persistence_method :: string where
  "persistence_method = ''naive-persistence (frozen at call time, same resolver)''"

definition structural_row ::
    "structural_total \<Rightarrow> prereg_claim option \<Rightarrow> ci_out \<Rightarrow> ci_out \<Rightarrow> surv_stamp \<Rightarrow> grade_row" where
  "structural_row t pre g ng surv =
     (let c = claim_part_of t pre;
          graded = MIN_INDEPENDENT_N \<le> g_n g;
          acc = (if graded then g_acc g else None)
      in \<lparr>r_predictor = to_kind t, r_family = ''structure'', r_band = ''all'', r_claim = c,
          r_n = g_n g, r_acc = acc, r_ci = (if graded then g_ci g else None),
          r_evidence = structural_evidence g,
          r_null = \<lparr>nl_prequential = None, nl_acc = matched_null ng,
                    nl_method = Some persistence_method, nl_n = Some (g_n ng),
                    nl_coverage = null_coverage_of g ng, nl_ci = g_ci ng\<rparr>,
          r_skill = skill_of acc (matched_null ng),
          r_verdict = Some (structural_verdict t g ng),
          r_claim_verdict = structural_claim_verdict c g,
          r_retire = None, r_breadth = None, r_recorded = Some (to_recorded t),
          r_surv = surv, r_settle = None, r_revision_gate = None, r_null_gate = False,
          r_price = None\<rparr>)"

definition benchmark_row :: "string \<Rightarrow> ci_out \<Rightarrow> ci_out \<Rightarrow> surv_stamp \<Rightarrow> grade_row" where
  "benchmark_row kind g ng surv =
     \<lparr>r_predictor = kind @ PERSISTENCE_SUFFIX, r_family = ''structure-benchmark'', r_band = ''all'',
      r_claim = no_claim, r_n = g_n ng, r_acc = g_acc ng, r_ci = g_ci ng,
      r_evidence = \<lparr>ev_ci_method = Some (g_ci_method ng), ev_distinct_days = Some (g_distinct_days ng),
                    ev_distinct_blocks = g_distinct_blocks ng, ev_block_span = g_block_span ng,
                    ev_horizon_days = g_horizon_days ng, ev_design_effect = g_design_effect ng,
                    ev_effective_n = g_effective_n ng\<rparr>,
      r_null = \<lparr>nl_prequential = None, nl_acc = None, nl_method = None, nl_n = None,
                nl_coverage = null_coverage_of g ng, nl_ci = None\<rparr>,
      r_skill = None,
      r_verdict = Some (if MIN_INDEPENDENT_N \<le> g_n ng then Benchmark
                        else BenchmarkInsufficient (g_n ng)),
      r_claim_verdict = None, r_retire = Some False, r_breadth = None, r_recorded = None,
      r_surv = surv, r_settle = None, r_revision_gate = None, r_null_gate = False,
      r_price = None\<rparr>"

definition grade_kind ::
    "real \<Rightarrow> (structural_key \<times> day_row list) list \<Rightarrow> (string \<times> prereg_claim) list
     \<Rightarrow> (structural_key \<times> day_row list) list \<Rightarrow> surv_stamp \<Rightarrow> structural_total \<Rightarrow> grade_row list" where
  "grade_kind z per_day claims naive surv t =
     (let k = (to_kind t, to_days t);
          g = clustered_ci_blocks z (days_of k per_day) (to_days t);
          ng = clustered_ci_blocks z (days_of k naive) (to_days t)
      in structural_row t (map_of claims (to_kind t)) g ng surv
         # (if g_n ng = 0 then [] else [benchmark_row (to_kind t) g ng surv]))"

definition grade_structural_days ::
    "real \<Rightarrow> structural_total list \<Rightarrow> (structural_key \<times> day_row list) list
     \<Rightarrow> (string \<times> prereg_claim) list \<Rightarrow> (structural_key \<times> day_row list) list
     \<Rightarrow> completeness option \<Rightarrow> grade_row list" where
  "grade_structural_days z totals per_day claims naive surv =
     concat (map (grade_kind z per_day claims naive (survivorship_stamp surv)) totals)"

definition grade_structural :: "real \<Rightarrow> database \<Rightarrow> grade_row list py" where
  "grade_structural z con =
     py_bind (fetch_structural con) (\<lambda>si.
       py_bind (fetch_prereg_claims con) (\<lambda>claims.
         Inr (grade_structural_days z (si_totals si) (si_days si) claims (si_naive si)
           (Some (measure_universe_completeness (Some con) ''regime_outcomes'')))))"

section \<open>The price moves intervals only\<close>

lemma structural_view:
  "map evidence_view (grade_structural_days z totals per_day claims naive surv)
   = map evidence_view (grade_structural_days z' totals per_day claims naive surv)"
proof -
  have kind: "map evidence_view (grade_kind z per_day claims naive sv t)
      = map evidence_view (grade_kind z' per_day claims naive sv t)" for sv t
    using blocks_price_blind [of z "days_of (to_kind t, to_days t) per_day" "to_days t" z']
      blocks_price_blind [of z "days_of (to_kind t, to_days t) naive" "to_days t" z']
    by (simp add: grade_kind_def Let_def evidence_view_def structural_row_def benchmark_row_def
        matched_null_def structural_evidence_def)
  show ?thesis unfolding grade_structural_days_def by (rule concat_view) (rule kind)
qed

lemma grade_structural_blind:
  "(\<exists>e. grade_structural z con = Inl e \<and> grade_structural z' con = Inl e)
   \<or> (\<exists>rs rs'. grade_structural z con = Inr rs \<and> grade_structural z' con = Inr rs'
         \<and> map evidence_view rs = map evidence_view rs')"
  unfolding grade_structural_def
  by (cases "fetch_structural con"; cases "fetch_prereg_claims con") (auto intro: structural_view)

section \<open>Every interval is computed at the quantile in force\<close>

lemma structural_priced: "r \<in> set (grade_structural_days z totals per_day claims naive surv) \<Longrightarrow> priced_at z r"
proof -
  have g: "priced_at z (structural_row t pre (clustered_ci_blocks z rows h) ng sv)"
    and n: "priced_at z (benchmark_row k g' (clustered_ci_blocks z rows h) sv)" for t pre rows h ng sv k g'
    using blocks_priced [of z rows h]
    by (auto simp: priced_at_def structural_row_def benchmark_row_def structural_evidence_def Let_def
        simp del: blocks_fields)
  assume "r \<in> set (grade_structural_days z totals per_day claims naive surv)"
  then show ?thesis
    by (auto simp: grade_structural_days_def grade_kind_def Let_def simp del: blocks_fields split: if_splits
        intro: g n)
qed

section \<open>Properties\<close>

lemma verdict_for_partial:
  "verdict_for acc lo hi n na c dd (Some cov) (Some b) cb \<in> {Failed, Validated, NoSkill} \<Longrightarrow>
   1 \<le> cov \<and> MIN_INDEPENDENT_N \<le> n \<and> na \<noteq> None"
  by (auto simp: verdict_for_def split: if_splits option.splits)

text \<open>
  C8. A structural row carries a verdict on skill only when the model and its frozen null both
  have thirty graded rows and the null's count is not short of the model's: a null measured on a
  part of the graded calls decides nothing.
\<close>

theorem skill_verdict_needs_matched_null:
  assumes "r \<in> set (grade_structural_days z totals per_day claims naive surv)"
    and "r_verdict r \<in> {Some Failed, Some Validated, Some NoSkill}"
  shows "r_family r = ''structure'' \<and> MIN_INDEPENDENT_N \<le> r_n r
    \<and> (\<exists>m. nl_n (r_null r) = Some m \<and> MIN_INDEPENDENT_N \<le> m \<and> r_n r \<le> m)
    \<and> nl_acc (r_null r) \<noteq> None"
proof -
  obtain t where t: "r \<in> set (grade_kind z per_day claims naive (survivorship_stamp surv) t)"
    using assms(1) by (auto simp: grade_structural_days_def)
  let ?k = "(to_kind t, to_days t)"
  let ?g = "clustered_ci_blocks z (days_of ?k per_day) (to_days t)"
  let ?ng = "clustered_ci_blocks z (days_of ?k naive) (to_days t)"
  have r: "r = structural_row t (map_of claims (to_kind t)) ?g ?ng (survivorship_stamp surv)"
    using t assms(2) by (auto simp: grade_kind_def Let_def benchmark_row_def split: if_splits)
  have v: "structural_verdict t ?g ?ng \<in> {Failed, Validated, NoSkill}"
    using assms(2) by (auto simp: r structural_row_def Let_def)
  then have n: "MIN_INDEPENDENT_N \<le> g_n ?g" and null: "matched_null ?ng \<noteq> None"
    and iv: "interval_verdict ?g (matched_null ?ng) None (null_coverage_of ?g ?ng)
               \<in> {Failed, Validated, NoSkill}"
    by (auto simp: structural_verdict_def split: if_splits)
  have pos: "0 < g_n ?g" using n by (simp add: MIN_INDEPENDENT_N_def del: blocks_fields)
  have cov: "null_coverage_of ?g ?ng = Some (real_of_int (g_n ?ng) / real_of_int (g_n ?g))"
    using pos by (simp add: null_coverage_of_def del: blocks_fields)
  note iv' = iv [unfolded interval_verdict_def cov blocks_fields(5)]
  have "1 \<le> real_of_int (g_n ?ng) / real_of_int (g_n ?g)"
    by (rule verdict_for_partial [OF iv', THEN conjunct1])
  then have "g_n ?g \<le> g_n ?ng" using pos by (simp add: le_divide_eq del: blocks_fields)
  moreover have "MIN_INDEPENDENT_N \<le> g_n ?ng"
    using null by (auto simp: matched_null_def simp del: blocks_fields split: if_splits)
  ultimately show ?thesis
    using n null by (simp add: r structural_row_def Let_def del: blocks_fields)
qed

definition flat_days :: "real \<Rightarrow> day_row list" where
  "flat_days h = map (\<lambda>d. (d, 4, h)) [0, 1, 2, 3, 4, 5, 6, 7, 8, 9]"

definition sample_total :: structural_total where
  "sample_total = \<lparr>to_kind = ''vol21'', to_days = 1, to_recorded = 40, to_db_avg = None, to_first_ts = 0\<rparr>"

definition sample_rows :: "grade_row list" where
  "sample_rows = grade_structural_days 2 [sample_total] [((''vol21'', 1), flat_days 0)] []
     [((''vol21'', 1), flat_days 4)] None"

theorem skill_verdict_needs_matched_null_witness:
  "r_verdict (hd sample_rows) = Some Failed \<and> nl_n (r_null (hd sample_rows)) = Some 40
   \<and> MIN_INDEPENDENT_N \<le> r_n (hd sample_rows)"
proof -
  let ?g = "clustered_ci_blocks 2 (flat_days 0) 1" and ?ng = "clustered_ci_blocks 2 (flat_days 4) 1"
  have blocks: "map snd (horizon_blocks (flat_days 0) 1) = four_misses" by code_simp
  have w: "wilson_eff 2 0 10 = (0, 2 / 7)"
    by (simp add: wilson_eff_closed w_hi_def w_rad_def power2_eq_square real_sqrt_divide)
  have ci: "g_ci ?g = Some (0, 2 / 7)"
    unfolding blocks_fields blocks
    by (simp add: clustered_ci_def lost_clusters MIN_DISTINCT_BLOCKS_def w)
  have n: "g_n ?g = 40" "g_n ?ng = 40" "g_acc ?ng = Some 1"
    by (simp_all add: flat_days_def tally_n_def tally_hits_def)
  have null: "matched_null ?ng = Some 1" and cov: "null_coverage_of ?g ?ng = Some 1"
    using n by (simp_all add: matched_null_def null_coverage_of_def MIN_INDEPENDENT_N_def del: blocks_fields)
  have "interval_verdict ?g (Some 1) None (Some 1) = Failed"
    unfolding interval_verdict_def verdict_for_Failed
    by (intro conjI exI [of _ "0"] exI [of _ "2/7"] exI [of _ "1"])
      (simp_all add: ci n MIN_INDEPENDENT_N_def VERDICT_EPS_def del: blocks_fields)
  then have v: "structural_verdict sample_total ?g ?ng = Failed"
    using n by (simp add: structural_verdict_def null cov MIN_INDEPENDENT_N_def del: blocks_fields)
  have row: "hd sample_rows = structural_row sample_total None ?g ?ng (survivorship_stamp None)"
    and mem: "hd sample_rows \<in> set sample_rows"
    by (simp_all add: sample_rows_def grade_structural_days_def grade_kind_def Let_def sample_total_def days_of_def)
  have verdict: "r_verdict (hd sample_rows) = Some Failed"
    by (simp add: row structural_row_def Let_def v)
  have nn: "nl_n (r_null (hd sample_rows)) = Some 40"
    by (simp add: row structural_row_def Let_def n del: blocks_fields)
  have "r_verdict (hd sample_rows) \<in> {Some Failed, Some Validated, Some NoSkill}"
    by (simp add: verdict)
  from skill_verdict_needs_matched_null [OF mem [unfolded sample_rows_def] this [unfolded sample_rows_def]] verdict nn
  show ?thesis unfolding sample_rows_def by blast
qed

text \<open>
  The coverage of the frozen null counts rows the model is not graded on. \<open>fetch_structural\<close>
  leaves superseded calls out of the model's tallies but not out of the null's, so a superseded
  call with a label fills in for a graded call without one: here the only graded call carries no
  frozen label and the coverage still reads one.
\<close>

definition regime_call :: "int \<Rightarrow> string option \<Rightarrow> int option \<Rightarrow> regime_row" where
  "regime_call i naive superseded =
     \<lparr>ro_id = i, ro_symbol = 7, ro_kind = ''trend21'', ro_ts = SURVIVORSHIP_EPOCH_TS + i, ro_day = 20700,
      ro_horizon_days = 21, ro_historical = 8/10, ro_resolved = Some 1800000000,
      ro_actual = Some ''up'', ro_correct = Some 1, ro_naive = naive, ro_revision = None,
      ro_superseded = superseded\<rparr>"

definition superseded_pair :: database where
  "superseded_pair = empty_db\<lparr>db_has_naive := True, db_has_superseded := True,
     db_regime := Some [regime_call 1 None None, regime_call 2 (Some ''up'') (Some 1)]\<rparr>"

definition pair_days :: "(structural_input \<Rightarrow> (structural_key \<times> day_row list) list) \<Rightarrow> day_row list" where
  "pair_days sel = (case fetch_structural superseded_pair of
     Inr si \<Rightarrow> days_of (''trend21'', 21) (sel si) | Inl _ \<Rightarrow> [])"

theorem coverage_counts_superseded_calls:
  "map ro_naive (model_rows superseded_pair (the (db_regime superseded_pair))) = [None]
   \<and> null_coverage_of (clustered_ci_blocks z (pair_days si_days) 21)
       (clustered_ci_blocks z (pair_days si_naive) 21) = Some 1"
proof
  show "map ro_naive (model_rows superseded_pair (the (db_regime superseded_pair))) = [None]"
    by code_simp
  have "pair_days si_days = [(20700, 1, 1)]" "pair_days si_naive = [(20700, 1, 1)]"
    by code_simp+
  then show "null_coverage_of (clustered_ci_blocks z (pair_days si_days) 21)
       (clustered_ci_blocks z (pair_days si_naive) 21) = Some 1"
    by (simp add: null_coverage_of_def tally_n_def)
qed

end
