(* ===== verification/Sha256.thy ===== *)
theory Sha256
  imports SD_Prelude "HOL-Library.Word"
begin

text \<open>
  \<open>hashlib.sha256(\<dots>).hexdigest()\<close> (FIPS 180-4) on byte strings, over \<^typ>\<open>32 word\<close>: the digest
  the grader computes of itself, of the auto-retire rule and of every snapshot file. It is the
  standard library's function, written out so that the digests of the model are the ones the
  program computes.
\<close>

unbundle bit_operations_syntax

type_synonym w32 = "32 word"

text \<open>
  The constants are not tabulated: they are the first 32 bits of the fractional parts of the
  cube roots of the first 64 primes and of the square roots of the first 8, found one bit at a
  time. \<open>root_bits k n b r\<close> settles the \<open>b\<close> low bits of the integer part of the \<open>k\<close>-th root of \<open>n\<close>.
\<close>

fun root_bits :: "nat \<Rightarrow> nat \<Rightarrow> nat \<Rightarrow> nat \<Rightarrow> nat" where
  "root_bits k n 0 r = r"
| "root_bits k n (Suc b) r = root_bits k n b (if (r + 2 ^ b) ^ k \<le> n then r + 2 ^ b else r)"

lemma root_bits_floor:
  assumes "r ^ k \<le> n" and "n < (r + 2 ^ b) ^ k"
  shows "root_bits k n b r ^ k \<le> n \<and> n < (root_bits k n b r + 1) ^ k"
  using assms
proof (induction b arbitrary: r)
  case (Suc b)
  have "r + 2 ^ Suc b = (r + 2 ^ b) + 2 ^ b" by simp
  with Suc.prems Suc.IH [of "r + 2 ^ b"] Suc.IH [of r] show ?case
    by (simp only: root_bits.simps) (simp add: not_le)
qed simp

definition small_primes :: "nat list" where
  "small_primes = filter (\<lambda>p. \<forall>d \<in> set [2..<p]. p mod d \<noteq> 0) [2..<312]"

definition fraction_word :: "nat \<Rightarrow> nat \<Rightarrow> w32" where
  "fraction_word k p = word_of_nat (root_bits k (p * 2 ^ (32 * k)) 37 0)"

text \<open>Thirty-seven bits are enough for both roots: they are exact integer parts.\<close>

lemma fraction_word_exact:
  assumes "k = 2 \<or> k = 3" and "p < 312"
  shows "\<exists>r. fraction_word k p = word_of_nat r \<and> r ^ k \<le> p * 2 ^ (32 * k)
           \<and> p * 2 ^ (32 * k) < (r + 1) ^ k"
proof -
  have "p * 2 ^ (32 * k) < (0 + 2 ^ 37) ^ k" using assms by auto
  moreover have "0 ^ k \<le> p * 2 ^ (32 * k)" using assms by auto
  ultimately show ?thesis
    using root_bits_floor [of 0 k "p * 2 ^ (32 * k)" 37] unfolding fraction_word_def by blast
qed

definition round_constants :: "w32 list" where
  "round_constants = map (fraction_word 3) small_primes"

type_synonym sha_state = "w32 \<times> w32 \<times> w32 \<times> w32 \<times> w32 \<times> w32 \<times> w32 \<times> w32"

definition initial_hash :: sha_state where
  "initial_hash =
     (fraction_word 2 2, fraction_word 2 3, fraction_word 2 5, fraction_word 2 7,
      fraction_word 2 11, fraction_word 2 13, fraction_word 2 17, fraction_word 2 19)"

definition rotr :: "nat \<Rightarrow> w32 \<Rightarrow> w32" where
  "rotr k x = drop_bit k x OR push_bit (32 - k) x"

definition small_sigma :: "nat \<Rightarrow> nat \<Rightarrow> nat \<Rightarrow> w32 \<Rightarrow> w32" where
  "small_sigma a b s x = rotr a x XOR rotr b x XOR drop_bit s x"

definition big_sigma :: "nat \<Rightarrow> nat \<Rightarrow> nat \<Rightarrow> w32 \<Rightarrow> w32" where
  "big_sigma a b c x = rotr a x XOR rotr b x XOR rotr c x"

text \<open>The message schedule, newest word first.\<close>

fun schedule :: "nat \<Rightarrow> w32 list \<Rightarrow> w32 list" where
  "schedule 0 ws = ws"
| "schedule (Suc k) ws =
     schedule k ((small_sigma 17 19 10 (ws ! 1) + ws ! 6 + small_sigma 7 18 3 (ws ! 14) + ws ! 15) # ws)"

fun sha_round :: "sha_state \<Rightarrow> w32 \<times> w32 \<Rightarrow> sha_state" where
  "sha_round (a, b, c, d, e, f, g, h) (k, w) =
     (let t1 = h + big_sigma 6 11 25 e + ((e AND f) XOR (NOT e AND g)) + k + w;
          t2 = big_sigma 2 13 22 a + ((a AND b) XOR (a AND c) XOR (b AND c))
      in (t1 + t2, a, b, c, d + t1, e, f, g))"

fun add_state :: "sha_state \<Rightarrow> sha_state \<Rightarrow> sha_state" where
  "add_state (a, b, c, d, e, f, g, h) (a', b', c', d', e', f', g', h') =
     (a + a', b + b', c + c', d + d', e + e', f + f', g + g', h + h')"

definition compress :: "sha_state \<Rightarrow> w32 list \<Rightarrow> sha_state" where
  "compress st ws =
     add_state st (foldl sha_round st (zip round_constants (rev (schedule 48 (rev ws)))))"

fun be_words :: "nat list \<Rightarrow> w32 list" where
  "be_words (a # b # c # d # rest) = word_of_nat (((a * 256 + b) * 256 + c) * 256 + d) # be_words rest"
| "be_words _ = []"

fun chunk16 :: "nat \<Rightarrow> w32 list \<Rightarrow> w32 list list" where
  "chunk16 0 ws = []"
| "chunk16 (Suc k) ws = take 16 ws # chunk16 k (drop 16 ws)"

definition be_bytes :: "nat \<Rightarrow> nat \<Rightarrow> nat list" where
  "be_bytes k n = map (\<lambda>i. n div 256 ^ (k - 1 - i) mod 256) [0..<k]"

definition pad_message :: "nat list \<Rightarrow> nat list" where
  "pad_message bs =
     bs @ 128 # replicate ((119 - length bs mod 64) mod 64) 0 @ be_bytes 8 (8 * length bs)"

definition hex_char :: "nat \<Rightarrow> char" where
  "hex_char d = ''0123456789abcdef'' ! d"

definition hex_word :: "w32 \<Rightarrow> string" where
  "hex_word w = concat (map (\<lambda>b. [hex_char (b div 16), hex_char (b mod 16)]) (be_bytes 4 (unat w)))"

definition sha256_bytes :: "nat list \<Rightarrow> sha_state" where
  "sha256_bytes bs =
     (let ws = be_words (pad_message bs)
      in foldl compress initial_hash (chunk16 (length ws div 16) ws))"

definition sha256 :: "string \<Rightarrow> string" where
  "sha256 s =
     (case sha256_bytes (map of_char s) of (a, b, c, d, e, f, g, h) \<Rightarrow>
        concat (map hex_word [a, b, c, d, e, f, g, h]))"

lemma pad_fits:
  assumes "m < (64::nat)"
  shows "(m + 9 + (119 - m) mod 64) mod 64 = 0"
proof (cases "m \<le> 55")
  case True
  then obtain k where k: "55 = m + k" using le_Suc_ex by blast
  then have "119 - m = k + 64" by simp
  then have "(119 - m) mod 64 = k" using k by simp
  then have "m + 9 + (119 - m) mod 64 = 64" using k by simp
  then show ?thesis by (simp only: mod_self)
next
  case False
  then have "(119 - m) mod 64 = 119 - m" by simp
  then have "m + 9 + (119 - m) mod 64 = 2 * 64" using assms by simp
  then show ?thesis by (simp only: mod_mult_self2_is_0)
qed

lemma pad_message_blocks: "length (pad_message bs) mod 64 = 0"
proof -
  have "length (pad_message bs) mod 64
      = (length bs mod 64 + 9 + (119 - length bs mod 64) mod 64) mod 64"
    by (simp add: pad_message_def be_bytes_def add.assoc mod_add_left_eq)
  then show ?thesis by (simp add: pad_fits)
qed

lemma hex_word_length: "length (hex_word w) = 8"
  by (simp add: hex_word_def be_bytes_def upt_rec)

lemma sha256_length: "length (sha256 s) = 64"
  by (simp add: sha256_def hex_word_length split: prod.splits)

end
