(* ===== verification/Research_Liveness.thy ===== *)
theory Research_Liveness
  imports Day_Fold
begin

text \<open>
  The research-loop liveness check (\<open>tools/research_liveness.py\<close>): every narrated grid search
  must have its judgment ledger, and every registered forecast kind must have forecast or have a
  refusal on record. \<open>check_liveness\<close> lists the violations, \<open>partition_violations\<close> separates the
  acknowledged ones, and the exit status of the tool is \<open>liveness_main\<close>.
\<close>

section \<open>Violations\<close>

datatype violation_mode =
    NeverForecast string int int       \<comment> \<open>kind, registered, now\<close>
  | MissingTable nat                   \<comment> \<open>grid size\<close>
  | MissingRunsTable nat
  | MissingRun nat "string list"       \<comment> \<open>grid size, days looked up\<close>
  | JudgmentCount nat string nat       \<comment> \<open>grid size, day, rows found\<close>

record violation =
  vi_run_id :: int
  vi_mode :: violation_mode
  vi_detail :: string

definition mode_text :: "violation_mode \<Rightarrow> string" where
  "mode_text m =
     (case m of
        NeverForecast _ _ _ \<Rightarrow> ''prereg-never-forecast''
      | MissingTable _ \<Rightarrow> ''missing-table''
      | MissingRunsTable _ \<Rightarrow> ''missing-run''
      | MissingRun _ _ \<Rightarrow> ''missing-run''
      | JudgmentCount _ _ _ \<Rightarrow> ''judgment-count'')"

section \<open>Registered forecasts\<close>

definition PREREG_HORIZON_KEY :: string where "PREREG_HORIZON_KEY = ''horizonDays''"
definition PREREG_GRACE_DAYS :: int where "PREREG_GRACE_DAYS = 1"

definition utc_day :: "int \<Rightarrow> string" where
  "utc_day ts = iso_date (ts div SECONDS_PER_DAY)"

definition commits_to_a_horizon :: "blob \<Rightarrow> bool" where
  "commits_to_a_horizon spec =
     (if blob_text spec = [] then False
      else case blob_json spec of
             None \<Rightarrow> contains PREREG_HORIZON_KEY (blob_text spec)
           | Some (JObj d) \<Rightarrow> map_of d PREREG_HORIZON_KEY \<noteq> None
           | Some _ \<Rightarrow> False)"

fun first_of_kind :: "string list \<Rightarrow> prereg_row list \<Rightarrow> prereg_row list" where
  "first_of_kind seen [] = []"
| "first_of_kind seen (r # rs) =
     (if pr_kind r \<in> set seen then first_of_kind seen rs
      else r # first_of_kind (pr_kind r # seen) rs)"

definition registered_forecast_kinds :: "prereg_row list \<Rightarrow> (string \<times> int \<times> int) list" where
  "registered_forecast_kinds recs =
     map (\<lambda>r. (pr_kind r, pr_seq r, pr_ts r))
       (first_of_kind [] (filter (\<lambda>r. commits_to_a_horizon (pr_spec r)) (sort_key pr_seq recs)))"

definition kind_slug :: "string \<Rightarrow> string" where
  "kind_slug kind =
     (let s = rev (dropWhile is_digit (rev kind)) in if s = [] then kind else s)"

definition refusal_on_record :: "database \<Rightarrow> string \<Rightarrow> int \<Rightarrow> bool" where
  "refusal_on_record con kind since \<longleftrightarrow>
     (case db_loop_runs con of
        None \<Rightarrow> False
      | Some runs \<Rightarrow> \<exists>r \<in> set runs. utc_day since \<le> lr_day r \<and> lr_refusal r \<noteq> [])
     \<or> (case db_dq con of
          None \<Rightarrow> False
        | Some dq \<Rightarrow> \<exists>q \<in> set dq. since \<le> dq_ts q
            \<and> (like (''%'' @ kind_slug kind @ ''%'') (dq_kind q)
               \<or> like (''%'' @ kind @ ''%'') (dq_detail q)))"

definition outcomes_of_kind :: "database \<Rightarrow> string \<Rightarrow> nat" where
  "outcomes_of_kind con kind =
     (case db_regime con of
        None \<Rightarrow> 0
      | Some rows \<Rightarrow> length (filter (\<lambda>r. ro_kind r = kind) rows))"

definition never_forecast :: "database \<Rightarrow> int \<Rightarrow> string \<times> int \<times> int \<Rightarrow> bool" where
  "never_forecast con now k = (case k of (kind, seq, ts) \<Rightarrow>
     PREREG_GRACE_DAYS * SECONDS_PER_DAY < now - ts
     \<and> outcomes_of_kind con kind = 0 \<and> \<not> refusal_on_record con kind ts)"

definition minute_stamp :: "int \<Rightarrow> string" where
  "minute_stamp ts =
     utc_day ts @ '' '' @ pad_left 2 (str_int (ts mod SECONDS_PER_DAY div 3600)) @ '':''
       @ pad_left 2 (str_int (ts mod 3600 div 60)) @ '' UTC''"

definition never_forecast_violation :: "int \<Rightarrow> string \<times> int \<times> int \<Rightarrow> violation" where
  "never_forecast_violation now k = (case k of (kind, seq, ts) \<Rightarrow>
     \<lparr>vi_run_id = seq, vi_mode = NeverForecast kind ts now, vi_detail = ''kind='' @ kind @ '' registered '' @ minute_stamp ts\<rparr>)"

definition check_prereg_forecasts :: "database \<Rightarrow> int \<Rightarrow> violation list" where
  "check_prereg_forecasts con now =
     (case db_prereg con of
        None \<Rightarrow> []
      | Some recs \<Rightarrow>
          map (never_forecast_violation now)
            (filter (never_forecast con now)
               (sort_key (\<lambda>(_, _, ts). ts) (registered_forecast_kinds recs))))"

section \<open>Narrated searches\<close>

text \<open>\<open>searched a (\d+)-rule grid\<close>: the first match in the narration.\<close>

definition grid_match :: "string \<Rightarrow> nat option" where
  "grid_match s =
     (if starts_with ''searched a '' s then
        (let rest = drop (length ''searched a '') s; ds = takeWhile is_digit rest
         in if ds \<noteq> [] \<and> starts_with ''-rule grid'' (dropWhile is_digit rest)
            then Some (digits_val ds) else None)
      else None)"

fun grid_claim :: "string \<Rightarrow> nat option" where
  "grid_claim [] = None"
| "grid_claim (c # s) = (case grid_match (c # s) of Some n \<Rightarrow> Some n | None \<Rightarrow> grid_claim s)"

definition grid_claims :: "worker_run list \<Rightarrow> (worker_run \<times> nat) list" where
  "grid_claims runs =
     List.map_filter (\<lambda>r. map_option (\<lambda>n. (r, n)) (grid_claim (wr_detail r)))
       (sort_key wr_id (filter (\<lambda>r. wr_worker r = ''research-loop'' \<and> wr_status r = ''ok'') runs))"

text \<open>\<open>_utc_days\<close>: the days of the two endpoints that are set, without repetition.\<close>

definition utc_days :: "worker_run \<Rightarrow> string list" where
  "utc_days r =
     (let stamps = List.map_filter (\<lambda>t. case t of None \<Rightarrow> None | Some s \<Rightarrow> if s = 0 then None else Some s)
                     [Some (wr_started r), wr_finished r]
      in rev (remdups (rev (map utc_day stamps))))"

definition judged_day :: "loop_run list \<Rightarrow> string \<Rightarrow> bool" where
  "judged_day runs day =
     (case find (\<lambda>r. lr_day r = day) runs of Some r \<Rightarrow> 0 < lr_judged r | None \<Rightarrow> False)"

definition judgments_on :: "string list \<Rightarrow> string \<Rightarrow> nat" where
  "judgments_on js day = length (filter (\<lambda>d. d = day) js)"

definition claim_mode :: "database \<Rightarrow> worker_run \<Rightarrow> nat \<Rightarrow> violation_mode option" where
  "claim_mode con r grid =
     (case db_judgments con of
        None \<Rightarrow> Some (MissingTable grid)
      | Some js \<Rightarrow>
          (case db_loop_runs con of
             None \<Rightarrow> Some (MissingRunsTable grid)
           | Some runs \<Rightarrow>
               (case find (judged_day runs) (utc_days r) of
                  None \<Rightarrow> Some (MissingRun grid (utc_days r))
                | Some day \<Rightarrow>
                    (if judgments_on js day \<noteq> grid
                     then Some (JudgmentCount grid day (judgments_on js day)) else None))))"

definition claim_violation :: "database \<Rightarrow> worker_run \<times> nat \<Rightarrow> violation option" where
  "claim_violation con c = (case c of (r, grid) \<Rightarrow>
     map_option (\<lambda>m. \<lparr>vi_run_id = wr_id r, vi_mode = m, vi_detail = wr_detail r\<rparr>)
       (claim_mode con r grid))"

definition check_liveness :: "database \<Rightarrow> int \<Rightarrow> violation list py" where
  "check_liveness con now =
     (case db_worker_runs con of
        None \<Rightarrow> Inl OperationalErr
      | Some runs \<Rightarrow>
          Inr (check_prereg_forecasts con now
               @ List.map_filter (claim_violation con) (grid_claims runs)))"

section \<open>The quarantine and the exit status\<close>

definition QUARANTINE_META_KEY :: string where
  "QUARANTINE_META_KEY = ''research_narration_quarantine''"

text \<open>\<open>isinstance(rid, int)\<close> holds of a boolean too.\<close>

fun as_run_id :: "json \<Rightarrow> int option" where
  "as_run_id (JInt i) = Some i"
| "as_run_id (JBool b) = Some (if b then 1 else 0)"
| "as_run_id _ = None"

fun quarantine_entries :: "json list \<Rightarrow> (int \<times> json) list py" where
  "quarantine_entries [] = Inr []"
| "quarantine_entries (JObj d # es) =
     py_bind (quarantine_entries es) (\<lambda>rest.
       case as_run_id (jget ''runId'' d) of
         None \<Rightarrow> Inr rest
       | Some i \<Rightarrow> Inr ((i, jget_or (JStr ''acknowledged unverifiable'') ''reason'' d) # rest))"
| "quarantine_entries (_ # es) = Inl AttributeErr"

fun quarantine_of :: "json \<Rightarrow> (int \<times> json) list py" where
  "quarantine_of (JObj d) =
     (case jget_or (JArr []) ''claims'' d of
        JArr es \<Rightarrow> quarantine_entries es
      | JStr s \<Rightarrow> if s = [] then Inr [] else Inl AttributeErr
      | JObj e \<Rightarrow> if e = [] then Inr [] else Inl AttributeErr
      | _ \<Rightarrow> Inl TypeErr)"
| "quarantine_of _ = Inl AttributeErr"

definition narration_quarantine :: "database \<Rightarrow> (int \<times> json) list py" where
  "narration_quarantine con =
     (case db_meta con of
        None \<Rightarrow> Inr []
      | Some kv \<Rightarrow>
          (case map_of kv QUARANTINE_META_KEY of
             None \<Rightarrow> Inr []
           | Some b \<Rightarrow>
               (if blob_text b = [] then Inr []
                else case blob_json b of None \<Rightarrow> Inr [] | Some j \<Rightarrow> quarantine_of j)))"

definition quarantined :: "(int \<times> json) list \<Rightarrow> violation \<Rightarrow> bool" where
  "quarantined q v \<longleftrightarrow> vi_run_id v \<in> fst ` set q"

definition partition_violations ::
    "database \<Rightarrow> violation list \<Rightarrow> (violation list \<times> (violation \<times> json) list) py" where
  "partition_violations con vs =
     py_bind (narration_quarantine con) (\<lambda>q.
       Inr (filter (\<lambda>v. \<not> quarantined q v) vs,
            map (\<lambda>v. (v, the (map_of (rev q) (vi_run_id v)))) (filter (quarantined q) vs)))"

datatype db_path = NoDatabase | Unopenable | Opened database

definition blocking_violations :: "database \<Rightarrow> int \<Rightarrow> violation list py" where
  "blocking_violations con now =
     py_bind (check_liveness con now) (\<lambda>vs.
       py_bind (partition_violations con vs) (\<lambda>(blocking, _). Inr blocking))"

text \<open>The status \<open>main\<close> returns; \<^term>\<open>Inl e\<close> is an exception that leaves it.\<close>

definition liveness_main :: "db_path \<Rightarrow> int \<Rightarrow> int py" where
  "liveness_main path now =
     (case path of
        NoDatabase \<Rightarrow> Inr 2
      | Unopenable \<Rightarrow> Inr 2
      | Opened con \<Rightarrow>
          (case blocking_violations con now of
             Inl OperationalErr \<Rightarrow> Inr 2
           | Inl e \<Rightarrow> Inl e
           | Inr vs \<Rightarrow> Inr (if vs = [] then 0 else 1)))"

section \<open>Facts\<close>

lemma map_filter_Nil_iff: "List.map_filter f xs = [] \<longleftrightarrow> (\<forall>x \<in> set xs. f x = None)"
  by (auto simp: map_filter_def filter_empty_conv)

lemma set_map_filter: "set (List.map_filter f xs) = {y. \<exists>x \<in> set xs. f x = Some y}"
  by (force simp: map_filter_def)

lemma grid_claims_iff:
  "(r, g) \<in> set (grid_claims runs) \<longleftrightarrow>
   r \<in> set runs \<and> wr_worker r = ''research-loop'' \<and> wr_status r = ''ok'' \<and> grid_claim (wr_detail r) = Some g"
  by (auto simp: grid_claims_def set_map_filter)

lemma claim_mode_None_iff:
  "claim_mode con r g = None \<longleftrightarrow>
   (\<exists>js lruns day. db_judgments con = Some js \<and> db_loop_runs con = Some lruns
      \<and> find (judged_day lruns) (utc_days r) = Some day \<and> judgments_on js day = g)"
  by (auto simp: claim_mode_def split: option.splits if_splits)

lemma check_liveness_Nil:
  "db_worker_runs con = Some runs \<Longrightarrow> check_liveness con now = Inr [] \<longleftrightarrow>
     check_prereg_forecasts con now = [] \<and> (\<forall>(r, g) \<in> set (grid_claims runs). claim_mode con r g = None)"
  by (auto simp: check_liveness_def map_filter_Nil_iff claim_violation_def)

section \<open>Properties\<close>

text \<open>The record that first registers a kind with a horizon.\<close>

definition first_registration :: "prereg_row list \<Rightarrow> prereg_row \<Rightarrow> bool" where
  "first_registration recs r \<longleftrightarrow> r \<in> set recs \<and> commits_to_a_horizon (pr_spec r)
     \<and> (\<forall>s \<in> set recs. commits_to_a_horizon (pr_spec s) \<and> pr_kind s = pr_kind r \<longrightarrow> pr_seq r \<le> pr_seq s)"

text \<open>A forecast of the kind is stored, or a refusal is on record since it was registered.\<close>

definition accounted_for :: "database \<Rightarrow> prereg_row \<Rightarrow> bool" where
  "accounted_for con r \<longleftrightarrow>
     (\<exists>rows. db_regime con = Some rows \<and> (\<exists>x \<in> set rows. ro_kind x = pr_kind r))
     \<or> (\<exists>runs. db_loop_runs con = Some runs \<and> (\<exists>x \<in> set runs. utc_day (pr_ts r) \<le> lr_day x \<and> lr_refusal x \<noteq> []))
     \<or> (\<exists>dq. db_dq con = Some dq \<and> (\<exists>q \<in> set dq. pr_ts r \<le> dq_ts q
          \<and> (like (''%'' @ kind_slug (pr_kind r) @ ''%'') (dq_kind q) \<or> like (''%'' @ pr_kind r @ ''%'') (dq_detail q))))"

lemma first_of_kind_iff:
  "sorted (map pr_seq rs) \<Longrightarrow> distinct (map pr_seq rs) \<Longrightarrow>
   r \<in> set (first_of_kind seen rs) \<longleftrightarrow> r \<in> set rs \<and> pr_kind r \<notin> set seen
     \<and> (\<forall>s \<in> set rs. pr_kind s = pr_kind r \<longrightarrow> pr_seq r \<le> pr_seq s)"
proof (induction rs arbitrary: seen)
  case (Cons a rs)
  have low: "pr_seq a < pr_seq s" if "s \<in> set rs" for s
    using Cons.prems that by (force simp: order_le_less)
  then have new: "r \<in> set rs \<Longrightarrow> \<not> pr_seq r \<le> pr_seq a" by force
  show ?case
  proof (cases "pr_kind a \<in> set seen")
    case True
    then show ?thesis using Cons.IH [of seen] Cons.prems new by auto
  next
    case False
    then show ?thesis using Cons.IH [of "pr_kind a # seen"] Cons.prems new low by (auto intro: order_less_imp_le)
  qed
qed simp

lemma registered_iff:
  assumes "distinct (map pr_seq recs)"
  shows "k \<in> set (registered_forecast_kinds recs) \<longleftrightarrow>
    (\<exists>r. first_registration recs r \<and> k = (pr_kind r, pr_seq r, pr_ts r))"
proof -
  let ?rs = "filter (\<lambda>r. commits_to_a_horizon (pr_spec r)) (sort_key pr_seq recs)"
  have "sorted (map pr_seq ?rs)" by (rule sorted_filter) simp
  moreover have "distinct (map pr_seq ?rs)"
    using assms by (simp add: distinct_map inj_on_def)
  ultimately show ?thesis
    by (auto simp: registered_forecast_kinds_def first_of_kind_iff first_registration_def)
qed

lemma never_forecast_iff:
  "never_forecast con now (pr_kind r, pr_seq r, pr_ts r) \<longleftrightarrow>
     SECONDS_PER_DAY < now - pr_ts r \<and> \<not> accounted_for con r"
proof -
  have "outcomes_of_kind con (pr_kind r) = 0 \<longleftrightarrow>
      \<not> (\<exists>rows. db_regime con = Some rows \<and> (\<exists>x \<in> set rows. ro_kind x = pr_kind r))"
    by (auto simp: outcomes_of_kind_def filter_empty_conv split: option.splits)
  then show ?thesis
    by (auto simp: never_forecast_def accounted_for_def refusal_on_record_def PREREG_GRACE_DAYS_def
        split: option.splits)
qed

lemma prereg_passes_iff:
  assumes "\<forall>recs \<in> set_option (db_prereg con). distinct (map pr_seq recs)"
  shows "check_prereg_forecasts con now = [] \<longleftrightarrow>
    (\<forall>recs r. db_prereg con = Some recs \<and> first_registration recs r
       \<and> SECONDS_PER_DAY < now - pr_ts r \<longrightarrow> accounted_for con r)"
proof (cases "db_prereg con")
  case (Some recs)
  then have "check_prereg_forecasts con now = [] \<longleftrightarrow>
      (\<forall>k \<in> set (registered_forecast_kinds recs). \<not> never_forecast con now k)"
    by (auto simp: check_prereg_forecasts_def filter_empty_conv)
  also have "\<dots> \<longleftrightarrow> (\<forall>r. first_registration recs r
      \<longrightarrow> \<not> never_forecast con now (pr_kind r, pr_seq r, pr_ts r))"
    using registered_iff [of recs] assms Some by auto
  finally show ?thesis using Some by (auto simp: never_forecast_iff)
qed (simp add: check_prereg_forecasts_def)

text \<open>
  C12. The check passes exactly when every forecast kind registered more than a day ago, counted
  from its first record that commits to a horizon, has a stored forecast or a refusal on record since,
  and every successful research-loop run that narrates a grid search has a day with a judged pass
  whose ledger holds exactly as many judgments as the narrated grid. The sequence number is the key
  of the records.
\<close>

theorem liveness_passes_iff_corroborated:
  assumes "db_worker_runs con = Some runs"
    and "\<forall>recs \<in> set_option (db_prereg con). distinct (map pr_seq recs)"
  shows "check_liveness con now = Inr [] \<longleftrightarrow>
     (\<forall>recs r. db_prereg con = Some recs \<and> first_registration recs r
        \<and> SECONDS_PER_DAY < now - pr_ts r \<longrightarrow> accounted_for con r)
   \<and> (\<forall>r \<in> set runs. \<forall>g. wr_worker r = ''research-loop'' \<longrightarrow> wr_status r = ''ok''
        \<longrightarrow> grid_claim (wr_detail r) = Some g
        \<longrightarrow> (\<exists>js lruns day. db_judgments con = Some js \<and> db_loop_runs con = Some lruns
              \<and> find (judged_day lruns) (utc_days r) = Some day \<and> judgments_on js day = g))"
proof -
  have "(\<forall>(r, g) \<in> set (grid_claims runs). claim_mode con r g = None) \<longleftrightarrow>
     (\<forall>r \<in> set runs. \<forall>g. wr_worker r = ''research-loop'' \<longrightarrow> wr_status r = ''ok''
        \<longrightarrow> grid_claim (wr_detail r) = Some g
        \<longrightarrow> (\<exists>js lruns day. db_judgments con = Some js \<and> db_loop_runs con = Some lruns
              \<and> find (judged_day lruns) (utc_days r) = Some day \<and> judgments_on js day = g))"
    unfolding claim_mode_None_iff [symmetric] by (auto simp: grid_claims_iff)
  then show ?thesis by (simp add: check_liveness_Nil [OF assms(1)] prereg_passes_iff [OF assms(2)])
qed

definition narrated_run :: worker_run where
  "narrated_run = \<lparr>wr_id = 10, wr_worker = ''research-loop'', wr_started = 1784937600,
     wr_finished = Some 1784941200, wr_status = ''ok'', wr_detail = ''ok: searched a 2-rule grid'',
     wr_revision = []\<rparr>"

definition registered_vol :: prereg_row where
  "registered_vol = \<lparr>pr_seq = 3, pr_ts = 1784900000, pr_kind = ''vol21'',
     pr_spec = Blob ''spec'' (Some (JObj [(PREREG_HORIZON_KEY, JInt 21)])), pr_hash = []\<rparr>"

definition judged_db :: database where
  "judged_db = empty_db\<lparr>db_worker_runs := Some [narrated_run], db_prereg := Some [registered_vol],
     db_loop_runs := Some [\<lparr>lr_day = ''2026-07-25'', lr_judged = 2, lr_refusal = []\<rparr>,
       \<lparr>lr_day = ''2026-07-26'', lr_judged = 0, lr_refusal = ''no feed''\<rparr>],
     db_judgments := Some [''2026-07-25'', ''2026-07-25'']\<rparr>"

theorem liveness_passes_iff_corroborated_witness:
  "check_liveness judged_db 1785000000 = Inr [] \<and> accounted_for judged_db registered_vol
   \<and> (\<exists>js day. db_judgments judged_db = Some js \<and> judgments_on js day = 2)"
proof -
  have ok: "check_liveness judged_db 1785000000 = Inr []" by code_simp
  have g: "grid_claim (wr_detail narrated_run) = Some 2" by code_simp
  have runs: "db_worker_runs judged_db = Some [narrated_run]" by (simp add: judged_db_def)
  have recs: "db_prereg judged_db = Some [registered_vol]" by (simp add: judged_db_def)
  then have "distinct (map pr_seq recs)" if "recs \<in> set_option (db_prereg judged_db)" for recs using that by simp
  note iff = liveness_passes_iff_corroborated [OF runs, of 1785000000, OF ballI, OF this]
  have first: "first_registration [registered_vol] registered_vol"
    and late: "SECONDS_PER_DAY < 1785000000 - pr_ts registered_vol"
    by (simp_all add: first_registration_def registered_vol_def commits_to_a_horizon_def SECONDS_PER_DAY_def)
  have "wr_worker narrated_run = ''research-loop''" "wr_status narrated_run = ''ok''"
    by (simp_all add: narrated_run_def)
  then have "\<exists>js day. db_judgments judged_db = Some js \<and> judgments_on js day = 2"
    using iff ok g by auto
  moreover have "accounted_for judged_db registered_vol" using iff ok recs first late by blast
  ultimately show ?thesis using ok by blast
qed

text \<open>
  Acknowledging a narration removes it from the blocking list and from nothing else: every
  violation is on exactly one of the two lists, in its order, and the blocking ones are exactly
  those whose id is not quarantined.
\<close>

theorem partition_drops_nothing:
  assumes "partition_violations con vs = Inr (blocking, acknowledged)"
  shows "\<exists>q. narration_quarantine con = Inr q
    \<and> blocking = filter (\<lambda>v. vi_run_id v \<notin> fst ` set q) vs
    \<and> map fst acknowledged = filter (\<lambda>v. vi_run_id v \<in> fst ` set q) vs
    \<and> length blocking + length acknowledged = length vs"
proof -
  obtain q where q: "narration_quarantine con = Inr q"
    and b: "blocking = filter (\<lambda>v. \<not> quarantined q v) vs"
    and a: "acknowledged = map (\<lambda>v. (v, the (map_of (rev q) (vi_run_id v)))) (filter (quarantined q) vs)"
    using assms by (auto simp: partition_violations_def py_bind_Inr)
  have e: "quarantined q = (\<lambda>v. vi_run_id v \<in> fst ` set q)"
    by (simp add: fun_eq_iff quarantined_def)
  have "map fst acknowledged = filter (quarantined q) vs" by (simp add: a comp_def)
  moreover have "length blocking + length acknowledged = length vs"
    using sum_length_filter_compl [of "quarantined q" vs] by (simp add: a b)
  ultimately show ?thesis using q b by (simp add: e)
qed

definition quarantine_10 :: "(string \<times> blob) list" where
  "quarantine_10 = [(QUARANTINE_META_KEY, Blob ''x'' (Some (JObj
     [(''claims'', JArr [JObj [(''runId'', JInt 10), (''reason'', JStr ''lost'')]])])))]"

definition lost_ledger :: database where
  "lost_ledger = judged_db\<lparr>db_judgments := Some [], db_meta := Some quarantine_10\<rparr>"

definition lost_search :: violation where
  "lost_search = \<lparr>vi_run_id = 10, vi_mode = JudgmentCount 2 ''2026-07-25'' 0,
     vi_detail = ''ok: searched a 2-rule grid''\<rparr>"

theorem partition_drops_nothing_witness:
  "check_liveness lost_ledger 1785000000 = Inr [lost_search]
   \<and> (\<exists>blocking acknowledged. partition_violations lost_ledger [lost_search] = Inr (blocking, acknowledged)
        \<and> blocking = [] \<and> length blocking + length acknowledged = 1)"
proof -
  have vs: "check_liveness lost_ledger 1785000000 = Inr [lost_search]" by code_simp
  have p: "partition_violations lost_ledger [lost_search] = Inr ([], [(lost_search, JStr ''lost'')])"
    by code_simp
  from partition_drops_nothing [OF p] vs p show ?thesis by auto
qed

text \<open>
  The quarantine of narrations reaches registrations too. A run id and a chain sequence number
  are compared as the same integer, so acknowledging research-loop run 10 also silences the
  violation of the forecast registered at chain seq 10: the tool exits 1 without the
  acknowledgement and 0 with it, though no narration is involved.
\<close>

definition silent_registration :: database where
  "silent_registration = empty_db\<lparr>db_worker_runs := Some [], db_prereg := Some
     [\<lparr>pr_seq = 10, pr_ts = 1784851200, pr_kind = ''filingsdrift21'',
       pr_spec = Blob ''{\"horizonDays\": 21}'' (Some (JObj [(''horizonDays'', JInt 21)])),
       pr_hash = ''h''\<rparr>]\<rparr>"

theorem quarantine_silences_a_registration:
  "liveness_main (Opened silent_registration) 1785110400 = Inr 1
   \<and> liveness_main (Opened (silent_registration\<lparr>db_meta := Some quarantine_10\<rparr>)) 1785110400 = Inr 0"
proof
  show "liveness_main (Opened silent_registration) 1785110400 = Inr 1" by code_simp
  show "liveness_main (Opened (silent_registration\<lparr>db_meta := Some quarantine_10\<rparr>)) 1785110400 = Inr 0"
    by code_simp
qed

end
