(* ===== verification/Chain_Gates.thy ===== *)
theory Chain_Gates
  imports Structural_Grading Sha256 Research_Liveness
begin

text \<open>
  What the pre-registration chain and the stored revisions allow the grader to publish
  (\<open>tools/accuracy_registry.py\<close>): the registration check of the grader itself, the frozen
  auto-retire rule, the code-revision gate, the null-amendment probe, and the presence checks.
  The bytes of the grader's own file and the answer of \<open>git cat-file -e\<close> come from the platform.
\<close>

section \<open>Refusals\<close>

datatype refusal =
    DatabaseNotFound
  | NoProtocol
  | OtherGrader json json json             \<comment> \<open>seq, pinned digest, pinned commit\<close>
  | OtherFloor string json                 \<comment> \<open>key, registered value\<close>
  | LivenessFailed "violation list"
  | LivenessUnreadable
  | NoManifest
  | IncompleteSnapshot "string list"
  | SnapshotFileMissing string
  | NotInManifest string
  | IntegrityFailure string string string  \<comment> \<open>file, computed digest, manifest digest\<close>

text \<open>A run ends with an exception that leaves the program, or with \<open>sys.exit\<close> of a refusal.\<close>

datatype stop = Raises py_exn | Refuses refusal

type_synonym 'a run = "stop + 'a"

definition run_bind :: "'a run \<Rightarrow> ('a \<Rightarrow> 'b run) \<Rightarrow> 'b run" where
  "run_bind m f = (case m of Inl e \<Rightarrow> Inl e | Inr x \<Rightarrow> f x)"

definition of_py :: "'a py \<Rightarrow> 'a run" where
  "of_py m = (case m of Inl e \<Rightarrow> Inl (Raises e) | Inr x \<Rightarrow> Inr x)"

lemma run_bind_simps [simp]:
  "run_bind (Inl e) f = Inl e" "run_bind (Inr x) f = f x"
  "of_py (Inl err) = Inl (Raises err)" "of_py (Inr y) = Inr y"
  by (simp_all add: run_bind_def of_py_def)

lemma run_bind_Inr: "(run_bind m f = Inr z) = (\<exists>v. f v = Inr z \<and> m = Inr v)"
  by (cases m) auto

lemma of_py_Inr: "of_py m = Inr y \<longleftrightarrow> m = Inr y"
  by (cases m) auto

record platform =
  pf_grader :: string                     \<comment> \<open>the bytes of \<open>accuracy_registry.py\<close>\<close>
  pf_git :: "string \<Rightarrow> bool"              \<comment> \<open>\<open>git cat-file -e rev^{commit}\<close> succeeds\<close>

definition sample_platform :: platform where
  "sample_platform = \<lparr>pf_grader = ''grader'', pf_git = (\<lambda>_. True)\<rparr>"

section \<open>The registration of the grader\<close>

definition MULTIPLICITY_RULE :: string where
  "MULTIPLICITY_RULE =
     ''Published intervals are Bonferroni-corrected for both multiplicities this surface ''
     @ ''pays: FAMILY (rows published in the same grading cycle) and LOOKS (grading cycles ''
     @ ''taken over the same accruing rows). divisor = family_size * looks; corrected_alpha ''
     @ ''= maxAlpha / divisor; z = probit(1 - corrected_alpha/2), floored at the uncorrected ''
     @ ''two-sided z so the correction can only ever WIDEN an interval, never narrow one. ''
     @ ''family_size is the number of rows the cycle actually publishes, measured from the ''
     @ ''rows themselves, then folded with max() against the largest family ever published ''
     @ ''on the grading-look chain and the family the last published registry JSON declared, ''
     @ ''so publishing fewer rows can never refund multiplicity a wider family already ''
     @ ''spent. looks is the monotone count of 'grading-look' records on the ''
     @ ''pre-registration chain, folded with max() over the record count, the counters those ''
     @ ''records carry, and the looks already published in the registry JSON, so neither log ''
     @ ''rotation nor a re-cut snapshot can refund a look already taken.''"

definition self_sha256 :: "platform \<Rightarrow> string" where
  "self_sha256 pf = sha256 (pf_grader pf)"

type_synonym protocol = "(string \<times> json) list"

definition newest_grading_protocol :: "database \<Rightarrow> protocol option py" where
  "newest_grading_protocol con =
     (case db_prereg con of
        None \<Rightarrow> Inr None
      | Some recs \<Rightarrow>
          (case filter (\<lambda>r. pr_kind r = ''grading-protocol'') recs of
             [] \<Rightarrow> Inr None
           | r # rs \<Rightarrow>
               (let row = newest_of pr_seq (r # rs)
                in case blob_json (pr_spec row) of
                     None \<Rightarrow> Inr None
                   | Some (JObj d) \<Rightarrow> Inr (Some ((''_seq'', JInt (pr_seq row)) # d))
                   | Some _ \<Rightarrow> Inl TypeErr)))"

definition expected_floors :: "(string \<times> json) list" where
  "expected_floors =
     [(''minIndependentN'', JInt MIN_INDEPENDENT_N),
      (''minDistinctDays'', JInt (int MIN_DISTINCT_DAYS)),
      (''minDistinctBlocks'', JInt (int MIN_DISTINCT_BLOCKS)),
      (''maxAlpha'', JFloat (Fin MAX_ALPHA)),
      (''multiplicityRule'', JStr MULTIPLICITY_RULE)]"

text \<open>\<open>got == want\<close> for a wanted number or text: numbers compare by value.\<close>

definition py_eq :: "json \<Rightarrow> json \<Rightarrow> bool" where
  "py_eq got want =
     (case want of
        JStr s \<Rightarrow> got = JStr s
      | _ \<Rightarrow> json_num got \<noteq> None \<and> json_num got = json_num want)"

fun floors_error :: "protocol \<Rightarrow> (string \<times> json) list \<Rightarrow> refusal option" where
  "floors_error rec [] = None"
| "floors_error rec ((key, want) # rest) =
     (if py_eq (jget key rec) want then floors_error rec rest
      else Some (OtherFloor key (jget key rec)))"

definition grader_registration_error :: "platform \<Rightarrow> protocol option \<Rightarrow> refusal option" where
  "grader_registration_error pf rec =
     (case rec of
        None \<Rightarrow> Some NoProtocol
      | Some d \<Rightarrow>
          (let theirs = jget ''graderSha256'' d
           in if theirs \<noteq> JStr (self_sha256 pf)
              then Some (OtherGrader (jget ''_seq'' d) theirs (jget ''graderCommit'' d))
              else floors_error d expected_floors))"

definition require_registered_grader :: "platform \<Rightarrow> database \<Rightarrow> protocol run" where
  "require_registered_grader pf con =
     run_bind (of_py (newest_grading_protocol con)) (\<lambda>rec.
       case grader_registration_error pf rec of
         Some err \<Rightarrow> Inl (Refuses err)
       | None \<Rightarrow> Inr (case rec of Some d \<Rightarrow> d | None \<Rightarrow> []))"

definition require_research_liveness :: "database \<Rightarrow> int \<Rightarrow> unit run" where
  "require_research_liveness con now =
     (if db_worker_runs con = None then Inr ()
      else run_bind (of_py (blocking_violations con now)) (\<lambda>vs.
        if vs = [] then Inr () else Inl (Refuses (LivenessFailed vs))))"

section \<open>The auto-retire rule\<close>

definition AUTO_RETIRE_MODEL :: string where "AUTO_RETIRE_MODEL = ''directional-ensemble''"
definition AUTO_RETIRE_REGISTERED :: string where "AUTO_RETIRE_REGISTERED = ''2026-07-26''"

definition AUTO_RETIRE_CRITERION :: string where
  "AUTO_RETIRE_CRITERION =
     ''The first time a directional row reaches 30 independent (symbol, horizon, ''
     @ ''trading-day) observations spread over 10 distinct trading days, if the upper bound ''
     @ ''of its effective-N day-clustered Wilson 95% interval is below the ''
     @ ''prequential-majority null, the verdict is FAILED and the row carries retire=true. ''
     @ ''No grace period, no re-window, no threshold revision after the evidence arrives.''"

definition AUTO_RETIRE_ACTION :: string where
  "AUTO_RETIRE_ACTION =
     ''The daemon's model-health worker reads retire from data/accuracy_registry.json and ''
     @ ''stops publishing the flagged horizon's predictions. The flag is recomputed on every ''
     @ ''grade under these same frozen thresholds; only a record whose interval clears the ''
     @ ''null lifts it.''"

definition auto_retire_canon :: string where
  "auto_retire_canon =
     ''model='' @ AUTO_RETIRE_MODEL
     @ ''|minIndependentN='' @ str_int MIN_INDEPENDENT_N
     @ ''|minDistinctDays='' @ str_of_nat MIN_DISTINCT_DAYS
     @ ''|criterion='' @ AUTO_RETIRE_CRITERION
     @ ''|action='' @ AUTO_RETIRE_ACTION
     @ ''|registered='' @ AUTO_RETIRE_REGISTERED"

definition auto_retire_rule_digest :: string where
  "auto_retire_rule_digest = sha256 auto_retire_canon"

definition auto_retire_rule :: "(string \<times> json) list" where
  "auto_retire_rule =
     [(''model'', JStr AUTO_RETIRE_MODEL),
      (''minIndependentN'', JInt MIN_INDEPENDENT_N),
      (''minDistinctDays'', JInt (int MIN_DISTINCT_DAYS)),
      (''criterion'', JStr AUTO_RETIRE_CRITERION),
      (''action'', JStr AUTO_RETIRE_ACTION),
      (''registered'', JStr AUTO_RETIRE_REGISTERED),
      (''sha256'', JStr auto_retire_rule_digest)]"

section \<open>The code-revision gate\<close>

definition revision_resolvable :: "(string \<Rightarrow> bool) \<Rightarrow> string \<Rightarrow> bool" where
  "revision_resolvable git sha \<longleftrightarrow> sha \<noteq> [] \<and> \<not> ends_with ''+dirty'' sha \<and> git sha"

definition GATE_ALL :: string where "GATE_ALL = ''*''"
definition GATE_NO_COLUMN :: string where "GATE_NO_COLUMN = ''(no revision column)''"

record revision_gate_result =
  rg_structure :: "(string \<times> string list) list"
  rg_direction :: "(string \<times> string list) list"
  rg_checked :: bool

definition rev_key :: "string option \<Rightarrow> string" where
  "rev_key sha = (case sha of None \<Rightarrow> [] | Some s \<Rightarrow> s)"

definition bad_revisions :: "(string \<Rightarrow> bool) \<Rightarrow> string option list \<Rightarrow> string list" where
  "bad_revisions git revs =
     remdups (sort (map (\<lambda>k. if k = [] then ''(unstamped)'' else k)
       (filter (\<lambda>k. \<not> revision_resolvable git k) (map rev_key revs))))"

definition offenders_by ::
    "(string \<Rightarrow> bool) \<Rightarrow> ('a \<Rightarrow> string) \<Rightarrow> ('a \<Rightarrow> string option) \<Rightarrow> 'a list \<Rightarrow> (string \<times> string list) list" where
  "offenders_by git key sha rows =
     filter (\<lambda>(_, offs). offs \<noteq> [])
       (map (\<lambda>(k, g). (k, bad_revisions git (map sha g))) (group_by key rows))"

definition ledger_horizon :: "ledger_row \<Rightarrow> string" where
  "ledger_horizon r = rev_key (pl_horizon r)"

definition revision_gate :: "(string \<Rightarrow> bool) \<Rightarrow> database \<Rightarrow> revision_gate_result" where
  "revision_gate git con =
     (let none = [(GATE_ALL, [GATE_NO_COLUMN])]
      in case (db_regime con, db_has_revision con) of
           (Some rows, True) \<Rightarrow>
             (let structure = offenders_by git ro_kind ro_revision
                                (filter (\<lambda>r. REVISION_EPOCH_TS \<le> ro_ts r) rows)
              in case (db_ledger con, db_ledger_has_revision con) of
                   (Some led, True) \<Rightarrow>
                     \<lparr>rg_structure = structure,
                      rg_direction = offenders_by git ledger_horizon pl_revision
                        (filter (\<lambda>r. REVISION_EPOCH_TS \<le> pl_at r) led),
                      rg_checked = True\<rparr>
                 | _ \<Rightarrow> \<lparr>rg_structure = structure, rg_direction = none, rg_checked = False\<rparr>)
         | _ \<Rightarrow> \<lparr>rg_structure = none, rg_direction = none, rg_checked = False\<rparr>)"

definition structure_kind :: "grade_row \<Rightarrow> string" where
  "structure_kind r = before_sep PERSISTENCE_SUFFIX (r_predictor r)"

definition gate_entry :: "(string \<times> string list) list \<Rightarrow> string \<Rightarrow> string list" where
  "gate_entry gate key = (case map_of gate key of None \<Rightarrow> [] | Some offs \<Rightarrow> offs)"

definition revision_offenders :: "revision_gate_result \<Rightarrow> grade_row \<Rightarrow> string list" where
  "revision_offenders gate r =
     (if starts_with ''structure'' (r_family r) then
        (if gate_entry (rg_structure gate) GATE_ALL \<noteq> [] then gate_entry (rg_structure gate) GATE_ALL
         else gate_entry (rg_structure gate) (structure_kind r))
      else if starts_with ''direction'' (r_family r) then
        (if gate_entry (rg_direction gate) GATE_ALL \<noteq> [] then gate_entry (rg_direction gate) GATE_ALL
         else case find (\<lambda>(h, _). h \<noteq> [] \<and> h \<noteq> GATE_ALL \<and> contains h (r_predictor r))
                        (rg_direction gate) of
                Some (_, offs) \<Rightarrow> offs
              | None \<Rightarrow> [])
      else [])"

definition revision_gate_row :: "revision_gate_result \<Rightarrow> grade_row \<Rightarrow> grade_row" where
  "revision_gate_row gate r =
     (let offs = revision_offenders gate r
      in if offs = [] then r
         else r\<lparr>r_revision_gate := Some offs, r_verdict := None, r_claim_verdict := None,
                r_retire := None\<rparr>)"

definition apply_revision_gate :: "revision_gate_result \<Rightarrow> grade_row list \<Rightarrow> grade_row list" where
  "apply_revision_gate gate rows = map (revision_gate_row gate) rows"

definition revision_refusal :: "revision_gate_result \<Rightarrow> grade_row \<Rightarrow> string option" where
  "revision_refusal gate r =
     (let offs = revision_offenders gate r
      in if offs = [] then None
         else if offs = [GATE_NO_COLUMN]
         then Some (''  * '' @ r_predictor r @ '': this database carries no per-row ''
                @ ''revision column, so no contributing row can be attributed to any build'')
         else Some (''  * '' @ r_predictor r @ '': contributing rows written by ''
                @ join_with '', '' offs @ '' '' @ em_dash @ '' not a commit in this repository''))"

definition revision_refusals :: "revision_gate_result \<Rightarrow> grade_row list \<Rightarrow> string list" where
  "revision_refusals gate rows = List.map_filter (revision_refusal gate) rows"

section \<open>The null amendment\<close>

definition STRUCTURAL_NULL_KINDS :: "string list" where
  "STRUCTURAL_NULL_KINDS = [''trend21'', ''trend63'', ''vol21'', ''liquidity21'',
     ''trend21-crypto'', ''liquidity21-crypto'']"

definition unmatched_null_clause :: "database \<Rightarrow> regime_row \<Rightarrow> bool" where
  "unmatched_null_clause con r \<longleftrightarrow> ro_kind r \<in> set STRUCTURAL_NULL_KINDS
     \<and> (case db_quarantine con of None \<Rightarrow> True | Some qs \<Rightarrow> ro_id r \<notin> qr_outcome ` set qs)"

definition unmatched_nulls :: "database \<Rightarrow> regime_row list \<Rightarrow> regime_row list" where
  "unmatched_nulls con rows =
     filter (\<lambda>r. NULL_AMENDMENT_EPOCH_TS \<le> ro_ts r \<and> ro_naive r = None
       \<and> unmatched_null_clause con r) rows"

record null_probe =
  np_count :: int
  np_newest :: "int option"
  np_kinds :: "string list"

definition null_amendment_probe :: "database \<Rightarrow> null_probe" where
  "null_amendment_probe con =
     (case (db_regime con, db_has_naive con) of
        (Some rows, True) \<Rightarrow>
          (let gs = group_by ro_kind (unmatched_nulls con rows)
           in \<lparr>np_count = (\<Sum>(_, g)\<leftarrow>gs. int (length g)),
               np_newest = max_opt (List.map_filter (\<lambda>(_, g). max_opt (map ro_ts g)) gs),
               np_kinds = sort (filter (\<lambda>k. k \<noteq> []) (map fst gs))\<rparr>)
      | _ \<Rightarrow> \<lparr>np_count = 0, np_newest = None, np_kinds = []\<rparr>)"

definition probe_hits :: "null_probe \<Rightarrow> grade_row \<Rightarrow> bool" where
  "probe_hits probe r \<longleftrightarrow> np_count probe \<noteq> 0 \<and> starts_with ''structure'' (r_family r)
     \<and> structure_kind r \<in> set (np_kinds probe)"

definition apply_null_amendment_probe :: "null_probe \<Rightarrow> grade_row list \<Rightarrow> grade_row list" where
  "apply_null_amendment_probe probe rows =
     map (\<lambda>r. if probe_hits probe r
              then r\<lparr>r_null_gate := True, r_verdict := None, r_claim_verdict := None\<rparr> else r) rows"

definition null_refusals :: "null_probe \<Rightarrow> grade_row list \<Rightarrow> string list" where
  "null_refusals probe rows =
     map (\<lambda>r. ''  * '' @ r_predictor r @ '': post-amendment rows exist with no frozen ''
            @ ''naive baseline, so the deployed writer is not this source'')
       (filter (probe_hits probe) rows)"

section \<open>Presence on the chain\<close>

record chain_presence =
  cp_null_frozen :: bool
  cp_null_coverage :: "real option"
  cp_unmatched :: "int option"
  cp_retire_chained :: bool
  cp_retire_seq :: "int option"
  cp_retire_hash :: "string option"

definition retire_record :: "database \<Rightarrow> prereg_row option" where
  "retire_record con =
     (case db_prereg con of
        None \<Rightarrow> None
      | Some recs \<Rightarrow>
          (case filter (\<lambda>r. like ''%retire%'' (pr_kind r)) recs of
             [] \<Rightarrow> None
           | r # rs \<Rightarrow> Some (newest_of pr_seq (r # rs))))"

definition naive_census :: "regime_row list \<Rightarrow> int \<times> int" where
  "naive_census rows =
     (let calls = filter resolved_call rows
      in (int (length calls), count_if (\<lambda>r. ro_naive r \<noteq> None) calls))"

definition fetch_chain_presence :: "database \<Rightarrow> chain_presence" where
  "fetch_chain_presence con =
     (let null = (case (db_regime con, db_has_naive con) of
                    (Some rows, True) \<Rightarrow> Some (naive_census rows, int (length (unmatched_nulls con rows)))
                  | _ \<Rightarrow> None);
          rule = retire_record con
      in \<lparr>cp_null_frozen = (case null of Some ((graded, labelled), _) \<Rightarrow> graded \<noteq> 0 \<and> 0 < labelled
                            | None \<Rightarrow> False),
          cp_null_coverage = (case null of
              Some ((graded, labelled), _) \<Rightarrow>
                if graded \<noteq> 0 then Some (of_int labelled / of_int graded) else None
            | None \<Rightarrow> None),
          cp_unmatched = map_option snd null,
          cp_retire_chained = (case rule of Some r \<Rightarrow> pr_hash r = auto_retire_rule_digest
                               | None \<Rightarrow> False),
          cp_retire_seq = map_option pr_seq rule,
          cp_retire_hash = map_option pr_hash rule\<rparr>)"

section \<open>The gates only withhold\<close>

lemma revision_gate_row_withholds: "withholds r (revision_gate_row gate r)"
  by (simp add: revision_gate_row_def Let_def withholds_def bare_def)

interpretation revision_gating: withholding_gate "apply_revision_gate gate" for gate
  by unfold_locales
    (auto simp: apply_revision_gate_def intro: list_withholds_map revision_gate_row_withholds)

interpretation null_gating: withholding_gate "apply_null_amendment_probe probe" for probe
  by unfold_locales
    (auto simp: apply_null_amendment_probe_def withholds_def bare_def intro: list_withholds_map)

section \<open>Helper facts\<close>

lemma newest_of_kind: "filter P recs = r # rs \<Longrightarrow> newest_of t (r # rs) \<in> set recs \<and> P (newest_of t (r # rs))
    \<and> (\<forall>s \<in> set recs. P s \<longrightarrow> t s \<le> t (newest_of t (r # rs)))"
proof -
  assume f: "filter P recs = r # rs"
  have "newest_of t (r # rs) \<in> set (filter P recs)" by (simp only: f) (rule newest_of_in, simp)
  moreover have "t s \<le> t (newest_of t (r # rs))" if "s \<in> set recs" "P s" for s
  proof -
    have "s \<in> set (r # rs)" using that by (simp only: f [symmetric]) simp
    then show ?thesis by (rule newest_of_ge)
  qed
  ultimately show ?thesis by simp
qed

lemma bad_revisions_iff:
  "bad_revisions git revs \<noteq> [] \<longleftrightarrow> (\<exists>sha \<in> set revs. \<not> revision_resolvable git (rev_key sha))"
  by (simp add: bad_revisions_def filter_empty_conv)

lemma offenders_by_hit:
  assumes "x \<in> set rows" and "\<not> revision_resolvable git (rev_key (f x))"
  shows "gate_entry (offenders_by git key f rows) (key x) \<noteq> []"
proof -
  let ?e = "\<lambda>(k, g). (k, bad_revisions git (map f g))"
  let ?m = "map ?e (group_by key rows)"
  obtain g where g: "(key x, g) \<in> set (group_by key rows)" and xg: "x \<in> set g"
    using assms(1) by (auto simp: set_group_by)
  have bad: "bad_revisions git (map f g) \<noteq> []"
    using assms(2) xg by (auto simp: bad_revisions_iff)
  have keys: "map fst ?m = map fst (group_by key rows)" by (simp add: comp_def case_prod_unfold)
  have dist: "distinct (map fst (filter (\<lambda>(_, offs). offs \<noteq> []) ?m))"
    by (rule distinct_map_filter) (simp only: keys distinct_group_by)
  have "(key x, bad_revisions git (map f g)) \<in> set (filter (\<lambda>(_, offs). offs \<noteq> []) ?m)"
    using g bad by force
  then have "map_of (offenders_by git key f rows) (key x) = Some (bad_revisions git (map f g))"
    unfolding offenders_by_def by (rule map_of_is_SomeI [OF dist])
  with bad show ?thesis by (simp add: gate_entry_def)
qed

section \<open>Properties\<close>

text \<open>
  The grader may grade exactly when the newest protocol record names the digest of this very
  file and freezes all five floors it enforces, the two sample floors, the block floor, the error
  rate and the text of the multiplicity rule; an absent record, another digest or any one other
  floor is a refusal.
\<close>

theorem registered_iff_pinned_exactly:
  "grader_registration_error pf rec = None \<longleftrightarrow>
   (\<exists>d. rec = Some d \<and> jget ''graderSha256'' d = JStr (self_sha256 pf)
      \<and> json_num (jget ''minIndependentN'' d) = Some (of_int MIN_INDEPENDENT_N)
      \<and> json_num (jget ''minDistinctDays'' d) = Some (of_nat MIN_DISTINCT_DAYS)
      \<and> json_num (jget ''minDistinctBlocks'' d) = Some (of_nat MIN_DISTINCT_BLOCKS)
      \<and> json_num (jget ''maxAlpha'' d) = Some MAX_ALPHA
      \<and> jget ''multiplicityRule'' d = JStr MULTIPLICITY_RULE)"
  by (auto simp: grader_registration_error_def Let_def expected_floors_def py_eq_def
      split: option.splits if_splits)

text \<open>Some call behind the row, after the epoch of the gate, names code that does not resolve.\<close>

definition unknown_code_behind :: "(string \<Rightarrow> bool) \<Rightarrow> database \<Rightarrow> grade_row \<Rightarrow> bool" where
  "unknown_code_behind git con r \<longleftrightarrow>
     starts_with ''structure'' (r_family r) \<and> (\<exists>cs. db_regime con = Some cs \<and> (\<exists>x \<in> set cs.
        REVISION_EPOCH_TS \<le> ro_ts x \<and> ro_kind x = structure_kind r
        \<and> \<not> revision_resolvable git (rev_key (ro_revision x))))
     \<or> starts_with ''direction'' (r_family r) \<and> (\<exists>led. db_ledger con = Some led \<and> (\<exists>x \<in> set led.
        REVISION_EPOCH_TS \<le> pl_at x \<and> ledger_horizon x \<noteq> [] \<and> contains (ledger_horizon x) (r_predictor r)
        \<and> \<not> revision_resolvable git (rev_key (pl_revision x))))"

text \<open>
  The tables carry no revision to attribute the row by. Without that of the structural calls the
  directional ones are not read either.
\<close>

definition unattributable :: "database \<Rightarrow> grade_row \<Rightarrow> bool" where
  "unattributable con r \<longleftrightarrow> db_regime con = None \<or> \<not> db_has_revision con
     \<or> starts_with ''direction'' (r_family r) \<and> (db_ledger con = None \<or> \<not> db_ledger_has_revision con)"

lemma offenders_found:
  assumes "x \<in> set rows" and "\<not> revision_resolvable git (rev_key (f x))" and "Q (key x)"
  shows "\<exists>k offs. find (\<lambda>(k, _). Q k) (offenders_by git key f rows) = Some (k, offs) \<and> offs \<noteq> []"
proof -
  have "map_of (offenders_by git key f rows) (key x) \<noteq> None"
    using offenders_by_hit [where f = f and key = key, OF assms(1,2)] by (auto simp: gate_entry_def split: option.splits)
  then obtain offs where "(key x, offs) \<in> set (offenders_by git key f rows)"
    by (auto dest: map_of_SomeD)
  with assms(3) have "find (\<lambda>(k, _). Q k) (offenders_by git key f rows) \<noteq> None"
    by (auto simp: find_None_iff)
  then obtain k offs' where found: "find (\<lambda>(k, _). Q k) (offenders_by git key f rows) = Some (k, offs')"
    by auto
  then have "(k, offs') \<in> set (offenders_by git key f rows)"
    by (auto simp: find_Some_iff) (metis nth_mem)
  then have "offs' \<noteq> []" by (auto simp: offenders_by_def)
  with found show ?thesis by blast
qed

lemma direction_not_structure: "starts_with ''direction'' s \<Longrightarrow> \<not> starts_with ''structure'' s"
  by (cases s) (auto simp: starts_with_def)

lemma gated_has_offenders:
  assumes "starts_with ''structure'' (r_family r) \<or> starts_with ''direction'' (r_family r)"
    and "unattributable con r \<or> unknown_code_behind git con r"
  shows "revision_offenders (revision_gate git con) r \<noteq> []"
proof (cases "db_regime con = None \<or> \<not> db_has_revision con")
  case True
  then have "rg_structure (revision_gate git con) = [(GATE_ALL, [GATE_NO_COLUMN])]"
      "rg_direction (revision_gate git con) = [(GATE_ALL, [GATE_NO_COLUMN])]"
    by (auto simp: revision_gate_def Let_def split: option.splits)
  then show ?thesis using assms(1) by (auto simp: revision_offenders_def gate_entry_def)
next
  case False
  then obtain cs where cs: "db_regime con = Some cs" "db_has_revision con" by auto
  let ?after = "filter (\<lambda>r. REVISION_EPOCH_TS \<le> ro_ts r) cs"
  show ?thesis
  proof (cases "starts_with ''structure'' (r_family r)")
    case True
    with assms(2) cs direction_not_structure [of "r_family r"]
    obtain x where x: "x \<in> set ?after" "ro_kind x = structure_kind r"
        "\<not> revision_resolvable git (rev_key (ro_revision x))"
      by (auto simp: unattributable_def unknown_code_behind_def)
    have "rg_structure (revision_gate git con) = offenders_by git ro_kind ro_revision ?after"
      using cs by (auto simp: revision_gate_def Let_def split: option.splits bool.splits)
    with offenders_by_hit [where key = ro_kind and f = ro_revision, OF x(1,3)] x(2) True
    show ?thesis by (simp add: revision_offenders_def)
  next
    case ns: False
    with assms(1) have dir: "starts_with ''direction'' (r_family r)" by simp
    show ?thesis
    proof (cases "db_ledger con = None \<or> \<not> db_ledger_has_revision con")
      case True
      then have "rg_direction (revision_gate git con) = [(GATE_ALL, [GATE_NO_COLUMN])]"
        using cs by (auto simp: revision_gate_def Let_def split: option.splits)
      then show ?thesis using ns dir by (simp add: revision_offenders_def gate_entry_def)
    next
      case False
      then obtain led where led: "db_ledger con = Some led" "db_ledger_has_revision con" by auto
      let ?late = "filter (\<lambda>r. REVISION_EPOCH_TS \<le> pl_at r) led"
      obtain x where x: "x \<in> set ?late" "ledger_horizon x \<noteq> []" "contains (ledger_horizon x) (r_predictor r)"
          "\<not> revision_resolvable git (rev_key (pl_revision x))"
        using assms(2) ns led cs by (auto simp: unattributable_def unknown_code_behind_def)
      have gate: "rg_direction (revision_gate git con) = offenders_by git ledger_horizon pl_revision ?late"
        using cs led by (simp add: revision_gate_def Let_def)
      show ?thesis
      proof (cases "gate_entry (rg_direction (revision_gate git con)) GATE_ALL = []")
        case True
        then have "ledger_horizon x \<noteq> GATE_ALL"
          using offenders_by_hit [where key = ledger_horizon and f = pl_revision, OF x(1,4)]
          by (auto simp: gate)
        with x(2,3) have "\<exists>k offs. find (\<lambda>(h, _). h \<noteq> [] \<and> h \<noteq> GATE_ALL \<and> contains h (r_predictor r))
            (rg_direction (revision_gate git con)) = Some (k, offs) \<and> offs \<noteq> []"
          unfolding gate
          by (intro offenders_found [where f = pl_revision and key = ledger_horizon, OF x(1,4)]) simp
        with ns dir True show ?thesis by (auto simp: revision_offenders_def)
      qed (use ns dir in \<open>simp add: revision_offenders_def\<close>)
    qed
  qed
qed

text \<open>
  C4. A predictor of the two gated families, structural or directional, is published without a
  verdict, a claim verdict or a retire flag whenever some call behind it, made after the epoch of the
  gate, names code the repository does not contain, and whenever the tables carry no revision to
  attribute it by. The calls behind a structural row are those of its kind; those behind a directional
  row are the ledger's, of a horizon its name holds.
\<close>

theorem unattributable_rows_lose_the_verdict:
  assumes "r' \<in> set (apply_revision_gate (revision_gate git con) rows)"
    and "starts_with ''structure'' (r_family r') \<or> starts_with ''direction'' (r_family r')"
    and "unattributable con r' \<or> unknown_code_behind git con r'"
  shows "r_verdict r' = None \<and> r_claim_verdict r' = None \<and> r_retire r' = None
    \<and> r_revision_gate r' \<noteq> None"
proof -
  let ?gate = "revision_gate git con"
  obtain r where r: "r' = revision_gate_row ?gate r" using assms(1) by (auto simp: apply_revision_gate_def)
  have same: "r_family r' = r_family r" "r_predictor r' = r_predictor r"
    by (simp_all add: r revision_gate_row_def Let_def)
  then have "unattributable con r' = unattributable con r"
    "unknown_code_behind git con r' = unknown_code_behind git con r"
    by (simp_all add: unattributable_def unknown_code_behind_def structure_kind_def)
  with gated_has_offenders [of r con git] assms(2,3) same
  have "revision_offenders ?gate r \<noteq> []" by simp
  then show ?thesis by (simp add: r revision_gate_row_def Let_def)
qed

definition dirty_db :: database where
  "dirty_db = empty_db\<lparr>db_has_revision := True, db_regime := Some
     [(regime_call 1 None None)\<lparr>ro_ts := REVISION_EPOCH_TS, ro_revision := Some ''abc+dirty''\<rparr>]\<rparr>"

definition gated_sample :: "grade_row list" where
  "gated_sample = apply_revision_gate (revision_gate (\<lambda>_. True) dirty_db)
     [(hd sample_rows)\<lparr>r_predictor := ''trend21''\<rparr>]"

lemma sample_family: "r_family (hd sample_rows) = ''structure''"
  by (simp add: sample_rows_def grade_structural_days_def grade_kind_def Let_def structural_row_def)

theorem unattributable_rows_lose_the_verdict_witness:
  "gated_sample \<noteq> [] \<and> r_verdict (hd gated_sample) = None \<and> r_retire (hd gated_sample) = None"
proof -
  have some: "gated_sample \<noteq> []" and fam: "r_family (hd gated_sample) = ''structure''"
    and kind: "structure_kind (hd gated_sample) = ''trend21''"
    by (simp_all add: gated_sample_def apply_revision_gate_def revision_gate_row_def Let_def
        sample_family structure_kind_def PERSISTENCE_SUFFIX_def)
  have dirty: "\<not> revision_resolvable (\<lambda>_. True) (rev_key (Some ''abc+dirty''))"
    by (simp add: revision_resolvable_def rev_key_def ends_with_def)
  have mem: "hd gated_sample \<in> set (apply_revision_gate (revision_gate (\<lambda>_. True) dirty_db)
     [(hd sample_rows)\<lparr>r_predictor := ''trend21''\<rparr>])"
    using some unfolding gated_sample_def by (rule hd_in_set)
  have "r_verdict (hd gated_sample) = None \<and> r_claim_verdict (hd gated_sample) = None
      \<and> r_retire (hd gated_sample) = None \<and> r_revision_gate (hd gated_sample) \<noteq> None"
    by (rule unattributable_rows_lose_the_verdict [OF mem])
      (use dirty in \<open>simp_all add: fam kind dirty_db_def regime_call_def unknown_code_behind_def\<close>)
  with some show ?thesis by simp
qed

text \<open>
  The provenance gate does not reach the tracked benchmark: whatever revisions it found, and
  even where it refuses every predictor, a benchmark row is published with its verdict.
\<close>

theorem benchmark_rows_are_never_gated:
  "revision_gate_row gate (directional_row g ng name band ''benchmark'' ret br sv st)
   = directional_row g ng name band ''benchmark'' ret br sv st"
  by (simp add: revision_gate_row_def revision_offenders_def directional_row_def Let_def)

text \<open>
  The probe of the null amendment and the chain summary count the same rows: the probe's count
  is the number of unmatched rows, it is zero exactly when no kind is named, and the stamp it
  names is the newest of them.
\<close>

theorem probe_is_the_unmatched_count:
  assumes "db_regime con = Some rows" and "db_has_naive con"
  shows "np_count (null_amendment_probe con) = int (length (unmatched_nulls con rows))
    \<and> cp_unmatched (fetch_chain_presence con) = Some (np_count (null_amendment_probe con))
    \<and> set (np_kinds (null_amendment_probe con)) = ro_kind ` set (unmatched_nulls con rows)
    \<and> (np_newest (null_amendment_probe con) = None) = (unmatched_nulls con rows = [])"
proof -
  let ?u = "unmatched_nulls con rows"
  have kinds: "ro_kind r \<noteq> []" if "r \<in> set ?u" for r
    using that by (auto simp: unmatched_nulls_def unmatched_null_clause_def STRUCTURAL_NULL_KINDS_def)
  have count: "np_count (null_amendment_probe con) = int (length ?u)"
    using assms sum_group_int [of ro_kind ?u] by (simp add: null_amendment_probe_def Let_def)
  moreover have "set (np_kinds (null_amendment_probe con)) = ro_kind ` set ?u"
    using assms kinds by (auto simp: null_amendment_probe_def Let_def)
  moreover have "(np_newest (null_amendment_probe con) = None) = (?u = [])"
  proof -
    have "List.map_filter (\<lambda>(_, g). max_opt (map ro_ts g)) (group_by ro_kind ?u) = []
        \<longleftrightarrow> group_by ro_kind ?u = []"
      by (rule map_filter_total) (simp add: case_prod_unfold, metis group_nonempty prod.collapse)
    then show ?thesis using assms by (simp add: null_amendment_probe_def Let_def)
  qed
  moreover have "cp_unmatched (fetch_chain_presence con) = Some (int (length ?u))"
    using assms by (simp add: fetch_chain_presence_def Let_def)
  ultimately show ?thesis by simp
qed

definition unlabelled_db :: database where
  "unlabelled_db = empty_db\<lparr>db_has_naive := True, db_regime := Some
     [(regime_call 1 None None)\<lparr>ro_ts := NULL_AMENDMENT_EPOCH_TS + 5\<rparr>]\<rparr>"

theorem probe_is_the_unmatched_count_witness:
  "null_amendment_probe unlabelled_db
     = \<lparr>np_count = 1, np_newest = Some (NULL_AMENDMENT_EPOCH_TS + 5), np_kinds = [''trend21'']\<rparr>
   \<and> cp_unmatched (fetch_chain_presence unlabelled_db) = Some 1"
proof -
  have p: "null_amendment_probe unlabelled_db
     = \<lparr>np_count = 1, np_newest = Some (NULL_AMENDMENT_EPOCH_TS + 5), np_kinds = [''trend21'']\<rparr>"
    by code_simp
  have "cp_unmatched (fetch_chain_presence unlabelled_db)
      = Some (np_count (null_amendment_probe unlabelled_db))"
    using probe_is_the_unmatched_count [of unlabelled_db "the (db_regime unlabelled_db)"]
    by (simp add: unlabelled_db_def)
  with p show ?thesis by simp
qed

end
