(* ===== verification/Snapshot.thy ===== *)
theory Snapshot
  imports Chain_Gates
begin

text \<open>
  The reproducibility snapshot: \<open>tools/make_repro_snapshot.py\<close>, which exports the grading inputs
  with canonical hashes, and \<open>load_snapshot\<close> of \<open>tools/accuracy_registry.py\<close>, which refuses a
  bundle that is incomplete, modified or names another grader. A snapshot directory is what the
  two read of it: the manifest's entries, and for every file that is there the records
  \<open>csv.reader\<close> returns below the header.
\<close>

section \<open>The bundle and its hashes\<close>

type_synonym csv_record = "string list"

record snapshot_dir =
  sn_manifest :: "(string \<times> string) list option"      \<comment> \<open>file, sha256\<close>
  sn_files :: "(string \<times> csv_record list) list"

definition FILES :: "(string \<times> string) list" where
  "FILES =
     [(''directional_days.csv'', ''directional-day-tallies''),
      (''structural_days.csv'', ''structural-day-tallies''),
      (''structural_naive_days.csv'', ''structural-naive-persistence-day-tallies''),
      (''structural_claims.csv'', ''structural-claims''),
      (''pairs_inputs.csv'', ''pairs-input-series-versions''),
      (''xsfactor_inputs.csv'', ''xsfactor-input-series-versions''),
      (''prereg_claims.csv'', ''prereg-frozen-claims''),
      (''grading_protocol.csv'', ''prereg-grading-protocol'')]"

definition record_line :: "csv_record \<Rightarrow> string" where
  "record_line fs = concat (map (\<lambda>f. f @ ''|'') fs) @ [CHR 0x0A]"

definition canon_records :: "string \<Rightarrow> string \<Rightarrow> csv_record list \<Rightarrow> string" where
  "canon_records name kind records =
     (if records = [] then ''empty|'' @ name @ ''|'' @ kind
      else ''v1|'' @ name @ ''|'' @ kind @ ''|'' @ str_of_nat (length records) @ [CHR 0x0A]
           @ concat (map record_line records))"

definition hash_records :: "string \<Rightarrow> string \<Rightarrow> csv_record list \<Rightarrow> string" where
  "hash_records name kind records = sha256 (canon_records name kind records)"

section \<open>Export\<close>

definition tally_fields :: "day_tally \<Rightarrow> string list" where
  "tally_fields d =
     map str_int ([dt_day d, dt_n d, dt_hits d, dt_ups d, dt_hc_n d, dt_hc_hits d, dt_hc_ups d]
       @ (case dt_pred_ups d of None \<Rightarrow> [] | Some p \<Rightarrow> p # (case dt_hc_pred_ups d of None \<Rightarrow> [] | Some q \<Rightarrow> [q])))"

definition directional_records :: "database \<Rightarrow> csv_record list" where
  "directional_records con =
     concat (map (\<lambda>(h, ds). map (\<lambda>d. h # tally_fields d) ds)
       (sort_key fst (fetch_directional_days con)))"

definition structural_day_records :: "(structural_key \<times> day_row list) list \<Rightarrow> csv_record list" where
  "structural_day_records per_day =
     concat (map (\<lambda>((kind, days), rows).
         map (\<lambda>(d, n, h). [kind, str_int days, str_int d, str_int n, str_int (trunc h)]) rows)
       (sort_key fst per_day))"

definition protocol_field :: "protocol \<Rightarrow> string \<Rightarrow> string py" where
  "protocol_field d key =
     (if jget key d = JNull then Inr [] else py_bind (py_int (jget key d)) (\<lambda>i. Inr (str_int i)))"

section \<open>Load\<close>

definition tally_of_ints :: "int list \<Rightarrow> day_tally py" where
  "tally_of_ints xs =
     (if length xs < 7 then Inl OutOfModel
      else Inr \<lparr>dt_day = xs ! 0, dt_n = xs ! 1, dt_hits = xs ! 2, dt_ups = xs ! 3,
                dt_hc_n = xs ! 4, dt_hc_hits = xs ! 5, dt_hc_ups = xs ! 6,
                dt_pred_ups = (if length xs < 8 then None else Some (xs ! 7)),
                dt_hc_pred_ups = (if length xs < 9 then None else Some (xs ! 8))\<rparr>)"

definition load_directional_record :: "csv_record \<Rightarrow> (string \<times> day_tally) py" where
  "load_directional_record rec =
     (case rec of
        [] \<Rightarrow> Inl ValueErr
      | horizon # nums \<Rightarrow>
          py_bind (py_map int_of_str nums) (\<lambda>xs.
            py_bind (tally_of_ints xs) (\<lambda>t. Inr (horizon, t))))"

definition collect :: "('k::linorder \<times> 'v) list \<Rightarrow> ('k \<times> 'v list) list" where
  "collect kvs = map (\<lambda>(k, g). (k, map snd g)) (group_by fst kvs)"

definition load_directional :: "csv_record list \<Rightarrow> (string \<times> day_tally list) list py" where
  "load_directional recs = py_bind (py_map load_directional_record recs) (\<lambda>kvs. Inr (collect kvs))"

definition load_day_record :: "csv_record \<Rightarrow> (structural_key \<times> day_row) py" where
  "load_day_record rec =
     (case rec of
        [kind, fwd, day, n, hits] \<Rightarrow>
          py_bind (int_of_str fwd) (\<lambda>fwd. py_bind (int_of_str day) (\<lambda>day.
            py_bind (int_of_str n) (\<lambda>n. py_bind (int_of_str hits) (\<lambda>hits.
              Inr ((kind, fwd), (day, n, of_int hits))))))
      | _ \<Rightarrow> Inl ValueErr)"

definition load_days :: "csv_record list \<Rightarrow> (structural_key \<times> day_row list) list py" where
  "load_days recs = py_bind (py_map load_day_record recs) (\<lambda>kvs. Inr (collect kvs))"

definition load_total :: "csv_record \<Rightarrow> structural_total py" where
  "load_total rec =
     (case rec of
        [kind, fwd, recorded, claimed, first_ts] \<Rightarrow>
          py_bind (int_of_str fwd) (\<lambda>fwd. py_bind (int_of_str recorded) (\<lambda>recorded.
            py_bind (if claimed = [] then Inr None
                     else py_bind (py_float (JStr claimed)) (\<lambda>x. Inr (Some x))) (\<lambda>claimed.
              py_bind (int_of_str first_ts) (\<lambda>first_ts.
                Inr \<lparr>to_kind = kind, to_days = fwd, to_recorded = recorded, to_db_avg = claimed,
                     to_first_ts = first_ts\<rparr>))))
      | _ \<Rightarrow> Inl ValueErr)"

definition load_claim :: "csv_record \<Rightarrow> (string \<times> prereg_claim) py" where
  "load_claim rec =
     (case rec of
        [kind, claimed, hash, ts] \<Rightarrow>
          py_bind (py_float (JStr claimed)) (\<lambda>c. py_bind (int_of_str ts) (\<lambda>ts.
            Inr (kind, \<lparr>pc_claimed = c, pc_hash = hash, pc_registered = ts\<rparr>)))
      | _ \<Rightarrow> Inl ValueErr)"

definition opt_int :: "string \<Rightarrow> json py" where
  "opt_int v = (if v = [] then Inr JNull else py_bind (int_of_str v) (\<lambda>i. Inr (JInt i)))"

definition opt_str :: "string \<Rightarrow> json" where
  "opt_str v = (if v = [] then JNull else JStr v)"

definition opt_float :: "string \<Rightarrow> json py" where
  "opt_float v = (if v = [] then Inr JNull else py_bind (py_float (JStr v)) (\<lambda>x. Inr (JFloat (Fin x))))"

definition looks_of :: "json \<Rightarrow> json" where
  "looks_of v = (if truthy v then v else JInt 0)"

definition load_protocol_record :: "csv_record \<Rightarrow> protocol py" where
  "load_protocol_record rec =
     (case rec of
        [seq, sha, commit, min_n, min_days, min_blocks, max_alpha, rule, looks] \<Rightarrow>
          py_bind (int_of_str seq) (\<lambda>seq. py_bind (opt_int min_n) (\<lambda>min_n.
            py_bind (opt_int min_days) (\<lambda>min_days. py_bind (opt_int min_blocks) (\<lambda>min_blocks.
              py_bind (opt_float max_alpha) (\<lambda>max_alpha. py_bind (opt_int looks) (\<lambda>looks.
                Inr [(''_seq'', JInt seq), (''graderSha256'', JStr sha),
                     (''graderCommit'', opt_str commit), (''minIndependentN'', min_n),
                     (''minDistinctDays'', min_days), (''minDistinctBlocks'', min_blocks),
                     (''maxAlpha'', max_alpha), (''multiplicityRule'', opt_str rule),
                     (''_looks'', looks_of looks)]))))))
      | _ \<Rightarrow> Inl ValueErr)"

definition read_file :: "snapshot_dir \<Rightarrow> (string \<times> string) list \<Rightarrow> string \<Rightarrow> csv_record list run" where
  "read_file snap manifest fname =
     (case map_of (sn_files snap) fname of
        None \<Rightarrow> Inl (Refuses (SnapshotFileMissing fname))
      | Some recs \<Rightarrow>
          (case map_of (rev manifest) fname of
             None \<Rightarrow> Inl (Refuses (NotInManifest fname))
           | Some sha \<Rightarrow>
               (let got = hash_records fname (the (map_of FILES fname)) recs
                in if got = sha then Inr recs
                   else Inl (Refuses (IntegrityFailure fname got sha)))))"

definition missing_files :: "snapshot_dir \<Rightarrow> (string \<times> string) list \<Rightarrow> string list" where
  "missing_files snap manifest =
     filter (\<lambda>f. map_of manifest f = None \<or> map_of (sn_files snap) f = None) (map fst FILES)"

record snapshot_inputs =
  sp_directional :: "(string \<times> day_tally list) list"
  sp_totals :: "structural_total list"
  sp_days :: "(structural_key \<times> day_row list) list"
  sp_claims :: "(string \<times> prereg_claim) list"
  sp_naive :: "(structural_key \<times> day_row list) list"
  sp_protocol :: "protocol option"

text \<open>A file that may be missing under \<open>--allow-legacy-snapshot\<close>.\<close>

definition read_optional ::
    "snapshot_dir \<Rightarrow> (string \<times> string) list \<Rightarrow> string \<Rightarrow> csv_record list run" where
  "read_optional snap manifest fname =
     (if fname \<in> set (missing_files snap manifest) then Inr [] else read_file snap manifest fname)"

definition load_protocol :: "platform \<Rightarrow> csv_record list \<Rightarrow> protocol option run" where
  "load_protocol pf recs =
     (case recs of
        [] \<Rightarrow> Inr None
      | r # _ \<Rightarrow>
          run_bind (of_py (load_protocol_record r)) (\<lambda>d.
            case grader_registration_error pf (Some d) of
              Some err \<Rightarrow> Inl (Refuses err)
            | None \<Rightarrow> Inr (Some d)))"

definition load_snapshot :: "platform \<Rightarrow> snapshot_dir \<Rightarrow> bool \<Rightarrow> snapshot_inputs run" where
  "load_snapshot pf snap allow_legacy =
     (case sn_manifest snap of
        None \<Rightarrow> Inl (Refuses NoManifest)
      | Some manifest \<Rightarrow>
          (if missing_files snap manifest \<noteq> [] \<and> \<not> allow_legacy
           then Inl (Refuses (IncompleteSnapshot (sort (missing_files snap manifest))))
           else
             run_bind (read_file snap manifest ''directional_days.csv'') (\<lambda>r1.
             run_bind (of_py (load_directional r1)) (\<lambda>by_h.
             run_bind (read_file snap manifest ''structural_days.csv'') (\<lambda>r2.
             run_bind (of_py (load_days r2)) (\<lambda>per_day.
             run_bind (read_file snap manifest ''structural_claims.csv'') (\<lambda>r3.
             run_bind (of_py (py_map load_total r3)) (\<lambda>totals.
             run_bind (read_optional snap manifest ''prereg_claims.csv'') (\<lambda>r4.
             run_bind (of_py (py_map load_claim r4)) (\<lambda>claims.
             run_bind (read_optional snap manifest ''structural_naive_days.csv'') (\<lambda>r5.
             run_bind (of_py (load_days r5)) (\<lambda>naive.
             run_bind (read_optional snap manifest ''grading_protocol.csv'') (\<lambda>r6.
             run_bind (load_protocol pf r6) (\<lambda>protocol.
               Inr \<lparr>sp_directional = by_h, sp_totals = totals, sp_days = per_day,
                    sp_claims = rev claims, sp_naive = naive, sp_protocol = protocol\<rparr>))))))))))))))"

section \<open>The database-free audit\<close>

datatype audit_line =
    NotInManifestLine string
  | NotOnDisk string
  | HashMismatch string
  | Untracked string
  | FileOk string

definition audit_file ::
    "(string \<Rightarrow> bool) \<Rightarrow> snapshot_dir \<Rightarrow> (string \<times> string) list \<Rightarrow> string \<times> string \<Rightarrow> audit_line" where
  "audit_file tracked snap manifest e = (case e of (fname, kind) \<Rightarrow>
     case map_of (rev manifest) fname of
       None \<Rightarrow> NotInManifestLine fname
     | Some sha \<Rightarrow>
         (case map_of (sn_files snap) fname of
            None \<Rightarrow> NotOnDisk fname
          | Some recs \<Rightarrow>
              (if hash_records fname kind recs \<noteq> sha then HashMismatch fname
               else if \<not> tracked fname then Untracked fname
               else FileOk fname)))"

definition protocol_usable :: "platform \<Rightarrow> snapshot_dir \<Rightarrow> bool py" where
  "protocol_usable pf snap =
     (case map_of (sn_files snap) ''grading_protocol.csv'' of
        None \<Rightarrow> Inr False
      | Some [] \<Rightarrow> Inr (grader_registration_error pf None = None)
      | Some (r # _) \<Rightarrow>
          py_bind (load_protocol_record r) (\<lambda>d. Inr (grader_registration_error pf (Some d) = None)))"

definition verify_complete :: "platform \<Rightarrow> (string \<Rightarrow> bool) \<Rightarrow> snapshot_dir \<Rightarrow> int py" where
  "verify_complete pf tracked snap =
     (case sn_manifest snap of
        None \<Rightarrow> Inr 1
      | Some manifest \<Rightarrow>
          py_bind (protocol_usable pf snap) (\<lambda>usable.
            Inr (if (\<forall>e \<in> set FILES. audit_file tracked snap manifest e = FileOk (fst e)) \<and> usable
                    \<and> set (map fst manifest) \<subseteq> fst ` set FILES
                 then 0 else 1)))"

section \<open>The canonical text determines the records\<close>

definition clean_record :: "csv_record \<Rightarrow> bool" where
  "clean_record fs \<longleftrightarrow> (\<forall>f \<in> set fs. CHR ''|'' \<notin> set f \<and> CHR 0x0A \<notin> set f)"

lemma fields_unique:
  "(\<forall>f \<in> set fs. CHR ''|'' \<notin> set f) \<Longrightarrow> (\<forall>f \<in> set gs. CHR ''|'' \<notin> set f) \<Longrightarrow>
   concat (map (\<lambda>f. f @ ''|'') fs) = concat (map (\<lambda>f. f @ ''|'') gs) \<longleftrightarrow> fs = gs"
proof (induction fs arbitrary: gs)
  case Nil
  then show ?case by (cases gs) auto
next
  case (Cons f fs)
  then show ?case by (cases gs) (auto simp: split_unique)
qed

lemma record_line_unique:
  assumes "clean_record fs" and "clean_record gs"
  shows "record_line fs @ r = record_line gs @ s \<longleftrightarrow> fs = gs \<and> r = s"
proof -
  have "CHR 0x0A \<notin> set (concat (map (\<lambda>f. f @ ''|'') fs))"
    "CHR 0x0A \<notin> set (concat (map (\<lambda>f. f @ ''|'') gs))"
    using assms by (auto simp: clean_record_def)
  then show ?thesis
    using assms fields_unique [of fs gs]
    by (simp add: record_line_def split_unique clean_record_def)
qed

lemma lines_unique:
  "(\<forall>r \<in> set rs. clean_record r) \<Longrightarrow> (\<forall>r \<in> set ss. clean_record r) \<Longrightarrow>
   concat (map record_line rs) = concat (map record_line ss) \<longleftrightarrow> rs = ss"
proof (induction rs arbitrary: ss)
  case Nil
  then show ?case by (cases ss) (auto simp: record_line_def)
next
  case (Cons r rs)
  show ?case
  proof (cases ss)
    case Nil
    then show ?thesis by (simp add: record_line_def)
  next
    case (Cons s ss')
    then show ?thesis using Cons.prems Cons.IH [of ss'] by (simp add: record_line_unique)
  qed
qed

section \<open>The tallies survive the file\<close>

definition flatten :: "('k \<times> 'v list) list \<Rightarrow> ('k \<times> 'v) list" where
  "flatten kvs = concat (map (\<lambda>(k, vs). map (Pair k) vs) kvs)"

lemma flatten_filter:
  "distinct (map fst kvs) \<Longrightarrow> (k, vs) \<in> set kvs \<Longrightarrow>
   map snd (filter (\<lambda>x. fst x = k) (flatten kvs)) = vs"
proof (induction kvs)
  case (Cons e kvs)
  obtain k' vs' where e: "e = (k', vs')" by (cases e)
  have other: "filter (\<lambda>x. fst x = k) (map (Pair k') vs') = (if k' = k then map (Pair k) vs' else [])"
    by (induction vs') auto
  show ?case
  proof (cases "k' = k")
    case True
    then have "k \<notin> fst ` set kvs" using Cons.prems(1) by (simp add: e)
    then have rest: "filter (\<lambda>x. fst x = k) (flatten kvs) = []"
      by (force simp: flatten_def filter_empty_conv)
    have "vs = vs'" using Cons.prems True \<open>k \<notin> fst ` set kvs\<close> by (force simp: e)
    then show ?thesis using other rest True by (simp add: flatten_def e comp_def)
  next
    case False
    then show ?thesis using other Cons by (simp add: flatten_def e)
  qed
qed simp

lemma set_flatten_keys: "\<forall>(k, vs) \<in> set kvs. vs \<noteq> [] \<Longrightarrow> fst ` set (flatten kvs) = fst ` set kvs"
  by (force simp: flatten_def neq_Nil_conv)

lemma collect_flatten:
  assumes "sorted (map fst kvs)" and "distinct (map fst kvs)" and "\<forall>(k, vs) \<in> set kvs. vs \<noteq> []"
  shows "collect (flatten kvs) = kvs"
proof -
  have keys: "remdups (sort (map fst (flatten kvs))) = map fst kvs"
    by (rule sorted_distinct_set_unique)
      (use assms set_flatten_keys [OF assms(3)] in \<open>simp_all add: sorted_remdups\<close>)
  have "collect (flatten kvs) = map (\<lambda>k. (k, map snd (filter (\<lambda>x. fst x = k) (flatten kvs)))) (map fst kvs)"
    by (simp add: collect_def group_by_def keys comp_def)
  also have "\<dots> = kvs"
    unfolding map_map by (rule map_idI) (auto simp: flatten_filter [OF assms(2)])
  finally show ?thesis .
qed

lemma py_map_inverse: "(\<And>x. x \<in> set xs \<Longrightarrow> f (e x) = Inr x) \<Longrightarrow> py_map f (map e xs) = Inr xs"
  by (induction xs) simp_all

lemma load_tally: "dt_pred_ups d = Some p \<Longrightarrow> dt_hc_pred_ups d = Some q \<Longrightarrow>
    load_directional_record (h # tally_fields d) = Inr (h, d)"
  by (simp add: load_directional_record_def tally_fields_def tally_of_ints_def
      del: list.map)

lemma fetch_directional_shape:
  "sorted (map fst (fetch_directional_days con))" "distinct (map fst (fetch_directional_days con))"
  "\<forall>(h, ds) \<in> set (fetch_directional_days con). ds \<noteq> []
     \<and> (\<forall>d \<in> set ds. dt_pred_ups d \<noteq> None \<and> dt_hc_pred_ups d \<noteq> None)"
proof -
  have keys: "map fst (fetch_directional_days con) = map fst (group_by po_horizon (dedup con))"
    by (simp add: fetch_directional_days_def comp_def case_prod_unfold)
  show "sorted (map fst (fetch_directional_days con))" "distinct (map fst (fetch_directional_days con))"
    unfolding keys by (simp_all add: sorted_group_by distinct_group_by del: group_by_keys)
  show "\<forall>(h, ds) \<in> set (fetch_directional_days con). ds \<noteq> []
     \<and> (\<forall>d \<in> set ds. dt_pred_ups d \<noteq> None \<and> dt_hc_pred_ups d \<noteq> None)"
    by (auto simp: fetch_directional_days_def tally_of_def dest: group_nonempty)
qed

section \<open>Properties\<close>

text \<open>
  C11. The text that is hashed determines the records as long as no field holds a bar or a newline:
  two bundles of such fields that hash the same text for a file hold the same records in it, so a
  change that keeps the hash has to break SHA-256 and not its input.
\<close>

theorem canonical_text_is_injective:
  assumes "canon_records name kind rs = canon_records name kind ss"
    and "\<forall>r \<in> set rs. clean_record r" and "\<forall>s \<in> set ss. clean_record s"
  shows "rs = ss"
proof (cases "rs = [] \<or> ss = []")
  case True
  then show ?thesis using assms(1) by (auto simp: canon_records_def split: if_splits)
next
  case False
  have "CHR 0x0A \<notin> set (str_of_nat k)" for k using str_int_clean [of "int k"] by (simp add: str_of_nat_def)
  then have "concat (map record_line rs) = concat (map record_line ss)"
    using assms(1) False by (simp add: canon_records_def split_unique)
  then show ?thesis using lines_unique [OF assms(2,3)] by simp
qed

theorem canonical_text_is_injective_witness:
  "canon_records ''f'' ''k'' [[''1d'', ''3'']] \<noteq> canon_records ''f'' ''k'' [[''1d'', ''4'']]"
  using canonical_text_is_injective [of "''f''" "''k''" "[[''1d'', ''3'']]" "[[''1d'', ''4'']]"]
  by (auto simp: clean_record_def)

text \<open>
  Nothing escapes the bar, so the condition on the fields is needed: one field that holds a bar is
  hashed like two fields.
\<close>

lemma bar_in_a_field_is_ambiguous:
  "canon_records name kind [[a @ ''|'' @ b]] = canon_records name kind [[a, b]]"
  by (simp add: canon_records_def record_line_def)

text \<open>
  C10. Round trip: the directional tallies a snapshot was cut with are read back unchanged, so a
  grade from the committed bundle starts from the inputs of a grade from the database.
\<close>

theorem directional_tallies_round_trip:
  "load_directional (directional_records con) = Inr (fetch_directional_days con)"
proof -
  let ?by_h = "fetch_directional_days con"
  have sorted: "sort_key fst ?by_h = ?by_h"
    by (rule sort_key_id_if_sorted) (rule fetch_directional_shape)
  have recs: "directional_records con = map (\<lambda>(h, d). h # tally_fields d) (flatten ?by_h)"
    unfolding directional_records_def sorted flatten_def map_concat map_map
    by (intro arg_cong [where f = concat] map_cong) auto
  have "py_map load_directional_record (directional_records con) = Inr (flatten ?by_h)"
    unfolding recs
  proof (rule py_map_inverse)
    fix x assume "x \<in> set (flatten ?by_h)"
    then obtain h d ds where x: "x = (h, d)" "(h, ds) \<in> set ?by_h" "d \<in> set ds"
      by (auto simp: flatten_def)
    then obtain p q where "dt_pred_ups d = Some p" "dt_hc_pred_ups d = Some q"
      using fetch_directional_shape(3) [of con] by fastforce
    then show "load_directional_record (case x of (h, d) \<Rightarrow> h # tally_fields d) = Inr x"
      by (simp add: x load_tally)
  qed
  moreover have "collect (flatten ?by_h) = ?by_h"
    by (rule collect_flatten) (use fetch_directional_shape [of con] in auto)
  ultimately show ?thesis by (simp add: load_directional_def)
qed

text \<open>The file is there, and the manifest's entry is the hash of its records.\<close>

definition genuine :: "snapshot_dir \<Rightarrow> (string \<times> string) list \<Rightarrow> string \<Rightarrow> bool" where
  "genuine snap manifest f \<longleftrightarrow> (\<exists>recs. map_of (sn_files snap) f = Some recs
     \<and> map_of (rev manifest) f = Some (hash_records f (the (map_of FILES f)) recs))"

lemma read_file_genuine: "read_file snap m f = Inr recs \<Longrightarrow> genuine snap m f"
  by (auto simp: genuine_def read_file_def Let_def split: option.splits if_splits)

lemma read_optional_genuine: "read_optional snap m f = Inr recs \<Longrightarrow> f \<in> set (missing_files snap m) \<or> genuine snap m f"
  by (auto simp: read_optional_def read_file_genuine split: if_splits)

text \<open>
  C9. A bundle is graded only when it is intact: every file the loader reads has the hash its
  manifest declares, and a protocol record the bundle carries registers the running grader. Unless a
  legacy archive was allowed, all eight files of a snapshot are there and in the manifest and all six
  the loader reads are genuine; a legacy archive may lack the claims, the frozen nulls and the
  protocol, and no other file the loader reads.
\<close>

theorem loaded_bundle_is_intact:
  assumes "load_snapshot pf snap allow_legacy = Inr si"
  shows "\<exists>manifest. sn_manifest snap = Some manifest
    \<and> (\<forall>f \<in> {''directional_days.csv'', ''structural_days.csv'', ''structural_claims.csv''}.
         genuine snap manifest f)
    \<and> (\<forall>f \<in> {''prereg_claims.csv'', ''structural_naive_days.csv'', ''grading_protocol.csv''}.
         genuine snap manifest f \<or> allow_legacy \<and> f \<in> set (missing_files snap manifest))
    \<and> (allow_legacy \<or> (\<forall>f \<in> fst ` set FILES. f \<in> fst ` set manifest \<and> f \<in> fst ` set (sn_files snap)))
    \<and> (sp_protocol si = None \<or> grader_registration_error pf (sp_protocol si) = None)"
proof -
  have reg: "load_protocol pf recs = Inr p \<Longrightarrow> p = None \<or> grader_registration_error pf p = None" for recs p
    by (auto simp: load_protocol_def run_bind_Inr split: list.splits option.splits)
  obtain m where m: "sn_manifest snap = Some m" "missing_files snap m = [] \<or> allow_legacy"
    using assms by (auto simp: load_snapshot_def split: option.splits if_splits)
  obtain r1 r2 r3 r4 r5 r6
    where "read_file snap m ''directional_days.csv'' = Inr r1"
      "read_file snap m ''structural_days.csv'' = Inr r2"
      "read_file snap m ''structural_claims.csv'' = Inr r3"
      "read_optional snap m ''prereg_claims.csv'' = Inr r4"
      "read_optional snap m ''structural_naive_days.csv'' = Inr r5"
      "read_optional snap m ''grading_protocol.csv'' = Inr r6"
      "load_protocol pf r6 = Inr (sp_protocol si)"
    using assms m by (auto simp: load_snapshot_def run_bind_Inr of_py_Inr split: if_splits)
  note read = this(1-3) [THEN read_file_genuine] this(4-6) [THEN read_optional_genuine]
    and protocol = this(7) [THEN reg]
  have "f \<in> fst ` set m \<and> f \<in> fst ` set (sn_files snap)" if "missing_files snap m = []" "f \<in> fst ` set FILES" for f
    using that by (auto simp: missing_files_def filter_empty_conv map_of_eq_None_iff)
  with m read protocol show ?thesis by (intro exI [of _ m]) auto
qed

definition legacy_bundle :: snapshot_dir where
  "legacy_bundle =
     \<lparr>sn_manifest = Some (map (\<lambda>f. (f, hash_records f (the (map_of FILES f)) []))
        [''directional_days.csv'', ''structural_days.csv'', ''structural_claims.csv'']),
      sn_files = map (\<lambda>f. (f, [])) [''directional_days.csv'', ''structural_days.csv'', ''structural_claims.csv'']\<rparr>"

definition full_bundle :: snapshot_dir where
  "full_bundle =
     \<lparr>sn_manifest = Some (map (\<lambda>f. (f, hash_records f (the (map_of FILES f)) [])) (map fst FILES)),
      sn_files = map (\<lambda>f. (f, [])) (map fst FILES)\<rparr>"

theorem loaded_bundle_is_intact_witness:
  "\<exists>si manifest. load_snapshot sample_platform full_bundle False = Inr si \<and> sp_protocol si = None
    \<and> sn_manifest full_bundle = Some manifest \<and> genuine full_bundle manifest ''prereg_claims.csv''
    \<and> ''xsfactor_inputs.csv'' \<in> fst ` set manifest"
proof -
  have "\<exists>si. load_snapshot sample_platform full_bundle False = Inr si \<and> sp_protocol si = None"
    by (simp add: load_snapshot_def full_bundle_def read_file_def read_optional_def missing_files_def
        FILES_def load_directional_def load_days_def load_protocol_def Let_def)
  then obtain si where si: "load_snapshot sample_platform full_bundle False = Inr si" "sp_protocol si = None" by blast
  have "''xsfactor_inputs.csv'' \<in> fst ` set FILES" by (simp add: FILES_def)
  moreover obtain manifest where "sn_manifest full_bundle = Some manifest"
      "genuine full_bundle manifest ''prereg_claims.csv''" "\<forall>f \<in> fst ` set FILES. f \<in> fst ` set manifest"
    using loaded_bundle_is_intact [OF si(1)] by auto
  ultimately show ?thesis using si by blast
qed

end
