(* ===== verification/Registry_Run.thy ===== *)
theory Registry_Run
  imports Snapshot
begin

text \<open>
  \<open>main\<close> of \<open>tools/accuracy_registry.py\<close>: the run against the database and the run against a
  reproducibility snapshot, from the sources they read to the published registry and the exit
  status. Only the printing is left out.
\<close>

section \<open>What a run publishes\<close>

record registry =
  rx_grader :: grader
  rx_rows :: "grade_row list"
  rx_settlement :: "quarantine_census option"
  rx_stale :: "unmeasured + stale_count"
  rx_thin :: "(string \<times> thin_count) list option"
  rx_direction_complete :: completeness
  rx_structure_complete :: completeness
  rx_gate :: revision_gate_result
  rx_probe :: null_probe
  rx_chain :: "chain_presence option"
  rx_protocol_seq :: "int option"
  rx_calibration :: "(string \<times> calibration_bin list) list option"
  rx_refusals :: "string list"

section \<open>The database run\<close>

definition grade_db :: "database \<Rightarrow> quarantine_census option \<Rightarrow> grader \<Rightarrow> grade_row list py" where
  "grade_db con settlement g =
     py_bind (grade_structural (current_z g) con) (\<lambda>structural.
       Inr (grade_directional (current_z g) con (Some settlement) @ structural))"

definition rows_or_none :: "grade_row list py \<Rightarrow> grade_row list" where
  "rows_or_none m = (case m of Inr rows \<Rightarrow> rows | Inl _ \<Rightarrow> [])"

text \<open>Two passes over a grading that raises the same exception in every pass, or in none.\<close>

definition graded_run ::
    "(grader \<Rightarrow> grade_row list py) \<Rightarrow> int \<Rightarrow> grader \<Rightarrow> (grader \<times> grade_row list) run" where
  "graded_run grade looks g =
     run_bind (of_py (grade g)) (\<lambda>_.
       Inr (grade_with_multiplicity (\<lambda>g. rows_or_none (grade g)) looks g))"

definition looks_taken :: "database \<Rightarrow> source_file \<Rightarrow> int py" where
  "looks_taken con reg_file =
     py_bind (chain_looks con) (\<lambda>c. py_bind (published_looks reg_file) (\<lambda>p.
       Inr (max 1 (max c p))))"

definition raise_family_floor :: "database \<Rightarrow> source_file \<Rightarrow> grader py" where
  "raise_family_floor con reg_file =
     py_bind (chain_families con) (\<lambda>c. py_bind (published_family reg_file) (\<lambda>p.
       Inr (set_family_floor (max c p) initial_grader)))"

definition gated_rows :: "null_probe \<Rightarrow> revision_gate_result \<Rightarrow> grade_row list \<Rightarrow> grade_row list" where
  "gated_rows probe gate rows = apply_revision_gate gate (apply_null_amendment_probe probe rows)"

definition protocol_seq :: "protocol \<Rightarrow> int option" where
  "protocol_seq d = (case jget ''_seq'' d of JInt i \<Rightarrow> Some i | _ \<Rightarrow> None)"

definition database_registry ::
    "platform \<Rightarrow> database \<Rightarrow> protocol \<Rightarrow> grader \<Rightarrow> grade_row list \<Rightarrow> registry" where
  "database_registry pf con protocol g rows =
     (let probe = null_amendment_probe con; gate = revision_gate (pf_git pf) con
      in \<lparr>rx_grader = g,
          rx_rows = gated_rows probe gate rows,
          rx_settlement = measure_settlement_quarantine (Some con),
          rx_stale = measure_stale_feed_exclusion (Some con),
          rx_thin = measure_thin_day_exclusion (Some con),
          rx_direction_complete = measure_universe_completeness (Some con) ''prediction_outcomes'',
          rx_structure_complete = measure_universe_completeness (Some con) ''regime_outcomes'',
          rx_gate = gate, rx_probe = probe,
          rx_chain = Some (fetch_chain_presence con),
          rx_protocol_seq = protocol_seq protocol,
          rx_calibration = Some (fetch_calibration_bins con),
          rx_refusals = null_refusals probe rows @ revision_refusals gate rows\<rparr>)"

definition run_database :: "platform \<Rightarrow> database \<Rightarrow> int \<Rightarrow> source_file \<Rightarrow> registry run" where
  "run_database pf con now reg_file =
     run_bind (require_registered_grader pf con) (\<lambda>protocol.
     run_bind (require_research_liveness con now) (\<lambda>_.
     run_bind (of_py (looks_taken con reg_file)) (\<lambda>looks.
     run_bind (of_py (raise_family_floor con reg_file)) (\<lambda>g.
     run_bind (graded_run (grade_db con (measure_settlement_quarantine (Some con))) looks g) (\<lambda>(g, rows).
       Inr (database_registry pf con protocol g rows))))))"

section \<open>The snapshot run\<close>

definition grade_snapshot :: "snapshot_inputs \<Rightarrow> grader \<Rightarrow> grade_row list" where
  "grade_snapshot si g =
     grade_directional_days (current_z g) (sp_directional si) None None
     @ grade_structural_days (current_z g) (sp_totals si) (sp_days si) (sp_claims si)
         (sp_naive si) None"

definition drop_verdict :: "grade_row \<Rightarrow> grade_row" where
  "drop_verdict r = r\<lparr>r_verdict := None, r_claim_verdict := None\<rparr>"

definition drop_unregistered :: "protocol option \<Rightarrow> grade_row list \<Rightarrow> grade_row list" where
  "drop_unregistered protocol rows = (if protocol = None then map drop_verdict rows else rows)"

definition drop_untargeted :: "bool \<Rightarrow> (string \<times> prereg_claim) list \<Rightarrow> grade_row list \<Rightarrow> grade_row list" where
  "drop_untargeted allow_legacy claims rows =
     (if allow_legacy \<and> claims = []
      then map (\<lambda>r. if starts_with ''structure'' (r_family r)
                    then drop_verdict (r\<lparr>r_claim := (r_claim r)\<lparr>cl_source := Some ''DB average (NO CHAIN RECORD)''\<rparr>\<rparr>)
                    else r) rows
      else rows)"

definition snapshot_looks :: "protocol option \<Rightarrow> source_file \<Rightarrow> int py" where
  "snapshot_looks protocol reg_file =
     (let shipped = (case protocol of
          None \<Rightarrow> 0
        | Some d \<Rightarrow> (case jget ''_looks'' d of JInt i \<Rightarrow> i | _ \<Rightarrow> 0))
      in py_bind (published_looks reg_file) (\<lambda>p. Inr (max 1 (max shipped p))))"

definition snapshot_registry ::
    "bool \<Rightarrow> snapshot_inputs \<Rightarrow> grader \<Rightarrow> grade_row list \<Rightarrow> registry" where
  "snapshot_registry allow_legacy si g rows =
     \<lparr>rx_grader = g,
      rx_rows = drop_untargeted allow_legacy (sp_claims si) (drop_unregistered (sp_protocol si) rows),
      rx_settlement = measure_settlement_quarantine None,
      rx_stale = measure_stale_feed_exclusion None,
      rx_thin = measure_thin_day_exclusion None,
      rx_direction_complete = measure_universe_completeness None ''prediction_outcomes'',
      rx_structure_complete = measure_universe_completeness None ''regime_outcomes'',
      rx_gate = \<lparr>rg_structure = [], rg_direction = [], rg_checked = False\<rparr>,
      rx_probe = \<lparr>np_count = 0, np_newest = None, np_kinds = []\<rparr>,
      rx_chain = None, rx_protocol_seq = None, rx_calibration = None, rx_refusals = []\<rparr>"

definition run_snapshot :: "platform \<Rightarrow> snapshot_dir \<Rightarrow> bool \<Rightarrow> source_file \<Rightarrow> registry run" where
  "run_snapshot pf snap allow_legacy reg_file =
     run_bind (load_snapshot pf snap allow_legacy) (\<lambda>si.
     run_bind (of_py (snapshot_looks (sp_protocol si) reg_file)) (\<lambda>looks.
       (case grade_with_multiplicity (grade_snapshot si) looks initial_grader of
          (g, rows) \<Rightarrow> Inr (snapshot_registry allow_legacy si g rows))))"

section \<open>The program\<close>

datatype source = FromDatabase db_path | FromBundle snapshot_dir bool

definition registry_main :: "platform \<Rightarrow> source \<Rightarrow> int \<Rightarrow> source_file \<Rightarrow> registry run" where
  "registry_main pf src now reg_file =
     (case src of
        FromBundle snap allow_legacy \<Rightarrow> run_snapshot pf snap allow_legacy reg_file
      | FromDatabase NoDatabase \<Rightarrow> Inl (Refuses DatabaseNotFound)
      | FromDatabase Unopenable \<Rightarrow> Inl (Raises OperationalErr)
      | FromDatabase (Opened con) \<Rightarrow> run_database pf con now reg_file)"

text \<open>
  The process status: a refusal and an uncaught exception leave with 1, a published registry
  with 1 exactly when the write-path invariant is broken.
\<close>

definition exit_status :: "registry run \<Rightarrow> int" where
  "exit_status out =
     (case out of
        Inl _ \<Rightarrow> 1
      | Inr rx \<Rightarrow>
          (case rx_chain rx of
             None \<Rightarrow> 0
           | Some ch \<Rightarrow>
               (case cp_unmatched ch of None \<Rightarrow> 0 | Some n \<Rightarrow> if n = 0 then 0 else 1)))"

section \<open>Interfaces\<close>

lemma grade_db_blind:
  "(\<exists>e. grade_db con s g = Inl e \<and> grade_db con s g' = Inl e)
   \<or> (\<exists>rs rs'. grade_db con s g = Inr rs \<and> grade_db con s g' = Inr rs'
         \<and> map evidence_view rs = map evidence_view rs')"
  using grade_structural_blind [of "current_z g" con "current_z g'"]
    directional_view [of "current_z g" _ _ _ "current_z g'"]
  by (auto simp: grade_db_def grade_directional_def)

lemma map_eq_length: "map f xs = map f ys \<Longrightarrow> length xs = length ys"
  by (metis length_map)

interpretation db_grading: price_blind_grading "\<lambda>g. rows_or_none (grade_db con s g)" for con s
proof
  show "length (rows_or_none (grade_db con s g)) = length (rows_or_none (grade_db con s g'))" for g g'
    using grade_db_blind [of con s g g'] by (auto simp: rows_or_none_def dest: map_eq_length)
qed

interpretation snapshot_grading: price_blind_grading "grade_snapshot si" for si
proof
  fix g g'
  have "map evidence_view (grade_snapshot si g) = map evidence_view (grade_snapshot si g')"
    using directional_view [of "current_z g" _ _ _ "current_z g'"]
      structural_view [of "current_z g" _ _ _ _ _ "current_z g'"]
    by (simp add: grade_snapshot_def)
  then show "length (grade_snapshot si g) = length (grade_snapshot si g')" by (rule map_eq_length)
qed

lemma gated_rows_gate: "withholding_gate (gated_rows probe gate)"
proof -
  have "withholding_gate (\<lambda>rows. apply_revision_gate gate (apply_null_amendment_probe probe rows))"
    by (rule withholding_gate_comp [OF null_gating.withholding_gate_axioms
          revision_gating.withholding_gate_axioms])
  then show ?thesis by (simp add: gated_rows_def [abs_def])
qed

interpretation both_gates: withholding_gate "gated_rows probe gate" for probe gate
  by (rule gated_rows_gate)

interpretation unregistered_gate: withholding_gate "drop_unregistered protocol" for protocol
  by unfold_locales
    (auto simp: drop_unregistered_def drop_verdict_def withholds_def bare_def intro: list_withholds_map)

section \<open>Facts\<close>

lemma grade_db_priced:
  assumes "r \<in> set (rows_or_none (grade_db con s g))"
  shows "priced_at (current_z g) r"
proof -
  obtain rows where "grade_db con s g = Inr rows" "r \<in> set rows"
    using assms by (cases "grade_db con s g") (auto simp: rows_or_none_def)
  then show ?thesis
    using structural_priced [of r "current_z g"] directional_priced [of r "current_z g"]
    by (auto simp: grade_db_def grade_structural_def grade_directional_def py_bind_Inr)
qed

lemma gated_priced:
  assumes "r' \<in> set (gated_rows probe gate (stamp_multiplicity g (rows_or_none (grade_db con s g))))"
  shows "priced_at (current_z g) r'"
proof -
  obtain r where r: "r \<in> set (rows_or_none (grade_db con s g))" "withholds (r\<lparr>r_price := Some (gr_mult g)\<rparr>) r'"
    using assms by (rule both_gates.gate_from) (auto simp: stamp_multiplicity_def)
  have "priced_at z (r\<lparr>r_price := p\<rparr>) = priced_at z r" for z p by (simp add: priced_at_def)
  with withholds_priced [OF r(2)] grade_db_priced [OF r(1)] show ?thesis by simp
qed

lemma run_databaseE:
  assumes "run_database pf con now reg = Inr rx"
  obtains protocol looks g0 g rows
  where "require_registered_grader pf con = Inr protocol"
    and "require_research_liveness con now = Inr ()"
    and "looks_taken con reg = Inr looks" and "raise_family_floor con reg = Inr g0"
    and "grade_with_multiplicity
      (\<lambda>g. rows_or_none (grade_db con (measure_settlement_quarantine (Some con)) g)) looks g0 = (g, rows)"
    and "rx = database_registry pf con protocol g rows"
proof -
  let ?grade = "grade_db con (measure_settlement_quarantine (Some con))"
  from assms obtain protocol looks g0 out where steps:
      "require_registered_grader pf con = Inr protocol"
      "require_research_liveness con now = Inr ()"
      "looks_taken con reg = Inr looks" "raise_family_floor con reg = Inr g0"
      "graded_run ?grade looks g0 = Inr out"
    and rx: "(case out of (g, rows) \<Rightarrow> Inr (database_registry pf con protocol g rows)) = Inr rx"
    by (fastforce simp: run_database_def run_bind_Inr of_py_Inr)
  obtain g rows where out: "out = (g, rows)" by (cases out)
  have "grade_with_multiplicity (\<lambda>g. rows_or_none (?grade g)) looks g0 = (g, rows)"
    using steps(5) by (auto simp: graded_run_def run_bind_Inr out)
  with steps rx out that show thesis by simp
qed

lemma raise_family_floor_floor:
  "raise_family_floor con reg = Inr g \<Longrightarrow> \<exists>c p. chain_families con = Inr c \<and> published_family reg = Inr p
     \<and> gr_family_floor g = max 1 (max c p)"
  by (auto simp: raise_family_floor_def py_bind_Inr set_family_floor_def initial_grader_def)

lemma bare_price: "bare r = bare s \<Longrightarrow> r_price r = r_price s"
  by (metis (no_types, lifting) bare_def grade_row.select_convs(20) grade_row.surjective
      grade_row.update_convs(11,12,13,18,19))

end
