(* ===== verification/Deployment_Drift.thy ===== *)
theory Deployment_Drift
  imports Snapshot
begin

text \<open>
  \<open>tools/deployment_drift.py\<close>: the six checks that run before the grader and ask of the live
  database, not of the source tree, whether the mechanisms the pre-registration chain claims are
  running. A check's result is its name, whether it holds, and the evidence, whose texts are
  constructors that carry the values they show. The repository is a parameter: the Go files the
  checks read and what \<open>git show\<close>, \<open>git diff\<close> and \<open>git log\<close> answer.
\<close>

section \<open>The repository\<close>

record repo =
  rp_regimeoutcomes :: "string option"
  rp_structregime :: "(string \<times> string option) list option"   \<comment> \<open>directory listing; an unreadable file has no text\<close>
  rp_show :: "string \<Rightarrow> string option"             \<comment> \<open>\<open>discover.go\<close> at a revision\<close>
  rp_diff :: "string \<Rightarrow> string option"             \<comment> \<open>names changed up to HEAD under the daemon's paths\<close>
  rp_log :: "string \<Rightarrow> string option"

definition HOLDOUT_CONST :: string where "HOLDOUT_CONST = ''PreregHoldoutEra''"
definition BUILD_REV_META_KEY :: string where "BUILD_REV_META_KEY = ''lineage_build_rev''"
definition GO_EPOCH :: int where "GO_EPOCH = 1785110400"
definition BOOT_QUIET_SECS :: int where "BOOT_QUIET_SECS = 900"

section \<open>The kinds of the write guard\<close>

text \<open>
  The regular expressions are read as scanners: each returns the capture and the rest of the text
  after a match at the front. Every repeated class is followed by a character outside it, so a
  greedy scan is the match.
\<close>

definition is_word :: "char \<Rightarrow> bool" where
  "is_word c = (let n = of_char c :: nat
     in (48 \<le> n \<and> n \<le> 57) \<or> (65 \<le> n \<and> n \<le> 90) \<or> (97 \<le> n \<and> n \<le> 122) \<or> n = 95)"

fun expect :: "string \<Rightarrow> string \<Rightarrow> string option" where
  "expect [] s = Some s"
| "expect (c # p) [] = None"
| "expect (c # p) (d # s) = (if c = d then expect p s else None)"

definition many_ws :: "string \<Rightarrow> string" where "many_ws s = dropWhile is_ws s"

definition some_ws :: "string \<Rightarrow> string option" where
  "some_ws s = (case s of c # r \<Rightarrow> if is_ws c then Some (dropWhile is_ws r) else None | [] \<Rightarrow> None)"

text \<open>The text up to the first occurrence of a separator.\<close>

fun upto_sep :: "string \<Rightarrow> string \<Rightarrow> string option" where
  "upto_sep sep [] = (if sep = [] then Some [] else None)"
| "upto_sep sep (c # s) =
     (if starts_with sep (c # s) then Some [] else map_option (\<lambda>r. c # r) (upto_sep sep s))"

definition null_kinds_head :: "string \<Rightarrow> string option" where
  "null_kinds_head s =
     Option.bind (expect ''var'' s) (\<lambda>s.
     Option.bind (some_ws s) (\<lambda>s.
     Option.bind (expect ''structuralNullKinds'' s) (\<lambda>s.
     Option.bind (expect ''='' (many_ws s)) (\<lambda>s.
     Option.bind (expect ''map['' (many_ws s)) (\<lambda>s.
     let key = takeWhile (\<lambda>c. c \<noteq> CHR '']'') s; s = dropWhile (\<lambda>c. c \<noteq> CHR '']'') s in
     if key = [] then None else
     Option.bind (expect '']bool'' s) (\<lambda>s. expect ''{'' (many_ws s)))))))"

fun null_kinds_body :: "string \<Rightarrow> string option" where
  "null_kinds_body [] = None"
| "null_kinds_body (c # s) =
     (case Option.bind (null_kinds_head (c # s)) (upto_sep [CHR 0x0A, CHR ''}'']) of
        Some body \<Rightarrow> Some body
      | None \<Rightarrow> null_kinds_body s)"

definition kind_word :: "string \<Rightarrow> (string \<times> string) option" where
  "kind_word s =
     (let w = takeWhile is_word s
      in if starts_with ''Kind'' w \<and> 4 < length w then Some (w, dropWhile is_word s) else None)"

definition guarded_kind :: "string \<Rightarrow> string option" where
  "guarded_kind s =
     Option.bind (expect ''structregime.'' s) (\<lambda>s.
     Option.bind (kind_word s) (\<lambda>(w, s).
     Option.bind (expect '':'' (many_ws s)) (\<lambda>s.
     map_option (\<lambda>_. w) (expect ''true'' (many_ws s)))))"

text \<open>\<open>re.findall\<close>: no match of this pattern begins inside another, so every position is tried.\<close>

fun guarded_kinds :: "string \<Rightarrow> string list" where
  "guarded_kinds [] = []"
| "guarded_kinds (c # s) =
     (case guarded_kind (c # s) of Some w \<Rightarrow> w # guarded_kinds s | None \<Rightarrow> guarded_kinds s)"

definition kind_constant :: "string \<Rightarrow> ((string \<times> string) \<times> string) option" where
  "kind_constant s =
     Option.bind (kind_word s) (\<lambda>(w, s).
     Option.bind (some_ws s) (\<lambda>s.
     Option.bind (expect ''Kind'' s) (\<lambda>s.
     Option.bind (expect ''='' (many_ws s)) (\<lambda>s.
     Option.bind (expect [CHR 0x22] (many_ws s)) (\<lambda>s.
     let v = takeWhile (\<lambda>c. c \<noteq> CHR 0x22) s
     in if v = [] \<or> length v = length s then None
        else Some ((w, v), tl (dropWhile (\<lambda>c. c \<noteq> CHR 0x22) s)))))))"

text \<open>
  The constants of one file. The flag says that the previous character is no word character (the
  \<open>\b\<close> of the pattern), the number is how much of the last match is still to be passed over.
\<close>

fun kind_constants :: "bool \<Rightarrow> nat \<Rightarrow> string \<Rightarrow> (string \<times> string) list" where
  "kind_constants edge k [] = []"
| "kind_constants edge (Suc k) (c # s) = kind_constants (\<not> is_word c) k s"
| "kind_constants edge 0 (c # s) =
     (case (if edge then kind_constant (c # s) else None) of
        Some (kv, rest) \<Rightarrow> kv # kind_constants (\<not> is_word c) (length s - length rest) s
      | None \<Rightarrow> kind_constants (\<not> is_word c) 0 s)"

datatype kinds_error =
    CannotReadGo
  | NoKindsVar
  | NoKindIdents
  | UnresolvedKinds "string list"

fun read_all :: "string option list \<Rightarrow> string list option" where
  "read_all [] = Some []"
| "read_all (None # rest) = None"
| "read_all (Some s # rest) = map_option (\<lambda>ss. s # ss) (read_all rest)"

definition kind_values :: "string list \<Rightarrow> string \<Rightarrow> string option" where
  "kind_values texts = map_of (rev (concat (map (kind_constants True 0) texts)))"

definition structural_null_kinds :: "repo \<Rightarrow> kinds_error + string list" where
  "structural_null_kinds rp =
     (case rp_regimeoutcomes rp of
        None \<Rightarrow> Inl CannotReadGo
      | Some src \<Rightarrow>
          (case null_kinds_body src of
             None \<Rightarrow> Inl NoKindsVar
           | Some body \<Rightarrow>
               (if guarded_kinds body = [] then Inl NoKindIdents
                else case Option.bind (rp_structregime rp) (\<lambda>listing.
                       read_all (map snd (sort_key fst (filter (\<lambda>(fn, _). ends_with ''.go'' fn) listing)))) of
                  None \<Rightarrow> Inl CannotReadGo
                | Some texts \<Rightarrow>
                    let values = kind_values texts;
                        missing = filter (\<lambda>i. values i = None) (guarded_kinds body)
                    in if missing \<noteq> [] then Inl (UnresolvedKinds missing)
                       else Inr (sort (map (\<lambda>i. the (values i)) (guarded_kinds body))))))"

section \<open>Results of the checks\<close>

datatype evidence =
    NullKindsUnreadable kinds_error
  | NullSchemaTooOld
  | NullCoverage (ev_governed: int) (ev_matched: int) (ev_quarantined: int) (ev_unmatched: int)
      "(string \<times> int) list" int "string list"
  | JudgmentLedger bool int
  | QuarantineTablesAbsent bool bool
  | NoManifestRow
  | QuarantineDigest string int string int
  | NoBuildRevision string "int option"
  | DirtyBuild string "int option"
  | RevisionUnreadable string "int option"
  | HoldoutConst string "int option" bool
  | DriftRevisionUnknown string
  | DriftUnreadable string
  | DaemonCurrent string nat
  | DaemonStale string "string list" "string list"
  | NoBoot
  | StampRevisionUnknown string
  | RowStamps string int "(string \<times> (int \<times> int) option) list"

record check =
  ck_name :: string
  ck_ok :: bool
  ck_evidence :: evidence

definition check_of :: "string \<Rightarrow> bool \<Rightarrow> evidence \<Rightarrow> check" where
  "check_of name ok ev = \<lparr>ck_name = name, ck_ok = ok, ck_evidence = ev\<rparr>"

lemma check_of_sel [simp]:
  "ck_name (check_of n b e) = n" "ck_ok (check_of n b e) = b" "ck_evidence (check_of n b e) = e"
  by (simp_all add: check_of_def)

section \<open>(a) The matched baseline\<close>

definition governed :: "string list \<Rightarrow> regime_row \<Rightarrow> bool" where
  "governed kinds r \<longleftrightarrow> NULL_AMENDMENT_EPOCH_TS \<le> ro_ts r \<and> ro_superseded r = None \<and> ro_kind r \<in> set kinds"

definition unquarantined :: "database \<Rightarrow> regime_row \<Rightarrow> bool" where
  "unquarantined con r \<longleftrightarrow> ro_naive r = None
     \<and> (case db_quarantine con of None \<Rightarrow> True | Some qs \<Rightarrow> ro_id r \<notin> qr_outcome ` set qs)"

definition unmatched_rows :: "database \<Rightarrow> string list \<Rightarrow> regime_row list \<Rightarrow> regime_row list" where
  "unmatched_rows con kinds rows = filter (\<lambda>r. governed kinds r \<and> unquarantined con r) rows"

definition by_kind :: "regime_row list \<Rightarrow> (string \<times> int) list" where
  "by_kind rows = sort_key (\<lambda>kn. - snd kn) (map (\<lambda>(k, g). (k, int (length g))) (group_by ro_kind rows))"

definition check_null_coverage :: "database \<Rightarrow> repo \<Rightarrow> check" where
  "check_null_coverage con rp =
     (case structural_null_kinds rp of
        Inl e \<Rightarrow> check_of ''matched-null-baseline'' False (NullKindsUnreadable e)
      | Inr kinds \<Rightarrow>
          (case (db_regime con, db_has_naive con, db_has_superseded con) of
             (Some rows, True, True) \<Rightarrow>
               (let total = count_if (governed kinds) rows;
                    matched = count_if (\<lambda>r. governed kinds r \<and> ro_naive r \<noteq> None) rows;
                    loose = unmatched_rows con kinds rows;
                    unmatched = int (length loose)
                in check_of ''matched-null-baseline'' (unmatched = 0)
                     (NullCoverage total matched (total - matched - unmatched) unmatched (by_kind loose)
                        (int (length rows)) kinds))
           | _ \<Rightarrow> check_of ''matched-null-baseline'' False NullSchemaTooOld))"

section \<open>(b) The judgment ledger\<close>

definition check_judgment_ledger :: "database \<Rightarrow> check" where
  "check_judgment_ledger con =
     (case db_judgments con of
        None \<Rightarrow> check_of ''research-loop-judgment-ledger'' False (JudgmentLedger False 0)
      | Some js \<Rightarrow> check_of ''research-loop-judgment-ledger'' True (JudgmentLedger True (int (length js))))"

section \<open>(c) The frozen quarantine\<close>

definition record_sep :: char where "record_sep = CHR 0x1E"

definition quarantine_message :: "string list \<Rightarrow> string" where
  "quarantine_message members =
     ''regime-outcome-null-quarantine|epoch='' @ str_int GO_EPOCH @ ''|n='' @ str_nat (length members)
     @ concat (map (\<lambda>m. record_sep # m) members)"

definition quarantine_digest :: "string list \<Rightarrow> string" where
  "quarantine_digest members = sha256 (quarantine_message members)"

definition member_text :: "quarantine_row \<Rightarrow> string" where
  "member_text q = str_int (qr_outcome q) @ '':'' @ str_int (qr_symbol q) @ '':'' @ qr_kind q @ '':'' @ str_int (qr_day q)"

definition quarantine_members :: "quarantine_row list \<Rightarrow> string list" where
  "quarantine_members qs = map member_text (sort_key qr_outcome qs)"

definition check_quarantine :: "database \<Rightarrow> check" where
  "check_quarantine con =
     (case (db_quarantine con, db_manifest con) of
        (Some qs, Some []) \<Rightarrow> check_of ''null-quarantine-manifest'' False NoManifestRow
      | (Some qs, Some (m # _)) \<Rightarrow>
          (let members = quarantine_members qs; live = quarantine_digest members
           in check_of ''null-quarantine-manifest''
                (live = qm_digest m \<and> int (length members) = qm_rows m)
                (QuarantineDigest (qm_digest m) (qm_rows m) live (int (length members))))
      | (q, m) \<Rightarrow> check_of ''null-quarantine-manifest'' False
          (QuarantineTablesAbsent (q \<noteq> None) (m \<noteq> None)))"

section \<open>(d) The deployed revision\<close>

definition meta_revision :: "(string \<times> blob) list \<Rightarrow> string" where
  "meta_revision rows = (case map_of rows BUILD_REV_META_KEY of Some b \<Rightarrow> blob_text b | None \<Rightarrow> [])"

text \<open>Where the reader catches a missing table.\<close>

definition deployed_revision :: "database \<Rightarrow> string" where
  "deployed_revision con = (case db_meta con of Some rows \<Rightarrow> meta_revision rows | None \<Rightarrow> [])"

definition check_deployed_revision :: "database \<Rightarrow> repo \<Rightarrow> check py" where
  "check_deployed_revision con rp =
     (case db_worker_runs con of
        None \<Rightarrow> Inl OperationalErr
      | Some runs \<Rightarrow>
          (let newest_ts = max_opt (map wr_started runs); revn = deployed_revision con;
               answer = check_of ''deployed-code-revision''
           in Inr (if revn = [] \<or> revn = ''unknown'' then answer False (NoBuildRevision revn newest_ts)
                   else if ends_with ''+dirty'' revn then answer False (DirtyBuild revn newest_ts)
                   else case rp_show rp revn of
                     None \<Rightarrow> answer False (RevisionUnreadable revn newest_ts)
                   | Some src \<Rightarrow> answer (contains HOLDOUT_CONST src)
                       (HoldoutConst revn newest_ts (contains HOLDOUT_CONST src)))))"

section \<open>(f) Daemon code drift\<close>

definition is_line_break :: "char \<Rightarrow> bool" where
  "is_line_break c \<longleftrightarrow> c \<in> {CHR 0x0A, CHR 0x0B, CHR 0x0C, CHR 0x0D, CHR 0x1C, CHR 0x1D, CHR 0x1E}"

text \<open>
  \<open>str.splitlines\<close>. A carriage return and the newline after it are one break: the empty line read
  between them here is dropped with every blank line by the only caller.
\<close>

fun split_lines :: "string \<Rightarrow> string \<Rightarrow> string list" where
  "split_lines acc [] = (if acc = [] then [] else [rev acc])"
| "split_lines acc (c # s) =
     (if is_line_break c then rev acc # split_lines [] s else split_lines (c # acc) s)"

definition nonblank_lines :: "string \<Rightarrow> string list" where
  "nonblank_lines s = filter (\<lambda>l. strip l \<noteq> []) (split_lines [] s)"

definition base_revision :: "string \<Rightarrow> string" where
  "base_revision revn = (if ends_with ''+dirty'' revn then take (length revn - 6) revn else revn)"

definition check_daemon_code_drift :: "database \<Rightarrow> repo \<Rightarrow> check" where
  "check_daemon_code_drift con rp =
     (let revn = deployed_revision con; base = base_revision revn; answer = check_of ''daemon-code-drift''
      in if base = [] \<or> base = ''unknown'' then answer False (DriftRevisionUnknown revn)
         else case (rp_diff rp base, rp_log rp base) of
           (Some files, Some glog) \<Rightarrow>
             (let changed = nonblank_lines files;
                  source = filter (\<lambda>p. \<not> ends_with ''_test.go'' p) changed;
                  commits = nonblank_lines glog
              in if source = [] then answer True (DaemonCurrent base (length changed))
                 else answer False (DaemonStale base commits source))
         | _ \<Rightarrow> answer False (DriftUnreadable base))"

section \<open>(e) Row stamps since the newest boot\<close>

text \<open>\<open>started_at\<close> with \<open>LAG(started_at) OVER (ORDER BY started_at)\<close>.\<close>

fun with_lag :: "int option \<Rightarrow> int list \<Rightarrow> (int \<times> int option) list" where
  "with_lag prev [] = []"
| "with_lag prev (t # ts) = (t, map_option (\<lambda>p. t - p) prev) # with_lag (Some t) ts"

definition quiet_start :: "int \<times> int option \<Rightarrow> bool" where
  "quiet_start r = (case snd r of None \<Rightarrow> True | Some gap \<Rightarrow> BOOT_QUIET_SECS \<le> gap)"

definition quiet_boot :: "worker_run list \<Rightarrow> int option" where
  "quiet_boot runs =
     max_opt (map fst (filter quiet_start (with_lag None (sort (map wr_started runs)))))"

definition current_revision :: "worker_run list \<Rightarrow> string option" where
  "current_revision runs =
     (case filter (\<lambda>r. wr_revision r \<noteq> []) runs of
        [] \<Rightarrow> None
      | stamped \<Rightarrow> Some (wr_revision (newest_of wr_started stamped)))"

definition revision_boot :: "worker_run list \<Rightarrow> int option" where
  "revision_boot runs =
     (case current_revision runs of
        None \<Rightarrow> None
      | Some revn \<Rightarrow> min_opt (map wr_started (filter (\<lambda>r. wr_revision r = revn) runs)))"

definition newest_boot :: "worker_run list \<Rightarrow> int option" where
  "newest_boot runs =
     max_opt (List.map_filter (\<lambda>t. t) [quiet_boot runs, revision_boot runs])"

definition newest_boot_ts :: "database \<Rightarrow> int option py" where
  "newest_boot_ts con =
     (case db_worker_runs con of
        None \<Rightarrow> Inl OperationalErr
      | Some runs \<Rightarrow> if db_runs_has_revision con then Inr (newest_boot runs) else Inl OperationalErr)"

text \<open>Rows since the boot and how many carry the revision; \<^term>\<open>None\<close> where the statement fails.\<close>

definition stamp_count :: "string \<Rightarrow> int \<Rightarrow> (int \<times> string) list \<Rightarrow> int \<times> int" where
  "stamp_count revn boot rows =
     (count_if (\<lambda>(ts, _). boot \<le> ts) rows, count_if (\<lambda>(ts, r). boot \<le> ts \<and> r = revn) rows)"

definition or_empty :: "string option \<Rightarrow> string" where
  "or_empty x = (case x of None \<Rightarrow> [] | Some s \<Rightarrow> s)"

definition stamped_tables :: "database \<Rightarrow> (string \<times> (int \<times> string) list option) list" where
  "stamped_tables con =
     [(''worker_runs'', if db_runs_has_revision con
         then map_option (map (\<lambda>r. (wr_started r, wr_revision r))) (db_worker_runs con) else None),
      (''prediction_ledger'', if db_ledger_has_revision con
         then map_option (map (\<lambda>r. (pl_at r, or_empty (pl_revision r)))) (db_ledger con) else None),
      (''regime_outcomes'', if db_has_revision con
         then map_option (map (\<lambda>r. (ro_ts r, or_empty (ro_revision r)))) (db_regime con) else None)]"

definition stamps_complete :: "(int \<times> int) option \<Rightarrow> bool" where
  "stamps_complete c = (case c of None \<Rightarrow> False | Some (n, stamped) \<Rightarrow> stamped = n)"

definition check_row_revision_stamp :: "database \<Rightarrow> check py" where
  "check_row_revision_stamp con =
     (case db_meta con of
        None \<Rightarrow> Inl OperationalErr
      | Some meta \<Rightarrow>
          py_bind (newest_boot_ts con) (\<lambda>boot.
          let revn = meta_revision meta; answer = check_of ''row-revision-stamp''
          in case boot of
               None \<Rightarrow> Inr (answer False NoBoot)
             | Some b \<Rightarrow>
                 (if revn = [] \<or> revn = ''unknown'' then Inr (answer False (StampRevisionUnknown revn))
                  else let counts = map (\<lambda>(t, rows). (t, map_option (stamp_count revn b) rows)) (stamped_tables con)
                       in Inr (answer (list_all (\<lambda>(_, c). stamps_complete c) counts) (RowStamps revn b counts)))))"

section \<open>The run\<close>

definition run_drift :: "database \<Rightarrow> repo \<Rightarrow> (nat \<times> check list) py" where
  "run_drift con rp =
     py_bind (check_deployed_revision con rp) (\<lambda>d.
     py_bind (check_row_revision_stamp con) (\<lambda>e.
     let checks = [check_null_coverage con rp, check_judgment_ledger con, check_quarantine con, d,
                   check_daemon_code_drift con rp, e]
     in Inr (if list_all ck_ok checks then 0 else 1, checks)))"

text \<open>The exit status; a database that is not there, or an SQLite error, is 2.\<close>

definition drift_main :: "database option \<Rightarrow> repo \<Rightarrow> nat" where
  "drift_main db rp =
     (case db of
        None \<Rightarrow> 2
      | Some con \<Rightarrow> (case run_drift con rp of Inl _ \<Rightarrow> 2 | Inr (status, _) \<Rightarrow> status))"

section \<open>The kinds read from the Go source\<close>

lemma kinds_never_empty:
  "structural_null_kinds rp = Inr ks \<Longrightarrow> ks \<noteq> [] \<and> sorted ks"
  by (auto simp: structural_null_kinds_def Let_def split: option.splits if_splits)

section \<open>The frozen set is pinned by its message\<close>

lemma split_at_sep:
  assumes "c \<notin> set m" "c \<notin> set m'" and "m @ c # r = m' @ c # r'"
  shows "m = m' \<and> r = r'"
  using assms by (induction m arbitrary: m') (case_tac m'; auto)+

lemma sep_blocks_inj:
  assumes "\<forall>m \<in> set xs. c \<notin> set m" "\<forall>m \<in> set ys. c \<notin> set m"
    and "concat (map (\<lambda>m. c # m) xs) = concat (map (\<lambda>m. c # m) ys)"
  shows "xs = ys"
  using assms
proof (induction xs arbitrary: ys)
  case Nil
  then show ?case by (cases ys) simp_all
next
  case (Cons x xs)
  then obtain y ys' where ys: "ys = y # ys'" by (cases ys) simp_all
  define f where "f zs = concat (map (\<lambda>m. c # m) zs) @ [c]" for zs :: "'a list list"
  have eq: "x @ f xs = y @ f ys'" using Cons.prems(3) by (simp add: ys f_def)
  have "\<exists>r. f zs = c # r" for zs by (cases zs) (simp_all add: f_def)
  then obtain r r' where r: "f xs = c # r" "f ys' = c # r'" by blast
  have "x = y \<and> r = r'"
    using eq Cons.prems(1,2) unfolding ys r by (intro split_at_sep [of c]) simp_all
  then have "x = y" "f xs = f ys'" by (simp_all add: r)
  moreover have "xs = ys'"
    using Cons.IH [of ys'] Cons.prems(1,2) \<open>f xs = f ys'\<close> by (simp add: ys f_def)
  ultimately show ?case by (simp add: ys)
qed

lemma str_int_inj: "str_int i = str_int j \<Longrightarrow> i = j"
  by (metis int_of_str_int sum.inject(2))

lemma sep_not_colon: "record_sep \<noteq> CHR '':''"
  by (simp add: record_sep_def)

lemma not_digits: "\<not> is_digit (CHR '':'')" "\<not> is_digit record_sep"
  by (simp_all add: is_digit_def record_sep_def)

lemma str_nat_free: "CHR '':'' \<notin> set (str_nat n)" "record_sep \<notin> set (str_nat n)"
  using str_nat_digits [of n] not_digits by blast+

lemma str_int_free: "CHR '':'' \<notin> set (str_int i)" "record_sep \<notin> set (str_int i)"
  using str_nat_free [of "nat i"] str_nat_free [of "nat (- i)"]
  by (simp_all add: str_int_def record_sep_def)

lemma member_text_inj:
  assumes "member_text q = member_text q'"
  shows "q = q'"
proof -
  have A: "str_int (qr_outcome q) @ CHR '':'' # (str_int (qr_symbol q) @ CHR '':'' # (qr_kind q @ CHR '':'' # str_int (qr_day q)))
    = str_int (qr_outcome q') @ CHR '':'' # (str_int (qr_symbol q') @ CHR '':'' # (qr_kind q' @ CHR '':'' # str_int (qr_day q')))"
    using assms by (simp add: member_text_def)
  from split_at_sep [OF str_int_free(1) str_int_free(1) A]
  have o: "str_int (qr_outcome q) = str_int (qr_outcome q')"
    and B: "str_int (qr_symbol q) @ CHR '':'' # (qr_kind q @ CHR '':'' # str_int (qr_day q))
      = str_int (qr_symbol q') @ CHR '':'' # (qr_kind q' @ CHR '':'' # str_int (qr_day q'))"
    by blast+
  from split_at_sep [OF str_int_free(1) str_int_free(1) B]
  have s: "str_int (qr_symbol q) = str_int (qr_symbol q')"
    and C: "qr_kind q @ CHR '':'' # str_int (qr_day q) = qr_kind q' @ CHR '':'' # str_int (qr_day q')"
    by blast+
  have "rev (str_int (qr_day q)) @ CHR '':'' # rev (qr_kind q)
      = rev (str_int (qr_day q')) @ CHR '':'' # rev (qr_kind q')"
    using arg_cong [OF C, of rev] by simp
  then have "rev (str_int (qr_day q)) = rev (str_int (qr_day q'))" "rev (qr_kind q) = rev (qr_kind q')"
    using split_at_sep [of "CHR '':''" "rev (str_int (qr_day q))" "rev (str_int (qr_day q'))"]
      str_int_free(1) by auto
  with o s show ?thesis by (auto dest!: str_int_inj)
qed

text \<open>
  The digest of the quarantine pins its membership: two exempt sets whose canonical messages are
  equal are the same rows, so an extended, shortened or edited set passes the check only by a
  collision of SHA-256.
\<close>

theorem quarantine_message_pins_the_set:
  assumes "\<forall>q \<in> set qs \<union> set qs'. record_sep \<notin> set (qr_kind q)"
    and "quarantine_message (quarantine_members qs) = quarantine_message (quarantine_members qs')"
  shows "sort_key qr_outcome qs = sort_key qr_outcome qs' \<and> set qs = set qs'"
proof -
  let ?f = "\<lambda>zs. concat (map (\<lambda>m. record_sep # m) zs)"
  have free: "\<forall>m \<in> set (quarantine_members zs). record_sep \<notin> set m"
    if "\<forall>q \<in> set zs. record_sep \<notin> set (qr_kind q)" for zs
    using that str_int_free(2) sep_not_colon by (auto simp: quarantine_members_def member_text_def)
  have digits: "record_sep \<notin> set (str_nat n)" for n
    by (rule str_nat_free(2))
  have eq: "str_nat (length (quarantine_members qs)) @ ?f (quarantine_members qs) @ [record_sep]
      = str_nat (length (quarantine_members qs')) @ ?f (quarantine_members qs') @ [record_sep]"
    using assms(2) by (simp add: quarantine_message_def)
  have shape: "\<exists>r. ?f zs @ [record_sep] = record_sep # r" for zs by (cases zs) simp_all
  obtain r r' where r: "?f (quarantine_members qs) @ [record_sep] = record_sep # r"
      "?f (quarantine_members qs') @ [record_sep] = record_sep # r'" using shape by meson
  have "r = r'" using split_at_sep [OF digits digits] eq unfolding r by blast
  with r have "?f (quarantine_members qs) = ?f (quarantine_members qs')" by (metis append_same_eq)
  then have "quarantine_members qs = quarantine_members qs'"
    using free assms(1) by (intro sep_blocks_inj [of _ record_sep]) auto
  then have sorted: "sort_key qr_outcome qs = sort_key qr_outcome qs'"
    using map_injective [OF _ injI [of member_text, OF member_text_inj]]
    by (simp add: quarantine_members_def)
  then show ?thesis by (metis set_sort)
qed

theorem quarantine_message_pins_the_set_witness:
  "sort_key qr_outcome [\<lparr>qr_outcome = 7, qr_symbol = 1, qr_kind = ''vol21'', qr_day = 20000\<rparr>]
     = [\<lparr>qr_outcome = 7, qr_symbol = 1, qr_kind = ''vol21'', qr_day = 20000\<rparr>]"
  using quarantine_message_pins_the_set [of "[\<lparr>qr_outcome = 7, qr_symbol = 1, qr_kind = ''vol21'', qr_day = 20000\<rparr>]"
      "[\<lparr>qr_outcome = 7, qr_symbol = 1, qr_kind = ''vol21'', qr_day = 20000\<rparr>]"]
  by (simp add: record_sep_def)

section \<open>The boot\<close>

lemma lag_first: "set (map fst (with_lag p ts)) = set ts"
  by (induction p ts rule: with_lag.induct) auto

lemma quiet_boot_in: "quiet_boot runs = Some q \<Longrightarrow> q \<in> wr_started ` set runs"
proof -
  assume "quiet_boot runs = Some q"
  then have "q \<in> set (map fst (filter quiet_start (with_lag None (sort (map wr_started runs)))))"
    by (simp only: quiet_boot_def max_opt_Some)
  then have "q \<in> set (map fst (with_lag None (sort (map wr_started runs))))" by auto
  then show ?thesis unfolding lag_first by simp
qed

text \<open>Every start later than all quiet starts follows an earlier one by less than the quiet stretch.\<close>

lemma lag_close:
  assumes "sorted ts" and "\<forall>r \<in> set (with_lag p ts). quiet_start r \<longrightarrow> fst r \<le> q"
    and "t \<in> set ts" "q < t" and "case p of None \<Rightarrow> True | Some x \<Rightarrow> x \<le> hd ts \<and> x \<noteq> t"
  shows "\<exists>t' \<in> set ts \<union> set_option p. t' < t \<and> t - t' < BOOT_QUIET_SECS \<and> (\<forall>s \<in> set ts. s < t \<longrightarrow> s \<le> t')"
  using assms
proof (induction p ts rule: with_lag.induct)
  case (2 p a ts)
  show ?case
  proof (cases "a = t")
    case True
    then have "\<not> quiet_start (a, map_option (\<lambda>x. a - x) p)" using 2(3,5) by auto
    then obtain x where x: "p = Some x" "a - x < BOOT_QUIET_SECS"
      by (auto simp: quiet_start_def split: option.splits)
    then have "x < t" using 2(6) True by simp
    moreover have "s \<le> x" if "s \<in> set (a # ts)" "s < t" for s
      using that 2(2) True by auto
    ultimately show ?thesis using x True by auto
  next
    case False
    then have t: "t \<in> set ts" using 2(4) by simp
    then have at: "a < t" using 2(2) False by (metis dual_order.order_iff_strict sorted_simps(2))
    have "ts \<noteq> []" using t by auto
    then have "a \<le> hd ts" using 2(2) by (cases ts) simp_all
    then obtain t' where t': "t' \<in> set ts \<union> {a}" "t' < t" "t - t' < BOOT_QUIET_SECS"
        "\<forall>s \<in> set ts. s < t \<longrightarrow> s \<le> t'"
      using 2(1) [OF _ _ t 2(5)] 2(2,3) at by auto
    moreover have "a \<le> t'"
    proof (cases "t' = a")
      case False
      then show ?thesis using t'(1) 2(2) by auto
    qed simp
    ultimately show ?thesis by auto
  qed
qed simp

lemma quiet_boot_close:
  assumes "quiet_boot runs = Some q" and "t \<in> wr_started ` set runs" and "q < t"
  shows "\<exists>t' \<in> wr_started ` set runs. t' < t \<and> t - t' < BOOT_QUIET_SECS
    \<and> (\<forall>s \<in> wr_started ` set runs. s < t \<longrightarrow> s \<le> t')"
proof -
  let ?s = "sort (map wr_started runs)"
  have "\<forall>r \<in> set (with_lag None ?s). quiet_start r \<longrightarrow> fst r \<le> q"
    using assms(1) unfolding quiet_boot_def max_opt_Some by auto
  then show ?thesis using lag_close [of ?s None q t] assms(2,3) by simp
qed

lemma quiet_boot_exists: "runs \<noteq> [] \<Longrightarrow> quiet_boot runs \<noteq> None"
proof -
  assume "runs \<noteq> []"
  then obtain a ts where s: "sort (map wr_started runs) = a # ts"
    by (metis list.exhaust list.map_disc_iff sort_Nil_iff)
  then show ?thesis by (simp add: quiet_boot_def s quiet_start_def)
qed

lemma revision_boot_in: "revision_boot runs = Some b \<Longrightarrow> b \<in> wr_started ` set runs"
  by (auto simp: revision_boot_def min_opt_Some split: option.splits)

lemma newest_boot_Some:
  "newest_boot runs = Some b \<Longrightarrow>
   (quiet_boot runs = Some b \<or> revision_boot runs = Some b) \<and> (\<forall>q. quiet_boot runs = Some q \<longrightarrow> q \<le> b)"
  by (auto simp: newest_boot_def max_opt_Some map_filter_def split: if_splits)

text \<open>
  The boot the stamps are counted from is the start of the current uptime session: every
  non-empty run table has one, it is itself a worker start, and each later start follows an earlier
  one of the session by less than the quiet stretch, so no restart gap lies after it.
\<close>

theorem boot_opens_the_session:
  "(newest_boot runs = None \<longleftrightarrow> runs = []) \<and>
   (\<forall>b. newest_boot runs = Some b \<longrightarrow> b \<in> wr_started ` set runs
      \<and> (\<forall>t \<in> wr_started ` set runs. b < t \<longrightarrow>
           (\<exists>t' \<in> wr_started ` set runs. b \<le> t' \<and> t' < t \<and> t - t' < BOOT_QUIET_SECS)))"
proof (intro conjI allI impI ballI)
  have "newest_boot [] = None"
    by (simp add: newest_boot_def quiet_boot_def revision_boot_def current_revision_def max_opt_def map_filter_def)
  moreover have "newest_boot runs \<noteq> None" if "runs \<noteq> []"
    using quiet_boot_exists [OF that] by (auto simp: newest_boot_def map_filter_def)
  ultimately show "newest_boot runs = None \<longleftrightarrow> runs = []" by blast
next
  fix b assume b: "newest_boot runs = Some b"
  with newest_boot_Some quiet_boot_in revision_boot_in show bin: "b \<in> wr_started ` set runs" by blast
  fix t assume t: "t \<in> wr_started ` set runs" "b < t"
  then have "runs \<noteq> []" by auto
  then obtain q where q: "quiet_boot runs = Some q" using quiet_boot_exists by blast
  then have "q < t" using newest_boot_Some [OF b] t(2) by fastforce
  from quiet_boot_close [OF q t(1) this] bin t(2)
  show "\<exists>t' \<in> wr_started ` set runs. b \<le> t' \<and> t' < t \<and> t - t' < BOOT_QUIET_SECS" by blast
qed

definition started_run :: "int \<Rightarrow> string \<Rightarrow> worker_run" where
  "started_run t r = \<lparr>wr_id = t, wr_worker = ''w'', wr_started = t, wr_finished = None,
     wr_status = ''ok'', wr_detail = [], wr_revision = r\<rparr>"

theorem boot_opens_the_session_witness:
  "\<exists>b. newest_boot [started_run 0 ''a'', started_run 5000 ''a'', started_run 5100 ''a''] = Some b
     \<and> b \<in> {0, 5000, 5100}"
  using boot_opens_the_session [of "[started_run 0 ''a'', started_run 5000 ''a'', started_run 5100 ''a'']"]
  by (auto simp: started_run_def)

text \<open>
  The first run of the current revision is no exact session start: after a rollback, deployed
  without a quiet stretch, the window reaches back over the binary that was rolled back, and its
  rows, stamped correctly by it, make the stamp check refuse.
\<close>

theorem rollback_widens_the_window:
  "newest_boot [started_run 0 ''z'', started_run 1000 ''a'', started_run 1100 ''b'', started_run 1200 ''a''] = Some 1000
   \<and> stamp_count ''a'' 1000 (map (\<lambda>r. (wr_started r, wr_revision r))
       [started_run 0 ''z'', started_run 1000 ''a'', started_run 1100 ''b'', started_run 1200 ''a'']) = (3, 2)"
  by code_simp

section \<open>What a clean run certifies\<close>

definition labelled_or_frozen :: "database \<Rightarrow> regime_row \<Rightarrow> bool" where
  "labelled_or_frozen con r \<longleftrightarrow> ro_naive r \<noteq> None
     \<or> (\<exists>qs. db_quarantine con = Some qs \<and> ro_id r \<in> qr_outcome ` set qs)"

lemma labelled_or_frozen_iff: "labelled_or_frozen con r \<longleftrightarrow> \<not> unquarantined con r"
  by (auto simp: labelled_or_frozen_def unquarantined_def split: option.splits)

lemma null_coverage_ok:
  assumes "ck_ok (check_null_coverage con rp)"
  shows "\<exists>kinds rows. structural_null_kinds rp = Inr kinds \<and> kinds \<noteq> [] \<and> db_regime con = Some rows
    \<and> (\<forall>r \<in> set rows. governed kinds r \<longrightarrow> labelled_or_frozen con r)"
proof -
  from assms obtain kinds rows where "structural_null_kinds rp = Inr kinds" "db_regime con = Some rows"
      "unmatched_rows con kinds rows = []"
    by (auto simp: check_null_coverage_def Let_def split: sum.splits option.splits bool.splits)
  then show ?thesis using kinds_never_empty
    by (auto simp: unmatched_rows_def filter_empty_conv labelled_or_frozen_iff)
qed

lemma quarantine_ok:
  assumes "ck_ok (check_quarantine con)"
  shows "\<exists>qs m ms. db_quarantine con = Some qs \<and> db_manifest con = Some (m # ms)
    \<and> sha256 (quarantine_message (quarantine_members qs)) = qm_digest m
    \<and> int (length qs) = qm_rows m"
  using assms
  by (auto simp: check_quarantine_def Let_def quarantine_digest_def quarantine_members_def
      split: option.splits list.splits)

lemma deployed_ok:
  assumes "check_deployed_revision con rp = Inr d" "ck_ok d"
  shows "deployed_revision con \<notin> {[], ''unknown''} \<and> \<not> ends_with ''+dirty'' (deployed_revision con)
    \<and> (\<exists>src. rp_show rp (deployed_revision con) = Some src \<and> contains HOLDOUT_CONST src)"
  using assms
  by (auto simp: check_deployed_revision_def Let_def split: option.splits if_splits)

lemma drift_ok:
  assumes "ck_ok (check_daemon_code_drift con rp)" and "\<not> ends_with ''+dirty'' (deployed_revision con)"
  shows "\<exists>files. rp_diff rp (deployed_revision con) = Some files
    \<and> (\<forall>p \<in> set (nonblank_lines files). ends_with ''_test.go'' p)"
  using assms
  by (auto simp: check_daemon_code_drift_def base_revision_def Let_def filter_empty_conv
      split: option.splits if_splits)

lemma stamp_count_full:
  "stamps_complete (Some (stamp_count v b rows)) \<longleftrightarrow> (\<forall>(ts, r) \<in> set rows. b \<le> ts \<longrightarrow> r = v)"
proof -
  have "count_if (\<lambda>(ts, r). b \<le> ts \<and> r = v) rows = count_if (\<lambda>(ts, r). b \<le> ts) rows
      \<longleftrightarrow> (\<forall>(ts, r) \<in> set rows. b \<le> ts \<longrightarrow> r = v)"
  proof (induction rows)
    case (Cons x rows)
    obtain ts r where x: "x = (ts, r)" by (cases x) auto
    have "count_if (\<lambda>(ts, r). b \<le> ts \<and> r = v) rows \<le> count_if (\<lambda>(ts, r). b \<le> ts) rows"
      by (rule count_if_mono) auto
    with Cons show ?case by (auto simp: x)
  qed simp
  then show ?thesis by (simp add: stamps_complete_def stamp_count_def)
qed

lemma stamps_mapped:
  "stamps_complete (map_option (stamp_count v b) x)
   \<longleftrightarrow> (\<exists>rows. x = Some rows \<and> (\<forall>(ts, r) \<in> set rows. b \<le> ts \<longrightarrow> r = v))"
  by (cases x) (simp_all add: stamp_count_full, simp add: stamps_complete_def)

lemma stamps_ok:
  assumes "check_row_revision_stamp con = Inr e" "ck_ok e"
  shows "\<exists>runs b. db_worker_runs con = Some runs \<and> newest_boot runs = Some b
    \<and> (\<forall>r \<in> set runs. b \<le> wr_started r \<longrightarrow> wr_revision r = deployed_revision con)
    \<and> (\<exists>ls. db_ledger con = Some ls \<and> (\<forall>l \<in> set ls. b \<le> pl_at l \<longrightarrow> or_empty (pl_revision l) = deployed_revision con))
    \<and> (\<exists>rs. db_regime con = Some rs \<and> (\<forall>r \<in> set rs. b \<le> ro_ts r \<longrightarrow> or_empty (ro_revision r) = deployed_revision con))"
proof -
  from assms obtain meta runs b where m: "db_meta con = Some meta" and r: "db_worker_runs con = Some runs"
      "newest_boot runs = Some b"
    and c: "list_all (\<lambda>(_, c). stamps_complete c)
      (map (\<lambda>(t, rows). (t, map_option (stamp_count (meta_revision meta) b) rows)) (stamped_tables con))"
    by (auto simp: check_row_revision_stamp_def newest_boot_ts_def py_bind_Inr Let_def
        split: option.splits if_splits)
  have d: "deployed_revision con = meta_revision meta" by (simp add: deployed_revision_def m)
  from c have "\<forall>(_, x) \<in> set (stamped_tables con). \<exists>rows. x = Some rows
      \<and> (\<forall>(ts, r) \<in> set rows. b \<le> ts \<longrightarrow> r = meta_revision meta)"
    by (auto simp: list_all_iff stamps_mapped)
  with r show ?thesis unfolding d by (auto simp: stamped_tables_def split: if_splits)
qed

text \<open>
  C17. A clean exit of the drift gate certifies the database the verdicts are read from: every row
  the amendment governs has its frozen baseline or belongs to the frozen set, whose rows hash to
  the manifest; the judgment ledger exists; the deployed revision is a clean commit that carries
  the blind-era constant and lacks no later change to the daemon's own source; and since the newest
  boot every run, every ledger row and every structural call carries exactly that revision.
\<close>

theorem clean_drift_certifies:
  assumes "drift_main (Some con) rp = 0"
  shows "(\<exists>kinds rows. structural_null_kinds rp = Inr kinds \<and> kinds \<noteq> [] \<and> db_regime con = Some rows
      \<and> (\<forall>r \<in> set rows. governed kinds r \<longrightarrow> labelled_or_frozen con r))
    \<and> (\<exists>qs m ms. db_quarantine con = Some qs \<and> db_manifest con = Some (m # ms)
      \<and> sha256 (quarantine_message (quarantine_members qs)) = qm_digest m \<and> int (length qs) = qm_rows m)
    \<and> db_judgments con \<noteq> None
    \<and> \<not> ends_with ''+dirty'' (deployed_revision con)
    \<and> (\<exists>src. rp_show rp (deployed_revision con) = Some src \<and> contains HOLDOUT_CONST src)
    \<and> (\<exists>files. rp_diff rp (deployed_revision con) = Some files
      \<and> (\<forall>p \<in> set (nonblank_lines files). ends_with ''_test.go'' p))
    \<and> (\<exists>runs b. db_worker_runs con = Some runs \<and> newest_boot runs = Some b
      \<and> (\<forall>r \<in> set runs. b \<le> wr_started r \<longrightarrow> wr_revision r = deployed_revision con)
      \<and> (\<exists>ls. db_ledger con = Some ls
          \<and> (\<forall>l \<in> set ls. b \<le> pl_at l \<longrightarrow> or_empty (pl_revision l) = deployed_revision con))
      \<and> (\<exists>rs. db_regime con = Some rs
          \<and> (\<forall>r \<in> set rs. b \<le> ro_ts r \<longrightarrow> or_empty (ro_revision r) = deployed_revision con)))"
proof -
  from assms obtain d e where de: "check_deployed_revision con rp = Inr d" "check_row_revision_stamp con = Inr e"
    and ok: "ck_ok (check_null_coverage con rp)" "ck_ok (check_judgment_ledger con)"
      "ck_ok (check_quarantine con)" "ck_ok d" "ck_ok (check_daemon_code_drift con rp)" "ck_ok e"
    by (auto simp: drift_main_def run_drift_def py_bind_Inr Let_def split: sum.splits if_splits)
  have "db_judgments con \<noteq> None" using ok(2) by (auto simp: check_judgment_ledger_def split: option.splits)
  with null_coverage_ok [OF ok(1)] quarantine_ok [OF ok(3)] deployed_ok [OF de(1) ok(4)]
    drift_ok [OF ok(5)] stamps_ok [OF de(2) ok(6)]
  show ?thesis by blast
qed

section \<open>The sources as they stand\<close>

text \<open>
  The declaration of \<open>daemon/internal/store/regimeoutcomes.go\<close> and the constants of
  \<open>daemon/internal/structregime\<close>, as they are written there.
\<close>

definition guard_source :: string where
  "guard_source =
     ''var structuralNullKinds = map[structregime.Kind]bool{'' @ [CHR 0x0A]
     @ [CHR 0x09] @ ''structregime.KindTrend21:           true,'' @ [CHR 0x0A]
     @ [CHR 0x09] @ ''structregime.KindTrend63:           true,'' @ [CHR 0x0A]
     @ [CHR 0x09] @ ''structregime.KindVol21:             true,'' @ [CHR 0x0A]
     @ [CHR 0x09] @ ''structregime.KindLiquidity21:       true,'' @ [CHR 0x0A]
     @ [CHR 0x09] @ ''structregime.KindTrendCrypto21:     true,'' @ [CHR 0x0A]
     @ [CHR 0x09] @ ''structregime.KindLiquidityCrypto21: true,'' @ [CHR 0x0A]
     @ ''}'' @ [CHR 0x0A]"

definition structregime_sources :: "(string \<times> string option) list" where
  "structregime_sources =
     [(''structregime.go'', Some ([CHR 0x09] @ ''KindTrend21     Kind = '' @ [CHR 0x22] @ ''trend21'' @ [CHR 0x22] @ [CHR 0x0A]
       @ [CHR 0x09] @ ''KindLiquidity21 Kind = '' @ [CHR 0x22] @ ''liquidity21'' @ [CHR 0x22] @ [CHR 0x0A]
       @ [CHR 0x09] @ ''KindVol21       Kind = '' @ [CHR 0x22] @ ''vol21'' @ [CHR 0x22] @ [CHR 0x0A])),
      (''trend63.go'', Some (''const KindTrend63 Kind = '' @ [CHR 0x22] @ ''trend63'' @ [CHR 0x22] @ [CHR 0x0A])),
      (''README.md'', None),
      (''gapfill.go'', Some (''const KindGapFill5 Kind = '' @ [CHR 0x22] @ ''gapfill5'' @ [CHR 0x22] @ [CHR 0x0A])),
      (''crypto.go'', Some ([CHR 0x09] @ ''KindTrendCrypto21     Kind = '' @ [CHR 0x22] @ ''trend21-crypto'' @ [CHR 0x22] @ [CHR 0x0A]
       @ [CHR 0x09] @ ''KindLiquidityCrypto21 Kind = '' @ [CHR 0x22] @ ''liquidity21-crypto'' @ [CHR 0x22] @ [CHR 0x0A]))]"

definition live_repo :: repo where
  "live_repo = \<lparr>rp_regimeoutcomes = Some guard_source, rp_structregime = Some structregime_sources,
     rp_show = (\<lambda>_. Some HOLDOUT_CONST), rp_diff = (\<lambda>_. Some []), rp_log = (\<lambda>_. Some [])\<rparr>"

lemma live_kinds: "structural_null_kinds live_repo = Inr (sort STRUCTURAL_NULL_KINDS)"
  by code_simp


definition clean_live_db :: database where
  "clean_live_db = empty_db\<lparr>db_regime := Some [], db_has_naive := True, db_has_superseded := True,
     db_has_revision := True, db_quarantine := Some [],
     db_manifest := Some [\<lparr>qm_digest = quarantine_digest [], qm_rows = 0\<rparr>], db_judgments := Some [],
     db_meta := Some [(BUILD_REV_META_KEY, Blob ''abc'' None)], db_worker_runs := Some [started_run 5 ''abc''],
     db_ledger := Some [], db_ledger_has_revision := True\<rparr>"

lemma clean_live_passes: "drift_main (Some clean_live_db) live_repo = 0"
proof -
  have runs: "newest_boot [started_run 5 ''abc''] = Some 5" by code_simp
  have rv: "deployed_revision clean_live_db = ''abc''"
    by (simp add: deployed_revision_def clean_live_db_def meta_revision_def)
  have meta: "meta_revision [(BUILD_REV_META_KEY, Blob ''abc'' None)] = ''abc''"
    by (simp add: meta_revision_def)
  have null: "ck_ok (check_null_coverage clean_live_db live_repo)"
    by (simp add: check_null_coverage_def live_kinds clean_live_db_def unmatched_rows_def)
  have quar: "ck_ok (check_quarantine clean_live_db)"
    by (simp add: check_quarantine_def clean_live_db_def quarantine_members_def Let_def)
  have judge: "ck_ok (check_judgment_ledger clean_live_db)"
    by (simp add: check_judgment_ledger_def clean_live_db_def)
  have dirty: "\<not> ends_with ''+dirty'' ''abc''" "contains HOLDOUT_CONST HOLDOUT_CONST"
    "nonblank_lines [] = []" by code_simp+
  obtain d where d: "check_deployed_revision clean_live_db live_repo = Inr d" "ck_ok d"
    using dirty rv by (simp add: check_deployed_revision_def clean_live_db_def live_repo_def)
  have drift: "ck_ok (check_daemon_code_drift clean_live_db live_repo)"
    using dirty by (simp add: check_daemon_code_drift_def base_revision_def rv live_repo_def)
  obtain e where e: "check_row_revision_stamp clean_live_db = Inr e" "ck_ok e"
    using runs meta
    by (simp add: check_row_revision_stamp_def newest_boot_ts_def clean_live_db_def empty_db_def
        stamped_tables_def stamp_count_def stamps_complete_def started_run_def)
  show ?thesis
    using null quar judge d drift e by (simp add: drift_main_def run_drift_def)
qed

theorem clean_drift_certifies_witness:
  "drift_main (Some clean_live_db) live_repo = 0
   \<and> (\<exists>runs b. db_worker_runs clean_live_db = Some runs \<and> newest_boot runs = Some b)"
  using clean_live_passes clean_drift_certifies [OF clean_live_passes] by blast

text \<open>
  The kinds the gate reads out of the Go declarations are the kinds the grader restates in
  Python: scanned from the sources as they stand, the write guard's set is the grader's tuple.
\<close>

theorem go_kinds_are_the_graders:
  "structural_null_kinds live_repo = Inr (sort STRUCTURAL_NULL_KINDS)"
  by (rule live_kinds)

section \<open>The gate and the grader on unmatched rows\<close>

lemma gate_rows_are_live_probe_rows:
  assumes "set kinds = set STRUCTURAL_NULL_KINDS"
  shows "unmatched_rows con kinds rows = filter (\<lambda>r. ro_superseded r = None) (unmatched_nulls con rows)"
  unfolding unmatched_rows_def unmatched_nulls_def filter_filter
  by (rule filter_cong) (auto simp: governed_def unquarantined_def unmatched_null_clause_def assms
      split: option.splits)

text \<open>
  C18. The drift gate and the grader's own probe look at the same rows up to supersession: the gate
  fires exactly when some row the probe counts is still live, so it never refuses a database the
  probe finds whole.
\<close>

theorem gate_fires_on_live_probe_rows:
  assumes "structural_null_kinds rp = Inr kinds" and "set kinds = set STRUCTURAL_NULL_KINDS"
    and "db_regime con = Some rows" "db_has_naive con" "db_has_superseded con"
  shows "(ck_ok (check_null_coverage con rp) \<longleftrightarrow> (\<forall>r \<in> set (unmatched_nulls con rows). ro_superseded r \<noteq> None))
    \<and> (np_count (null_amendment_probe con) = 0 \<longrightarrow> ck_ok (check_null_coverage con rp))"
proof -
  have "ck_ok (check_null_coverage con rp)
      \<longleftrightarrow> (\<forall>r \<in> set (unmatched_nulls con rows). ro_superseded r \<noteq> None)"
    using assms by (auto simp: check_null_coverage_def Let_def gate_rows_are_live_probe_rows filter_empty_conv)
  moreover have "np_count (null_amendment_probe con) = int (length (unmatched_nulls con rows))"
    using assms sum_group_sizes [of ro_kind "unmatched_nulls con rows"]
      sum_group_int [of ro_kind "unmatched_nulls con rows"]
    by (simp add: null_amendment_probe_def Let_def)
  ultimately show ?thesis by auto
qed

text \<open>A label-less call after the amendment, superseded by a later one.\<close>

definition superseded_call :: regime_row where
  "superseded_call = (regime_call 1 None None)\<lparr>ro_ts := NULL_AMENDMENT_EPOCH_TS + 5, ro_superseded := Some 2\<rparr>"

definition superseded_live_db :: database where
  "superseded_live_db = clean_live_db\<lparr>db_regime := Some [superseded_call]\<rparr>"

theorem gate_fires_on_live_probe_rows_witness:
  "ck_ok (check_null_coverage superseded_live_db live_repo)"
  using gate_fires_on_live_probe_rows [OF live_kinds, of superseded_live_db "[superseded_call]"]
  by (simp add: superseded_live_db_def clean_live_db_def superseded_call_def unmatched_nulls_def)

text \<open>
  The two copies of the rule differ: a superseded row without a baseline passes the gate that
  mirrors the store's own counter and still makes the grader's probe fire.
\<close>

theorem probe_counts_superseded_rows:
  "ck_ok (check_null_coverage superseded_live_db live_repo)
   \<and> np_count (null_amendment_probe superseded_live_db) = 1"
proof -
  have u: "unmatched_nulls superseded_live_db [superseded_call] = [superseded_call]"
    by (simp add: unmatched_nulls_def unmatched_null_clause_def superseded_call_def regime_call_def
        superseded_live_db_def clean_live_db_def STRUCTURAL_NULL_KINDS_def)
  have "unmatched_rows superseded_live_db (sort STRUCTURAL_NULL_KINDS) [superseded_call] = []"
    using gate_rows_are_live_probe_rows [of "sort STRUCTURAL_NULL_KINDS"] u
    by (simp add: superseded_call_def)
  then have "ck_ok (check_null_coverage superseded_live_db live_repo)"
    by (simp add: check_null_coverage_def live_kinds superseded_live_db_def clean_live_db_def)
  moreover have "np_count (null_amendment_probe superseded_live_db) = 1"
    using u by (simp add: null_amendment_probe_def superseded_live_db_def clean_live_db_def group_by_def)
  ultimately show ?thesis by simp
qed

end
