(* ===== verification/Py_Num.thy ===== *)
theory Py_Num
  imports Py_Json
begin

text \<open>
  Arithmetic, comparison and formatting of the numbers a JSON document carries, as Python applies
  them: infinities and not-a-number follow IEEE 754, booleans count as 0 and 1, and a value of
  another type raises. Also the dict update \<open>d[k] = v\<close>, indexing, and \<open>str()\<close> of a document.
\<close>

section \<open>Floats\<close>

fun f_neg :: "pyfloat \<Rightarrow> pyfloat" where
  "f_neg (Fin x) = Fin (- x)"
| "f_neg PosInf = NegInf"
| "f_neg NegInf = PosInf"
| "f_neg NaN = NaN"

fun f_add :: "pyfloat \<Rightarrow> pyfloat \<Rightarrow> pyfloat" where
  "f_add (Fin x) (Fin y) = Fin (x + y)"
| "f_add NaN _ = NaN"
| "f_add _ NaN = NaN"
| "f_add (Fin _) y = y"
| "f_add x (Fin _) = x"
| "f_add PosInf PosInf = PosInf"
| "f_add NegInf NegInf = NegInf"
| "f_add _ _ = NaN"

definition f_sub :: "pyfloat \<Rightarrow> pyfloat \<Rightarrow> pyfloat" where
  "f_sub x y = f_add x (f_neg y)"

fun f_abs :: "pyfloat \<Rightarrow> pyfloat" where
  "f_abs (Fin x) = Fin \<bar>x\<bar>"
| "f_abs NaN = NaN"
| "f_abs _ = PosInf"

fun f_lt :: "pyfloat \<Rightarrow> pyfloat \<Rightarrow> bool" where
  "f_lt NaN _ = False"
| "f_lt _ NaN = False"
| "f_lt (Fin x) (Fin y) = (x < y)"
| "f_lt NegInf y = (y \<noteq> NegInf)"
| "f_lt x PosInf = (x \<noteq> PosInf)"
| "f_lt _ _ = False"

fun f_le :: "pyfloat \<Rightarrow> pyfloat \<Rightarrow> bool" where
  "f_le NaN _ = False"
| "f_le _ NaN = False"
| "f_le x y = (\<not> f_lt y x)"

text \<open>\<open>max(a, b)\<close> and \<open>min(a, b)\<close> keep their first argument unless the second beats it.\<close>

definition f_max :: "pyfloat \<Rightarrow> pyfloat \<Rightarrow> pyfloat" where
  "f_max a b = (if f_lt a b then b else a)"

definition f_min :: "pyfloat \<Rightarrow> pyfloat \<Rightarrow> pyfloat" where
  "f_min a b = (if f_lt b a then b else a)"

lemma f_fin [simp]:
  "f_sub (Fin x) (Fin y) = Fin (x - y)"
  "f_max (Fin x) (Fin y) = Fin (max x y)"
  "f_min (Fin x) (Fin y) = Fin (min x y)"
  by (simp_all add: f_sub_def f_max_def f_min_def max_def min_def)

section \<open>Numbers of a document\<close>

fun is_number :: "json \<Rightarrow> bool" where
  "is_number (JBool _) = True"
| "is_number (JInt _) = True"
| "is_number (JFloat _) = True"
| "is_number _ = False"

text \<open>The operand of an arithmetic operator or an order comparison with a float.\<close>

fun operand :: "json \<Rightarrow> pyfloat py" where
  "operand (JBool b) = Inr (Fin (if b then 1 else 0))"
| "operand (JInt i) = Inr (Fin (of_int i))"
| "operand (JFloat f) = Inr f"
| "operand _ = Inl TypeErr"

fun py_float :: "json \<Rightarrow> pyfloat py" where
  "py_float (JStr s) = (case float_of_str s of None \<Rightarrow> Inl ValueErr | Some f \<Rightarrow> Inr f)"
| "py_float j = operand j"

lemma operand_Inl: "operand j = Inl e \<Longrightarrow> e = TypeErr"
  by (cases j) auto

lemma operand_number: "is_number j \<longleftrightarrow> (\<exists>f. operand j = Inr f)"
  by (cases j) auto

section \<open>Rendering\<close>

text \<open>\<open>f"{x:.kf}"\<close>.\<close>

definition fixed :: "nat \<Rightarrow> real \<Rightarrow> string" where
  "fixed k x =
     (let t = round_even (\<bar>x\<bar> * 10 ^ k)
      in (if x < 0 then ''-'' else []) @ str_int (t div 10 ^ k) @ ''.''
         @ pad_left k (str_int (t mod 10 ^ k)))"

fun fmt_float :: "nat \<Rightarrow> pyfloat \<Rightarrow> string" where
  "fmt_float k (Fin x) = fixed k x"
| "fmt_float k PosInf = ''inf''"
| "fmt_float k NegInf = ''-inf''"
| "fmt_float k NaN = ''nan''"

text \<open>\<open>f"{x:+.kf}"\<close>.\<close>

definition fmt_signed :: "nat \<Rightarrow> pyfloat \<Rightarrow> string" where
  "fmt_signed k f = (if starts_with ''-'' (fmt_float k f) then [] else ''+'') @ fmt_float k f"

text \<open>The format \<open>.kf\<close> applied to a value of a document: a string refuses the code, other types the format.\<close>

fun fmt_json :: "nat \<Rightarrow> json \<Rightarrow> string py" where
  "fmt_json k (JStr _) = Inl ValueErr"
| "fmt_json k j = py_bind (operand j) (\<lambda>f. Inr (fmt_float k f))"

text \<open>\<open>str(x)\<close>; the representation of floats and containers is not followed.\<close>

fun py_str :: "json \<Rightarrow> string py" where
  "py_str JNull = Inr ''None''"
| "py_str (JBool b) = Inr (if b then ''True'' else ''False'')"
| "py_str (JInt i) = Inr (str_int i)"
| "py_str (JStr s) = Inr s"
| "py_str _ = Inl OutOfModel"

lemma fixed_examples:
  "fixed 4 0.5613 = ''0.5613''" "fixed 2 0.02 = ''0.02''" "fixed 3 (- 1.25) = ''-1.250''"
  "fixed 1 0.25 = ''0.2''"
  by (simp_all add: fixed_def round_even_def Let_def) (simp_all add: text_defs)

section \<open>Containers\<close>

text \<open>\<open>x[k]\<close> for a position \<open>k\<close>.\<close>

fun py_item :: "json \<Rightarrow> nat \<Rightarrow> json py" where
  "py_item (JArr xs) k = (if k < length xs then Inr (xs ! k) else Inl IndexErr)"
| "py_item (JStr s) k = (if k < length s then Inr (JStr [s ! k]) else Inl IndexErr)"
| "py_item (JObj _) k = Inl KeyErr"
| "py_item _ k = Inl TypeErr"

text \<open>\<open>w in x\<close> for a string \<open>w\<close>.\<close>

fun py_contains :: "string \<Rightarrow> json \<Rightarrow> bool py" where
  "py_contains w (JStr s) = Inr (contains w s)"
| "py_contains w (JArr xs) = Inr (JStr w \<in> set xs)"
| "py_contains w (JObj d) = Inr (w \<in> fst ` set d)"
| "py_contains w _ = Inl TypeErr"

text \<open>\<open>d[k] = v\<close>: in place where the key is there, at the end otherwise.\<close>

fun jset :: "string \<Rightarrow> json \<Rightarrow> (string \<times> json) list \<Rightarrow> (string \<times> json) list" where
  "jset k v [] = [(k, v)]"
| "jset k v ((k', w) # d) = (if k' = k then (k, v) # d else (k', w) # jset k v d)"

lemma jset_get [simp]: "jget_or c k' (jset k v d) = (if k' = k then v else jget_or c k' d)"
  by (induction d) auto

lemma jset_map_of [simp]: "map_of (jset k v d) k' = (if k' = k then Some v else map_of d k')"
  by (induction d) auto

lemma jset_keys:
  "map fst (jset k v d) = (if k \<in> set (map fst d) then map fst d else map fst d @ [k])"
proof (induction d)
  case (Cons kv d)
  then show ?case by (cases kv) (simp del: set_map)
qed simp

lemma jset_dom [simp]: "fst ` set (jset k v d) = insert k (fst ` set d)"
  using arg_cong [OF jset_keys [of k v d], of set] by (auto split: if_splits)

lemma jset_twice [simp]: "jset k v (jset k w d) = jset k v d"
  by (induction d) auto

lemma jset_mem: "(k', w) \<in> set (jset k v d) \<Longrightarrow> (k', w) = (k, v) \<or> (k', w) \<in> set d"
  by (induction d) (auto split: if_splits)

lemma jset_distinct: "distinct (map fst d) \<Longrightarrow> distinct (map fst (jset k v d))"
  by (auto simp: jset_keys)

lemma jget_mem: "jget k d = v \<Longrightarrow> v \<noteq> JNull \<Longrightarrow> (k, v) \<in> set d"
  by (auto simp: jget_or_def split: option.splits dest: map_of_SomeD)

subsection \<open>Finite documents\<close>

text \<open>No float of the document is infinite or not a number.\<close>

fun finite_json :: "json \<Rightarrow> bool" where
  "finite_json (JFloat f) = (case f of Fin _ \<Rightarrow> True | _ \<Rightarrow> False)"
| "finite_json (JArr xs) = list_all finite_json xs"
| "finite_json (JObj d) = list_all (\<lambda>kv. finite_json (snd kv)) d"
| "finite_json _ = True"

lemma finite_jset: "finite_json (JObj d) \<Longrightarrow> finite_json v \<Longrightarrow> finite_json (JObj (jset k v d))"
  by (induction d) auto

lemma finite_jget: "finite_json (JObj d) \<Longrightarrow> finite_json (jget k d)"
proof (induction d)
  case (Cons kv d)
  then show ?case by (cases kv) simp
qed simp

lemma finite_operand: "finite_json j \<Longrightarrow> operand j = Inr f \<Longrightarrow> \<exists>x. f = Fin x"
  by (cases j) (auto split: pyfloat.splits)

end
