(* ===== verification/Skill_Record.thy ===== *)
theory Skill_Record
  imports Py_Num "HOL-Library.Multiset"
begin

text \<open>
  \<open>tools/skillpower.py\<close> and \<open>tools/skillschema.py\<close>: whether a significance verdict survives the
  null's own interval, the day-blocked bootstrap, and the typed record one graded claim is
  published as. Rows and registries are parsed JSON objects; a record is the dict the code
  builds. The resamples of \<open>random.Random(seed)\<close> are an argument: the list of draws, each the day
  indices it picks.
\<close>

section \<open>A verdict against two intervals\<close>

definition overlap_reason ::
  "json \<Rightarrow> json \<Rightarrow> pyfloat \<Rightarrow> pyfloat \<Rightarrow> pyfloat \<Rightarrow> pyfloat \<Rightarrow> pyfloat \<Rightarrow> pyfloat \<Rightarrow> string py" where
  "overlap_reason acc null_acc a_lo a_hi n_lo n_hi lo hi =
     py_bind (fmt_json 4 acc) (\<lambda>acc_s.
     py_bind (fmt_json 4 null_acc) (\<lambda>null_s.
     py_bind (operand acc) (\<lambda>acc_v.
     py_bind (operand null_acc) (\<lambda>null_v.
       Inr (''accuracy '' @ acc_s @ '' ['' @ fmt_float 4 a_lo @ '', '' @ fmt_float 4 a_hi
            @ ''] and its null '' @ null_s @ '' ['' @ fmt_float 4 n_lo @ '', '' @ fmt_float 4 n_hi
            @ ''] OVERLAP across ['' @ fmt_float 4 lo @ '', '' @ fmt_float 4 hi
            @ '']: the verdict compares the accuracy interval to the null's point estimate and ignores the null's own published interval, so the stated skill of ''
            @ fmt_signed 4 (f_sub acc_v null_v) @ '' is not resolved by this sample'')))))"

definition supported_dict :: "json \<Rightarrow> json \<Rightarrow> json \<Rightarrow> string \<Rightarrow> (string \<times> json) list" where
  "supported_dict s lo hi reason =
     [(''supported'', s), (''overlap_lo'', lo), (''overlap_hi'', hi), (''reason'', JStr reason)]"

definition interval_end :: "json \<Rightarrow> nat \<Rightarrow> pyfloat py" where
  "interval_end ci k = py_bind (py_item ci k) py_float"

definition verdict_supported_by_intervals ::
  "json \<Rightarrow> json \<Rightarrow> json \<Rightarrow> json \<Rightarrow> (string \<times> json) list py" where
  "verdict_supported_by_intervals acc acc_ci null_acc null_ci =
     (if acc = JNull \<or> null_acc = JNull \<or> \<not> truthy acc_ci \<or> \<not> truthy null_ci
      then Inr (supported_dict JNull JNull JNull
                  ''no published interval for accuracy and/or the null'')
      else
        py_bind (interval_end acc_ci 0) (\<lambda>a_lo.
        py_bind (interval_end acc_ci 1) (\<lambda>a_hi.
        py_bind (interval_end null_ci 0) (\<lambda>n_lo.
        py_bind (interval_end null_ci 1) (\<lambda>n_hi.
          let lo = f_max a_lo n_lo; hi = f_min a_hi n_hi
          in if f_lt hi lo then Inr (supported_dict (JBool True) JNull JNull [])
             else py_bind (overlap_reason acc null_acc a_lo a_hi n_lo n_hi lo hi) (\<lambda>reason.
                    Inr (supported_dict (JBool False) (JFloat lo) (JFloat hi) reason)))))))"

section \<open>The day-blocked bootstrap\<close>

definition percentile :: "real list \<Rightarrow> real \<Rightarrow> real" where
  "percentile sorted_vals q =
     (if sorted_vals = [] then 0
      else if length sorted_vals = 1 then sorted_vals ! 0
      else let pos = q / 100 * of_nat (length sorted_vals - 1);
               lo = nat (trunc pos);
               hi = min (lo + 1) (length sorted_vals - 1);
               frac = pos - of_nat lo
           in sorted_vals ! lo * (1 - frac) + sorted_vals ! hi * frac)"

type_synonym skill_tally = "int \<times> real \<times> real"     \<comment> \<open>\<open>(n, hits, null_hits)\<close> of one day\<close>

record resolvability =
  rs_resolvable :: bool
  rs_skill :: real
  rs_lo :: real
  rs_hi :: real
  rs_days :: nat
  rs_reason :: string

definition refuse_skill :: "nat \<Rightarrow> string \<Rightarrow> resolvability" where
  "refuse_skill days reason =
     \<lparr>rs_resolvable = False, rs_skill = 0, rs_lo = 0, rs_hi = 0, rs_days = days, rs_reason = reason\<rparr>"

definition rows_total :: "skill_tally list \<Rightarrow> int" where
  "rows_total ts = sum_list (map fst ts)"

definition lift :: "skill_tally list \<Rightarrow> real" where
  "lift ts = (sum_list (map (\<lambda>t. fst (snd t)) ts) - sum_list (map (\<lambda>t. snd (snd t)) ts))
             / of_int (rows_total ts)"

definition resample :: "skill_tally list \<Rightarrow> nat list \<Rightarrow> skill_tally list" where
  "resample ts picks = map (\<lambda>i. ts ! i) picks"

definition bootstrap_draws :: "skill_tally list \<Rightarrow> nat list list \<Rightarrow> real list" where
  "bootstrap_draws ts picks =
     map lift (filter (\<lambda>p. 0 < rows_total p) (map (resample ts) picks))"

definition skill_resolvable :: "skill_tally list \<Rightarrow> nat list list \<Rightarrow> resolvability" where
  "skill_resolvable ts picks =
     (let nd = length ts
      in if nd = 0 then refuse_skill 0 ''no graded days: nothing to judge''
         else if nd < 2 then
           refuse_skill nd ''1 day of evidence can never support a significance verdict''
         else if rows_total ts \<le> 0 then
           refuse_skill nd (''0 graded rows over '' @ str_nat nd @ '' day(s): nothing to judge'')
         else if bootstrap_draws ts picks = [] then
           refuse_skill nd (''no non-empty resample over '' @ str_nat nd @ '' day(s): nothing to judge'')
         else
           let draws = sort (bootstrap_draws ts picks);
               lo = percentile draws (25 / 10); hi = percentile draws (975 / 10)
           in if lo > 0 \<or> hi < 0
              then \<lparr>rs_resolvable = True, rs_skill = lift ts, rs_lo = lo, rs_hi = hi, rs_days = nd,
                    rs_reason = []\<rparr>
              else \<lparr>rs_resolvable = False, rs_skill = lift ts, rs_lo = lo, rs_hi = hi, rs_days = nd,
                    rs_reason = ''skill '' @ fmt_signed 4 (Fin (lift ts)) @ '' over '' @ str_nat nd
                      @ '' day(s) has a 95% day-blocked interval ['' @ fmt_signed 4 (Fin lo) @ '', ''
                      @ fmt_signed 4 (Fin hi) @ ''] that contains zero: the day count cannot support a significance verdict''\<rparr>)"

section \<open>The typed record\<close>

definition SCHEMA_VERSION :: int where "SCHEMA_VERSION = 1"

definition REASON_CODES :: "string list" where
  "REASON_CODES = [''OK'', ''NULL_INTERVAL_OVERLAP'', ''NO_PUBLISHED_INTERVAL'']"

text \<open>\<open>x or default\<close>.\<close>

definition py_or :: "json \<Rightarrow> json \<Rightarrow> json" where
  "py_or x y = (if truthy x then x else y)"

definition claim_status :: "(string \<times> json) list \<Rightarrow> string \<times> string \<times> json" where
  "claim_status r =
     (if jget ''supported'' r = JNull then (''NO_INTERVAL'', ''NO_PUBLISHED_INTERVAL'', jget ''reason'' r)
      else if jget ''supported'' r = JBool False then
        (''WITHHELD'', ''NULL_INTERVAL_OVERLAP'', jget ''reason'' r)
      else (''SUPPORTED'', ''OK'', JStr []))"

definition estimand :: "(string \<times> json) list \<Rightarrow> string py" where
  "estimand row =
     (if jget ''predictor'' row \<noteq> JNull then
        py_bind (py_str (jget ''predictor'' row)) (\<lambda>p.
        py_bind (py_str (py_or (jget ''null_method'' row) (JStr ''stated''))) (\<lambda>m.
          Inr (''accuracy of '' @ p @ '' on its graded cross-section, against the '' @ m @ '' baseline'')))
      else Inr ''accuracy against the stated baseline'')"

definition record_horizon :: "json \<Rightarrow> string py" where
  "record_horizon predictor =
     py_bind (py_contains ''1w'' (py_or predictor (JStr []))) (\<lambda>weekly.
       Inr (if weekly then ''1w'' else ''1d''))"

definition universe :: "(string \<times> json) list \<Rightarrow> json \<Rightarrow> string py" where
  "universe row band =
     py_bind (py_str (jget ''family'' row)) (\<lambda>f.
       case band of JStr b \<Rightarrow> Inr (f @ '' / '' @ b) | _ \<Rightarrow> Inl TypeErr)"

text \<open>A key of the record and the key of the row or the registry it is copied from.\<close>

definition pick :: "(string \<times> json) list \<Rightarrow> (string \<times> string) list \<Rightarrow> (string \<times> json) list" where
  "pick d ks = map (\<lambda>(k, src). (k, jget src d)) ks"

definition record_counts :: "(string \<times> json) list \<Rightarrow> json" where
  "record_counts row = JObj (pick row
     [(''rows'', ''live_n''), (''distinct_days'', ''distinct_days''),
      (''effective_n'', ''effective_n''), (''design_effect'', ''design_effect'')])"

definition record_estimate :: "(string \<times> json) list \<Rightarrow> (string \<times> json) list \<Rightarrow> json" where
  "record_estimate row registry = JObj
     (pick row [(''point'', ''live_acc''), (''ci'', ''ci''), (''ci_method'', ''ci_method'')]
      @ pick registry [(''ci_z'', ''ci_z''), (''alpha'', ''corrected_alpha'')])"

definition record_baseline :: "(string \<times> json) list \<Rightarrow> (string \<times> json) list \<Rightarrow> json" where
  "record_baseline row registry = JObj
     (pick row [(''value'', ''null_acc''), (''ci'', ''null_ci'')]
      @ (''method'', py_or (jget ''null_method'' row) (JStr []))
      # pick registry [(''policy'', ''null_policy'')]
      @ [(''definition'', JStr ''prevailing majority class computed only from days STRICTLY BEFORE each graded day'')])"

definition record_dependence :: "(string \<times> json) list \<Rightarrow> (string \<times> json) list \<Rightarrow> json" where
  "record_dependence row registry = JObj
     (pick row [(''method'', ''ci_method''), (''design_effect'', ''design_effect'')]
      @ pick registry [(''min_independent_n'', ''min_independent_n''),
          (''min_distinct_blocks'', ''min_distinct_blocks'')])"

definition record_filters :: "(string \<times> json) list \<Rightarrow> json" where
  "record_filters registry = JObj (pick registry
     [(''settlement_quarantine'', ''settlement_quarantine''),
      (''thin_day_exclusion'', ''thin_day_exclusion''),
      (''stale_feed_exclusion'', ''stale_feed_exclusion'')])"

definition record_provenance :: "(string \<times> json) list \<Rightarrow> json \<Rightarrow> json" where
  "record_provenance registry code_commit = JObj
     (pick registry [(''grader_sha256'', ''grader_sha256''), (''grading_protocol_seq'', ''grading_protocol_seq'')]
      @ (''code_commit'', code_commit) # pick registry [(''registry_generated'', ''generated'')])"

definition typed_record ::
  "(string \<times> json) list \<Rightarrow> (string \<times> json) list \<Rightarrow> json \<Rightarrow> string \<times> string \<times> json
   \<Rightarrow> string \<Rightarrow> string \<Rightarrow> string \<Rightarrow> (string \<times> json) list" where
  "typed_record row registry code_commit st est horizon unv =
     [(''schema_version'', JInt SCHEMA_VERSION),
      (''metric'', JStr ''directional_accuracy''),
      (''estimand'', JStr est),
      (''predictor'', jget ''predictor'' row),
      (''horizon'', JStr horizon),
      (''band'', py_or (jget ''band'' row) (JStr ''all'')),
      (''universe'', JStr unv),
      (''evaluation'', JObj (pick registry [(''graded_at'', ''graded_at''), (''generated'', ''generated'')])),
      (''counts'', record_counts row),
      (''estimate'', record_estimate row registry),
      (''baseline'', record_baseline row registry),
      (''dependence'', record_dependence row registry),
      (''population_filters'', record_filters registry),
      (''status'', JStr (fst st)),
      (''reason_code'', JStr (fst (snd st))),
      (''reason'', snd (snd st)),
      (''provenance'', record_provenance registry code_commit)]"

definition build ::
  "(string \<times> json) list \<Rightarrow> (string \<times> json) list \<Rightarrow> json \<Rightarrow> (string \<times> json) list py" where
  "build row registry code_commit =
     py_bind (verdict_supported_by_intervals (jget ''live_acc'' row) (jget ''ci'' row)
                (jget ''null_acc'' row) (jget ''null_ci'' row)) (\<lambda>r.
     py_bind (estimand row) (\<lambda>est.
     py_bind (record_horizon (jget ''predictor'' row)) (\<lambda>horizon.
     py_bind (universe row (py_or (jget ''band'' row) (JStr ''all''))) (\<lambda>unv.
       Inr (typed_record row registry code_commit (claim_status r) est horizon unv)))))"

section \<open>The percentile interpolates\<close>

lemma percentile_interp:
  fixes p :: real
  assumes "2 \<le> length s" and p: "p = q / 100 * of_nat (length s - 1)"
    and "of_nat k \<le> p" "p \<le> of_nat k + 1" "k + 1 < length s"
  shows "percentile s q = s ! k * (1 - (p - of_nat k)) + s ! (k + 1) * (p - of_nat k)"
proof -
  have pos: "0 \<le> p" using assms(3) of_nat_0_le_iff [of k] by linarith
  have unfold: "percentile s q =
      (let lo = nat (trunc p); hi = min (lo + 1) (length s - 1); frac = p - of_nat lo
       in s ! lo * (1 - frac) + s ! hi * frac)"
    using assms(1) by (auto simp: percentile_def p Let_def)
  show ?thesis
  proof (cases "p = of_nat k + 1")
    case True
    then have "\<lfloor>p\<rfloor> = int k + 1" by linarith
    then have "nat (trunc p) = k + 1" using pos by (simp add: trunc_def)
    with True show ?thesis by (simp add: unfold Let_def)
  next
    case False
    with assms(3,4) have "\<lfloor>p\<rfloor> = int k" by linarith
    then have "nat (trunc p) = k" using pos by (simp add: trunc_def)
    with assms(5) show ?thesis by (simp add: unfold Let_def)
  qed
qed

lemma percentile_slot:
  assumes "2 \<le> length s" and "0 \<le> q" "q \<le> 100"
  obtains k and p :: real where "p = q / 100 * of_nat (length s - 1)" "of_nat k \<le> p" "p \<le> of_nat k + 1"
    "k + 1 < length s"
proof -
  define p where "p = q / 100 * of_nat (length s - 1)"
  define k where "k = min (nat \<lfloor>p\<rfloor>) (length s - 2)"
  have p0: "0 \<le> p" using assms by (simp add: p_def)
  have p1: "p \<le> of_nat (length s - 1)"
    using assms mult_right_mono [of "q / 100" 1 "of_nat (length s - 1)"] by (simp add: p_def)
  have "of_nat k \<le> p" using p0 by (simp add: k_def min_def) linarith
  moreover have "p \<le> of_nat k + 1"
    using p0 p1 assms(1) by (auto simp: k_def min_def of_nat_diff)
  moreover have "k + 1 < length s" using assms(1) by (simp add: k_def)
  ultimately show ?thesis using that [of p k] by (simp add: p_def)
qed

lemma nth_rev_map_uminus:
  "k < length s \<Longrightarrow> rev (map uminus s) ! k = - (s ! (length s - Suc k))" for s :: "real list"
  by (simp add: rev_nth)

text \<open>The percentiles of the negated sample are the negated percentiles from the other end.\<close>

lemma percentile_negate:
  assumes "s \<noteq> []" and "0 \<le> q" "q \<le> 100"
  shows "percentile (rev (map uminus s)) q = - percentile s (100 - q)"
proof (cases "length s = 1")
  case True
  then obtain x where "s = [x]" by (metis One_nat_def length_0_conv length_Suc_conv)
  then show ?thesis by (simp add: percentile_def)
next
  case False
  with assms(1) have two: "2 \<le> length s"
    by (metis One_nat_def Suc_1 Suc_leI length_greater_0_conv nat_neq_iff less_one)
  obtain k p where k: "p = q / 100 * of_nat (length s - 1)" "of_nat k \<le> p" "p \<le> of_nat k + 1"
      "k + 1 < length s"
    using percentile_slot [OF two assms(2,3)] by metis
  define k' where "k' = length s - 2 - k"
  define p' where "p' = (100 - q) / 100 * of_nat (length s - 1)"
  have p': "p' = of_nat (length s - 1) - p" by (simp add: p'_def k(1) field_simps)
  have kk: "of_nat k' = (of_nat (length s - 1) - 1 - of_nat k :: real)"
    using k(4) by (simp add: k'_def of_nat_diff)
  have L: "percentile (rev (map uminus s)) q
      = rev (map uminus s) ! k * (1 - (p - of_nat k)) + rev (map uminus s) ! (k + 1) * (p - of_nat k)"
    using two k by (intro percentile_interp) simp_all
  have R: "percentile s (100 - q) = s ! k' * (1 - (p' - of_nat k')) + s ! (k' + 1) * (p' - of_nat k')"
  proof (rule percentile_interp [OF two p'_def])
    show "of_nat k' \<le> p'" "p' \<le> of_nat k' + 1" using k(2,3) unfolding p' kk by linarith+
    show "k' + 1 < length s" using k(4) by (simp add: k'_def)
  qed
  have "length s - Suc k = k' + 1" "length s - Suc (k + 1) = k'" using k(4) by (simp_all add: k'_def)
  then have "percentile (rev (map uminus s)) q
      = - (s ! (k' + 1)) * (1 - (p - of_nat k)) + - (s ! k') * (p - of_nat k)"
    using k(4) unfolding L by (simp add: nth_rev_map_uminus)
  also have "\<dots> = - percentile s (100 - q)" unfolding R p' kk by (simp add: algebra_simps)
  finally show ?thesis .
qed

lemma sort_negate: "sort (map uminus xs) = rev (map uminus (sort xs))" for xs :: "real list"
proof -
  have "sorted_wrt (\<lambda>x y. - y \<le> - x) (sort xs)" using sorted_sort [of xs] by simp
  then have "sorted (rev (map uminus (sort xs)))" by (simp add: sorted_wrt_rev sorted_wrt_map)
  then show ?thesis by (intro properties_for_sort) simp_all
qed

section \<open>The skill test is two-sided\<close>

definition swap_null :: "skill_tally \<Rightarrow> skill_tally" where
  "swap_null t = (fst t, snd (snd t), fst (snd t))"

lemma rows_total_swap [simp]: "rows_total (map swap_null ts) = rows_total ts"
  by (simp add: rows_total_def swap_null_def comp_def)

lemma lift_swap: "lift (map swap_null ts) = - lift ts"
  by (simp add: lift_def swap_null_def comp_def diff_divide_distrib)

lemma resample_swap:
  "set p \<subseteq> {..<length ts} \<Longrightarrow> resample (map swap_null ts) p = map swap_null (resample ts p)"
  by (auto simp: resample_def)

lemma draws_swap:
  assumes "\<forall>p \<in> set picks. set p \<subseteq> {..<length ts}"
  shows "bootstrap_draws (map swap_null ts) picks = map uminus (bootstrap_draws ts picks)"
  using assms
proof (induction picks)
  case (Cons p picks)
  then show ?case by (simp add: bootstrap_draws_def resample_swap lift_swap)
qed (simp add: bootstrap_draws_def)

text \<open>
  The day-blocked skill test is two-sided: exchanging the model and its null turns the skill
  and the interval round and leaves the decision as it was, so the test refuses bad news exactly
  as readily as good news.
\<close>

theorem skill_test_is_two_sided:
  assumes "\<forall>p \<in> set picks. set p \<subseteq> {..<length ts}"
  shows "rs_resolvable (skill_resolvable (map swap_null ts) picks)
           = rs_resolvable (skill_resolvable ts picks)
    \<and> rs_skill (skill_resolvable (map swap_null ts) picks) = - rs_skill (skill_resolvable ts picks)
    \<and> rs_lo (skill_resolvable (map swap_null ts) picks) = - rs_hi (skill_resolvable ts picks)
    \<and> rs_hi (skill_resolvable (map swap_null ts) picks) = - rs_lo (skill_resolvable ts picks)"
proof -
  note swapped = draws_swap [OF assms] sort_negate lift_swap
  have ends: "percentile (rev (map uminus (sort d))) (5 / 2) = - percentile (sort d) (195 / 2)"
    "percentile (rev (map uminus (sort d))) (195 / 2) = - percentile (sort d) (5 / 2)"
    if "d \<noteq> []" for d
    using that percentile_negate [of "sort d" "5 / 2"] percentile_negate [of "sort d" "195 / 2"]
    by simp_all
  show ?thesis
  proof (cases "length ts < 2 \<or> rows_total ts \<le> 0 \<or> bootstrap_draws ts picks = []")
    case True
    then show ?thesis by (auto simp: skill_resolvable_def refuse_skill_def Let_def swapped)
  next
    case False
    then show ?thesis
      by (auto simp: skill_resolvable_def refuse_skill_def Let_def swapped ends)
  qed
qed

definition two_days :: "skill_tally list" where
  "two_days = [(20, 15, 10), (30, 20, 16)]"

theorem skill_test_is_two_sided_witness:
  "rs_skill (skill_resolvable (map swap_null two_days) [[0, 1], [1, 1]]) = - 9 / 50"
  using skill_test_is_two_sided [of "[[0, 1], [1, 1]]" two_days]
  by (simp add: two_days_def skill_resolvable_def bootstrap_draws_def resample_def rows_total_def
      lift_def Let_def)

section \<open>What a resolved skill says about the resamples\<close>

lemma sorted_low_count:
  fixes s :: "real list"
  assumes "sorted s" and "k < length s" and "0 < s ! k"
  shows "length (filter (\<lambda>x. x \<le> 0) s) \<le> k"
proof -
  have "0 < x" if "x \<in> set (drop k s)" for x
  proof -
    from that obtain i where "i < length s - k" "x = s ! (k + i)"
      by (auto simp: in_set_conv_nth)
    then have "s ! k \<le> x" using assms(1) by (simp add: sorted_nth_mono)
    with assms(3) show ?thesis by simp
  qed
  then have "filter (\<lambda>x. x \<le> 0) (drop k s) = []" by (auto simp: filter_empty_conv not_le)
  then have "filter (\<lambda>x. x \<le> 0) s = filter (\<lambda>x. x \<le> 0) (take k s)"
    using append_take_drop_id [of k s] by (metis append_Nil2 filter_append)
  moreover have "length (filter (\<lambda>x. x \<le> 0) (take k s)) \<le> k"
    using length_filter_le [of "\<lambda>x. x \<le> 0" "take k s"] by simp
  ultimately show ?thesis by simp
qed

lemma percentile_positive:
  assumes s: "sorted s" "2 \<le> length s" and q: "0 \<le> q" "q \<le> 100" and pos: "0 < percentile s q"
  shows "of_nat (length (filter (\<lambda>x. x \<le> 0) s)) \<le> q / 100 * of_nat (length s - 1) + 1"
proof -
  obtain k p where k: "p = q / 100 * of_nat (length s - 1)" "of_nat k \<le> p" "p \<le> of_nat k + 1"
      "k + 1 < length s"
    using percentile_slot [OF s(2) q] by metis
  have mono: "s ! k \<le> s ! (k + 1)" using s(1) k(4) by (simp add: sorted_nth_mono)
  have "0 < s ! (k + 1)"
  proof (rule ccontr)
    assume "\<not> 0 < s ! (k + 1)"
    then have "s ! k * (1 - (p - of_nat k)) \<le> 0" "s ! (k + 1) * (p - of_nat k) \<le> 0"
      using mono k(2,3) by (simp_all add: mult_nonpos_nonneg)
    with pos show False using percentile_interp [OF s(2) k] by simp
  qed
  then have "length (filter (\<lambda>x. x \<le> 0) s) \<le> k + 1"
    using sorted_low_count [OF s(1) k(4)] by simp
  then have "real (length (filter (\<lambda>x. x \<le> 0) s)) \<le> of_nat (k + 1)" by (simp only: of_nat_le_iff)
  with k(1,2) show ?thesis by simp
qed

text \<open>
  A resolved positive skill is carried by the resamples: at least two days were graded, and
  of \<open>N\<close> draws at most \<open>0.025 (N - 1) + 1\<close> show no lift over the null.
\<close>

theorem resolved_gain_rests_on_draws:
  assumes "rs_resolvable (skill_resolvable ts picks)" and "0 < rs_lo (skill_resolvable ts picks)"
  shows "2 \<le> length ts
    \<and> real (length (filter (\<lambda>x. x \<le> 0) (bootstrap_draws ts picks)))
        \<le> real (length (bootstrap_draws ts picks) - 1) / 40 + 1"
proof -
  let ?d = "bootstrap_draws ts picks"
  have live: "2 \<le> length ts" "?d \<noteq> []" and pos: "0 < percentile (sort ?d) (25 / 10)"
    using assms by (auto simp: skill_resolvable_def refuse_skill_def Let_def split: if_splits)
  have low: "length (filter (\<lambda>x. x \<le> 0) ?d) = length (filter (\<lambda>x. x \<le> 0) (sort ?d))"
    by (metis filter_sort length_sort)
  show ?thesis
  proof (cases "2 \<le> length ?d")
    case True
    then have "real (length (filter (\<lambda>x. x \<le> 0) (sort ?d))) \<le> 25 / 10 / 100 * of_nat (length (sort ?d) - 1) + 1"
      using pos by (intro percentile_positive) simp_all
    with live low show ?thesis by simp
  next
    case False
    with live(2) have "length ?d = 1"
      by (metis One_nat_def Suc_1 Suc_leI length_greater_0_conv nat_neq_iff less_one)
    then have "length (filter (\<lambda>x. x \<le> 0) ?d) \<le> 1" by (metis length_filter_le)
    then have "real (length (filter (\<lambda>x. x \<le> 0) ?d)) \<le> 1" by simp
    with live(1) show ?thesis by simp
  qed
qed

theorem resolved_gain_rests_on_draws_witness:
  "2 \<le> length two_days"
  using resolved_gain_rests_on_draws [of two_days "[[0, 1], [1, 1]]"]
  by (simp add: two_days_def skill_resolvable_def bootstrap_draws_def resample_def rows_total_def
      lift_def percentile_def trunc_def Let_def)

section \<open>Intervals\<close>

lemma supported_dict_get [simp]:
  "jget ''supported'' (supported_dict s lo hi r) = s"
  "jget ''overlap_lo'' (supported_dict s lo hi r) = lo"
  "jget ''overlap_hi'' (supported_dict s lo hi r) = hi"
  "jget ''reason'' (supported_dict s lo hi r) = JStr r"
  by (simp_all add: supported_dict_def)

lemma supported_cases:
  assumes "verdict_supported_by_intervals acc acc_ci null_acc null_ci = Inr r"
  obtains reason where "r = supported_dict JNull JNull JNull reason"
  | "r = supported_dict (JBool True) JNull JNull []"
  | reason a_lo a_hi n_lo n_hi where
      "r = supported_dict (JBool False) (JFloat (f_max a_lo n_lo)) (JFloat (f_min a_hi n_hi)) reason"
      "interval_end acc_ci 0 = Inr a_lo" "interval_end acc_ci 1 = Inr a_hi"
      "interval_end null_ci 0 = Inr n_lo" "interval_end null_ci 1 = Inr n_hi"
  using assms
  by (auto simp: verdict_supported_by_intervals_def py_bind_Inr Let_def split: if_splits)

text \<open>
  A significance verdict is called supported exactly when the two published intervals are
  disjoint, whichever of the two is the higher; otherwise the reported overlap is a common
  stretch of both.
\<close>

theorem only_disjoint_intervals_support:
  assumes "verdict_supported_by_intervals acc acc_ci null_acc null_ci = Inr r"
    and "acc \<noteq> JNull" "null_acc \<noteq> JNull" "truthy acc_ci" "truthy null_ci"
    and "interval_end acc_ci 0 = Inr (Fin al)" "interval_end acc_ci 1 = Inr (Fin ah)" "al \<le> ah"
    and "interval_end null_ci 0 = Inr (Fin nl)" "interval_end null_ci 1 = Inr (Fin nh)" "nl \<le> nh"
  shows "(jget ''supported'' r = JBool True \<longleftrightarrow> {al..ah} \<inter> {nl..nh} = {})
    \<and> (jget ''supported'' r = JBool False \<longrightarrow>
         (\<exists>lo hi. jget ''overlap_lo'' r = JFloat (Fin lo) \<and> jget ''overlap_hi'' r = JFloat (Fin hi)
           \<and> {lo..hi} = {al..ah} \<inter> {nl..nh} \<and> lo \<le> hi))"
proof -
  have disj: "{al..ah} \<inter> {nl..nh} = {} \<longleftrightarrow> min ah nh < max al nl"
    using assms(8,11) by auto
  have "verdict_supported_by_intervals acc acc_ci null_acc null_ci =
     (if min ah nh < max al nl then Inr (supported_dict (JBool True) JNull JNull [])
      else py_bind (overlap_reason acc null_acc (Fin al) (Fin ah) (Fin nl) (Fin nh)
                      (Fin (max al nl)) (Fin (min ah nh)))
             (\<lambda>reason. Inr (supported_dict (JBool False) (JFloat (Fin (max al nl)))
                              (JFloat (Fin (min ah nh))) reason)))"
    using assms(2-7,9,10) by (simp add: verdict_supported_by_intervals_def Let_def)
  with assms(1) show ?thesis
    by (cases "min ah nh < max al nl") (auto simp: disj py_bind_Inr not_less)
qed

theorem only_disjoint_intervals_support_witness:
  "\<exists>r. verdict_supported_by_intervals (JFloat (Fin 0.6)) (JArr [JFloat (Fin 0.55), JFloat (Fin 0.65)])
       (JFloat (Fin 0.5)) (JArr [JFloat (Fin 0.4), JFloat (Fin 0.5)]) = Inr r
     \<and> jget ''supported'' r = JBool True"
proof -
  have "verdict_supported_by_intervals (JFloat (Fin 0.6)) (JArr [JFloat (Fin 0.55), JFloat (Fin 0.65)])
       (JFloat (Fin 0.5)) (JArr [JFloat (Fin 0.4), JFloat (Fin 0.5)])
       = Inr (supported_dict (JBool True) JNull JNull [])"
    by (simp add: verdict_supported_by_intervals_def interval_end_def Let_def)
  then show ?thesis
    using only_disjoint_intervals_support
      [of "JFloat (Fin 0.6)" "JArr [JFloat (Fin 0.55), JFloat (Fin 0.65)]" "JFloat (Fin 0.5)"
        "JArr [JFloat (Fin 0.4), JFloat (Fin 0.5)]" _ "0.55" "0.65" "0.4" "0.5"]
    by (simp add: interval_end_def)
qed

section \<open>The shape of the record\<close>

definition RECORD_STATUSES :: "string list" where
  "RECORD_STATUSES = [''SUPPORTED'', ''WITHHELD'', ''NO_INTERVAL'']"

lemma claim_status_codes:
  "fst (claim_status r) \<in> set RECORD_STATUSES" "fst (snd (claim_status r)) \<in> set REASON_CODES"
  by (simp_all add: claim_status_def RECORD_STATUSES_def REASON_CODES_def)

lemma buildE:
  assumes "build row registry commit = Inr d"
  obtains r est horizon unv where
    "verdict_supported_by_intervals (jget ''live_acc'' row) (jget ''ci'' row)
       (jget ''null_acc'' row) (jget ''null_ci'' row) = Inr r"
    "d = typed_record row registry commit (claim_status r) est horizon unv"
  using assms by (auto simp: build_def py_bind_Inr)

lemma build_shape:
  assumes "build row registry commit = Inr d"
  shows "d \<noteq> []" "jget ''schema_version'' d = JInt SCHEMA_VERSION"
    "\<exists>s \<in> set RECORD_STATUSES. jget ''status'' d = JStr s"
    "\<exists>c \<in> set REASON_CODES. jget ''reason_code'' d = JStr c"
  using assms by (auto elim!: buildE simp: typed_record_def claim_status_codes)

lemma finite_pick: "finite_json (JObj d) \<Longrightarrow> list_all (\<lambda>kv. finite_json (snd kv)) (pick d ks)"
  using finite_jget by (induction ks) (auto simp: pick_def)

lemma finite_or: "finite_json x \<Longrightarrow> finite_json y \<Longrightarrow> finite_json (py_or x y)"
  by (simp add: py_or_def)

lemma claim_status_reason:
  "verdict_supported_by_intervals acc acc_ci null_acc null_ci = Inr r \<Longrightarrow>
   finite_json (snd (snd (claim_status r)))"
  by (erule supported_cases) (auto simp: claim_status_def)

lemma build_finite:
  assumes "build row registry commit = Inr d"
    and "finite_json (JObj row)" "finite_json (JObj registry)" "finite_json commit"
  shows "finite_json (JObj d)"
proof -
  from assms(1) obtain r est horizon unv where
    r: "verdict_supported_by_intervals (jget ''live_acc'' row) (jget ''ci'' row)
       (jget ''null_acc'' row) (jget ''null_ci'' row) = Inr r"
    and d: "d = typed_record row registry commit (claim_status r) est horizon unv"
    by (rule buildE)
  have "finite_json (jget k row)" for k using assms(2) by (rule finite_jget)
  then show ?thesis
    using finite_pick [OF assms(2)] finite_pick [OF assms(3)] assms(4) claim_status_reason [OF r]
    by (simp add: d typed_record_def record_counts_def record_estimate_def record_baseline_def
        record_dependence_def record_filters_def record_provenance_def finite_or)
qed

end
