(* ===== verification/Selection_Honesty.thy ===== *)
theory Selection_Honesty
  imports Skill_Record Evidence_Blocks Population
begin

text \<open>
  \<open>tools/selection_honesty.py\<close>: the check that runs after the pinned grader, on the registry JSON
  it wrote. It judges every directional row for a one-sided book pinned to its null, and with
  \<open>--merge\<close> writes an \<open>honesty\<close> block into each row it could judge. The registry is the parsed
  document; a database that is not there is \<^term>\<open>None\<close>; the commit of the checkout is a
  parameter. The printed lines are left out. An exception leaves the file as it was, because
  the rewrite is the last thing the program does.
\<close>

definition ONE_SIDED_AGREEMENT :: real where "ONE_SIDED_AGREEMENT = 0.90"
definition SELECTION_TOL :: real where "SELECTION_TOL = 0.02"
definition MIN_ROWS_PER_DAY :: int where "MIN_ROWS_PER_DAY = 20"

section \<open>The verdict on one row\<close>

definition which_side :: "real option \<Rightarrow> string" where
  "which_side calls = (case calls of Some c \<Rightarrow> if c > 0.5 then ''UP'' else ''DOWN'' | None \<Rightarrow> ''DOWN'')"

definition side_share :: "real option \<Rightarrow> string" where
  "side_share calls =
     (case calls of None \<Rightarrow> [] | Some c \<Rightarrow> '' on '' @ pct1 (max c (1 - c)) @ '' of graded rows'')"

definition one_sided_reason :: "pyfloat \<Rightarrow> pyfloat \<Rightarrow> pyfloat \<Rightarrow> bool \<Rightarrow> real option \<Rightarrow> string" where
  "one_sided_reason acc null_acc agreement near_null calls =
     ''accuracy '' @ fmt_float 4 acc @ '' IS ''
     @ (if near_null then ''the null itself'' else ''1 - null (its complement)'')
     @ '' ('' @ fmt_float 4 null_acc @ '') to within '' @ fixed 2 SELECTION_TOL
     @ '', on a book calling '' @ which_side calls @ side_share calls
     @ '', with mean daily agreement '' @ fmt_float 3 agreement
     @ ''. That is ONE market call replicated across the cross-section, not independent forecasts: the number measures the base rate of a one-sided selection, not forecast quality. Read day_bet instead.''"

definition honesty_dict :: "bool \<Rightarrow> bool \<Rightarrow> string \<Rightarrow> (string \<times> json) list" where
  "honesty_dict publishable one_sided reason =
     [(''publishable'', JBool publishable), (''one_sided'', JBool one_sided), (''reason'', JStr reason)]"

definition is_one_sided :: "pyfloat \<Rightarrow> bool" where
  "is_one_sided agreement = f_lt (Fin ONE_SIDED_AGREEMENT) agreement"

definition near_null :: "pyfloat \<Rightarrow> pyfloat \<Rightarrow> bool" where
  "near_null acc null_acc = f_le (f_abs (f_sub acc null_acc)) (Fin SELECTION_TOL)"

definition near_complement :: "pyfloat \<Rightarrow> pyfloat \<Rightarrow> bool" where
  "near_complement acc null_acc =
     f_le (f_abs (f_sub acc (f_sub (Fin 1) null_acc))) (Fin SELECTION_TOL)"

definition judge_numbers :: "pyfloat \<Rightarrow> pyfloat \<Rightarrow> pyfloat \<Rightarrow> real option \<Rightarrow> (string \<times> json) list" where
  "judge_numbers acc null_acc agreement calls =
     (if \<not> (is_one_sided agreement \<and> (near_null acc null_acc \<or> near_complement acc null_acc))
      then honesty_dict True (is_one_sided agreement) []
      else honesty_dict False True
             (one_sided_reason acc null_acc agreement (near_null acc null_acc) calls))"

definition row_verdict ::
  "json \<Rightarrow> json \<Rightarrow> json \<Rightarrow> real option \<Rightarrow> (string \<times> json) list option py" where
  "row_verdict acc null_acc agreement calls =
     (if acc = JNull \<or> null_acc = JNull \<or> agreement = JNull then Inr None
      else py_bind (operand agreement) (\<lambda>g.
           py_bind (operand acc) (\<lambda>a.
           py_bind (operand null_acc) (\<lambda>n.
             Inr (Some (judge_numbers a n g calls))))))"

section \<open>The live record\<close>

text \<open>\<open>date(ts, 'unixepoch')\<close>, as a day number.\<close>

definition utc_day :: "int \<Rightarrow> int" where
  "utc_day ts = ts div 86400"

definition graded_call :: "outcome_row \<Rightarrow> bool" where
  "graded_call r \<longleftrightarrow> po_up r \<noteq> None \<and> po_prob r \<noteq> None \<and> GRADING_EPOCH_TS \<le> po_ts r"

definition calls_up_by_horizon :: "database option \<Rightarrow> (string \<times> real) list" where
  "calls_up_by_horizon db =
     (case db of
        None \<Rightarrow> []
      | Some con \<Rightarrow>
          map (\<lambda>(h, g). (h, of_int (count_if calls_up g) / of_nat (length g)))
            (group_by po_horizon
              (row_number_1 (\<lambda>r. (po_symbol r, po_horizon r, utc_day (po_ts r))) po_ts
                (filter graded_call (db_outcomes con)))))"

text \<open>One row of the per-day statement: horizon, day, rows, hits, ups.\<close>

definition settled_call :: "outcome_row \<Rightarrow> bool" where
  "settled_call r \<longleftrightarrow> po_up r \<noteq> None \<and> po_prob r \<noteq> None \<and> po_settle r \<noteq> None"

definition settle_utc_day :: "outcome_row \<Rightarrow> int" where
  "settle_utc_day r = (case po_settle r of Some s \<Rightarrow> utc_day s | None \<Rightarrow> 0)"

definition in_band :: "real \<Rightarrow> outcome_row \<Rightarrow> bool" where
  "in_band min_edge r = (case po_prob r of Some p \<Rightarrow> min_edge \<le> \<bar>p - 0.5\<bar> | None \<Rightarrow> False)"

definition sum_ups :: "outcome_row list \<Rightarrow> int" where
  "sum_ups g = sum_list (map (\<lambda>r. case po_up r of Some u \<Rightarrow> u | None \<Rightarrow> 0) g)"

definition day_summary :: "int \<Rightarrow> outcome_row list \<Rightarrow> int \<times> int \<times> int \<times> int" where
  "day_summary day g = (day, int (length g), count_if (\<lambda>r. calls_up r = went_up r) g, sum_ups g)"

text \<open>The running loop over one horizon's days.\<close>

fun day_tallies :: "int \<Rightarrow> int \<Rightarrow> (int \<times> int \<times> int \<times> int) list \<Rightarrow> skill_tally list" where
  "day_tallies cum_up cum_n [] = []"
| "day_tallies cum_up cum_n ((day, n, hits, ups) # rest) =
     (if n < MIN_ROWS_PER_DAY then day_tallies cum_up cum_n rest
      else (n, of_int hits,
            if cum_n = 0 then of_int hits
            else if of_int cum_up / of_int cum_n \<ge> (0.5 :: real) then of_int ups
            else of_int (n - ups))
           # day_tallies (cum_up + ups) (cum_n + n) rest)"

definition day_tallies_by_horizon ::
  "database option \<Rightarrow> real \<Rightarrow> (string \<times> skill_tally list) list py" where
  "day_tallies_by_horizon db min_edge =
     (case db of
        None \<Rightarrow> Inr []
      | Some con \<Rightarrow>
          if \<not> db_has_settle_ts con then Inl OperationalErr
          else Inr (map (\<lambda>(h, g). (h, day_tallies 0 0 (map (\<lambda>(d, g'). day_summary d g')
                     (group_by settle_utc_day g))))
                 (group_by po_horizon (filter (in_band min_edge)
                   (row_number_1 (\<lambda>r. (po_symbol r, po_horizon r, settle_utc_day r)) po_ts
                     (filter settled_call (db_outcomes con)))))))"

section \<open>The run over the registry\<close>

record honesty_run =
  hr_refused :: nat
  hr_merged :: nat
  hr_unsupported :: nat

text \<open>\<open>r.get("breadth") or {}\<close> followed by \<open>.get\<close>.\<close>

definition breadth_agreement :: "(string \<times> json) list \<Rightarrow> json py" where
  "breadth_agreement row =
     (case py_or (jget ''breadth'' row) (JObj []) of
        JObj b \<Rightarrow> Inr (jget ''mean_daily_agreement'' b)
      | _ \<Rightarrow> Inl AttributeErr)"

definition row_horizon :: "(string \<times> json) list \<Rightarrow> string py" where
  "row_horizon row =
     (case map_of row ''predictor'' of
        None \<Rightarrow> Inl KeyErr
      | Some name \<Rightarrow> py_bind (py_contains ''1w'' name) (\<lambda>w. Inr (if w then ''1w'' else ''1d'')))"

definition calls_json :: "real option \<Rightarrow> json" where
  "calls_json c = (case c of None \<Rightarrow> JNull | Some x \<Rightarrow> JFloat (Fin x))"

definition HONESTY_SOURCE :: string where "HONESTY_SOURCE = ''tools/selection_honesty.py''"

text \<open>The block merged into a judged row.\<close>

definition honesty_block ::
  "(string \<times> json) list \<Rightarrow> (string \<times> json) list \<Rightarrow> (string \<times> json) list \<Rightarrow> real option \<Rightarrow> json" where
  "honesty_block v res record calls = JObj
     (jset ''source'' (JStr HONESTY_SOURCE)
       (jset ''calls_up'' (calls_json calls)
         (jset ''result'' (JObj record) (jset ''resolvability'' (JObj res) v))))"

text \<open>What the loop does with a row once the verdict and the interval check are in.\<close>

definition note_unsupported :: "(string \<times> json) list \<Rightarrow> honesty_run \<Rightarrow> honesty_run" where
  "note_unsupported res st =
     (if jget ''supported'' res = JBool False then st\<lparr>hr_unsupported := hr_unsupported st + 1\<rparr> else st)"

definition note_refused :: "(string \<times> json) list \<Rightarrow> honesty_run \<Rightarrow> honesty_run" where
  "note_refused v st =
     (if jget ''publishable'' v = JBool True then st else st\<lparr>hr_refused := hr_refused st + 1\<rparr>)"

definition finish_row ::
  "bool \<Rightarrow> json \<Rightarrow> (string \<times> json) list \<Rightarrow> (string \<times> json) list \<Rightarrow> honesty_run \<Rightarrow> real option
   \<Rightarrow> (string \<times> json) list \<Rightarrow> (string \<times> json) list option \<Rightarrow> ((string \<times> json) list \<times> honesty_run) py" where
  "finish_row merge commit reg row st calls res verdict =
     (case verdict of
        None \<Rightarrow> Inr (row, st)
      | Some v \<Rightarrow>
          if \<not> merge then Inr (row, note_refused v st)
          else py_bind (build row reg commit) (\<lambda>typed.
                 Inr (jset ''honesty'' (honesty_block v res typed calls) row,
                      (note_refused v st)\<lparr>hr_merged := hr_merged st + 1\<rparr>)))"

definition honest_row ::
  "bool \<Rightarrow> (string \<times> real) list \<Rightarrow> json \<Rightarrow> (string \<times> json) list \<Rightarrow> (string \<times> json) list
   \<Rightarrow> honesty_run \<Rightarrow> ((string \<times> json) list \<times> honesty_run) py" where
  "honest_row merge ups commit reg row st =
     (if jget ''family'' row \<noteq> JStr ''direction'' then Inr (row, st)
      else
        py_bind (breadth_agreement row) (\<lambda>agreement.
        py_bind (row_horizon row) (\<lambda>horizon.
        py_bind (row_verdict (jget ''live_acc'' row) (jget ''null_acc'' row) agreement
                   (map_of ups horizon)) (\<lambda>v.
        py_bind (verdict_supported_by_intervals (jget ''live_acc'' row) (jget ''ci'' row)
                   (jget ''null_acc'' row) (jget ''null_ci'' row)) (\<lambda>res.
          finish_row merge commit reg row (note_unsupported res st) (map_of ups horizon) res v)))))"

fun honest_rows ::
  "bool \<Rightarrow> (string \<times> real) list \<Rightarrow> json \<Rightarrow> (string \<times> json) list \<Rightarrow> json list
   \<Rightarrow> honesty_run \<Rightarrow> (json list \<times> honesty_run) py" where
  "honest_rows merge ups commit reg [] st = Inr ([], st)"
| "honest_rows merge ups commit reg (JObj row # rest) st =
     py_bind (honest_row merge ups commit reg row st) (\<lambda>(row', st').
     py_bind (honest_rows merge ups commit reg rest st') (\<lambda>(rest', st'').
       Inr (JObj row' # rest', st'')))"
| "honest_rows merge ups commit reg (_ # rest) st = Inl AttributeErr"

text \<open>\<open>for r in reg.get("rows", [])\<close>.\<close>

definition rows_to_judge :: "(string \<times> json) list \<Rightarrow> json list py" where
  "rows_to_judge reg =
     (case jget_or (JArr []) ''rows'' reg of
        JArr rows \<Rightarrow> Inr rows
      | JObj [] \<Rightarrow> Inr [] | JStr [] \<Rightarrow> Inr []
      | JObj _ \<Rightarrow> Inl AttributeErr | JStr _ \<Rightarrow> Inl AttributeErr
      | _ \<Rightarrow> Inl TypeErr)"

text \<open>
  The registry the run leaves in the file, its counters, and the exit status. The rows are updated
  in place, so the document differs from the one read only in \<open>rows\<close>.
\<close>

definition put_rows :: "json list \<Rightarrow> (string \<times> json) list \<Rightarrow> (string \<times> json) list" where
  "put_rows rows reg = (case map_of reg ''rows'' of Some (JArr _) \<Rightarrow> jset ''rows'' (JArr rows) reg | _ \<Rightarrow> reg)"

definition honesty_main ::
  "bool \<Rightarrow> database option \<Rightarrow> json \<Rightarrow> json \<Rightarrow> (json \<times> honesty_run) py" where
  "honesty_main merge db commit doc =
     (case doc of
        JObj reg \<Rightarrow>
          py_bind (rows_to_judge reg) (\<lambda>rows.
          py_bind (honest_rows merge (calls_up_by_horizon db) commit reg rows
                     \<lparr>hr_refused = 0, hr_merged = 0, hr_unsupported = 0\<rparr>) (\<lambda>(rows', st).
            Inr (JObj (if merge then put_rows rows' reg else reg), st)))
      | _ \<Rightarrow> Inl AttributeErr)"

definition honesty_status :: "(json \<times> honesty_run) py \<Rightarrow> int" where
  "honesty_status out = (case out of Inl _ \<Rightarrow> 1 | Inr (_, st) \<Rightarrow> if hr_refused st = 0 then 0 else 1)"

section \<open>The steps of one row\<close>

lemma honest_row_steps:
  assumes "honest_row merge ups commit reg row st = Inr out" and "jget ''family'' row = JStr ''direction''"
  shows "\<exists>agreement horizon v res. breadth_agreement row = Inr agreement \<and> row_horizon row = Inr horizon
    \<and> row_verdict (jget ''live_acc'' row) (jget ''null_acc'' row) agreement (map_of ups horizon) = Inr v
    \<and> verdict_supported_by_intervals (jget ''live_acc'' row) (jget ''ci'' row)
         (jget ''null_acc'' row) (jget ''null_ci'' row) = Inr res
    \<and> finish_row merge commit reg row (note_unsupported res st) (map_of ups horizon) res v = Inr out"
proof -
  have "py_bind (breadth_agreement row) (\<lambda>agreement. py_bind (row_horizon row) (\<lambda>horizon.
      py_bind (row_verdict (jget ''live_acc'' row) (jget ''null_acc'' row) agreement (map_of ups horizon))
        (\<lambda>v. py_bind (verdict_supported_by_intervals (jget ''live_acc'' row) (jget ''ci'' row)
           (jget ''null_acc'' row) (jget ''null_ci'' row))
           (\<lambda>res. finish_row merge commit reg row (note_unsupported res st) (map_of ups horizon) res v))))
     = Inr out"
    using assms(1) unfolding honest_row_def assms(2) by (simp only: simp_thms if_False)
  then show ?thesis unfolding py_bind_Inr by blast
qed

lemma unjudged_verdict:
  "row_verdict acc null_acc agreement calls = Inr None \<Longrightarrow>
   acc = JNull \<or> null_acc = JNull \<or> agreement = JNull"
  by (auto simp: row_verdict_def py_bind_Inr split: if_splits)

section \<open>The merge changes nothing else\<close>

lemma honest_row_intro:
  assumes "jget ''family'' row = JStr ''direction''"
    and "breadth_agreement row = Inr agreement" "row_horizon row = Inr horizon"
    and "row_verdict (jget ''live_acc'' row) (jget ''null_acc'' row) agreement (map_of ups horizon) = Inr v"
    and "verdict_supported_by_intervals (jget ''live_acc'' row) (jget ''ci'' row)
         (jget ''null_acc'' row) (jget ''null_ci'' row) = Inr res"
  shows "honest_row merge ups commit reg row st
    = finish_row merge commit reg row (note_unsupported res st) (map_of ups horizon) res v"
  using assms by (simp add: honest_row_def)

definition same_but_honesty :: "json \<Rightarrow> json \<Rightarrow> bool" where
  "same_but_honesty j j' \<longleftrightarrow> j' = j \<or> (\<exists>row b. j = JObj row \<and> j' = JObj (jset ''honesty'' b row))"

lemma finish_row_frame:
  "finish_row merge commit reg row st calls res v = Inr (row', st') \<Longrightarrow>
   same_but_honesty (JObj row) (JObj row') \<and> (\<not> merge \<longrightarrow> row' = row)"
  by (auto simp: finish_row_def same_but_honesty_def py_bind_Inr split: option.splits if_splits)

lemma honest_row_frame:
  assumes "honest_row merge ups commit reg row st = Inr (row', st')"
  shows "same_but_honesty (JObj row) (JObj row') \<and> (\<not> merge \<longrightarrow> row' = row)"
proof (cases "jget ''family'' row = JStr ''direction''")
  case True
  from honest_row_steps [OF assms True] show ?thesis using finish_row_frame by blast
next
  case False
  with assms show ?thesis by (simp add: honest_row_def same_but_honesty_def)
qed

lemma honest_rows_frame:
  assumes "honest_rows merge ups commit reg rows st = Inr (rows', st')"
  shows "list_all2 same_but_honesty rows rows' \<and> (\<not> merge \<longrightarrow> rows' = rows)"
  using assms
proof (induction rows arbitrary: st rows' st')
  case (Cons r rest)
  then obtain row where r: "r = JObj row" by (cases r) simp_all
  with Cons.prems obtain row1 st1 rest1
    where one: "honest_row merge ups commit reg row st = Inr (row1, st1)"
      and more: "honest_rows merge ups commit reg rest st1 = Inr (rest1, st')"
      and out: "rows' = JObj row1 # rest1"
    by (auto simp: py_bind_Inr)
  from honest_row_frame [OF one] Cons.IH [OF more] show ?case by (simp add: out r)
qed simp

text \<open>
  The honesty pass is disclosure only: without \<open>--merge\<close> the document is returned as it was
  read, with it nothing outside the rows changes, the rows keep their number and order, and no key
  of a row but its honesty block is touched.
\<close>

theorem merge_is_disclosure_only:
  assumes "honesty_main merge db commit (JObj reg) = Inr (doc', st)"
  shows "\<exists>reg'. doc' = JObj reg' \<and> (\<not> merge \<longrightarrow> reg' = reg)
    \<and> (\<forall>k. k \<noteq> ''rows'' \<longrightarrow> map_of reg' k = map_of reg k)
    \<and> (\<forall>rs. map_of reg ''rows'' = Some (JArr rs) \<longrightarrow>
         (\<exists>rs'. map_of reg' ''rows'' = Some (JArr rs') \<and> list_all2 same_but_honesty rs rs'))"
proof -
  from assms obtain rows rows' where get: "rows_to_judge reg = Inr rows"
    and m: "honest_rows merge (calls_up_by_horizon db) commit reg rows
      \<lparr>hr_refused = 0, hr_merged = 0, hr_unsupported = 0\<rparr> = Inr (rows', st)"
    and doc: "doc' = JObj (if merge then put_rows rows' reg else reg)"
    by (auto simp: honesty_main_def py_bind_Inr)
  have rows: "rows = rs" if "map_of reg ''rows'' = Some (JArr rs)" for rs
    using get that by (simp add: rows_to_judge_def jget_or_def)
  have "list_all2 same_but_honesty xs xs" for xs
    by (simp add: list_all2_same same_but_honesty_def)
  with rows honest_rows_frame [OF m] show ?thesis
    by (auto simp: doc put_rows_def split: option.splits json.splits)
qed

section \<open>Running the merge again\<close>

lemma rows_key_unread:
  "build row (jset ''rows'' x reg) commit = build row reg commit"
  by (simp add: build_def typed_record_def pick_def record_counts_def record_estimate_def
      record_baseline_def record_dependence_def record_filters_def record_provenance_def)

lemma honesty_key_unread:
  "build (jset ''honesty'' b row) reg commit = build row reg commit"
  "breadth_agreement (jset ''honesty'' b row) = breadth_agreement row"
  "row_horizon (jset ''honesty'' b row) = row_horizon row"
  by (simp_all add: build_def typed_record_def pick_def record_counts_def record_estimate_def
      record_baseline_def record_dependence_def record_filters_def record_provenance_def
      estimand_def universe_def breadth_agreement_def row_horizon_def)

lemma finish_row_again:
  assumes "finish_row True commit reg row st calls res v = Inr (row', st')"
  shows "finish_row True commit (jset ''rows'' x reg) row' st calls res v = Inr (row', st')"
  using assms
  by (auto simp: finish_row_def rows_key_unread honesty_key_unread py_bind_Inr split: option.splits)

lemma honest_row_again:
  assumes "honest_row True ups commit reg row st = Inr (row', st')"
  shows "honest_row True ups commit (jset ''rows'' x reg) row' st = Inr (row', st')"
proof (cases "jget ''family'' row = JStr ''direction''")
  case True
  from honest_row_steps [OF assms True] obtain agreement horizon v res
    where A: "breadth_agreement row = Inr agreement" "row_horizon row = Inr horizon"
      "row_verdict (jget ''live_acc'' row) (jget ''null_acc'' row) agreement (map_of ups horizon) = Inr v"
      "verdict_supported_by_intervals (jget ''live_acc'' row) (jget ''ci'' row)
         (jget ''null_acc'' row) (jget ''null_ci'' row) = Inr res"
    and F: "finish_row True commit reg row (note_unsupported res st) (map_of ups horizon) res v
      = Inr (row', st')"
    by (elim exE conjE)
  from honest_row_frame [OF assms] have "row' = row \<or> (\<exists>b. row' = jset ''honesty'' b row)"
    by (simp add: same_but_honesty_def)
  then show ?thesis
  proof
    assume "row' = row"
    then show ?thesis using finish_row_again [OF F] honest_row_intro [OF True A] by simp
  next
    assume "\<exists>b. row' = jset ''honesty'' b row"
    then obtain b where b: "row' = jset ''honesty'' b row" ..
    have "honest_row True ups commit (jset ''rows'' x reg) row' st
      = finish_row True commit (jset ''rows'' x reg) row' (note_unsupported res st) (map_of ups horizon) res v"
      using True A by (intro honest_row_intro) (simp_all add: b honesty_key_unread)
    with finish_row_again [OF F] show ?thesis by simp
  qed
next
  case False
  with assms show ?thesis by (simp add: honest_row_def)
qed

lemma honest_rows_again:
  assumes "honest_rows True ups commit reg rows st = Inr (rows', st')"
  shows "honest_rows True ups commit (jset ''rows'' x reg) rows' st = Inr (rows', st')"
  using assms
proof (induction rows arbitrary: st rows' st')
  case (Cons r rest)
  then obtain row where r: "r = JObj row" by (cases r) simp_all
  with Cons.prems obtain row1 st1 rest1
    where one: "honest_row True ups commit reg row st = Inr (row1, st1)"
      and more: "honest_rows True ups commit reg rest st1 = Inr (rest1, st')"
      and out: "rows' = JObj row1 # rest1"
    by (auto simp: py_bind_Inr)
  from honest_row_again [OF one] Cons.IH [OF more] show ?case by (simp add: out)
qed simp

text \<open>
  The merge is idempotent: running it again on its own output, with the same record and the
  same commit, leaves the document as it is and counts the same rows.
\<close>

theorem merge_is_idempotent:
  assumes "honesty_main True db commit (JObj reg) = Inr (doc', st)"
  shows "honesty_main True db commit doc' = Inr (doc', st)"
proof -
  let ?z = "\<lparr>hr_refused = 0, hr_merged = 0, hr_unsupported = 0\<rparr>"
  from assms obtain rows rows' where get: "rows_to_judge reg = Inr rows"
    and m: "honest_rows True (calls_up_by_horizon db) commit reg rows ?z = Inr (rows', st)"
    and doc: "doc' = JObj (put_rows rows' reg)"
    by (auto simp: honesty_main_def py_bind_Inr)
  show ?thesis
  proof (cases "\<exists>rs. map_of reg ''rows'' = Some (JArr rs)")
    case True
    then have d: "doc' = JObj (jset ''rows'' (JArr rows') reg)" by (auto simp: doc put_rows_def)
    have "rows_to_judge (jset ''rows'' (JArr rows') reg) = Inr rows'" by (simp add: rows_to_judge_def)
    then show ?thesis using honest_rows_again [OF m] by (simp add: d honesty_main_def put_rows_def)
  next
    case False
    then have p: "put_rows rs reg = reg" for rs
      by (auto simp: put_rows_def split: option.splits json.splits)
    then show ?thesis using assms by (simp add: doc)
  qed
qed

section \<open>A registry to run on\<close>

definition sample_claim :: "(string \<times> json) list" where
  "sample_claim =
     [(''predictor'', JStr ''ens (1d)''), (''family'', JStr ''direction''),
      (''live_acc'', JFloat (Fin 0.43)), (''ci'', JArr [JFloat (Fin 0.38), JFloat (Fin 0.48)]),
      (''null_acc'', JFloat (Fin 0.565)), (''null_ci'', JArr [JFloat (Fin 0.5), JFloat (Fin 0.6)]),
      (''breadth'', JObj [(''mean_daily_agreement'', JFloat (Fin 0.97))])]"

definition sample_registry :: "(string \<times> json) list" where
  "sample_registry = [(''generated'', JStr ''2026-09-13T12:00:00''), (''rows'', JArr [JObj sample_claim])]"

lemma sample_steps:
  "jget ''family'' sample_claim = JStr ''direction''"
  "breadth_agreement sample_claim = Inr (JFloat (Fin 0.97))" "row_horizon sample_claim = Inr ''1d''"
  "row_verdict (jget ''live_acc'' sample_claim) (jget ''null_acc'' sample_claim) (JFloat (Fin 0.97)) c
     = Inr (Some (judge_numbers (Fin 0.43) (Fin 0.565) (Fin 0.97) c))"
  "verdict_supported_by_intervals (jget ''live_acc'' sample_claim) (jget ''ci'' sample_claim)
     (jget ''null_acc'' sample_claim) (jget ''null_ci'' sample_claim)
     = Inr (supported_dict (JBool True) JNull JNull [])"
  by (simp_all add: sample_claim_def breadth_agreement_def py_or_def row_horizon_def row_verdict_def
      verdict_supported_by_intervals_def interval_end_def Let_def)

lemma sample_builds: "\<exists>d. build sample_claim reg commit = Inr d"
proof -
  have "estimand sample_claim = Inr ''accuracy of ens (1d) on its graded cross-section, against the stated baseline''"
    "record_horizon (jget ''predictor'' sample_claim) = Inr ''1d''"
    "universe sample_claim (py_or (jget ''band'' sample_claim) (JStr ''all'')) = Inr ''direction / all''"
    by (simp_all add: sample_claim_def estimand_def py_or_def record_horizon_def universe_def)
  then show ?thesis using sample_steps(5) by (simp add: build_def)
qed

lemma sample_merges: "\<exists>doc st. honesty_main True db commit (JObj sample_registry) = Inr (doc, st)"
proof -
  obtain d where "build sample_claim sample_registry commit = Inr d" using sample_builds by blast
  then show ?thesis
    using honest_row_intro [OF sample_steps(1-3) sample_steps(4) sample_steps(5)]
    by (simp add: honesty_main_def sample_registry_def rows_to_judge_def finish_row_def)
qed

text \<open>The merge of the sample runs, and is disclosure and idempotent there.\<close>

theorem merge_is_disclosure_only_witness:
  "\<exists>doc st reg'. honesty_main True None JNull (JObj sample_registry) = Inr (doc, st)
     \<and> doc = JObj reg' \<and> map_of reg' ''generated'' = map_of sample_registry ''generated''"
proof -
  obtain doc st where run: "honesty_main True None JNull (JObj sample_registry) = Inr (doc, st)"
    using sample_merges by blast
  then show ?thesis using merge_is_disclosure_only [OF run] by auto
qed

theorem merge_is_idempotent_witness:
  "\<exists>doc st. honesty_main True None JNull (JObj sample_registry) = Inr (doc, st)
     \<and> honesty_main True None JNull doc = Inr (doc, st)"
proof -
  obtain doc st where run: "honesty_main True None JNull (JObj sample_registry) = Inr (doc, st)"
    using sample_merges by blast
  then show ?thesis using merge_is_idempotent [OF run] by blast
qed

section \<open>The day tallies and the grader's null\<close>

definition day_rows :: "int \<times> int \<times> int \<times> int \<Rightarrow> int" where "day_rows d = fst (snd d)"
definition day_ups :: "int \<times> int \<times> int \<times> int \<Rightarrow> int" where "day_ups d = snd (snd (snd d))"
definition day_hits :: "int \<times> int \<times> int \<times> int \<Rightarrow> int" where "day_hits d = fst (snd (snd d))"

lemmas day_fields = day_rows_def day_ups_def day_hits_def

lemma day_tallies_length:
  "\<forall>d \<in> set days. MIN_ROWS_PER_DAY \<le> day_rows d \<Longrightarrow> length (day_tallies u n days) = length days"
  by (induction u n days rule: day_tallies.induct) (auto simp: day_fields)

lemma day_tallies_nth:
  assumes "\<forall>d \<in> set days. MIN_ROWS_PER_DAY \<le> day_rows d" and "i < length days"
  shows "day_tallies u n days ! i =
    (day_rows (days ! i), of_int (day_hits (days ! i)),
     let pn = n + sum_list (map day_rows (take i days)); pu = u + sum_list (map day_ups (take i days))
     in if pn = 0 then of_int (day_hits (days ! i))
        else if of_int pu / of_int pn \<ge> (0.5 :: real) then of_int (day_ups (days ! i))
        else of_int (day_rows (days ! i) - day_ups (days ! i)))"
  using assms
proof (induction u n days arbitrary: i rule: day_tallies.induct)
  case (2 u n day m hits ups rest)
  show ?case
  proof (cases i)
    case 0
    then show ?thesis using 2(3) by (simp add: day_fields)
  next
    case (Suc j)
    have "\<not> m < MIN_ROWS_PER_DAY" using 2(3) by (simp add: day_fields)
    with 2(2) [of j] 2(3,4) Suc show ?thesis by (simp add: day_fields add.assoc Let_def)
  qed
qed simp

text \<open>
  Over days that are all thick enough, the null of the day tallies is the grader's prequential
  null wherever the earlier days have a majority; on the first day it is the model's own hits, and
  on a tied record it calls up where the grader splits the day.
\<close>

theorem day_tallies_null:
  assumes "\<forall>d \<in> set days. MIN_ROWS_PER_DAY \<le> day_rows d" and "i < length days"
    and pn: "pn = sum_list (map day_rows (take i days))" and pu: "pu = sum_list (map day_ups (take i days))"
  shows "snd (snd (day_tallies 0 0 days ! i)) =
    (if i = 0 then of_int (day_hits (days ! i))
     else if 2 * pu = pn then of_int (day_ups (days ! i))
     else null_hits pn pu (day_rows (days ! i)) (day_ups (days ! i)))"
proof -
  have pos: "0 < pn" if later: "i \<noteq> 0"
  proof -
    have thick: "20 \<le> day_rows d" if "d \<in> set days" for d
      using that assms(1) by (simp add: MIN_ROWS_PER_DAY_def)
    have ge: "sum_list (map day_rows xs) \<ge> 0" if sub: "set xs \<subseteq> set days" for xs
    proof (rule sum_list_nonneg)
      fix x assume "x \<in> set (map day_rows xs)"
      then obtain d where "d \<in> set days" "x = day_rows d" using sub by auto
      with thick [of d] show "0 \<le> x" by simp
    qed
    obtain d rest where d: "take i days = d # rest" using later assms(2) by (cases "take i days") auto
    then have "set rest \<subseteq> set days" "d \<in> set days" using set_take_subset [of i days] by auto
    then show ?thesis using ge [of rest] thick [of d] unfolding pn d by simp
  qed
  have half: "(0.5 :: real) \<le> of_int pu / of_int pn \<longleftrightarrow> pn \<le> 2 * pu" if "0 < pn"
    using that by (simp add: field_simps) linarith
  show ?thesis
  proof (cases "i = 0")
    case True
    then show ?thesis using day_tallies_nth [OF assms(1,2), of 0 0] by simp
  next
    case False
    with pos have "0 < pn" by simp
    then show ?thesis
      using day_tallies_nth [OF assms(1,2), of 0 0] False half
      by (auto simp: Let_def null_hits_def simp flip: pn pu)
  qed
qed

theorem day_tallies_null_witness:
  "snd (snd (day_tallies 0 0 [(0, 20, 11, 12), (1, 30, 16, 14)] ! 1)) = null_hits 20 12 30 14"
  using day_tallies_null [of "[(0, 20, 11, 12), (1, 30, 16, 14)]" 1 20 12]
  by (simp add: day_fields MIN_ROWS_PER_DAY_def)

section \<open>When a row is refused\<close>

lemma refused_iff:
  "jget ''publishable'' (judge_numbers (Fin a) (Fin n) (Fin g) calls)
     = JBool (\<not> (0.9 < g \<and> (\<bar>a - n\<bar> \<le> 0.02 \<or> \<bar>a - (1 - n)\<bar> \<le> 0.02)))"
  by (simp add: judge_numbers_def honesty_dict_def is_one_sided_def near_null_def near_complement_def
      ONE_SIDED_AGREEMENT_def SELECTION_TOL_def not_less)

text \<open>
  The base rate of a one-sided book is refused whichever way the book points: replacing an
  accuracy by its complement (the same book called the other way) never changes the decision, and
  a row is refused exactly when the agreement is above 0.90 and the accuracy is within 0.02 of the
  null or of its complement.
\<close>

theorem refusal_is_direction_blind:
  "jget ''publishable'' (judge_numbers (Fin a) (Fin n) (Fin g) calls)
     = JBool (\<not> (0.9 < g \<and> (\<bar>a - n\<bar> \<le> 0.02 \<or> \<bar>a - (1 - n)\<bar> \<le> 0.02)))
   \<and> jget ''publishable'' (judge_numbers (Fin (1 - a)) (Fin n) (Fin g) calls')
     = jget ''publishable'' (judge_numbers (Fin a) (Fin n) (Fin g) calls)"
proof -
  have "\<bar>1 - a - n\<bar> = \<bar>a - (1 - n)\<bar>" "\<bar>1 - a - (1 - n)\<bar> = \<bar>a - n\<bar>" by linarith+
  then show ?thesis by (auto simp: refused_iff)
qed

end
