(* ===== verification/Publication_Gate.thy ===== *)
theory Publication_Gate
  imports Selection_Honesty
begin

text \<open>
  \<open>tools/publication_gate.py\<close>: the completeness assertion run on the registry just before it is
  published. \<open>verify\<close> is modelled with every outcome and every reason as a constructor, the
  names of rows in them rendered as the code renders them; a Python exception that escapes it is
  an \<^term>\<open>Inl\<close>. A file the gate opens is absent, unreadable, or a text, given by the first bare
  \<open>NaN\<close> or \<open>Infinity\<close> literal the parser meets and by what it parses to.
\<close>

datatype gate_file =
    GateMissing
  | GateUnreadable
  | GateText (gt_constant: "string option") (gt_document: "json option")

section \<open>Shape predicates\<close>

definition REQUIRED_HONESTY_KEYS :: "string list" where
  "REQUIRED_HONESTY_KEYS = [''publishable'', ''one_sided'', ''reason'', ''result'']"

definition RESULT_STATUSES :: "string list" where
  "RESULT_STATUSES = [''SUPPORTED'', ''WITHHELD'', ''NO_INTERVAL'']"

definition RESULT_REASON_CODES :: "string list" where
  "RESULT_REASON_CODES = [''OK'', ''NULL_INTERVAL_OVERLAP'', ''NO_PUBLISHED_INTERVAL'']"

text \<open>
  \<open>math.isfinite\<close> converts an integer to a float first, and raises where that overflows: from
  half a unit in the last place below \<open>2 ^ 1024\<close>.
\<close>

definition float_range :: int where
  "float_range = 2 ^ 1024 - 2 ^ 970"

fun is_real :: "json \<Rightarrow> bool py" where
  "is_real (JInt i) = (if \<bar>i\<bar> < float_range then Inr True else Inl OverflowErr)"
| "is_real (JFloat (Fin _)) = Inr True"
| "is_real _ = Inr False"

text \<open>The path of the first float that is infinite or not a number.\<close>

fun first_non_finite :: "json \<Rightarrow> string \<Rightarrow> string option"
  and first_in_dict :: "(string \<times> json) list \<Rightarrow> string \<Rightarrow> string option"
  and first_in_list :: "nat \<Rightarrow> json list \<Rightarrow> string \<Rightarrow> string option" where
  "first_non_finite (JFloat (Fin _)) path = None"
| "first_non_finite (JFloat _) path = Some path"
| "first_non_finite (JObj d) path = first_in_dict d path"
| "first_non_finite (JArr xs) path = first_in_list 0 xs path"
| "first_non_finite _ path = None"
| "first_in_dict [] path = None"
| "first_in_dict ((k, v) # d) path =
     (case first_non_finite v (path @ ''.'' @ k) of Some p \<Rightarrow> Some p | None \<Rightarrow> first_in_dict d path)"
| "first_in_list i [] path = None"
| "first_in_list i (v # vs) path =
     (case first_non_finite v (path @ ''['' @ str_nat i @ '']'') of
        Some p \<Rightarrow> Some p | None \<Rightarrow> first_in_list (i + 1) vs path)"

subsection \<open>Timestamps\<close>

text \<open>
  \<open>datetime.fromisoformat(s.strip().replace("Z", "+00:00"))\<close> succeeds. Followed are the extended
  calendar form \<open>YYYY-MM-DD\<close>, alone or with a separator and \<open>HH:MM:SS[.f][+HH:MM]\<close>, which is what
  the grader and the API write, and every text that is too short or does not start with a digit;
  the other ISO 8601 forms are outside the model.
\<close>

definition replace_Z :: "string \<Rightarrow> string" where
  "replace_Z s = concat (map (\<lambda>c. if c = CHR ''Z'' then ''+00:00'' else [c]) s)"

definition two_digits :: "nat \<Rightarrow> string \<Rightarrow> nat option" where
  "two_digits i s =
     (if i + 2 \<le> length s \<and> is_digit (s ! i) \<and> is_digit (s ! (i + 1))
      then Some (10 * digit_val (s ! i) + digit_val (s ! (i + 1))) else None)"

definition days_in_month :: "nat \<Rightarrow> nat \<Rightarrow> nat" where
  "days_in_month y m =
     (if m = 2 then (if y mod 4 = 0 \<and> (y mod 100 \<noteq> 0 \<or> y mod 400 = 0) then 29 else 28)
      else if m \<in> {4, 6, 9, 11} then 30 else 31)"

definition valid_date :: "string \<Rightarrow> bool" where
  "valid_date s =
     (case (two_digits 0 s, two_digits 2 s, two_digits 5 s, two_digits 8 s) of
        (Some c, Some y, Some m, Some d) \<Rightarrow>
          1 \<le> 100 * c + y \<and> 1 \<le> m \<and> m \<le> 12 \<and> 1 \<le> d \<and> d \<le> days_in_month (100 * c + y) m
      | _ \<Rightarrow> False)"

definition valid_clock :: "nat \<Rightarrow> string \<Rightarrow> bool" where
  "valid_clock i s =
     (case (two_digits i s, two_digits (i + 3) s, two_digits (i + 6) s) of
        (Some h, Some m, Some sec) \<Rightarrow> h < 24 \<and> m < 60 \<and> sec < 60
      | _ \<Rightarrow> False)"

text \<open>What follows the seconds: nothing, a fraction, an offset \<open>+HH:MM\<close>, or both.\<close>

definition offset_form :: "string \<Rightarrow> bool" where
  "offset_form t \<longleftrightarrow> length t = 6 \<and> (t ! 0 = CHR ''+'' \<or> t ! 0 = CHR ''-'') \<and> t ! 3 = CHR '':''"

definition valid_offset :: "string \<Rightarrow> bool" where
  "valid_offset t =
     (case (two_digits 1 t, two_digits 4 t) of
        (Some h, Some m) \<Rightarrow> h < 24 \<and> m < 60
      | _ \<Rightarrow> False)"

definition clock_tail :: "string \<Rightarrow> bool py" where
  "clock_tail t =
     (let t' = (if starts_with ''.'' t then dropWhile is_digit (tl t) else t)
      in if starts_with ''.'' t \<and> tl t = t' then Inl OutOfModel
         else if t' = [] then Inr True
         else if offset_form t' then Inr (valid_offset t')
         else Inl OutOfModel)"

definition parses_as_timestamp :: "string \<Rightarrow> bool py" where
  "parses_as_timestamp text =
     (let s = replace_Z (strip text)
      in if length s < 7 \<or> \<not> is_digit (s ! 0) then Inr False
         else if length s < 10 \<or> s ! 4 \<noteq> CHR ''-'' \<or> s ! 7 \<noteq> CHR ''-'' then Inl OutOfModel
         else if length s = 10 then Inr (valid_date s)
         else if length s < 19 \<or> s ! 13 \<noteq> CHR '':'' \<or> s ! 16 \<noteq> CHR '':'' then Inl OutOfModel
         else py_bind (clock_tail (drop 19 s)) (\<lambda>ok.
                Inr (ok \<and> valid_date s \<and> valid_clock 11 s)))"

subsection \<open>Rows and honesty blocks\<close>

definition requires_honesty :: "json \<Rightarrow> bool py" where
  "requires_honesty row =
     (case row of
        JObj r \<Rightarrow>
          (if jget ''family'' r \<noteq> JStr ''direction'' then Inr False
           else case jget ''breadth'' r of
                  JObj b \<Rightarrow> is_real (jget ''mean_daily_agreement'' b)
                | _ \<Rightarrow> Inr False)
      | _ \<Rightarrow> Inr False)"

definition row_name :: "(string \<times> json) list \<Rightarrow> string py" where
  "row_name r = py_str (py_or (jget ''predictor'' r) (JStr ''(unnamed row)''))"

text \<open>\<open>type(x).__name__\<close>.\<close>

fun type_name :: "json \<Rightarrow> string" where
  "type_name JNull = ''NoneType''"
| "type_name (JBool _) = ''bool''"
| "type_name (JInt _) = ''int''"
| "type_name (JFloat _) = ''float''"
| "type_name (JStr _) = ''str''"
| "type_name (JArr _) = ''list''"
| "type_name (JObj _) = ''dict''"

datatype honesty_fault =
    PublishableIs string
  | OneSidedIs string
  | ReasonIs string
  | EmptyRefusal
  | ResultIs string
  | ResultEmpty
  | SchemaVersionNotInt
  | StatusNotOneOf json
  | ReasonCodeNotOneOf json
  | ResolvabilityIs string
  | SupportedNotBool
  | CallsUpIs string

definition is_bool :: "json \<Rightarrow> bool" where "is_bool j = (case j of JBool _ \<Rightarrow> True | _ \<Rightarrow> False)"
definition is_int :: "json \<Rightarrow> bool" where "is_int j = (case j of JInt _ \<Rightarrow> True | _ \<Rightarrow> False)"

text \<open>\<open>x in frozenset(strings)\<close>: a list or a dict cannot be hashed.\<close>

fun in_frozenset :: "json \<Rightarrow> string list \<Rightarrow> bool py" where
  "in_frozenset (JArr _) ws = Inl TypeErr"
| "in_frozenset (JObj _) ws = Inl TypeErr"
| "in_frozenset (JStr s) ws = Inr (s \<in> set ws)"
| "in_frozenset _ ws = Inr False"

definition reason_faults :: "(string \<times> json) list \<Rightarrow> honesty_fault list" where
  "reason_faults h =
     (case jget ''reason'' h of
        JStr s \<Rightarrow> if jget ''publishable'' h = JBool False \<and> strip s = [] then [EmptyRefusal] else []
      | j \<Rightarrow> [ReasonIs (type_name j)])"

definition result_faults :: "json \<Rightarrow> honesty_fault list py" where
  "result_faults res =
     (case res of
        JObj [] \<Rightarrow> Inr [ResultEmpty]
      | JObj d \<Rightarrow>
          py_bind (in_frozenset (jget ''status'' d) RESULT_STATUSES) (\<lambda>status_ok.
          py_bind (in_frozenset (jget ''reason_code'' d) RESULT_REASON_CODES) (\<lambda>code_ok.
            Inr ((if is_int (jget ''schema_version'' d) then [] else [SchemaVersionNotInt])
              @ (if status_ok then [] else [StatusNotOneOf (jget ''status'' d)])
              @ (if code_ok then [] else [ReasonCodeNotOneOf (jget ''reason_code'' d)]))))
      | j \<Rightarrow> Inr [ResultIs (type_name j)])"

definition resolvability_faults :: "json \<Rightarrow> honesty_fault list" where
  "resolvability_faults resolv =
     (case resolv of
        JObj d \<Rightarrow> if is_bool (jget ''supported'' d) \<or> jget ''supported'' d = JNull then [] else [SupportedNotBool]
      | j \<Rightarrow> [ResolvabilityIs (type_name j)])"

definition calls_up_faults :: "json \<Rightarrow> honesty_fault list py" where
  "calls_up_faults cu =
     (if cu = JNull then Inr []
      else py_bind (is_real cu) (\<lambda>ok. Inr (if ok then [] else [CallsUpIs (type_name cu)])))"

definition honesty_faults :: "(string \<times> json) list \<Rightarrow> honesty_fault list py" where
  "honesty_faults h =
     py_bind (result_faults (jget ''result'' h)) (\<lambda>res_faults.
     py_bind (calls_up_faults (jget ''calls_up'' h)) (\<lambda>cu_faults.
       Inr ((if is_bool (jget ''publishable'' h) then [] else [PublishableIs (type_name (jget ''publishable'' h))])
          @ (if is_bool (jget ''one_sided'' h) then [] else [OneSidedIs (type_name (jget ''one_sided'' h))])
          @ reason_faults h @ res_faults @ resolvability_faults (jget ''resolvability'' h) @ cu_faults)))"

section \<open>The check\<close>

datatype gate_reason =
    AllComplete
  | NoRegistry
  | BareConstant string
  | NotJson
  | CannotRead
  | TopLevelIs string
  | NonFiniteAt string
  | NoGenerated
  | NotATimestamp string
  | RowsNotAList
  | NoRows
  | NotObjects "nat list"
  | MissingHonesty "string list"
  | WrongSource "string list"
  | IncompleteHonesty "string list"
  | MalformedHonesty "(string \<times> honesty_fault list) list"

datatype gate_outcome = PASS | INCOMPLETE | MALFORMED

record gate_result =
  go_outcome :: gate_outcome
  go_rows :: nat
  go_required :: nat
  go_checked :: nat
  go_reason :: gate_reason

definition malformed :: "gate_reason \<Rightarrow> gate_result" where
  "malformed why = \<lparr>go_outcome = MALFORMED, go_rows = 0, go_required = 0, go_checked = 0, go_reason = why\<rparr>"

definition incomplete :: "gate_reason \<Rightarrow> nat \<Rightarrow> gate_result" where
  "incomplete why rows =
     \<lparr>go_outcome = INCOMPLETE, go_rows = rows, go_required = 0, go_checked = 0, go_reason = why\<rparr>"

fun py_filter :: "('a \<Rightarrow> bool py) \<Rightarrow> 'a list \<Rightarrow> 'a list py" where
  "py_filter p [] = Inr []"
| "py_filter p (x # xs) =
     py_bind (p x) (\<lambda>b. py_bind (py_filter p xs) (\<lambda>ys. Inr (if b then x # ys else ys)))"

fun fields_of :: "json \<Rightarrow> (string \<times> json) list" where
  "fields_of (JObj d) = d"
| "fields_of _ = []"

fun is_obj :: "json \<Rightarrow> bool" where
  "is_obj (JObj _) = True"
| "is_obj _ = False"

definition honesty_of :: "json \<Rightarrow> json" where "honesty_of row = jget ''honesty'' (fields_of row)"

definition lacks_block :: "json \<Rightarrow> bool" where "lacks_block row \<longleftrightarrow> \<not> is_obj (honesty_of row)"

definition wrong_source :: "json \<Rightarrow> bool" where
  "wrong_source row \<longleftrightarrow> jget ''source'' (fields_of (honesty_of row)) \<noteq> JStr HONESTY_SOURCE"

definition lacks_key :: "json \<Rightarrow> bool" where
  "lacks_key row \<longleftrightarrow> \<not> set REQUIRED_HONESTY_KEYS \<subseteq> fst ` set (fields_of (honesty_of row))"

definition faults_of :: "json \<Rightarrow> (string \<times> honesty_fault list) py" where
  "faults_of row =
     py_bind (row_name (fields_of row)) (\<lambda>n.
     py_bind (honesty_faults (fields_of (honesty_of row))) (\<lambda>fs. Inr (n, fs)))"

definition found_short ::
  "nat \<Rightarrow> json list \<Rightarrow> json list \<Rightarrow> (string list \<Rightarrow> gate_reason) \<Rightarrow> gate_result py" where
  "found_short n_rows required faulty why =
     py_bind (py_map (\<lambda>r. row_name (fields_of r)) faulty) (\<lambda>names.
       Inr \<lparr>go_outcome = INCOMPLETE, go_rows = n_rows, go_required = length required,
            go_checked = length required - length faulty, go_reason = why names\<rparr>)"

definition verify_required :: "nat \<Rightarrow> json list \<Rightarrow> gate_result py" where
  "verify_required n_rows required =
     (if filter lacks_block required \<noteq> [] then
        found_short n_rows required (filter lacks_block required) MissingHonesty
      else if filter wrong_source required \<noteq> [] then
        found_short n_rows required (filter wrong_source required) WrongSource
      else if filter lacks_key required \<noteq> [] then
        found_short n_rows required (filter lacks_key required) IncompleteHonesty
      else
        py_bind (py_map faults_of required) (\<lambda>all.
        let mistyped = filter (\<lambda>nf. snd nf \<noteq> []) all
        in Inr \<lparr>go_outcome = (if mistyped \<noteq> [] then INCOMPLETE else PASS),
                go_rows = n_rows, go_required = length required,
                go_checked = length required - length mistyped,
                go_reason = (if mistyped \<noteq> [] then MalformedHonesty mistyped else AllComplete)\<rparr>))"

definition verify_rows :: "json \<Rightarrow> gate_result py" where
  "verify_rows rows =
     (case rows of
        JArr rs \<Rightarrow>
          (if rs = [] then Inr (incomplete NoRows 0)
           else if \<not> list_all is_obj rs then
             Inr (incomplete (NotObjects (filter (\<lambda>i. \<not> is_obj (rs ! i)) [0..<length rs])) (length rs))
           else py_bind (py_filter requires_honesty rs) (verify_required (length rs)))
      | _ \<Rightarrow> Inr (incomplete RowsNotAList 0))"

definition verify_document :: "json \<Rightarrow> gate_result py" where
  "verify_document doc =
     (case doc of
        JObj data \<Rightarrow>
          (case first_non_finite doc ''$'' of
             Some path \<Rightarrow> Inr (malformed (NonFiniteAt path))
           | None \<Rightarrow>
               (case jget ''generated'' data of
                  JStr g \<Rightarrow>
                    (if strip g = [] then Inr (incomplete NoGenerated 0)
                     else py_bind (parses_as_timestamp g) (\<lambda>ok.
                       if ok then verify_rows (jget ''rows'' data)
                       else Inr (incomplete (NotATimestamp g) 0)))
                | _ \<Rightarrow> Inr (incomplete NoGenerated 0)))
      | _ \<Rightarrow> Inr (malformed (TopLevelIs (type_name doc))))"

definition verify :: "gate_file \<Rightarrow> gate_result py" where
  "verify f =
     (case f of
        GateMissing \<Rightarrow> Inr (malformed NoRegistry)
      | GateUnreadable \<Rightarrow> Inr (malformed CannotRead)
      | GateText (Some token) _ \<Rightarrow> Inr (malformed (BareConstant token))
      | GateText None None \<Rightarrow> Inr (malformed NotJson)
      | GateText None (Some doc) \<Rightarrow> verify_document doc)"

text \<open>The exit status of the command; an escaped exception ends the interpreter with 1.\<close>

definition gate_status :: "gate_result py \<Rightarrow> int" where
  "gate_status out = (case out of Inl _ \<Rightarrow> 1 | Inr r \<Rightarrow> if go_outcome r = PASS then 0 else 1)"

section \<open>What the producer writes is well-formed\<close>

lemma judged_cases:
  assumes "row_verdict acc null_acc agreement calls = Inr (Some v)"
  obtains p one why where "v = honesty_dict p one why" "p \<or> strip why \<noteq> []"
proof -
  have "strip (CHR ''a'' # s) \<noteq> []" for s by (simp add: strip_nonempty is_ws_def)
  with assms that show ?thesis
    by (auto simp: row_verdict_def judge_numbers_def one_sided_reason_def py_bind_Inr split: if_splits)
qed

lemma block_fields:
  "fields_of (honesty_block (honesty_dict p one why) res record calls) = honesty_dict p one why @
    [(''resolvability'', JObj res), (''result'', JObj record), (''calls_up'', calls_json calls),
     (''source'', JStr HONESTY_SOURCE)]"
  by (simp add: honesty_block_def honesty_dict_def)

lemma honesty_dict_get [simp]:
  "jget ''publishable'' (honesty_dict p one why @ d) = JBool p"
  "jget ''one_sided'' (honesty_dict p one why @ d) = JBool one"
  "jget ''reason'' (honesty_dict p one why @ d) = JStr why"
  "k \<noteq> ''publishable'' \<Longrightarrow> k \<noteq> ''one_sided'' \<Longrightarrow> k \<noteq> ''reason'' \<Longrightarrow>
     jget k (honesty_dict p one why @ d) = jget k d"
  "fst ` set (honesty_dict p one why) = {''publishable'', ''one_sided'', ''reason''}"
  by (auto simp: honesty_dict_def)

lemma result_no_faults: "build row reg commit = Inr d \<Longrightarrow> result_faults (JObj d) = Inr []"
  using build_shape [of row reg commit d]
  by (cases d) (auto simp: result_faults_def is_int_def RESULT_STATUSES_def RESULT_REASON_CODES_def
      RECORD_STATUSES_def REASON_CODES_def)

lemma resolvability_no_faults:
  "verdict_supported_by_intervals acc acc_ci null_acc null_ci = Inr res \<Longrightarrow>
   resolvability_faults (JObj res) = []"
  by (erule supported_cases) (simp_all add: resolvability_faults_def is_bool_def)

lemma calls_up_no_faults: "calls_up_faults (calls_json calls) = Inr []"
  by (simp add: calls_up_faults_def calls_json_def split: option.splits)

lemma block_faultless:
  assumes "row_verdict acc null_acc agreement calls = Inr (Some v)"
    and "verdict_supported_by_intervals acc' acc_ci null_acc' null_ci = Inr res"
    and "build row reg commit = Inr record"
  shows "honesty_faults (fields_of (honesty_block v res record calls)) = Inr []
    \<and> \<not> wrong_source (JObj [(''honesty'', honesty_block v res record calls)])
    \<and> \<not> lacks_key (JObj [(''honesty'', honesty_block v res record calls)])"
proof -
  from assms(1) obtain p one why where v: "v = honesty_dict p one why" "p \<or> strip why \<noteq> []"
    by (rule judged_cases)
  then show ?thesis
    using result_no_faults [OF assms(3)] resolvability_no_faults [OF assms(2)]
    by (auto simp: v(1) honesty_faults_def wrong_source_def lacks_key_def honesty_of_def block_fields
        is_bool_def reason_faults_def calls_up_no_faults REQUIRED_HONESTY_KEYS_def image_Un)
qed

text \<open>
  C16. The honesty block the checker writes has no shape fault, whatever it concludes: every value
  has the kind the gate asks for, the typed record carries a known status and reason code, and a
  refusal says why.
\<close>

theorem written_blocks_are_well_typed:
  assumes "row_verdict acc null_acc agreement calls = Inr (Some v)"
    and "verdict_supported_by_intervals acc' acc_ci null_acc' null_ci = Inr res"
    and "build row reg commit = Inr typed"
  shows "honesty_faults (fields_of (honesty_block v res typed calls)) = Inr []
    \<and> \<not> wrong_source (JObj [(''honesty'', honesty_block v res typed calls)])
    \<and> \<not> lacks_key (JObj [(''honesty'', honesty_block v res typed calls)])"
  using assms by (rule block_faultless)

section \<open>A completed merge passes the gate\<close>

text \<open>
  What the gate and the checker assume of a graded registry: an interval is no text, and a row
  that carries a daily agreement was graded against a null.
\<close>

fun plain_interval :: "json \<Rightarrow> bool" where
  "plain_interval (JArr xs) = list_all (\<lambda>x. case x of JStr _ \<Rightarrow> False | _ \<Rightarrow> True) xs"
| "plain_interval (JStr _) = False"
| "plain_interval _ = True"

definition gradable_row :: "json \<Rightarrow> bool" where
  "gradable_row j =
     (plain_interval (jget ''ci'' (fields_of j)) \<and> plain_interval (jget ''null_ci'' (fields_of j))
      \<and> (case requires_honesty j of
            Inl _ \<Rightarrow> False
          | Inr b \<Rightarrow> b \<longrightarrow> jget ''live_acc'' (fields_of j) \<noteq> JNull \<and> jget ''null_acc'' (fields_of j) \<noteq> JNull))"

lemma interval_end_finite:
  assumes "interval_end ci k = Inr f" "plain_interval ci" "finite_json ci"
  shows "\<exists>x. f = Fin x"
proof -
  from assms(1) obtain j where j: "py_item ci k = Inr j" "py_float j = Inr f"
    by (auto simp: interval_end_def py_bind_Inr)
  from j(1) assms(2) obtain xs where ci: "ci = JArr xs" "k < length xs" "j = xs ! k"
    by (cases ci) (auto split: if_splits)
  then have "finite_json j" "\<forall>s. j \<noteq> JStr s"
    using assms(2,3) by (auto simp: list_all_length split: json.splits)
  with j(2) show ?thesis by (cases j) (auto split: pyfloat.splits)
qed

lemma resolvability_finite:
  assumes "verdict_supported_by_intervals acc acc_ci null_acc null_ci = Inr res"
    and "plain_interval acc_ci" "plain_interval null_ci" "finite_json acc_ci" "finite_json null_ci"
  shows "finite_json (JObj res)"
  using assms(1)
proof (cases rule: supported_cases)
  case (3 reason a_lo a_hi n_lo n_hi)
  then obtain w x y z where "a_lo = Fin w" "a_hi = Fin x" "n_lo = Fin y" "n_hi = Fin z"
    using assms interval_end_finite by metis
  with 3 show ?thesis by (simp add: supported_dict_def)
qed (simp_all add: supported_dict_def)

lemma block_finite:
  assumes "row_verdict acc null_acc agreement calls = Inr (Some v)"
    and "finite_json (JObj res)" "finite_json (JObj rec)"
  shows "finite_json (honesty_block v res rec calls)"
proof -
  from assms(1) obtain p one why where "v = honesty_dict p one why" by (rule judged_cases)
  with assms(2,3) show ?thesis
    by (simp add: honesty_block_def honesty_dict_def calls_json_def split: option.splits)
qed

lemma requires_after_merge [simp]:
  "requires_honesty (JObj (jset ''honesty'' b row)) = requires_honesty (JObj row)"
  by (simp add: requires_honesty_def)

lemma honest_row_cases:
  assumes "honest_row True ups commit reg row st = Inr (row', st')"
  shows "(jget ''family'' row \<noteq> JStr ''direction'' \<and> row' = row)
    \<or> (\<exists>agreement. breadth_agreement row = Inr agreement \<and> row' = row
      \<and> \<not> (jget ''live_acc'' row \<noteq> JNull \<and> jget ''null_acc'' row \<noteq> JNull \<and> agreement \<noteq> JNull))
    \<or> (\<exists>agreement v horizon res typed. row_horizon row = Inr horizon
      \<and> row_verdict (jget ''live_acc'' row) (jget ''null_acc'' row) agreement (map_of ups horizon) = Inr (Some v)
      \<and> verdict_supported_by_intervals (jget ''live_acc'' row) (jget ''ci'' row)
         (jget ''null_acc'' row) (jget ''null_ci'' row) = Inr res
      \<and> build row reg commit = Inr typed
      \<and> row' = jset ''honesty'' (honesty_block v res typed (map_of ups horizon)) row)"
proof (cases "jget ''family'' row = JStr ''direction''")
  case True
  from honest_row_steps [OF assms True] obtain agreement horizon v res
    where A: "breadth_agreement row = Inr agreement" "row_horizon row = Inr horizon"
      "row_verdict (jget ''live_acc'' row) (jget ''null_acc'' row) agreement (map_of ups horizon) = Inr v"
      "verdict_supported_by_intervals (jget ''live_acc'' row) (jget ''ci'' row)
         (jget ''null_acc'' row) (jget ''null_ci'' row) = Inr res"
    and F: "finish_row True commit reg row (note_unsupported res st) (map_of ups horizon) res v
      = Inr (row', st')"
    by (elim exE conjE)
  show ?thesis
  proof (cases v)
    case None
    with A(3) have "jget ''live_acc'' row = JNull \<or> jget ''null_acc'' row = JNull \<or> agreement = JNull"
      by (simp only: unjudged_verdict)
    moreover have "row' = row" using F None by (simp add: finish_row_def)
    ultimately show ?thesis using A(1) by blast
  next
    case (Some w)
    then obtain typed where "build row reg commit = Inr typed"
      "row' = jset ''honesty'' (honesty_block w res typed (map_of ups horizon)) row"
      using F by (auto simp: finish_row_def py_bind_Inr)
    then show ?thesis using A(2) A(3) [unfolded Some] A(4) by blast
  qed
next
  case False
  with assms show ?thesis by (simp add: honest_row_def)
qed

lemma judged_name:
  assumes "row_horizon row = Inr h" and "build row reg commit = Inr typed"
  shows "\<exists>n. row_name row = Inr n"
proof -
  from assms(1) obtain name w where p: "map_of row ''predictor'' = Some name" and c: "py_contains ''1w'' name = Inr w"
    by (auto simp: row_horizon_def py_bind_Inr split: option.splits)
  then have get: "jget ''predictor'' row = name" by (simp add: jget_or_def)
  have "name \<noteq> JNull" using c by auto
  moreover obtain est where "estimand row = Inr est"
    using assms(2) by (auto simp: build_def py_bind_Inr)
  ultimately have "\<exists>s. py_str name = Inr s" by (auto simp: estimand_def get py_bind_Inr)
  with c show ?thesis by (cases name) (auto simp: row_name_def get py_or_def)
qed

text \<open>A requiring row that has been judged carries a faultless block.\<close>

definition complete_row :: "json \<Rightarrow> bool" where
  "complete_row j \<longleftrightarrow> \<not> lacks_block j \<and> \<not> wrong_source j \<and> \<not> lacks_key j
     \<and> (\<exists>n. faults_of j = Inr (n, []))"

lemma judged_row_complete:
  assumes "row_horizon row = Inr h" and "row_verdict acc null_acc agreement calls = Inr (Some v)"
    and "verdict_supported_by_intervals acc' acc_ci null_acc' null_ci = Inr res"
    and "build row reg commit = Inr typed"
  shows "complete_row (JObj (jset ''honesty'' (honesty_block v res typed calls) row))"
proof -
  from judged_name [OF assms(1,4)] obtain n where n: "row_name row = Inr n" ..
  have "row_name (jset ''honesty'' b row) = row_name row" for b by (simp add: row_name_def)
  moreover have "\<exists>d. honesty_block v res typed calls = JObj d" by (simp add: honesty_block_def)
  moreover have "wrong_source (JObj (jset ''honesty'' b row)) = wrong_source (JObj [(''honesty'', b)])"
    "lacks_key (JObj (jset ''honesty'' b row)) = lacks_key (JObj [(''honesty'', b)])" for b
    by (simp_all add: wrong_source_def lacks_key_def honesty_of_def)
  ultimately show ?thesis
    using block_faultless [OF assms(2-4)] n
    by (auto simp: complete_row_def lacks_block_def honesty_of_def faults_of_def)
qed

lemma merged_row:
  assumes "honest_row True ups commit reg row st = Inr (row', st')"
    and "gradable_row (JObj row)"
    and "finite_json (JObj row)" "finite_json (JObj reg)" "finite_json commit"
  shows "finite_json (JObj row') \<and> requires_honesty (JObj row') = requires_honesty (JObj row)
    \<and> (requires_honesty (JObj row) = Inr True \<longrightarrow> complete_row (JObj row'))"
  using honest_row_cases [OF assms(1)]
proof (elim disjE exE conjE)
  assume "jget ''family'' row \<noteq> JStr ''direction''" "row' = row"
  then show ?thesis using assms(3) by (simp add: requires_honesty_def)
next
  fix agreement
  assume b: "breadth_agreement row = Inr agreement" and row': "row' = row"
    and none: "\<not> (jget ''live_acc'' row \<noteq> JNull \<and> jget ''null_acc'' row \<noteq> JNull \<and> agreement \<noteq> JNull)"
  have "requires_honesty (JObj row) \<noteq> Inr True"
  proof
    assume req: "requires_honesty (JObj row) = Inr True"
    then obtain d where d: "jget ''breadth'' row = JObj d" "is_real (jget ''mean_daily_agreement'' d) = Inr True"
      by (auto simp: requires_honesty_def split: if_splits json.splits)
    then have "agreement = jget ''mean_daily_agreement'' d"
      using b by (cases d) (auto simp: breadth_agreement_def py_or_def)
    with d(2) have "agreement \<noteq> JNull" by auto
    with none req assms(2) show False by (auto simp: gradable_row_def)
  qed
  with row' assms(3) show ?thesis by simp
next
  fix agreement v horizon res typed
  assume h: "row_horizon row = Inr horizon"
    and v: "row_verdict (jget ''live_acc'' row) (jget ''null_acc'' row) agreement (map_of ups horizon) = Inr (Some v)"
    and r: "verdict_supported_by_intervals (jget ''live_acc'' row) (jget ''ci'' row)
         (jget ''null_acc'' row) (jget ''null_ci'' row) = Inr res"
    and t: "build row reg commit = Inr typed"
    and row': "row' = jset ''honesty'' (honesty_block v res typed (map_of ups horizon)) row"
  have "finite_json (JObj res)"
    using r assms(2) finite_jget [OF assms(3)]
    by (intro resolvability_finite [OF r]) (simp_all add: gradable_row_def)
  moreover have "finite_json (JObj typed)" by (rule build_finite [OF t assms(3-5)])
  ultimately have "finite_json (honesty_block v res typed (map_of ups horizon))"
    by (rule block_finite [OF v])
  then have "finite_json (JObj row')" unfolding row' by (rule finite_jset [OF assms(3)])
  moreover have "complete_row (JObj row')" unfolding row' by (rule judged_row_complete [OF h v r t])
  ultimately show ?thesis by (simp add: row')
qed

lemma merged_rows:
  assumes "honest_rows True ups commit reg rows st = Inr (rows', st')"
    and "\<forall>r \<in> set rows. gradable_row r \<and> finite_json r" "finite_json (JObj reg)" "finite_json commit"
  shows "length rows' = length rows \<and> list_all is_obj rows' \<and> list_all finite_json rows'
    \<and> map requires_honesty rows' = map requires_honesty rows
    \<and> (\<forall>r \<in> set rows'. requires_honesty r = Inr True \<longrightarrow> complete_row r)"
  using assms(1,2)
proof (induction rows arbitrary: st rows' st')
  case (Cons r rest)
  then obtain row where r: "r = JObj row" by (cases r) simp_all
  with Cons.prems(1) obtain row1 st1 rest1 st2
    where one: "honest_row True ups commit reg row st = Inr (row1, st1)"
      and more: "honest_rows True ups commit reg rest st1 = Inr (rest1, st2)"
      and out: "rows' = JObj row1 # rest1"
    by (auto simp: py_bind_Inr)
  have "finite_json (JObj row1) \<and> requires_honesty (JObj row1) = requires_honesty (JObj row)
    \<and> (requires_honesty (JObj row) = Inr True \<longrightarrow> complete_row (JObj row1))"
    using Cons.prems(2) assms(3,4) r by (intro merged_row [OF one]) simp_all
  then show ?case using Cons.IH [OF more] Cons.prems(2) by (auto simp: out r)
qed simp

lemma py_filter_total:
  "(\<And>x. x \<in> set xs \<Longrightarrow> \<exists>b. p x = Inr b) \<Longrightarrow> py_filter p xs = Inr (filter (\<lambda>x. p x = Inr True) xs)"
proof (induction xs)
  case (Cons x xs)
  then obtain b where "p x = Inr b" by auto
  with Cons show ?case by (cases b) simp_all
qed simp

lemma faultless_all:
  "\<forall>r \<in> set rs. complete_row r \<Longrightarrow> \<exists>all. py_map faults_of rs = Inr all \<and> filter (\<lambda>nf. snd nf \<noteq> []) all = []"
  by (induction rs) (fastforce simp: complete_row_def)+

lemma complete_rows_pass:
  assumes "\<forall>r \<in> set rs. complete_row r"
  shows "verify_required n rs = Inr \<lparr>go_outcome = PASS, go_rows = n, go_required = length rs,
    go_checked = length rs, go_reason = AllComplete\<rparr>"
proof -
  have "filter lacks_block rs = []" "filter wrong_source rs = []" "filter lacks_key rs = []"
    using assms by (auto simp: filter_empty_conv complete_row_def)
  with faultless_all [OF assms] show ?thesis by (auto simp: verify_required_def Let_def)
qed

lemma gradable_Inr: "gradable_row r \<Longrightarrow> \<exists>b. requires_honesty r = Inr b"
  by (cases "requires_honesty r") (auto simp: gradable_row_def)

lemma no_non_finite:
  "finite_json j \<Longrightarrow> first_non_finite j path = None"
  "list_all (\<lambda>kv. finite_json (snd kv)) d \<Longrightarrow> first_in_dict d path = None"
  "list_all finite_json xs \<Longrightarrow> first_in_list i xs path = None"
  by (induction j path and d path and i xs path rule: first_non_finite_first_in_dict_first_in_list.induct)
    simp_all

lemma verify_after_merge:
  assumes run: "honesty_main True db commit (JObj reg) = Inr (doc', st)"
    and rows: "map_of reg ''rows'' = Some (JArr rs)" "rs \<noteq> []" "\<forall>r \<in> set rs. gradable_row r"
    and fin: "finite_json (JObj reg)" "finite_json commit"
    and dated: "jget ''generated'' reg = JStr g" "strip g \<noteq> []" "parses_as_timestamp g = Inr True"
  shows "\<exists>k. verify (GateText None (Some doc')) = Inr \<lparr>go_outcome = PASS, go_rows = length rs,
    go_required = k, go_checked = k, go_reason = AllComplete\<rparr>
    \<and> k = length (filter (\<lambda>r. requires_honesty r = Inr True) rs)"
proof -
  have get: "jget_or d ''rows'' reg = JArr rs" for d using rows(1) by (simp add: jget_or_def)
  from run obtain rs' where m: "honest_rows True (calls_up_by_horizon db) commit reg rs
      \<lparr>hr_refused = 0, hr_merged = 0, hr_unsupported = 0\<rparr> = Inr (rs', st)"
    and doc: "doc' = JObj (jset ''rows'' (JArr rs') reg)"
    by (auto simp: honesty_main_def rows_to_judge_def get put_rows_def rows(1) py_bind_Inr)
  have finrs: "\<forall>r \<in> set rs. finite_json r"
    using finite_jget [OF fin(1), of "''rows''"] by (simp add: get list_all_iff)
  have M: "length rs' = length rs" "list_all is_obj rs'" "list_all finite_json rs'"
    "map requires_honesty rs' = map requires_honesty rs"
    "\<forall>r \<in> set rs'. requires_honesty r = Inr True \<longrightarrow> complete_row r"
    using merged_rows [OF m _ fin] rows(3) finrs by blast+
  have "\<exists>b. requires_honesty r = Inr b" if "r \<in> set rs'" for r
  proof -
    have "requires_honesty r \<in> requires_honesty ` set rs"
      using that M(4) by (metis imageI list.set_map)
    then show ?thesis using rows(3) gradable_Inr by fastforce
  qed
  then have req: "py_filter requires_honesty rs' = Inr (filter (\<lambda>r. requires_honesty r = Inr True) rs')"
    by (rule py_filter_total)
  have len: "length (filter (\<lambda>r. requires_honesty r = Inr True) rs')
      = length (filter (\<lambda>r. requires_honesty r = Inr True) rs)"
    using arg_cong [OF M(4), of "\<lambda>bs. length (filter (\<lambda>b. b = Inr True) bs)"]
    by (simp add: filter_map comp_def)
  have "finite_json doc'" using finite_jset [OF fin(1), of "JArr rs'" "''rows''"] M(3) by (simp add: doc)
  then have nf: "first_non_finite doc' ''$'' = None" by (rule no_non_finite(1))
  have "rs' \<noteq> []" using M(1) rows(2) by auto
  have pass: "verify_required (length rs') (filter (\<lambda>r. requires_honesty r = Inr True) rs') =
      Inr \<lparr>go_outcome = PASS, go_rows = length rs', go_required = length (filter (\<lambda>r. requires_honesty r = Inr True) rs'),
        go_checked = length (filter (\<lambda>r. requires_honesty r = Inr True) rs'), go_reason = AllComplete\<rparr>"
    using M(5) by (intro complete_rows_pass) simp
  show ?thesis
    using nf dated M(1,2) \<open>rs' \<noteq> []\<close> req pass len
    by (simp add: doc verify_def verify_document_def verify_rows_def)
qed

text \<open>
  C15. The gate accepts what the checker completes: on a dated registry of graded rows, a merge that
  runs to its end leaves a document the gate passes, with every row that requires an honesty block
  checked. Nothing but an unfinished merge can stop such a registry.
\<close>

theorem merged_registry_passes:
  assumes run: "honesty_main True db commit (JObj reg) = Inr (doc', st)"
    and rows: "map_of reg ''rows'' = Some (JArr rs)" "rs \<noteq> []" "\<forall>r \<in> set rs. gradable_row r"
    and fin: "finite_json (JObj reg)" "finite_json commit"
    and dated: "jget ''generated'' reg = JStr g" "strip g \<noteq> []" "parses_as_timestamp g = Inr True"
  shows "\<exists>k. verify (GateText None (Some doc')) = Inr \<lparr>go_outcome = PASS, go_rows = length rs,
    go_required = k, go_checked = k, go_reason = AllComplete\<rparr>
    \<and> k = length (filter (\<lambda>r. requires_honesty r = Inr True) rs)"
  using assms by (rule verify_after_merge)

lemma sample_gradable: "gradable_row (JObj sample_claim)" "finite_json (JObj sample_registry)"
  "parses_as_timestamp ''2026-09-13T12:00:00'' = Inr True" "requires_honesty (JObj sample_claim) = Inr True"
  by code_simp+

lemma sample_registry_get:
  "map_of sample_registry ''rows'' = Some (JArr [JObj sample_claim])"
  "jget ''generated'' sample_registry = JStr ''2026-09-13T12:00:00''"
  "strip ''2026-09-13T12:00:00'' \<noteq> []"
  by (simp_all add: sample_registry_def strip_def is_ws_def)

theorem merged_registry_passes_witness:
  "\<exists>doc st r. honesty_main True None JNull (JObj sample_registry) = Inr (doc, st)
     \<and> verify (GateText None (Some doc)) = Inr r \<and> go_outcome r = PASS \<and> go_checked r = 1"
proof -
  obtain doc st where run: "honesty_main True None JNull (JObj sample_registry) = Inr (doc, st)"
    using sample_merges by blast
  then show ?thesis
    using merged_registry_passes [OF run sample_registry_get(1) _ _ _ _ sample_registry_get(2,3)]
      sample_gradable by auto
qed

theorem written_blocks_are_well_typed_witness:
  "\<exists>v res typed. honesty_faults (fields_of (honesty_block v res typed None)) = Inr []"
proof -
  obtain d where "build sample_claim sample_registry JNull = Inr d" using sample_builds by blast
  with written_blocks_are_well_typed [OF sample_steps(4,5)] show ?thesis by blast
qed

section \<open>What passing means\<close>

lemma finite_of_scan:
  "first_non_finite j path = None \<Longrightarrow> finite_json j"
  "first_in_dict d path = None \<Longrightarrow> list_all (\<lambda>kv. finite_json (snd kv)) d"
  "first_in_list i xs path = None \<Longrightarrow> list_all finite_json xs"
  by (induction j path and d path and i xs path rule: first_non_finite_first_in_dict_first_in_list.induct)
    (auto split: option.splits)

lemma scan_iff: "first_non_finite j path = None \<longleftrightarrow> finite_json j"
  using finite_of_scan(1) no_non_finite(1) by blast

lemma py_filter_Inr:
  "py_filter p xs = Inr ys \<Longrightarrow> (\<forall>x \<in> set xs. \<exists>b. p x = Inr b) \<and> ys = filter (\<lambda>x. p x = Inr True) xs"
proof (induction xs arbitrary: ys)
  case (Cons x xs)
  then show ?case by (fastforce simp: py_bind_Inr)
qed simp

lemma py_map_mem: "py_map f xs = Inr ys \<Longrightarrow> x \<in> set xs \<Longrightarrow> \<exists>y \<in> set ys. f x = Inr y"
  by (induction xs arbitrary: ys) (auto simp: py_bind_Inr)

lemma passing_rows_complete:
  assumes "verify_required n rs = Inr r" and "go_outcome r = PASS"
  shows "\<forall>j \<in> set rs. complete_row j"
proof
  fix j assume j: "j \<in> set rs"
  have none: "filter lacks_block rs = []" "filter wrong_source rs = []" "filter lacks_key rs = []"
    using assms by (auto simp: verify_required_def found_short_def py_bind_Inr split: if_splits)
  with assms obtain all where all: "py_map faults_of rs = Inr all" "filter (\<lambda>nf. snd nf \<noteq> []) all = []"
    by (auto simp: verify_required_def py_bind_Inr Let_def split: if_splits)
  from py_map_mem [OF all(1) j] obtain n' fs where "faults_of j = Inr (n', fs)" "(n', fs) \<in> set all"
    by auto
  moreover from this all(2) have "fs = []" by (force simp: filter_empty_conv)
  ultimately show "complete_row j"
    using none j by (auto simp: complete_row_def filter_empty_conv)
qed

text \<open>
  A pass is exactly a complete registry: the document is an object of finite numbers, it is
  dated, its rows are a non-empty list of objects, and every row whose agreement could be judged
  carries a block from the checker with every key, of the right kinds.
\<close>

theorem gate_passes_iff_complete:
  "(\<exists>r. verify f = Inr r \<and> go_outcome r = PASS) \<longleftrightarrow>
   (\<exists>reg g rs. f = GateText None (Some (JObj reg)) \<and> finite_json (JObj reg)
     \<and> jget ''generated'' reg = JStr g \<and> strip g \<noteq> [] \<and> parses_as_timestamp g = Inr True
     \<and> jget ''rows'' reg = JArr rs \<and> rs \<noteq> [] \<and> list_all is_obj rs
     \<and> (\<forall>j \<in> set rs. \<exists>b. requires_honesty j = Inr b \<and> (b \<longrightarrow> complete_row j)))"
  (is "?pass \<longleftrightarrow> ?complete")
proof
  assume ?pass
  then obtain r where r: "verify f = Inr r" "go_outcome r = PASS" by blast
  then obtain doc where f: "f = GateText None (Some doc)" and d: "verify_document doc = Inr r"
    by (auto simp: verify_def malformed_def split: gate_file.splits option.splits)
  then obtain reg g where doc: "doc = JObj reg" "first_non_finite (JObj reg) ''$'' = None"
      "jget ''generated'' reg = JStr g" "strip g \<noteq> []" "parses_as_timestamp g = Inr True"
    and v: "verify_rows (jget ''rows'' reg) = Inr r"
    using r(2)
    by (auto simp: verify_document_def malformed_def incomplete_def py_bind_Inr
        split: json.splits option.splits if_splits)
  from v r(2) obtain rs req where rs: "jget ''rows'' reg = JArr rs" "rs \<noteq> []" "list_all is_obj rs"
    and req: "py_filter requires_honesty rs = Inr req" "verify_required (length rs) req = Inr r"
    by (auto simp: verify_rows_def incomplete_def py_bind_Inr split: json.splits if_splits)
  have "\<forall>j \<in> set req. complete_row j" using passing_rows_complete [OF req(2) r(2)] .
  with py_filter_Inr [OF req(1)]
  have "\<forall>j \<in> set rs. \<exists>b. requires_honesty j = Inr b \<and> (b \<longrightarrow> complete_row j)" by auto
  with f doc rs show ?complete unfolding scan_iff by blast
next
  assume ?complete
  then obtain reg g rs where f: "f = GateText None (Some (JObj reg))" "finite_json (JObj reg)"
      "jget ''generated'' reg = JStr g" "strip g \<noteq> []" "parses_as_timestamp g = Inr True"
      "jget ''rows'' reg = JArr rs" "rs \<noteq> []" "list_all is_obj rs"
    and all: "\<forall>j \<in> set rs. \<exists>b. requires_honesty j = Inr b \<and> (b \<longrightarrow> complete_row j)"
    by blast
  have req: "py_filter requires_honesty rs = Inr (filter (\<lambda>r. requires_honesty r = Inr True) rs)"
    using all by (intro py_filter_total) blast
  have "\<forall>j \<in> set (filter (\<lambda>r. requires_honesty r = Inr True) rs). complete_row j" using all by auto
  from complete_rows_pass [OF this] req f no_non_finite(1) [OF f(2)] show ?pass
    by (simp add: verify_def verify_document_def verify_rows_def)
qed

theorem gate_passes_iff_complete_witness:
  "\<exists>reg rs. \<not> isl (verify (GateText None (Some (JObj reg)))) \<and> jget ''rows'' reg = JArr rs \<and> rs \<noteq> []
     \<and> list_all (\<lambda>j. requires_honesty j = Inr True \<longrightarrow> complete_row j) rs"
proof -
  obtain doc st where run: "honesty_main True None JNull (JObj sample_registry) = Inr (doc, st)"
    using sample_merges by blast
  then have ok: "\<exists>r. verify (GateText None (Some doc)) = Inr r \<and> go_outcome r = PASS"
    using verify_after_merge [OF run sample_registry_get(1) _ _ _ _ sample_registry_get(2,3)]
      sample_gradable by auto
  then obtain reg rs where doc: "doc = JObj reg" "jget ''rows'' reg = JArr rs" "rs \<noteq> []"
    and all: "\<forall>j \<in> set rs. \<exists>b. requires_honesty j = Inr b \<and> (b \<longrightarrow> complete_row j)"
    unfolding gate_passes_iff_complete by blast
  have "list_all (\<lambda>j. requires_honesty j = Inr True \<longrightarrow> complete_row j) rs"
    using all by (auto simp: list_all_iff)
  moreover have "\<not> isl (verify (GateText None (Some (JObj reg))))" using ok doc(1) by auto
  ultimately show ?thesis using doc(2,3) by blast
qed

section \<open>What the gate reads and what it does not\<close>

text \<open>
  The gate reads no verdict: a row whose accuracy was refused and a row that was cleared, each
  with its reason, are told apart by nothing it looks at.
\<close>

theorem gate_reads_no_verdict:
  assumes "strip why \<noteq> []" and "strip why' \<noteq> []"
  shows "honesty_faults (jset ''publishable'' (JBool p) (jset ''one_sided'' (JBool o1) (jset ''reason'' (JStr why) h)))
    = honesty_faults (jset ''publishable'' (JBool p') (jset ''one_sided'' (JBool o2) (jset ''reason'' (JStr why') h)))"
  using assms by (simp add: honesty_faults_def reason_faults_def is_bool_def)

theorem gate_reads_no_verdict_witness:
  "honesty_faults (jset ''publishable'' (JBool False) (jset ''one_sided'' (JBool True) (jset ''reason'' (JStr ''x'') [])))
    = honesty_faults (jset ''publishable'' (JBool True) (jset ''one_sided'' (JBool False) (jset ''reason'' (JStr ''y'') [])))"
  by (rule gate_reads_no_verdict) (simp_all add: strip_def is_ws_def)

text \<open>A registry whose only row carries the status \<open>st\<close> and the daily agreement \<open>n\<close>.\<close>

definition odd_registry :: "json \<Rightarrow> int \<Rightarrow> gate_file" where
  "odd_registry st n = GateText None (Some (JObj
     [(''generated'', JStr ''2026-09-13T12:00:00''),
      (''rows'', JArr [JObj
        [(''predictor'', JStr ''p''), (''family'', JStr ''direction''),
         (''breadth'', JObj [(''mean_daily_agreement'', JInt n)]),
         (''honesty'', JObj
           [(''source'', JStr HONESTY_SOURCE), (''publishable'', JBool True), (''one_sided'', JBool True),
            (''reason'', JStr []), (''result'', JObj [(''status'', st)])])]])]))"

text \<open>A registry the gate reads as far as its rows.\<close>

definition reaches_rows :: "gate_file \<Rightarrow> json list \<Rightarrow> bool" where
  "reaches_rows f rs \<longleftrightarrow> rs \<noteq> [] \<and> list_all is_obj rs
     \<and> (\<exists>data g. f = GateText None (Some (JObj data)) \<and> first_non_finite (JObj data) ''$'' = None
          \<and> jget ''generated'' data = JStr g \<and> strip g \<noteq> [] \<and> parses_as_timestamp g = Inr True
          \<and> jget ''rows'' data = JArr rs)"

text \<open>A directional row whose daily agreement is an integer no float reaches.\<close>

definition beyond_float :: "json \<Rightarrow> bool" where
  "beyond_float row \<longleftrightarrow> (\<exists>r b n. row = JObj r \<and> jget ''family'' r = JStr ''direction''
     \<and> jget ''breadth'' r = JObj b \<and> jget ''mean_daily_agreement'' b = JInt n \<and> float_range \<le> \<bar>n\<bar>)"

definition has_whole_block :: "json \<Rightarrow> bool" where
  "has_whole_block row \<longleftrightarrow> \<not> lacks_block row \<and> \<not> wrong_source row \<and> \<not> lacks_key row"

text \<open>A result whose status or reason code is a list or an object.\<close>

definition unhashable_result :: "json \<Rightarrow> bool" where
  "unhashable_result row \<longleftrightarrow> (\<exists>d. jget ''result'' (fields_of (honesty_of row)) = JObj d
     \<and> (\<exists>k \<in> {''status'', ''reason_code''}. \<exists>v. jget k d = v \<and> type_name v \<in> {''list'', ''dict''}))"

lemma requires_honesty_Inl: "requires_honesty row = Inl e \<longleftrightarrow> beyond_float row \<and> e = OverflowErr"
proof -
  have "is_real v = Inl e \<longleftrightarrow> (\<exists>n. v = JInt n \<and> float_range \<le> \<bar>n\<bar>) \<and> e = OverflowErr" for v
    by (cases v rule: is_real.cases) auto
  then show ?thesis
    by (cases row) (auto simp: requires_honesty_def beyond_float_def split: json.splits)
qed

lemma py_filter_raises:
  assumes "\<And>x e'. p x = Inl e' \<Longrightarrow> e' = e" and "\<exists>x \<in> set xs. p x = Inl e"
  shows "py_filter p xs = Inl e"
  using assms(2)
proof (induction xs)
  case (Cons x xs)
  show ?case
  proof (cases "p x")
    case (Inl e')
    then show ?thesis using assms(1) [OF Inl] by simp
  next
    case (Inr b)
    then show ?thesis using Cons by simp
  qed
qed simp

lemma py_map_raises: "x \<in> set xs \<Longrightarrow> f x = Inl e \<Longrightarrow> \<exists>e'. py_map f xs = Inl e'"
proof (induction xs)
  case (Cons y ys)
  then show ?case by (cases "f y"; cases "py_map f ys") auto
qed simp

lemma unhashable_raises:
  assumes "unhashable_result row"
  shows "\<exists>e. faults_of row = Inl e"
proof -
  obtain d k where d: "jget ''result'' (fields_of (honesty_of row)) = JObj d" "k = ''status'' \<or> k = ''reason_code''"
    "type_name (jget k d) = ''list'' \<or> type_name (jget k d) = ''dict''"
    using assms by (auto simp: unhashable_result_def)
  have bad: "in_frozenset v ws = Inl TypeErr" if "type_name v = ''list'' \<or> type_name v = ''dict''" for v ws
    using that by (cases v) auto
  have "d \<noteq> []" using d(3) by (auto simp: jget_or_def)
  then have "result_faults (JObj d) = Inl TypeErr"
    using d(2,3) bad by (cases d; cases "in_frozenset (jget ''status'' d) RESULT_STATUSES")
      (auto simp: result_faults_def, (cases "jget ''status'' d"; auto)+)
  then show ?thesis
    by (cases "row_name (fields_of row)") (simp_all add: faults_of_def honesty_faults_def d(1))
qed

text \<open>
  C26. The gate answers some registries with an exception instead of a verdict, and publication is
  withheld all the same. Whatever else a registry that is read as far as its rows holds, one directional
  row whose daily agreement is an integer beyond the range of a float raises \<open>OverflowError\<close>; and
  where all rows that require a block have a whole one, a single status or reason code that is a list or
  an object raises.
\<close>

theorem verify_can_raise:
  assumes "reaches_rows f rs"
  shows "((\<exists>r \<in> set rs. beyond_float r) \<longrightarrow> verify f = Inl OverflowErr)
    \<and> ((\<forall>r \<in> set rs. requires_honesty r = Inr True \<longrightarrow> has_whole_block r)
         \<and> (\<exists>r \<in> set rs. requires_honesty r = Inr True \<and> unhashable_result r) \<longrightarrow> (\<exists>e. verify f = Inl e))
    \<and> ((\<exists>e. verify f = Inl e) \<longrightarrow> gate_status (verify f) = 1)"
proof -
  have v: "verify f = py_bind (py_filter requires_honesty rs) (verify_required (length rs))"
    using assms by (auto simp: reaches_rows_def verify_def verify_document_def verify_rows_def simp del: first_non_finite.simps)
  have "verify f = Inl OverflowErr" if "\<exists>r \<in> set rs. beyond_float r"
    using py_filter_raises [of requires_honesty OverflowErr rs] that v by (auto simp: requires_honesty_Inl)
  moreover have "\<exists>e. verify f = Inl e"
    if whole: "\<forall>r \<in> set rs. requires_honesty r = Inr True \<longrightarrow> has_whole_block r"
      and bad: "r \<in> set rs" "requires_honesty r = Inr True" "unhashable_result r" for r
  proof (cases "py_filter requires_honesty rs")
    case (Inr ys)
    then have ys: "ys = filter (\<lambda>x. requires_honesty x = Inr True) rs" by (rule py_filter_Inr [THEN conjunct2])
    have "\<forall>y \<in> set ys. has_whole_block y" using whole by (simp add: ys)
    then have "filter lacks_block ys = []" "filter wrong_source ys = []" "filter lacks_key ys = []"
      by (simp_all add: has_whole_block_def filter_empty_conv)
    moreover obtain e where "py_map faults_of ys = Inl e"
      using py_map_raises [of r ys faults_of] unhashable_raises [OF bad(3)] bad(1,2) by (auto simp: ys)
    ultimately show ?thesis by (simp add: v Inr verify_required_def)
  qed (simp add: v)
  ultimately show ?thesis by (auto simp: gate_status_def)
qed

theorem verify_can_raise_witness:
  "verify (odd_registry (JStr ''SUPPORTED'') (10 ^ 400)) = Inl OverflowErr
   \<and> (\<exists>e. verify (odd_registry (JArr []) 1) = Inl e) \<and> gate_status (verify (odd_registry (JArr []) 1)) = 1"
proof -
  let ?row = "\<lambda>st n. JObj
        [(''predictor'', JStr ''p''), (''family'', JStr ''direction''),
         (''breadth'', JObj [(''mean_daily_agreement'', JInt n)]),
         (''honesty'', JObj
           [(''source'', JStr HONESTY_SOURCE), (''publishable'', JBool True), (''one_sided'', JBool True),
            (''reason'', JStr []), (''result'', JObj [(''status'', st)])])]"
  have stamp: "parses_as_timestamp ''2026-09-13T12:00:00'' = Inr True" "strip ''2026-09-13T12:00:00'' \<noteq> []"
    by code_simp+
  have reach: "reaches_rows (odd_registry (JStr ''SUPPORTED'') n) [?row (JStr ''SUPPORTED'') n]"
    "reaches_rows (odd_registry (JArr []) n) [?row (JArr []) n]" for n
    by (simp_all add: reaches_rows_def odd_registry_def stamp)
  have "beyond_float (?row (JStr ''SUPPORTED'') (10 ^ 400))"
    unfolding beyond_float_def float_range_def by simp
  moreover have "requires_honesty (?row (JArr []) 1) = Inr True"
    by (simp add: requires_honesty_def) (simp add: float_range_def)
  moreover have "has_whole_block (?row (JArr []) 1)" "unhashable_result (?row (JArr []) 1)"
    by (simp_all add: has_whole_block_def lacks_block_def wrong_source_def lacks_key_def honesty_of_def
        REQUIRED_HONESTY_KEYS_def unhashable_result_def)
  ultimately show ?thesis
    using verify_can_raise [OF reach(1) [of "10 ^ 400"]] verify_can_raise [OF reach(2) [of 1]] by simp
qed

text \<open>
  A row with a daily agreement and no null accuracy is one the checker skips and the gate requires.
\<close>

definition ungraded_claim :: "(string \<times> json) list" where
  "ungraded_claim =
     [(''predictor'', JStr ''p''), (''family'', JStr ''direction''), (''live_acc'', JFloat (Fin 0.43)),
      (''null_acc'', JNull), (''breadth'', JObj [(''mean_daily_agreement'', JFloat (Fin 0.97))])]"

text \<open>
  The gate's condition does not mirror the checker's: a row that carries a daily agreement but no
  null accuracy is left without a block by a merge that ran to its end, and the gate then calls the
  merge unfinished.
\<close>

theorem gate_requires_what_the_checker_skips:
  "case honesty_main True None JNull (JObj [(''generated'', JStr ''2026-09-13T12:00:00''),
      (''rows'', JArr [JObj ungraded_claim])]) of
     Inl _ \<Rightarrow> False
   | Inr (doc, st) \<Rightarrow> hr_merged st = 0
       \<and> verify (GateText None (Some doc)) = Inr \<lparr>go_outcome = INCOMPLETE, go_rows = 1, go_required = 1,
            go_checked = 0, go_reason = MissingHonesty [''p'']\<rparr>"
  by code_simp

end
