(* ===== verification/Public_Record.thy ===== *)
theory Public_Record
  imports Publication_Gate Sha256
begin

text \<open>
  \<open>tools/verify_public_record.py\<close>: the program a reader runs on a clone of the public commitment
  log. Statements are parsed from their bytes, the hash chain is recomputed from the pages a site
  serves, forecasts are counted against the first external timestamp that covers them. What the
  program asks of others is a parameter: the certificates' fingerprints and the answers of
  \<open>openssl\<close>, the history \<open>git\<close> reports, and the pages of the site. A report line is its kind and
  a constructor that carries what the line says.
\<close>

section \<open>Report\<close>

datatype report_kind = KPass | KFail | KWarn | KSkip | KWithheld | KInfo

text \<open>The closing lines of \<open>main\<close>, from the number of lines of each kind.\<close>

definition kind_count :: "report_kind \<Rightarrow> (report_kind \<times> 'a) list \<Rightarrow> nat" where
  "kind_count k evs = length (filter (\<lambda>e. fst e = k) evs)"

definition verdict_status :: "(report_kind \<times> 'a) list \<Rightarrow> nat" where
  "verdict_status evs =
     (if kind_count KFail evs \<noteq> 0 then 1
      else if kind_count KWithheld evs \<noteq> 0 then 4
      else if kind_count KSkip evs \<noteq> 0 \<or> kind_count KPass evs = 0 then 3
      else 0)"

section \<open>The number format of the ledger\<close>

text \<open>
  A finite float is given by the decimal its \<open>repr\<close> shows: sign, digits and exponent of
  \<open>decimal.Decimal(repr(abs(v))).as_tuple()\<close>.
\<close>

datatype shown_float = Shown (sf_neg: bool) (sf_digits: "nat list") (sf_exp: int) | ShownInf bool | ShownNaN

function drop_zeros :: "nat list \<Rightarrow> int \<Rightarrow> nat list \<times> int" where
  "drop_zeros ds e = (if 1 < length ds \<and> last ds = 0 then drop_zeros (butlast ds) (e + 1) else (ds, e))"
  by auto
termination by (relation "measure (\<lambda>(ds, _). length ds)") auto

declare drop_zeros.simps [simp del]

definition digits_text :: "nat list \<Rightarrow> string" where
  "digits_text ds = map digit_char ds"

definition zeros :: "int \<Rightarrow> string" where
  "zeros k = replicate (nat k) (CHR ''0'')"

definition go_digits :: "nat list \<Rightarrow> int \<Rightarrow> string" where
  "go_digits ds e =
     (let n = int (length ds); e10 = e + n - 1; s = digits_text ds
      in if e10 < - 4 \<or> 6 \<le> e10 then
           take 1 s @ (if n > 1 then ''.'' @ drop 1 s else []) @ ''e''
           @ (if e10 < 0 then ''-'' else ''+'') @ pad_left 2 (str_int \<bar>e10\<bar>)
         else if e10 < 0 then ''0.'' @ zeros (- e10 - 1) @ s
         else if n \<le> e10 + 1 then s @ zeros (e10 + 1 - n)
         else take (nat (e10 + 1)) s @ ''.'' @ drop (nat (e10 + 1)) s)"

fun go_g :: "shown_float \<Rightarrow> string" where
  "go_g ShownNaN = ''NaN''"
| "go_g (ShownInf neg) = (if neg then ''-Inf'' else ''+Inf'')"
| "go_g (Shown neg ds e) =
     (if list_all (\<lambda>d. d = 0) ds then (if neg then ''-0'' else ''0'')
      else (if neg then ''-'' else []) @ (case drop_zeros ds e of (ds', e') \<Rightarrow> go_digits ds' e'))"

section \<open>The hash chain\<close>

record ledger_entry =
  le_seq :: int
  le_predicted_at :: int
  le_symbol :: int
  le_horizon :: string
  le_bar_ts :: int
  le_raw :: shown_float
  le_cal :: shown_float
  le_feature :: string
  le_model :: int
  le_prev :: string
  le_hash :: string

definition entry_payload :: "ledger_entry \<Rightarrow> string" where
  "entry_payload e =
     ''predicted_at='' @ str_int (le_predicted_at e) @ ''|symbol_id='' @ str_int (le_symbol e)
     @ ''|horizon='' @ le_horizon e @ ''|bar_ts='' @ str_int (le_bar_ts e)
     @ ''|raw_prob='' @ go_g (le_raw e) @ ''|cal_prob='' @ go_g (le_cal e)
     @ ''|feature_hash='' @ le_feature e @ ''|model_version='' @ str_int (le_model e)"

definition entry_hash :: "string \<Rightarrow> ledger_entry \<Rightarrow> string" where
  "entry_hash prev e = sha256 (prev @ CHR 0x1E # entry_payload e)"

section \<open>Statements\<close>

record statement =
  st_name :: string
  st_raw :: string
  st_utc :: int
  st_seq :: int
  st_head :: string
  st_anchor :: string
  st_registry :: string
  st_doc :: string
  st_ext :: "int option"

definition is_hex64 :: "string \<Rightarrow> bool" where
  "is_hex64 s \<longleftrightarrow> length s = 64 \<and> list_all (\<lambda>c. c \<in> set ''0123456789abcdef'') s"

definition is_digits :: "string \<Rightarrow> bool" where
  "is_digits s \<longleftrightarrow> s \<noteq> [] \<and> list_all is_digit s"

text \<open>What follows a fixed prefix.\<close>

fun after_prefix :: "string \<Rightarrow> string \<Rightarrow> string option" where
  "after_prefix [] s = Some s"
| "after_prefix (c # p) [] = None"
| "after_prefix (c # p) (d # s) = (if c = d then after_prefix p s else None)"

text \<open>The digits at the front, where there are any.\<close>

definition front_digits :: "string \<Rightarrow> (string \<times> string) option" where
  "front_digits s =
     (let d = takeWhile is_digit s in if d = [] then None else Some (d, dropWhile is_digit s))"

definition line_utc :: "string \<Rightarrow> string option" where
  "line_utc l = Option.bind (after_prefix ''utc '' l) (\<lambda>s.
     if length s = 20 \<and> is_digits (take 4 s) \<and> s ! 4 = CHR ''-'' \<and> is_digits (take 2 (drop 5 s))
        \<and> s ! 7 = CHR ''-'' \<and> is_digits (take 2 (drop 8 s)) \<and> s ! 10 = CHR ''T''
        \<and> is_digits (take 2 (drop 11 s)) \<and> s ! 13 = CHR '':'' \<and> is_digits (take 2 (drop 14 s))
        \<and> s ! 16 = CHR '':'' \<and> is_digits (take 2 (drop 17 s)) \<and> s ! 19 = CHR ''Z''
     then Some s else None)"

definition line_head :: "string \<Rightarrow> (int \<times> string) option" where
  "line_head l =
     Option.bind (after_prefix ''ledger-head seq='' l) (\<lambda>s.
     Option.bind (front_digits s) (\<lambda>(d, s).
     Option.bind (after_prefix '' head='' s) (\<lambda>s.
       if is_hex64 (take 64 s)
          \<and> drop 64 s \<in> {'' intact=true'', '' intact=false'', '' intact=unchecked''}
       then Some (int (digits_val d), take 64 s) else None)))"

definition line_anchor :: "string \<Rightarrow> string option" where
  "line_anchor l = Option.bind (after_prefix ''anchor '' l) (\<lambda>s.
     if s = ''none'' \<or> (\<exists>r \<in> set_option (after_prefix ''SIGNALDECK-LEDGER-ANCHOR v1 '' s). r \<noteq> [])
     then Some s else None)"

definition line_prereg :: "string \<Rightarrow> string option" where
  "line_prereg l = Option.bind (after_prefix ''prereg '' l) (\<lambda>s.
     if s = ''none'' then Some s
     else Option.bind (after_prefix ''seq='' s) (\<lambda>r.
          Option.bind (front_digits r) (\<lambda>(d, r).
          Option.bind (after_prefix '' head='' r) (\<lambda>r. if is_hex64 r then Some s else None))))"

definition line_registry :: "string \<Rightarrow> string option" where
  "line_registry l = Option.bind (after_prefix ''registry-sha256 '' l) (\<lambda>s. if is_hex64 s then Some s else None)"

definition line_doc :: "string \<Rightarrow> string option" where
  "line_doc l = Option.bind (after_prefix ''prereg-doc-sha256 '' l)
     (\<lambda>s. if s = ''none'' \<or> is_hex64 s then Some s else None)"

text \<open>The name \<open>YYYYMMDDTHHMMSSZ.txt\<close> and the instant it spells.\<close>

definition statement_name :: "string \<Rightarrow> string option" where
  "statement_name n =
     (if length n = 20 \<and> is_digits (take 8 n) \<and> n ! 8 = CHR ''T'' \<and> is_digits (take 6 (drop 9 n))
         \<and> drop 15 n = ''Z.txt'' then Some (take 16 n) else None)"

definition named_utc :: "string \<Rightarrow> string" where
  "named_utc s = take 4 s @ ''-'' @ take 2 (drop 4 s) @ ''-'' @ take 2 (drop 6 s) @ ''T''
     @ take 2 (drop 9 s) @ '':'' @ take 2 (drop 11 s) @ '':'' @ take 2 (drop 13 s) @ ''Z''"

text \<open>\<open>datetime.strptime\<close> of such a text, in seconds since 1970, and the day number of a date.\<close>

definition day_number :: "int \<Rightarrow> int \<Rightarrow> int \<Rightarrow> int" where
  "day_number y m d =
     (let y' = (if m \<le> 2 then y - 1 else y); era = y' div 400; yoe = y' mod 400;
          doy = (153 * (if m > 2 then m - 3 else m + 9) + 2) div 5 + d - 1;
          doe = yoe * 365 + yoe div 4 - yoe div 100 + doy
      in era * 146097 + doe - 719468)"

definition parse_utc :: "string \<Rightarrow> int option" where
  "parse_utc s =
     (if valid_date s \<and> valid_clock 11 s then
        (let num = (\<lambda>i k. int (digits_val (take k (drop i s))))
         in Some (day_number (num 0 4) (num 5 2) (num 8 2) * 86400
                  + num 11 2 * 3600 + num 14 2 * 60 + num 17 2))
      else None)"

datatype statement_error =
    BadName string
  | LineCount string nat
  | Malformed string nat
  | UtcMismatch string string
  | BadInstant string

fun split_nl :: "string \<Rightarrow> string list" where
  "split_nl [] = [[]]"
| "split_nl (c # s) =
     (if c = CHR 0x0A then [] # split_nl s
      else (case split_nl s of l # ls \<Rightarrow> (c # l) # ls | [] \<Rightarrow> [[c]]))"

definition statement_lines :: "string \<Rightarrow> string list" where
  "statement_lines raw =
     (let ls = split_nl raw in if last ls = [] then butlast ls else ls)"

definition parse_statement :: "string \<Rightarrow> string \<Rightarrow> statement_error + statement" where
  "parse_statement name raw =
     (case statement_name name of
        None \<Rightarrow> Inl (BadName name)
      | Some stamp \<Rightarrow>
          (case statement_lines raw of
             [l1, l2, l3, l4, l5, l6, l7] \<Rightarrow>
               (if l1 \<noteq> ''signaldeck-statement v1'' then Inl (Malformed name 1)
                else case line_utc l2 of None \<Rightarrow> Inl (Malformed name 2) | Some utc \<Rightarrow>
                (case line_head l3 of None \<Rightarrow> Inl (Malformed name 3) | Some (seq, hh) \<Rightarrow>
                (case line_anchor l4 of None \<Rightarrow> Inl (Malformed name 4) | Some anchor \<Rightarrow>
                (case line_prereg l5 of None \<Rightarrow> Inl (Malformed name 5) | Some _ \<Rightarrow>
                (case line_registry l6 of None \<Rightarrow> Inl (Malformed name 6) | Some registry \<Rightarrow>
                (case line_doc l7 of None \<Rightarrow> Inl (Malformed name 7) | Some doc \<Rightarrow>
                  (if utc \<noteq> named_utc stamp then Inl (UtcMismatch name utc)
                   else case parse_utc utc of
                     None \<Rightarrow> Inl (BadInstant name)
                   | Some t \<Rightarrow> Inr \<lparr>st_name = name, st_raw = raw, st_utc = t, st_seq = seq, st_head = hh,
                       st_anchor = anchor, st_registry = registry, st_doc = doc, st_ext = None\<rparr>)))))))
           | ls \<Rightarrow> Inl (LineCount name (length ls))))"

lemma day_number_examples: "day_number 1970 1 1 = 0" "day_number 2026 10 1 = 20727"
  by (simp_all add: day_number_def Let_def)

section \<open>What a report line says\<close>

datatype report_note =
    StatementBad statement_error
  | HeadBelow string int string int
  | HeadsDiffer string string int
  | NoStatements
  | StatementsParsed nat string int
  | NotPinned string string
  | TokenBad string string
  | TokenPredates string string int int
  | TokensVerify string nat nat
  | NoTimestamp string
  | OtsBad string
  | OtsBound nat
  | NoHistory
  | LogRewritten string string
  | LogGrew string nat
  | StampChanged string string string
  | StampsKept nat
  | RegistryMismatch string
  | ProtocolMismatch string
  | BoundCount nat nat
  | AnchorsNamed nat nat
  | SiteFailed int
  | LedgerWithheld int
  | BadEntry int
  | HeadMismatch int string
  | EndsEarly int int
  | ChainRecomputed int int nat
  | ChainFrom string
  | NoSite
  | NothingToCheck
  | Anteriority string nat nat "real option"

type_synonym report = "(report_kind \<times> report_note) list"

section \<open>The repository that is checked\<close>

datatype token = Unverified | Stamped int     \<comment> \<open>\<open>openssl\<close>'s answer, the time in seconds\<close>

record git_history =
  gh_revisions :: "string \<Rightarrow> (string \<times> string) list"   \<comment> \<open>commit and bytes of a log, oldest first\<close>
  gh_stamp_log :: string                                \<comment> \<open>\<open>git log --name-status\<close> of \<open>stamps/\<close>\<close>
  gh_file :: "string \<Rightarrow> string \<Rightarrow> string"               \<comment> \<open>bytes at a commit, empty where absent\<close>

record public_repo =
  pu_stamps :: "(string \<times> string) list"
  pu_fingerprint :: "string \<Rightarrow> string option"
  pu_token :: "string \<Rightarrow> string \<Rightarrow> token option"
  pu_ots :: "string \<Rightarrow> string option"
  pu_git :: "git_history option"
  pu_anchors :: "string option"

section \<open>check_statements\<close>

definition statement_files :: "public_repo \<Rightarrow> (string \<times> string) list" where
  "statement_files repo = sort_key fst (filter (\<lambda>(n, _). ends_with ''.txt'' n) (pu_stamps repo))"

fun heads_regress :: "statement list \<Rightarrow> report" where
  "heads_regress (a # b # rest) =
     (if st_seq b < st_seq a then [(KFail, HeadBelow (st_name b) (st_seq b) (st_name a) (st_seq a))] else [])
     @ heads_regress (b # rest)"
| "heads_regress _ = []"

fun heads_differ :: "statement list \<Rightarrow> statement list \<Rightarrow> report" where
  "heads_differ seen [] = []"
| "heads_differ seen (st # rest) =
     (case find (\<lambda>p. st_seq p = st_seq st) seen of
        None \<Rightarrow> heads_differ (seen @ [st]) rest
      | Some prior \<Rightarrow>
          (if st_head prior \<noteq> st_head st
           then [(KFail, HeadsDiffer (st_name prior) (st_name st) (st_seq st))] else [])
          @ heads_differ seen rest)"

definition parsed_statements :: "public_repo \<Rightarrow> statement list" where
  "parsed_statements repo =
     List.map_filter (\<lambda>(n, raw). case parse_statement n raw of Inr st \<Rightarrow> Some st | Inl _ \<Rightarrow> None)
       (statement_files repo)"

definition check_statements :: "public_repo \<Rightarrow> statement list \<times> report" where
  "check_statements repo =
     (let files = statement_files repo; stmts = parsed_statements repo;
          bad = List.map_filter (\<lambda>(n, raw). case parse_statement n raw of
                  Inl e \<Rightarrow> Some (KFail, StatementBad e) | Inr _ \<Rightarrow> None) files
      in (stmts, bad @ heads_regress stmts @ heads_differ [] stmts
            @ (if files = [] then [(KWarn, NoStatements)]
               else if stmts \<noteq> [] then
                 [(KPass, StatementsParsed (length stmts) (st_name (last stmts)) (st_seq (last stmts)))]
               else [])))"

section \<open>check_tokens and check_ots\<close>

definition TSAS :: "(string \<times> string list) list" where
  "TSAS = [(''freetsa'', [''tsa/freetsa-cacert.pem'', ''tsa/freetsa-tsa.crt'']),
           (''digicert'', [''tsa/digicert-trusted-root-g4.pem''])]"

definition PINS :: "string \<Rightarrow> string option" where
  "PINS = map_of
     [(''tsa/freetsa-cacert.pem'', ''a6379e7cecc05faa3cbf076013d745e327bbbaa38c0b9af22469d4701d18aabc''),
      (''tsa/freetsa-tsa.crt'', ''32e841a95cc1164101ffde41298ef2fc75c1c4372ef095e88a6bbd47dfb191fc''),
      (''tsa/digicert-trusted-root-g4.pem'', ''552f7bdcf1a7af9e6ce672017f4f12abf77240c78e761ac203d1d9d20ac89988'')]"

definition unpinned :: "public_repo \<Rightarrow> string list \<Rightarrow> string list" where
  "unpinned repo files = filter (\<lambda>f. pu_fingerprint repo f \<noteq> PINS f) files"

definition earliest :: "int option \<Rightarrow> int \<Rightarrow> int option" where
  "earliest old t = Some (case old of None \<Rightarrow> t | Some u \<Rightarrow> min u t)"

text \<open>One statement under one authority: the statement, whether a token was there and holds, its lines.\<close>

definition check_token :: "public_repo \<Rightarrow> string \<Rightarrow> statement \<Rightarrow> statement \<times> nat \<times> nat \<times> report" where
  "check_token repo tsa s =
     (case pu_token repo tsa (st_name s) of
        None \<Rightarrow> (s, 0, 0, [])
      | Some Unverified \<Rightarrow> (s, 1, 0, [(KFail, TokenBad tsa (st_name s))])
      | Some (Stamped t) \<Rightarrow>
          (if t < st_utc s - 300 then (s, 1, 0, [(KFail, TokenPredates tsa (st_name s) t (st_utc s))])
           else (s\<lparr>st_ext := earliest (st_ext s) t\<rparr>, 1, 1, [])))"

definition check_authority :: "public_repo \<Rightarrow> statement list \<Rightarrow> string \<Rightarrow> statement list \<times> report" where
  "check_authority repo stmts tsa =
     (let rs = map (check_token repo tsa) stmts;
          present = sum_list (map (\<lambda>(_, h, _, _). h) rs); ok = sum_list (map (\<lambda>(_, _, k, _). k) rs)
      in (map fst rs, concat (map (\<lambda>(_, _, _, e). e) rs)
            @ (if present \<noteq> 0
               then [(if ok = present then KPass else KFail, TokensVerify tsa ok present)] else [])))"

definition check_tokens :: "public_repo \<Rightarrow> statement list \<Rightarrow> statement list \<times> report" where
  "check_tokens repo stmts =
     (let pins = concat (map (\<lambda>(tsa, files). map (\<lambda>f. (KFail, NotPinned tsa f)) (unpinned repo files)) TSAS);
          trusted = filter (\<lambda>(_, files). unpinned repo files = []) TSAS;
          (stmts', evs) = foldl (\<lambda>(ss, es) (tsa, _).
             (case check_authority repo ss tsa of (ss', es') \<Rightarrow> (ss', es @ es'))) (stmts, []) trusted
      in (stmts', pins @ evs
            @ map (\<lambda>s. (KWarn, NoTimestamp (st_name s))) (filter (\<lambda>s. st_ext s = None) stmts')))"

definition OTS_MAGIC :: string where
  "OTS_MAGIC = CHR 0x00 # ''OpenTimestamps'' @ [CHR 0x00, CHR 0x00] @ ''Proof''
     @ [CHR 0x00, CHR 0xBF, CHR 0x89, CHR 0xE2, CHR 0xE8, CHR 0x84, CHR 0xE8, CHR 0x92, CHR 0x94]"

definition hex_text :: "string \<Rightarrow> string" where
  "hex_text s = concat (map (\<lambda>c. let n = of_char c :: nat in [hex_char (n div 16), hex_char (n mod 16)]) s)"

definition ots_binds :: "string \<Rightarrow> string \<Rightarrow> bool" where
  "ots_binds proof_bytes raw =
     (let hd' = OTS_MAGIC @ [CHR 0x01, CHR 0x08]
      in take (length hd') proof_bytes = hd'
         \<and> hex_text (take 32 (drop (length hd') proof_bytes)) = sha256 raw)"

definition check_ots :: "public_repo \<Rightarrow> statement list \<Rightarrow> report" where
  "check_ots repo stmts =
     (let proofs = List.map_filter (\<lambda>s. map_option (\<lambda>b. (s, ots_binds b (st_raw s))) (pu_ots repo (st_name s))) stmts;
          k = length (filter snd proofs)
      in map (\<lambda>(s, _). (KFail, OtsBad (st_name s))) (filter (\<lambda>p. \<not> snd p) proofs)
         @ (if k \<noteq> 0 then [(KInfo, OtsBound k)] else []))"

section \<open>check_history\<close>

text \<open>The first revision of an append-only log that does not extend the one before.\<close>

fun rewritten_at :: "string \<Rightarrow> (string \<times> string) list \<Rightarrow> string option" where
  "rewritten_at prev [] = None"
| "rewritten_at prev ((commit, cur) # rest) =
     (if starts_with prev cur then rewritten_at cur rest else Some commit)"

definition check_log :: "git_history \<Rightarrow> string \<Rightarrow> report" where
  "check_log gh path =
     (let revs = gh_revisions gh path
      in case rewritten_at [] revs of
           Some commit \<Rightarrow> [(KFail, LogRewritten path commit)]
         | None \<Rightarrow> [(KPass, LogGrew path (length revs))])"

text \<open>\<open>line.split("\t", 1)\<close> of a line with a tab.\<close>

definition tab_split :: "string \<Rightarrow> (string \<times> string) option" where
  "tab_split l = (case dropWhile (\<lambda>c. c \<noteq> CHR 0x09) l of
     [] \<Rightarrow> None | _ # r \<Rightarrow> Some (takeWhile (\<lambda>c. c \<noteq> CHR 0x09) l, r))"

type_synonym stamp_change = "string \<times> string \<times> string"   \<comment> \<open>commit, status, path\<close>

fun stamp_changes :: "string \<Rightarrow> string list \<Rightarrow> stamp_change list" where
  "stamp_changes commit [] = []"
| "stamp_changes commit (l # ls) =
     (if starts_with ''commit '' l then stamp_changes (drop 7 l) ls
      else case tab_split l of
        Some (status, path) \<Rightarrow> (commit, status, path) # stamp_changes commit ls
      | None \<Rightarrow> stamp_changes commit ls)"

definition is_add :: "stamp_change \<Rightarrow> bool" where
  "is_add c \<longleftrightarrow> fst (snd c) = ''A''"

definition is_rewrite :: "stamp_change \<Rightarrow> bool" where
  "is_rewrite c \<longleftrightarrow> \<not> is_add c \<and> \<not> (fst (snd c) = ''M'' \<and> ends_with ''.ots'' (snd (snd c)))"

definition base_name :: "string \<Rightarrow> string" where
  "base_name p = rev (takeWhile (\<lambda>c. c \<noteq> CHR ''/'') (rev p))"

definition added_in :: "stamp_change list \<Rightarrow> string \<Rightarrow> string option" where
  "added_in adds = map_of (rev (map (\<lambda>(c, _, p). (base_name p, c)) adds))"

datatype binding = NotAdded | WrongRegistry | WrongProtocol | Binds

definition binding_of :: "git_history \<Rightarrow> stamp_change list \<Rightarrow> statement \<Rightarrow> binding" where
  "binding_of gh adds s =
     (case added_in adds (st_name s) of
        None \<Rightarrow> NotAdded
      | Some c \<Rightarrow>
          (if sha256 (gh_file gh c ''accuracy_registry.json'') \<noteq> st_registry s then WrongRegistry
           else if st_doc s \<noteq> ''none'' \<and> sha256 (gh_file gh c ''PREREGISTRATION.md'') \<noteq> st_doc s
           then WrongProtocol else Binds))"

definition binding_note :: "statement \<times> binding \<Rightarrow> (report_kind \<times> report_note) option" where
  "binding_note sb =
     (case snd sb of
        WrongRegistry \<Rightarrow> Some (KFail, RegistryMismatch (st_name (fst sb)))
      | WrongProtocol \<Rightarrow> Some (KFail, ProtocolMismatch (st_name (fst sb)))
      | _ \<Rightarrow> None)"

text \<open>\<open>str.splitlines\<close> of git's output, blank lines dropped.\<close>

fun output_lines :: "string \<Rightarrow> string \<Rightarrow> string list" where
  "output_lines acc [] = (if acc = [] then [] else [rev acc])"
| "output_lines acc (c # s) =
     (if c \<in> {CHR 0x0A, CHR 0x0B, CHR 0x0C, CHR 0x0D, CHR 0x1C, CHR 0x1D, CHR 0x1E}
      then rev acc # output_lines [] s else output_lines (c # acc) s)"

definition anchor_lines :: "public_repo \<Rightarrow> string list" where
  "anchor_lines repo = (case pu_anchors repo of None \<Rightarrow> [] | Some t \<Rightarrow> filter (\<lambda>l. l \<noteq> []) (split_nl t))"

definition check_history :: "public_repo \<Rightarrow> statement list \<Rightarrow> report" where
  "check_history repo stmts =
     (case pu_git repo of
        None \<Rightarrow> [(KSkip, NoHistory)]
      | Some gh \<Rightarrow>
          (let changes = stamp_changes [] (output_lines [] (gh_stamp_log gh));
               adds = filter is_add changes; bad = filter is_rewrite changes;
               bindings = map (\<lambda>s. (s, binding_of gh adds s)) stmts;
               bound = length (filter (\<lambda>sb. snd sb = Binds) bindings);
               lines = anchor_lines repo
           in check_log gh ''anchors.log'' @ check_log gh ''prereg.log''
              @ map (\<lambda>(c, status, path). (KFail, StampChanged path status c)) bad
              @ (if bad = [] then [(KPass, StampsKept (length adds))] else [])
              @ List.map_filter binding_note bindings
              @ (if stmts \<noteq> [] then [(if bound = length stmts then KPass else KWarn, BoundCount bound (length stmts))]
                 else [])
              @ [(KInfo, AnchorsNamed (length (filter (\<lambda>l. l \<in> set (map st_anchor stmts)) lines)) (length lines))]))"

section \<open>check_chain\<close>

text \<open>
  What a request for the page from a sequence number gives. A site is a function of the number of
  requests made before and of the sequence number asked for, so that its answers may change while
  the program reads.
\<close>

datatype fetched = Page (pg_entries: "ledger_entry list") (pg_next: "int option") | Http451 | FetchFailed

type_synonym site = "nat \<Rightarrow> int \<Rightarrow> fetched"

type_synonym seen_entry = "int \<times> string \<times> int \<times> int"   \<comment> \<open>seq, horizon, barTs, predictedAt\<close>

record walk =
  wk_running :: string
  wk_expect :: int
  wk_seen :: "seen_entry list"

definition seen_of :: "ledger_entry \<Rightarrow> seen_entry" where
  "seen_of e = (le_seq e, le_horizon e, le_bar_ts e, le_predicted_at e)"

text \<open>One entry of the loop over a page, after the test that leaves the loop.\<close>

definition walk_entry :: "statement list \<Rightarrow> int \<Rightarrow> walk \<Rightarrow> ledger_entry \<Rightarrow> report_note + walk" where
  "walk_entry stmts lo w e =
     (if le_seq e \<noteq> wk_expect w \<or> le_prev e \<noteq> wk_running w \<or> entry_hash (wk_running w) e \<noteq> le_hash e
      then Inl (BadEntry (le_seq e))
      else case find (\<lambda>st. st_seq st = le_seq e \<and> lo \<le> st_seq st \<and> st_head st \<noteq> le_hash e) stmts of
        Some st \<Rightarrow> Inl (HeadMismatch (le_seq e) (st_name st))
      | None \<Rightarrow> Inr \<lparr>wk_running = le_hash e, wk_expect = wk_expect w + 1, wk_seen = wk_seen w @ [seen_of e]\<rparr>)"

fun walk_page :: "statement list \<Rightarrow> int \<Rightarrow> int \<Rightarrow> walk \<Rightarrow> ledger_entry list \<Rightarrow> report_note + walk" where
  "walk_page stmts lo hi w [] = Inr w"
| "walk_page stmts lo hi w (e # es) =
     (if hi < le_seq e then Inr w
      else case walk_entry stmts lo w e of Inl n \<Rightarrow> Inl n | Inr w' \<Rightarrow> walk_page stmts lo hi w' es)"

datatype chain_result = ChainBad report_kind report_note | ChainOk "seen_entry list"

text \<open>\<open>page.get("next") or expect\<close>.\<close>

definition next_from :: "int option \<Rightarrow> int \<Rightarrow> int" where
  "next_from nxt expect = (case nxt of Some n \<Rightarrow> if n = 0 then expect else n | None \<Rightarrow> expect)"

text \<open>The loop may run for ever; its value is \<open>None\<close> then.\<close>

partial_function (option) chain_loop ::
  "statement list \<Rightarrow> site \<Rightarrow> int \<Rightarrow> int \<Rightarrow> nat \<Rightarrow> int \<Rightarrow> walk \<Rightarrow> chain_result option" where
  "chain_loop stmts site lo hi k nxt w =
     (if hi < wk_expect w then Some (ChainOk (wk_seen w))
      else case site k nxt of
        FetchFailed \<Rightarrow> Some (ChainBad KFail (SiteFailed nxt))
      | Http451 \<Rightarrow> Some (ChainBad KWithheld (LedgerWithheld nxt))
      | Page es pnext \<Rightarrow>
          (case walk_page stmts lo hi w es of
             Inl n \<Rightarrow> Some (ChainBad KFail n)
           | Inr w' \<Rightarrow>
               (if wk_expect w' \<le> hi \<and> pnext = None
                then Some (ChainBad KFail (EndsEarly (wk_expect w' - 1) hi))
                else chain_loop stmts site lo hi (Suc k) (next_from pnext (wk_expect w')) w')))"

text \<open>\<open>stmts[-n_stmts]\<close> where \<open>2 \<le> n_stmts \<le> len(stmts)\<close>.\<close>

definition chain_base :: "statement list \<Rightarrow> int \<Rightarrow> statement option" where
  "chain_base stmts n =
     (if 2 \<le> n \<and> n \<le> int (length stmts) then Some (stmts ! (length stmts - nat n)) else None)"

definition chain_low :: "statement list \<Rightarrow> int \<Rightarrow> int" where
  "chain_low stmts n = (case chain_base stmts n of Some b \<Rightarrow> st_seq b + 1 | None \<Rightarrow> 1)"

definition chain_start :: "statement list \<Rightarrow> int \<Rightarrow> walk" where
  "chain_start stmts n =
     \<lparr>wk_running = (case chain_base stmts n of Some b \<Rightarrow> st_head b | None \<Rightarrow> []),
      wk_expect = chain_low stmts n, wk_seen = []\<rparr>"

definition chain_high :: "statement list \<Rightarrow> int" where
  "chain_high stmts = st_seq (last stmts)"

definition chain_report :: "statement list \<Rightarrow> int \<Rightarrow> chain_result \<Rightarrow> report" where
  "chain_report stmts n r =
     (case r of
        ChainBad k note \<Rightarrow> [(k, note)]
      | ChainOk seen \<Rightarrow>
          (KPass, ChainRecomputed (chain_low stmts n) (chain_high stmts) (length seen))
          # (case chain_base stmts n of Some b \<Rightarrow> [(KInfo, ChainFrom (st_name b))] | None \<Rightarrow> []))"

definition check_chain :: "site \<Rightarrow> statement list \<Rightarrow> int \<Rightarrow> (seen_entry list option \<times> report) option" where
  "check_chain site stmts n =
     map_option (\<lambda>r. (case r of ChainOk seen \<Rightarrow> Some seen | ChainBad _ _ \<Rightarrow> None, chain_report stmts n r))
       (chain_loop stmts site (chain_low stmts n) (chain_high stmts) 0 (chain_low stmts n) (chain_start stmts n))"

section \<open>anteriority\<close>

definition HORIZON :: "string \<Rightarrow> int option" where
  "HORIZON = map_of [(''1d'', 86400), (''1w'', 604800)]"

text \<open>\<open>bisect.bisect_left\<close>.\<close>

function bisect_between :: "int list \<Rightarrow> int \<Rightarrow> nat \<Rightarrow> nat \<Rightarrow> nat" where
  "bisect_between xs x lo hi =
     (if lo < hi then
        (let mid = (lo + hi) div 2
         in if xs ! mid < x then bisect_between xs x (mid + 1) hi else bisect_between xs x lo mid)
      else lo)"
  by auto
termination by (relation "measure (\<lambda>(_, _, lo, hi). hi - lo)") auto

declare bisect_between.simps [simp del]

definition bisect_left :: "int list \<Rightarrow> int \<Rightarrow> nat" where
  "bisect_left xs x = bisect_between xs x 0 (length xs)"

definition proven :: "statement list \<Rightarrow> (int \<times> int) list" where
  "proven stmts = List.map_filter (\<lambda>s. map_option (Pair (st_seq s)) (st_ext s)) stmts"

text \<open>Per horizon: the forecasts anchored in time, all of them, the lags in hours.\<close>

type_synonym ante = "nat \<times> nat \<times> real list"

definition ante_step :: "(int \<times> int) list \<Rightarrow> (string \<rightharpoonup> ante) \<Rightarrow> seen_entry \<Rightarrow> (string \<rightharpoonup> ante)" where
  "ante_step pr out e =
     (case e of (seq, horizon, opened, predicted_at) \<Rightarrow>
       (case HORIZON horizon of
          None \<Rightarrow> out
        | Some width \<Rightarrow>
            (case (case out horizon of Some v \<Rightarrow> v | None \<Rightarrow> (0, 0, [])) of (a, n, lags) \<Rightarrow>
               (let i = bisect_left (map fst pr) seq
                in if i < length pr then
                     (let ext = snd (pr ! i)
                      in out(horizon \<mapsto> (if ext < opened + width then a + 1 else a, n + 1,
                                          lags @ [of_int (ext - predicted_at) / 3600])))
                   else out(horizon \<mapsto> (a, n + 1, lags))))))"

definition anteriority :: "seen_entry list \<Rightarrow> statement list \<Rightarrow> (string \<rightharpoonup> ante)" where
  "anteriority entries stmts = foldl (ante_step (proven stmts)) Map.empty entries"

text \<open>\<open>sorted(out.items())\<close>: the two horizons in the order of their names.\<close>

definition ante_note :: "(string \<rightharpoonup> ante) \<Rightarrow> string \<Rightarrow> report" where
  "ante_note out h =
     (case out h of
        None \<Rightarrow> []
      | Some (a, n, lags) \<Rightarrow>
          [(KInfo, Anteriority h a n (if lags = [] then None else Some (sort lags ! (length lags div 2))))])"

definition ante_report :: "(string \<rightharpoonup> ante) \<Rightarrow> report" where
  "ante_report out = ante_note out ''1d'' @ ante_note out ''1w''"

section \<open>verify and main\<close>

definition verify_site :: "site option \<Rightarrow> statement list \<Rightarrow> int \<Rightarrow> report option" where
  "verify_site site stmts n =
     (case site of
        None \<Rightarrow> Some [(KSkip, NoSite)]
      | Some s \<Rightarrow>
          (if stmts = [] then Some [(KSkip, NothingToCheck)]
           else map_option (\<lambda>(entries, evs). evs @ (case entries of
                    Some (e # es) \<Rightarrow> ante_report (anteriority (e # es) stmts) | _ \<Rightarrow> []))
                  (check_chain s stmts n)))"

definition verify_record :: "public_repo \<Rightarrow> site option \<Rightarrow> int \<Rightarrow> report option" where
  "verify_record repo site n =
     (case check_statements repo of (stmts, evs1) \<Rightarrow>
       (case check_tokens repo stmts of (stmts', evs2) \<Rightarrow>
          map_option (\<lambda>evs5. evs1 @ evs2 @ check_ots repo stmts' @ check_history repo stmts' @ evs5)
            (verify_site site stmts' n)))"

text \<open>The exit status; 2 is the usage message where no repository is named.\<close>

definition verify_main :: "public_repo option \<Rightarrow> site option \<Rightarrow> int \<Rightarrow> nat option" where
  "verify_main repo site n =
     (case repo of None \<Rightarrow> Some 2 | Some r \<Rightarrow> map_option verdict_status (verify_record r site n))"

end
