(* ===== verification/Resolver_Liveness.thy ===== *)
theory Resolver_Liveness
  imports Deployment_Drift Public_Record
begin

text \<open>
  \<open>tools/structural_liveness.py\<close>: is the worker that grades frozen structural calls waiting, or
  dead? A row is overdue when its calendar gate and its bar gate have been open for the grace
  period and it still has no verdict; a kind fails when it has graded nothing, or leaves more than
  a fifth of its due rows ungraded. The tool also compares the first-grade dates of the README
  with the gate. What is printed is modelled as the values printed; \<open>--json\<close> writes the same.
\<close>

definition GRACE_DAYS :: int where "GRACE_DAYS = 2"
definition STALL_RATIO :: real where "STALL_RATIO = 20 / 100"

section \<open>Overdue rows\<close>

text \<open>\<open>CAST(horizon_days * 1.45 * 86400 AS INTEGER)\<close>; the product is a whole number of seconds.\<close>

definition gate_secs :: "int \<Rightarrow> int" where
  "gate_secs days = days * 125280"

lemma gate_secs_exact: "of_int (gate_secs days) = of_int days * (145 / 100) * (86400 :: real)"
  by (simp add: gate_secs_def)

definition forward_bars :: "bar_row list \<Rightarrow> regime_row \<Rightarrow> int" where
  "forward_bars bars r =
     count_if (\<lambda>b. bar_symbol b = ro_symbol r \<and> bar_tf b = ''1d'' \<and> ro_ts r < bar_ts b) bars"

definition not_quarantined :: "database \<Rightarrow> regime_row \<Rightarrow> bool" where
  "not_quarantined con r =
     (case db_quarantine con of None \<Rightarrow> True | Some qs \<Rightarrow> ro_id r \<notin> qr_outcome ` set qs)"

definition is_overdue :: "database \<Rightarrow> bar_row list \<Rightarrow> int \<Rightarrow> regime_row \<Rightarrow> bool" where
  "is_overdue con bars now r \<longleftrightarrow>
     ro_resolved r = None \<and> ro_superseded r = None
     \<and> ro_ts r + gate_secs (ro_horizon_days r) + GRACE_DAYS * 86400 \<le> now
     \<and> ro_horizon_days r \<le> forward_bars bars r
     \<and> not_quarantined con r"

record overdue_row =
  ov_id :: int
  ov_symbol :: int
  ov_kind :: string
  ov_ts :: int
  ov_horizon_days :: int
  ov_forward_bars :: int
  ov_days_overdue :: int

definition overdue_of :: "bar_row list \<Rightarrow> int \<Rightarrow> regime_row \<Rightarrow> overdue_row" where
  "overdue_of bars now r =
     \<lparr>ov_id = ro_id r, ov_symbol = ro_symbol r, ov_kind = ro_kind r, ov_ts = ro_ts r,
      ov_horizon_days = ro_horizon_days r, ov_forward_bars = forward_bars bars r,
      ov_days_overdue = (now - (ro_ts r + gate_secs (ro_horizon_days r))) div 86400\<rparr>"

text \<open>A missing table or column raises: only the quarantine table is looked up first.\<close>

definition overdue_rows :: "database \<Rightarrow> int \<Rightarrow> overdue_row list py" where
  "overdue_rows con now =
     (case (db_regime con, db_bars con, db_has_superseded con) of
        (Some rows, Some bars, True) \<Rightarrow>
          Inr (map (overdue_of bars now) (sort_key ro_ts (filter (is_overdue con bars now) rows)))
      | _ \<Rightarrow> Inl OperationalErr)"

section \<open>The verdict of a kind\<close>

datatype resolver_verdict = Waiting | Grading | DeadArm | Stalled

fun verdict_word :: "resolver_verdict \<Rightarrow> string" where
  "verdict_word Waiting = ''WAITING''"
| "verdict_word Grading = ''OK''"
| "verdict_word DeadArm = ''DEAD-ARM''"
| "verdict_word Stalled = ''STALLED''"

definition failing :: "resolver_verdict \<Rightarrow> bool" where
  "failing v \<longleftrightarrow> v = DeadArm \<or> v = Stalled"

definition kind_verdict :: "int \<Rightarrow> int \<Rightarrow> resolver_verdict" where
  "kind_verdict od res =
     (if od = 0 \<and> res = 0 then Waiting
      else if od = 0 then Grading
      else if res = 0 then DeadArm
      else if STALL_RATIO < of_int od / of_int (od + res) then Stalled
      else Grading)"

record kind_status =
  ks_kind :: string
  ks_total :: int
  ks_resolved :: int
  ks_overdue :: int
  ks_verdict :: resolver_verdict

definition kind_entry :: "overdue_row list \<Rightarrow> string \<Rightarrow> regime_row list \<Rightarrow> kind_status" where
  "kind_entry overdue k g =
     (let od = count_if (\<lambda>v. ov_kind v = k) overdue; res = count_if (\<lambda>r. ro_resolved r \<noteq> None) g
      in \<lparr>ks_kind = k, ks_total = int (length g), ks_resolved = res, ks_overdue = od,
          ks_verdict = kind_verdict od res\<rparr>)"

definition kind_table :: "overdue_row list \<Rightarrow> regime_row list \<Rightarrow> kind_status list" where
  "kind_table overdue rows = map (\<lambda>(k, g). kind_entry overdue k g) (group_by ro_kind rows)"

definition per_kind_status :: "database \<Rightarrow> int \<Rightarrow> overdue_row list option \<Rightarrow> kind_status list py" where
  "per_kind_status con now given =
     py_bind (case given of Some ovs \<Rightarrow> Inr ovs | None \<Rightarrow> overdue_rows con now) (\<lambda>overdue.
       case db_regime con of
         None \<Rightarrow> Inl OperationalErr
       | Some rows \<Rightarrow> Inr (kind_table overdue rows))"

section \<open>The dates of the README\<close>

text \<open>
  The expression that finds a pending row: a cell that is a word, a cell of anything, and the
  text \<open>PENDING (first grade yyyy-mm-dd\<close>. The result carries what follows the match.
\<close>

definition kind_char :: "char \<Rightarrow> bool" where
  "kind_char c \<longleftrightarrow> is_word c \<or> c = CHR ''-''"

definition iso_shape :: "string \<Rightarrow> bool" where
  "iso_shape s \<longleftrightarrow> length s = 10 \<and> s ! 4 = CHR ''-'' \<and> s ! 7 = CHR ''-''
     \<and> list_all (\<lambda>i. is_digit (s ! i)) [0, 1, 2, 3, 5, 6, 8, 9]"

definition PENDING_CELL :: string where "PENDING_CELL = ''PENDING (first grade ''"

definition pending_date :: "string \<Rightarrow> string \<Rightarrow> ((string \<times> string) \<times> string) option" where
  "pending_date kind s =
     (let d = drop (length PENDING_CELL) s
      in if starts_with PENDING_CELL s \<and> iso_shape (take 10 d) then Some ((kind, take 10 d), drop 10 d)
         else None)"

definition pending_at :: "string \<Rightarrow> ((string \<times> string) \<times> string) option" where
  "pending_at s =
     (case s of
        [] \<Rightarrow> None
      | c # s1 \<Rightarrow>
          (let s2 = dropWhile is_ws s1; kind = takeWhile kind_char s2;
               s3 = dropWhile is_ws (dropWhile kind_char s2)
           in if c \<noteq> CHR ''|'' \<or> kind = [] then None
              else case s3 of
                     [] \<Rightarrow> None
                   | d # s4 \<Rightarrow>
                       (if d \<noteq> CHR ''|'' then None
                        else case dropWhile (\<lambda>c. c \<noteq> CHR ''|'') s4 of
                               [] \<Rightarrow> None
                             | _ # s5 \<Rightarrow> pending_date kind (dropWhile is_ws s5))))"

text \<open>\<open>re.findall\<close>: from the left, a match skips the characters it has consumed.\<close>

fun pending_cells :: "nat \<Rightarrow> string \<Rightarrow> (string \<times> string) list" where
  "pending_cells n [] = []"
| "pending_cells (Suc n) (c # s) = pending_cells n s"
| "pending_cells 0 (c # s) =
     (case pending_at (c # s) of
        None \<Rightarrow> pending_cells 0 s
      | Some (cell, rest) \<Rightarrow> cell # pending_cells (length s - length rest) s)"

text \<open>
  \<open>SELECT MIN(ts), horizon_days ... WHERE kind = ?\<close>: SQLite takes the bare column from a row with
  the smallest \<open>ts\<close> (the first of them here).
\<close>

definition earliest_call :: "regime_row list \<Rightarrow> string \<Rightarrow> regime_row option" where
  "earliest_call rows k =
     (case filter (\<lambda>r. ro_kind r = k \<and> ro_superseded r = None) rows of
        [] \<Rightarrow> None
      | live \<Rightarrow> Some (newest_of (\<lambda>r. - ro_ts r) live))"

definition gate_day :: "regime_row \<Rightarrow> int" where
  "gate_day r = (ro_ts r + gate_secs (ro_horizon_days r)) div 86400"

text \<open>\<open>date.fromisoformat\<close> of ten characters of the shape \<open>yyyy-mm-dd\<close>.\<close>

definition date_days :: "string \<Rightarrow> int py" where
  "date_days s =
     (if valid_date s
      then Inr (day_number (int (digits_val (take 4 s))) (int (digits_val (take 2 (drop 5 s))))
                  (int (digits_val (take 2 (drop 8 s)))))
      else Inl ValueErr)"

record early_date =
  ea_kind :: string
  ea_readme :: string
  ea_gate :: string
  ea_days :: int

definition early_entry :: "regime_row list \<Rightarrow> string \<times> string \<Rightarrow> early_date list py" where
  "early_entry rows cell = (case cell of (k, published) \<Rightarrow>
     (case earliest_call rows k of
        None \<Rightarrow> Inr []
      | Some r \<Rightarrow>
          (let gate = iso_date (gate_day r)
           in if published < gate
              then py_bind (date_days published) (\<lambda>d.
                     Inr [\<lparr>ea_kind = k, ea_readme = published, ea_gate = gate, ea_days = gate_day r - d\<rparr>])
              else Inr [])))"

definition readme_date_check :: "database \<Rightarrow> string option \<Rightarrow> early_date list py" where
  "readme_date_check con readme =
     (case readme of
        None \<Rightarrow> Inr []
      | Some contents \<Rightarrow>
          (case pending_cells 0 contents of
             [] \<Rightarrow> Inr []
           | cells \<Rightarrow>
               (case (db_regime con, db_has_superseded con) of
                  (Some rows, True) \<Rightarrow>
                    py_bind (py_map (early_entry rows) cells) (\<lambda>es. Inr (concat es))
                | _ \<Rightarrow> Inl OperationalErr)))"

section \<open>The report and the exit status\<close>

text \<open>The rows printed below the table: of every failing kind, at most ten overdue rows.\<close>

definition failing_kinds :: "kind_status list \<Rightarrow> string list" where
  "failing_kinds tab = map ks_kind (filter (\<lambda>s. failing (ks_verdict s)) tab)"

definition late_sections ::
    "kind_status list \<Rightarrow> overdue_row list \<Rightarrow> (string \<times> nat \<times> overdue_row list) list" where
  "late_sections tab overdue =
     map (\<lambda>(k, g). (k, length g, take 10 g))
       (group_by ov_kind (filter (\<lambda>v. ov_kind v \<in> set (failing_kinds tab)) overdue))"

datatype quiet_line = NotQuiet | NothingDueUntil int | NoUnresolved

definition quiet_report :: "regime_row list \<Rightarrow> kind_status list \<Rightarrow> overdue_row list \<Rightarrow> quiet_line" where
  "quiet_report rows tab overdue =
     (if overdue = [] \<and> list_all (\<lambda>s. ks_verdict s = Waiting) tab
      then (case min_opt (map (\<lambda>r. ro_ts r + gate_secs (ro_horizon_days r))
                   (filter (\<lambda>r. ro_resolved r = None \<and> ro_superseded r = None) rows)) of
              None \<Rightarrow> NoUnresolved
            | Some t \<Rightarrow> if t = 0 then NoUnresolved else NothingDueUntil t)
      else NotQuiet)"

record resolver_report =
  rr_table :: "kind_status list"
  rr_late :: "(string \<times> nat \<times> overdue_row list) list"
  rr_quiet :: quiet_line
  rr_early :: "early_date list"

definition resolver_status :: "kind_status list \<Rightarrow> nat" where
  "resolver_status tab = (if list_ex (\<lambda>s. failing (ks_verdict s)) tab then 1 else 0)"

definition resolver_check :: "database \<Rightarrow> int \<Rightarrow> string option \<Rightarrow> (resolver_report \<times> nat) py" where
  "resolver_check con now readme =
     py_bind (overdue_rows con now) (\<lambda>overdue.
     py_bind (per_kind_status con now (Some overdue)) (\<lambda>tab.
     py_bind (readme_date_check con readme) (\<lambda>early.
       Inr (\<lparr>rr_table = tab, rr_late = late_sections tab overdue,
             rr_quiet = quiet_report (case db_regime con of Some rows \<Rightarrow> rows | None \<Rightarrow> []) tab overdue,
             rr_early = early\<rparr>,
            resolver_status tab))))"

text \<open>
  The status of the process. \<^term>\<open>None\<close> is a database that is not there or does not open read-only;
  an exception that leaves \<open>main\<close> ends the interpreter with 1.
\<close>

definition resolver_main :: "database option \<Rightarrow> int \<Rightarrow> string option \<Rightarrow> nat" where
  "resolver_main db now readme =
     (case db of
        None \<Rightarrow> 2
      | Some con \<Rightarrow> (case resolver_check con now readme of Inl _ \<Rightarrow> 1 | Inr (_, st) \<Rightarrow> st))"

section \<open>What an alarm means\<close>

lemmas overdue_defs = overdue_rows_def is_overdue_def overdue_of_def

lemma overdue_rows_Inr:
  "overdue_rows con now = Inr ovs \<longleftrightarrow>
     (\<exists>rows bars. db_regime con = Some rows \<and> db_bars con = Some bars \<and> db_has_superseded con
        \<and> ovs = map (overdue_of bars now) (sort_key ro_ts (filter (is_overdue con bars now) rows)))"
  by (auto simp: overdue_rows_def split: option.splits bool.splits)

lemma overdue_of_kind [simp]: "ov_kind (overdue_of bars now r) = ro_kind r"
  by (simp add: overdue_of_def)

lemma count_if_map [simp]: "count_if P (map f xs) = count_if (\<lambda>x. P (f x)) xs"
  by (simp add: count_if_def filter_map comp_def)

lemma count_if_sort_key [simp]: "count_if P (sort_key f xs) = count_if P xs"
  by (simp add: count_if_def filter_sort)

lemma count_if_filter [simp]: "count_if P (filter Q xs) = count_if (\<lambda>x. Q x \<and> P x) xs"
  by (simp add: count_if_def)

lemma count_if_zero: "count_if P xs = 0 \<longleftrightarrow> (\<forall>x \<in> set xs. \<not> P x)"
  by (induction xs) (auto simp: add_nonneg_eq_0_iff)

lemma count_if_pos: "0 < count_if P xs \<longleftrightarrow> (\<exists>x \<in> set xs. P x)"
  by (metis count_if_nonneg count_if_zero less_le)

text \<open>The numbers a verdict is taken from, counted over the table itself.\<close>

definition due_unverdicted :: "database \<Rightarrow> bar_row list \<Rightarrow> int \<Rightarrow> regime_row list \<Rightarrow> string \<Rightarrow> int" where
  "due_unverdicted con bars now rows k = count_if (\<lambda>r. is_overdue con bars now r \<and> ro_kind r = k) rows"

definition verdicted :: "regime_row list \<Rightarrow> string \<Rightarrow> int" where
  "verdicted rows k = count_if (\<lambda>r. ro_kind r = k \<and> ro_resolved r \<noteq> None) rows"

lemma failing_kind_verdict:
  assumes "0 \<le> od" and "0 \<le> res"
  shows "failing (kind_verdict od res) \<longleftrightarrow> 0 < od \<and> res < 4 * od"
proof (cases "od = 0 \<or> res = 0")
  case True
  then show ?thesis using assms by (auto simp: kind_verdict_def failing_def)
next
  case False
  then have pos: "0 < od" "0 < od + res" using assms by auto
  have "STALL_RATIO < of_int od / of_int (od + res) \<longleftrightarrow> res < 4 * od"
    using pos by (simp add: STALL_RATIO_def field_simps flip: of_int_add of_int_mult) linarith
  then show ?thesis using False pos by (simp add: kind_verdict_def failing_def)
qed

lemma kind_table_rows:
  assumes "overdue_rows con now = Inr ovs" and "db_regime con = Some rows" and "db_bars con = Some bars"
    and "s \<in> set (kind_table ovs rows)"
  shows "ks_overdue s = due_unverdicted con bars now rows (ks_kind s)"
    "ks_resolved s = verdicted rows (ks_kind s)"
    "ks_verdict s = kind_verdict (ks_overdue s) (ks_resolved s)"
  using assms
  by (auto simp: overdue_rows_Inr kind_table_def kind_entry_def Let_def set_group_by
      due_unverdicted_def verdicted_def)

lemma kind_table_kinds: "ks_kind ` set (kind_table ovs rows) = ro_kind ` set rows"
  by (force simp: kind_table_def kind_entry_def Let_def set_group_by)

lemma status_of_table:
  assumes "overdue_rows con now = Inr ovs" and "db_regime con = Some rows" and "db_bars con = Some bars"
  shows "resolver_status (kind_table ovs rows) =
    (if \<exists>k. 0 < due_unverdicted con bars now rows k
           \<and> verdicted rows k < 4 * due_unverdicted con bars now rows k then 1 else 0)"
proof -
  let ?bad = "\<lambda>k. 0 < due_unverdicted con bars now rows k
    \<and> verdicted rows k < 4 * due_unverdicted con bars now rows k"
  have each: "failing (ks_verdict s) \<longleftrightarrow> ?bad (ks_kind s)" if "s \<in> set (kind_table ovs rows)" for s
    using kind_table_rows [OF assms that]
    by (simp add: failing_kind_verdict due_unverdicted_def verdicted_def)
  have present: "k \<in> ks_kind ` set (kind_table ovs rows)" if "?bad k" for k
    using that unfolding kind_table_kinds by (auto simp: due_unverdicted_def count_if_pos)
  show ?thesis
    using each present by (auto simp: resolver_status_def list_ex_iff)
qed

lemma resolver_check_Inr:
  "resolver_check con now readme = Inr (rep, st) \<longleftrightarrow>
     (\<exists>ovs rows early. overdue_rows con now = Inr ovs \<and> db_regime con = Some rows
        \<and> readme_date_check con readme = Inr early
        \<and> rep = \<lparr>rr_table = kind_table ovs rows, rr_late = late_sections (kind_table ovs rows) ovs,
                 rr_quiet = quiet_report rows (kind_table ovs rows) ovs, rr_early = early\<rparr>
        \<and> st = resolver_status (kind_table ovs rows))"
proof (cases "overdue_rows con now")
  case (Inr ovs)
  then obtain rows where "db_regime con = Some rows" by (auto simp: overdue_rows_Inr)
  with Inr show ?thesis
    by (cases "readme_date_check con readme") (auto simp: resolver_check_def per_kind_status_def)
qed (simp add: resolver_check_def)

section \<open>Sample tables\<close>

definition call_row :: "int \<Rightarrow> string \<Rightarrow> int option \<Rightarrow> int option \<Rightarrow> regime_row" where
  "call_row i k resolved superseded =
     \<lparr>ro_id = i, ro_symbol = 1, ro_kind = k, ro_ts = 86400 * 100, ro_day = 100, ro_horizon_days = 2,
      ro_historical = 0, ro_resolved = resolved, ro_actual = None, ro_correct = None,
      ro_naive = None, ro_revision = None, ro_superseded = superseded\<rparr>"

definition two_bars :: "bar_row list" where
  "two_bars = map (\<lambda>i. \<lparr>bar_symbol = 1, bar_tf = ''1d'', bar_ts = 86400 * (100 + i)\<rparr>) [1, 2]"

definition stuck_db :: database where
  "stuck_db = empty_db \<lparr>db_bars := Some two_bars, db_has_superseded := True,
     db_regime := Some [call_row 1 ''vol21'' None None, call_row 2 ''vol21'' None (Some 1),
                        call_row 3 ''trend21'' (Some 9) None]\<rparr>"

lemmas sample_defs = stuck_db_def empty_db_def call_row_def two_bars_def

lemma stuck_overdue:
  "overdue_rows stuck_db 9200000 =
     Inr [\<lparr>ov_id = 1, ov_symbol = 1, ov_kind = ''vol21'', ov_ts = 8640000, ov_horizon_days = 2,
           ov_forward_bars = 2, ov_days_overdue = 3\<rparr>]"
  by (simp add: sample_defs overdue_defs forward_bars_def gate_secs_def GRACE_DAYS_def
      not_quarantined_def)

section \<open>Properties of the check\<close>

lemma late_rows_are_late:
  assumes "overdue_rows con now = Inr ovs" and "v \<in> set ovs"
  shows "GRACE_DAYS \<le> ov_days_overdue v" and "ov_horizon_days v \<le> ov_forward_bars v"
  using assms by (auto simp: overdue_rows_Inr is_overdue_def overdue_of_def GRACE_DAYS_def)

text \<open>
  C27. The check exits with 1 exactly when some kind has an overdue row and fewer than four graded rows
  for each overdue one, whatever else the tables hold; every row it lists has had both gates open
  for at least the two days of grace.
\<close>

theorem resolver_alarms_exactly:
  assumes "resolver_check con now readme = Inr (rep, st)"
    and "db_regime con = Some rows" and "db_bars con = Some bars"
  shows "st = (if \<exists>k. 0 < due_unverdicted con bars now rows k
                 \<and> verdicted rows k < 4 * due_unverdicted con bars now rows k then 1 else 0)
    \<and> list_all (\<lambda>(k, n, vs). list_all (\<lambda>v. GRACE_DAYS \<le> ov_days_overdue v
            \<and> ov_horizon_days v \<le> ov_forward_bars v) vs) (rr_late rep)"
proof -
  obtain ovs where ovs: "overdue_rows con now = Inr ovs"
    and st: "st = resolver_status (kind_table ovs rows)"
    and late: "rr_late rep = late_sections (kind_table ovs rows) ovs"
    using assms by (auto simp: resolver_check_Inr)
  show ?thesis
    unfolding st late status_of_table [OF ovs assms(2,3)]
    by (auto simp: late_sections_def list_all_iff set_group_by late_rows_are_late [OF ovs]
        dest!: in_set_takeD)
qed

lemma stuck_check:
  "\<exists>rep. resolver_check stuck_db 9200000 None = Inr (rep, 1)"
proof -
  have "kind_verdict 1 0 = DeadArm" by (simp add: kind_verdict_def)
  then show ?thesis
    using stuck_overdue
    by (simp add: resolver_check_Inr readme_date_check_def)
       (simp add: sample_defs kind_table_def kind_entry_def group_by_def resolver_status_def failing_def)
qed

theorem resolver_alarms_exactly_witness:
  "\<exists>k. 0 < due_unverdicted stuck_db two_bars 9200000 (the (db_regime stuck_db)) k"
proof -
  obtain rep where r: "resolver_check stuck_db 9200000 None = Inr (rep, 1)"
    using stuck_check by blast
  have t: "db_regime stuck_db = Some (the (db_regime stuck_db))" "db_bars stuck_db = Some two_bars"
    by (simp_all add: stuck_db_def)
  show ?thesis using resolver_alarms_exactly [OF r t] by (metis zero_neq_one)
qed

text \<open>Rows the worker never grades: superseded or quarantined, and without a verdict.\<close>

definition declined :: "database \<Rightarrow> regime_row \<Rightarrow> bool" where
  "declined con r \<longleftrightarrow>
     ro_resolved r = None \<and> (ro_superseded r \<noteq> None \<or> \<not> not_quarantined con r)"

lemma overdue_kept:
  assumes "list_all (\<lambda>r. keep r \<or> declined con r) rows"
  shows "filter (is_overdue con bars now) (filter keep rows) = filter (is_overdue con bars now) rows"
    and "verdicted (filter keep rows) k = verdicted rows k"
proof -
  have "keep r" if "r \<in> set rows" and "is_overdue con bars now r \<or> ro_resolved r \<noteq> None" for r
    using assms that by (auto simp: list_all_iff declined_def is_overdue_def)
  then show "filter (is_overdue con bars now) (filter keep rows) = filter (is_overdue con bars now) rows"
    and "verdicted (filter keep rows) k = verdicted rows k"
    by (auto simp: verdicted_def count_if_def intro!: filter_cong arg_cong [where f = length])
qed

lemma is_overdue_regime [simp]:
  "is_overdue (con \<lparr>db_regime := x\<rparr>) bars now r = is_overdue con bars now r"
  by (simp add: is_overdue_def not_quarantined_def)

text \<open>
  Rows the worker declines for good (superseded or quarantined, and without a verdict) never alter
  the outcome: with any of them taken out of the table, the overdue rows and the exit status are
  the same.
\<close>

theorem declined_rows_raise_no_alarm:
  assumes "resolver_check con now readme = Inr (rep, st)"
    and "resolver_check (con \<lparr>db_regime := Some (filter keep rows)\<rparr>) now readme' = Inr (rep', st')"
    and "db_regime con = Some rows"
    and "list_all (\<lambda>r. keep r \<or> declined con r) rows"
  shows "st' = st \<and>
    overdue_rows (con \<lparr>db_regime := Some (filter keep rows)\<rparr>) now = overdue_rows con now"
proof -
  let ?con = "con \<lparr>db_regime := Some (filter keep rows)\<rparr>"
  note kept = overdue_kept [OF assms(4)]
  have same: "overdue_rows ?con now = overdue_rows con now"
    using assms(3) kept(1)
    by (simp add: overdue_rows_def del: filter_filter cong: filter_cong split: option.splits bool.splits)
  obtain ovs where ovs: "overdue_rows con now = Inr ovs" "st = resolver_status (kind_table ovs rows)"
    using assms(1,3) by (auto simp: resolver_check_Inr)
  then obtain bars where bars: "db_bars con = Some bars" by (auto simp: overdue_rows_Inr)
  have st': "st' = resolver_status (kind_table ovs (filter keep rows))"
    using assms(2) ovs(1) same by (auto simp: resolver_check_Inr)
  have due: "due_unverdicted ?con bars now (filter keep rows) = due_unverdicted con bars now rows"
  proof
    fix k
    have "count_if (\<lambda>r. ro_kind r = k) (filter (is_overdue con bars now) (filter keep rows))
        = count_if (\<lambda>r. ro_kind r = k) (filter (is_overdue con bars now) rows)"
      by (simp only: kept(1))
    then show "due_unverdicted ?con bars now (filter keep rows) k = due_unverdicted con bars now rows k"
      by (simp add: due_unverdicted_def conj_assoc)
  qed
  have "resolver_status (kind_table ovs (filter keep rows)) = resolver_status (kind_table ovs rows)"
    using status_of_table [of ?con now ovs "filter keep rows" bars]
      status_of_table [OF ovs(1) assms(3) bars] same ovs(1) bars
    by (simp add: due kept(2))
  then show ?thesis using st' ovs(2) same by simp
qed

theorem declined_rows_raise_no_alarm_witness:
  "\<exists>rep' st'. resolver_check (stuck_db \<lparr>db_regime :=
     Some (filter (\<lambda>r. ro_superseded r = None) (the (db_regime stuck_db)))\<rparr>) 9200000 None = Inr (rep', st') \<and> st' = 1"
proof -
  let ?con = "stuck_db \<lparr>db_regime := Some (filter (\<lambda>r. ro_superseded r = None) (the (db_regime stuck_db)))\<rparr>"
  obtain rep where r: "resolver_check stuck_db 9200000 None = Inr (rep, 1)" using stuck_check by blast
  have "overdue_rows ?con 9200000 \<noteq> Inl e" for e by (simp add: overdue_rows_def stuck_db_def)
  then obtain ovs where "overdue_rows ?con 9200000 = Inr ovs" by (cases "overdue_rows ?con 9200000") auto
  then obtain rep' st' where r': "resolver_check ?con 9200000 None = Inr (rep', st')"
    by (auto simp: resolver_check_Inr readme_date_check_def)
  have "st' = 1"
    using declined_rows_raise_no_alarm [OF r r'] by (simp add: sample_defs declined_def)
  then show ?thesis using r' by blast
qed

text \<open>
  A resolver that has died is reported: let a call stand without verdict, supersession or
  quarantine, let no call of its kind have a verdict and let its bars have printed. Then every run
  from two days after its calendar gate exits with 1, whatever the README says.
\<close>

theorem dead_resolver_is_reported:
  assumes "db_regime con = Some rows" and "db_bars con = Some bars" and "db_has_superseded con"
    and "r \<in> set rows" and "ro_superseded r = None" and "not_quarantined con r"
    and "list_all (\<lambda>r'. ro_kind r' = ro_kind r \<longrightarrow> ro_resolved r' = None) rows"
    and "ro_horizon_days r \<le> forward_bars bars r"
    and "ro_ts r + gate_secs (ro_horizon_days r) + GRACE_DAYS * 86400 \<le> now"
  shows "resolver_main (Some con) now readme = 1"
proof (cases "resolver_check con now readme")
  case (Inr out)
  obtain rep st where out: "out = (rep, st)" by (cases out)
  obtain ovs where ovs: "overdue_rows con now = Inr ovs" "st = resolver_status (kind_table ovs rows)"
    using Inr out assms(1) by (auto simp: resolver_check_Inr)
  have "is_overdue con bars now r" using assms by (auto simp: is_overdue_def list_all_iff)
  then have "0 < due_unverdicted con bars now rows (ro_kind r)"
    using assms(4) by (auto simp: due_unverdicted_def count_if_pos)
  moreover have "verdicted rows (ro_kind r) = 0"
    using assms(7) by (auto simp: verdicted_def count_if_zero list_all_iff)
  ultimately have "\<exists>k. 0 < due_unverdicted con bars now rows k
      \<and> verdicted rows k < 4 * due_unverdicted con bars now rows k"
    by (intro exI [of _ "ro_kind r"]) simp
  then have "st = 1" using status_of_table [OF ovs(1) assms(1,2)] ovs(2) by simp
  then show ?thesis using Inr out by (simp add: resolver_main_def)
qed (simp add: resolver_main_def)

theorem dead_resolver_is_reported_witness:
  "resolver_main (Some stuck_db) 99200000 (Some ''| vol21 | x | PENDING (first grade 1970-99-99'') = 1"
  by (rule dead_resolver_is_reported
      [where rows = "the (db_regime stuck_db)" and bars = two_bars and r = "call_row 1 ''vol21'' None None"])
     (simp_all add: sample_defs forward_bars_def gate_secs_def GRACE_DAYS_def not_quarantined_def)

lemma seconds_nonzero: "(86400 :: int) \<noteq> 0" by simp

lemma split_seconds:
  fixes x :: int
  assumes "x = 86400 * a + r" and "n = 20 * q + m"
  shows "x + 86400 * d + 4320 * n = 86400 * (a + d + q) + (r + 4320 * m)"
  unfolding assms by (simp add: algebra_simps)

text \<open>
  The grader's own date for a pending structural predictor is never later than the day its gate
  opens: it is early by nine twentieths of the horizon, up to a day.
\<close>

theorem published_first_grade_is_early:
  "(to_first_ts t + gate_secs (to_days t)) div 86400 - first_grade_day t
     \<in> {9 * to_days t div 20, 9 * to_days t div 20 + 1}"
proof -
  let ?x = "to_first_ts t" and ?d = "to_days t"
  have parts: "?x = 86400 * (?x div 86400) + ?x mod 86400" "9 * ?d = 20 * (9 * ?d div 20) + 9 * ?d mod 20"
    by simp_all
  have "?x + gate_secs ?d = ?x + 86400 * ?d + 4320 * (9 * ?d)" by (simp add: gate_secs_def)
  also have "\<dots> = 86400 * (?x div 86400 + ?d + 9 * ?d div 20) + (?x mod 86400 + 4320 * (9 * ?d mod 20))"
    by (rule split_seconds [OF parts])
  finally have "(?x + gate_secs ?d) div 86400
      = ?x div 86400 + ?d + 9 * ?d div 20 + (?x mod 86400 + 4320 * (9 * ?d mod 20)) div 86400"
    by (simp only: div_mult_self4 [OF seconds_nonzero])
  moreover have "(?x mod 86400 + 4320 * (9 * ?d mod 20)) div 86400 \<in> {0, 1}"
  proof -
    have "0 \<le> ?x mod 86400" "?x mod 86400 < 86400" "0 \<le> 9 * ?d mod 20" "9 * ?d mod 20 < 20"
      by simp_all
    then have "0 \<le> ?x mod 86400 + 4320 * (9 * ?d mod 20)" "?x mod 86400 + 4320 * (9 * ?d mod 20) < 2 * 86400"
      by linarith+
    then show ?thesis by (auto simp: div_pos_geq)
  qed
  ultimately show ?thesis by (auto simp: first_grade_day_def SECONDS_PER_DAY_def)
qed

text \<open>
  The text above \<open>overdue_rows\<close> promises 2 when the check could not run; on a database without the
  table of bars the statement raises, and an exception nobody catches ends the process with 1, the
  status of a dead resolver.
\<close>

lemma missing_table_reads_as_dead:
  "db_bars con = None \<Longrightarrow> resolver_main (Some con) now readme = 1"
  by (simp add: resolver_main_def resolver_check_def overdue_rows_def split: option.splits)

end
