(* ===== verification/Public_Certificate.thy ===== *)
theory Public_Certificate
  imports Public_Record
begin

text \<open>
  What the verifier of the public record shows. The walk over the pages of a site is one walk over the
  ledger the site serves; a walk that passes read exactly the range, each entry linked to the hash of
  those before it and every statement naming the hash at its place; two ledgers that pass against the
  same statements carry the same forecasts. A run that exits with 0 certifies all of the record. The
  loop over the pages ends when the pages make progress, and not otherwise.
\<close>

section \<open>What a passing walk shows\<close>

fun walk_all :: "statement list \<Rightarrow> int \<Rightarrow> walk \<Rightarrow> ledger_entry list \<Rightarrow> report_note + walk" where
  "walk_all stmts lo w [] = Inr w"
| "walk_all stmts lo w (e # es) =
     (case walk_entry stmts lo w e of Inl n \<Rightarrow> Inl n | Inr w' \<Rightarrow> walk_all stmts lo w' es)"

lemma walk_page_all: "walk_page stmts lo hi w es = walk_all stmts lo w (takeWhile (\<lambda>e. le_seq e \<le> hi) es)"
  by (induction es arbitrary: w) (auto split: sum.splits)

lemma walk_all_append:
  "walk_all stmts lo w (xs @ ys) =
     (case walk_all stmts lo w xs of Inl n \<Rightarrow> Inl n | Inr w' \<Rightarrow> walk_all stmts lo w' ys)"
  by (induction xs arbitrary: w) (auto split: sum.splits)

text \<open>The hash of a ledger recomputed from its entries' payloads alone.\<close>

definition hash_after :: "string \<Rightarrow> ledger_entry list \<Rightarrow> string" where
  "hash_after = foldl entry_hash"

lemma hash_after_simps [simp]:
  "hash_after h [] = h"
  "hash_after h (e # es) = hash_after (entry_hash h e) es"
  "hash_after h (es @ es') = hash_after (hash_after h es) es'"
  by (simp_all add: hash_after_def)

fun linked :: "statement list \<Rightarrow> int \<Rightarrow> string \<Rightarrow> int \<Rightarrow> ledger_entry list \<Rightarrow> bool" where
  "linked stmts lo h n [] \<longleftrightarrow> True"
| "linked stmts lo h n (e # es) \<longleftrightarrow>
     le_seq e = n \<and> le_prev e = h \<and> le_hash e = entry_hash h e
     \<and> (\<forall>st \<in> set stmts. st_seq st = n \<longrightarrow> lo \<le> n \<longrightarrow> st_head st = entry_hash h e)
     \<and> linked stmts lo (entry_hash h e) (n + 1) es"

definition walked :: "walk \<Rightarrow> ledger_entry list \<Rightarrow> walk" where
  "walked w es = \<lparr>wk_running = hash_after (wk_running w) es, wk_expect = wk_expect w + int (length es),
     wk_seen = wk_seen w @ map seen_of es\<rparr>"

lemma walk_entry_Inr:
  "walk_entry stmts lo w e = Inr w' \<longleftrightarrow> linked stmts lo (wk_running w) (wk_expect w) [e] \<and> w' = walked w [e]"
  by (auto simp: walk_entry_def walked_def find_None_iff find_Some_iff split: option.splits)

lemma walked_simps [simp]:
  "walked w [] = w"
  "walked (walked w xs) ys = walked w (xs @ ys)"
  "wk_running (walked w es) = hash_after (wk_running w) es"
  "wk_expect (walked w es) = wk_expect w + int (length es)"
  "wk_seen (walked w es) = wk_seen w @ map seen_of es"
  by (simp_all add: walked_def)

lemma walk_all_Inr:
  "walk_all stmts lo w es = Inr w' \<longleftrightarrow> linked stmts lo (wk_running w) (wk_expect w) es \<and> w' = walked w es"
proof (induction es arbitrary: w)
  case (Cons e es)
  show ?case
  proof (cases "walk_entry stmts lo w e")
    case (Inl n)
    then have "\<not> linked stmts lo (wk_running w) (wk_expect w) [e]"
      using walk_entry_Inr [of stmts lo w e "walked w [e]"] by simp
    with Inl show ?thesis by auto
  next
    case (Inr v)
    then have "v = walked w [e]" "linked stmts lo (wk_running w) (wk_expect w) [e]"
      using walk_entry_Inr [of stmts lo w e v] by simp_all
    with Inr Cons [of v] show ?thesis by simp
  qed
qed auto

lemma linked_seqs: "linked stmts lo h n es \<Longrightarrow> map le_seq es = [n .. n + int (length es) - 1]"
  by (induction es arbitrary: h n) (auto simp: upto_rec1)

lemma linked_nth:
  assumes "linked stmts lo h n es" "i < length es"
  shows "le_seq (es ! i) = n + int i \<and> le_prev (es ! i) = hash_after h (take i es)
     \<and> le_hash (es ! i) = hash_after h (take (Suc i) es)
     \<and> (\<forall>st \<in> set stmts. st_seq st = n + int i \<longrightarrow> lo \<le> n + int i \<longrightarrow> st_head st = hash_after h (take (Suc i) es))"
  using assms
proof (induction es arbitrary: h n i)
  case (Cons e es)
  then show ?case
    by (cases i) (auto simp: add.assoc [symmetric] dest: Cons.IH [of "entry_hash h e" "n + 1"])
qed simp

lemma linked_bound:
  "linked stmts lo h n es \<Longrightarrow> \<forall>e \<in> set es. le_seq e \<le> hi \<Longrightarrow> n \<le> hi + 1 \<Longrightarrow> n + int (length es) \<le> hi + 1"
  by (induction es arbitrary: h n) fastforce+

lemma linked_append:
  "linked stmts lo h n (xs @ ys) \<longleftrightarrow>
     linked stmts lo h n xs \<and> linked stmts lo (hash_after h xs) (n + int (length xs)) ys"
  by (induction xs arbitrary: h n) (auto simp: add.assoc)

lemma walk_page_Inr:
  assumes "walk_page stmts lo hi w es = Inr w'"
  shows "\<exists>xs. linked stmts lo (wk_running w) (wk_expect w) xs \<and> w' = walked w xs
     \<and> (wk_expect w \<le> hi + 1 \<longrightarrow> wk_expect w' \<le> hi + 1)"
  using assms linked_bound [of stmts lo "wk_running w" "wk_expect w" "takeWhile (\<lambda>e. le_seq e \<le> hi) es" hi]
  by (auto simp: walk_page_all walk_all_Inr dest: set_takeWhileD
      intro!: exI [of _ "takeWhile (\<lambda>e. le_seq e \<le> hi) es"])

definition chain_shown :: "statement list \<Rightarrow> int \<Rightarrow> int \<Rightarrow> walk \<Rightarrow> seen_entry list \<Rightarrow> ledger_entry list \<Rightarrow> bool" where
  "chain_shown stmts lo hi w seen es \<longleftrightarrow>
     linked stmts lo (wk_running w) (wk_expect w) es \<and> wk_expect w + int (length es) = hi + 1
     \<and> seen = wk_seen w @ map seen_of es"

lemma chain_shown_walked:
  "linked stmts lo (wk_running w) (wk_expect w) xs \<Longrightarrow> chain_shown stmts lo hi (walked w xs) seen es
   \<Longrightarrow> chain_shown stmts lo hi w seen (xs @ es)"
  by (auto simp: chain_shown_def linked_append add.assoc)

lemmas chain_loop_induct = chain_loop.raw_induct [rotated, consumes 1, case_names turn]

lemma chain_loop_sound:
  assumes "chain_loop stmts site lo hi k nxt w = Some r" "r = ChainOk seen" "wk_expect w \<le> hi + 1"
  shows "\<exists>es. chain_shown stmts lo hi w seen es"
  using assms
proof (induction stmts site lo hi k nxt w r rule: chain_loop_induct)
  case (turn f stmts site lo hi k nxt w r)
  note IH = turn(1) and eq = turn(2) and r = turn(3) and bound = turn(4)
  show ?case
  proof (cases "hi < wk_expect w")
    case True
    with eq r bound show ?thesis by (auto simp: chain_shown_def intro!: exI [of _ "[]"])
  next
    case False
    with eq r obtain es pnext w' where w: "walk_page stmts lo hi w es = Inr w'"
      and f: "f stmts site lo hi (Suc k) (next_from pnext (wk_expect w')) w' = Some r"
      by (auto split: fetched.splits sum.splits if_splits)
    obtain xs where xs: "linked stmts lo (wk_running w) (wk_expect w) xs" "w' = walked w xs"
      "wk_expect w' \<le> hi + 1"
      using walk_page_Inr [OF w] bound by auto
    from IH [OF f r] xs show ?thesis by (auto dest: chain_shown_walked)
  qed
qed

section \<open>A site that serves one ledger\<close>

text \<open>
  \<open>ledgerRange\<close> of \<open>daemon/internal/api/ledger.go\<close>: the entries from a sequence number on, in their
  order and at most \<open>limit\<close>, and where the next page starts when this one is full.
\<close>

definition serve :: "nat \<Rightarrow> ledger_entry list \<Rightarrow> site" where
  "serve limit ledger k from =
     (if from < 1 then FetchFailed
      else let es = take limit (filter (\<lambda>e. from \<le> le_seq e) ledger)
           in Page es (if length es = limit then Some (le_seq (last es) + 1) else None))"

definition ordered_ledger :: "ledger_entry list \<Rightarrow> bool" where
  "ordered_ledger ledger \<longleftrightarrow> sorted_wrt (<) (map le_seq ledger) \<and> (\<forall>e \<in> set ledger. 1 \<le> le_seq e)"

text \<open>The specification: one walk over the entries of the range.\<close>

definition ledger_slice :: "int \<Rightarrow> int \<Rightarrow> ledger_entry list \<Rightarrow> ledger_entry list" where
  "ledger_slice lo hi = filter (\<lambda>e. lo \<le> le_seq e \<and> le_seq e \<le> hi)"

definition close_walk :: "int \<Rightarrow> report_note + walk \<Rightarrow> chain_result" where
  "close_walk hi r =
     (case r of
        Inl n \<Rightarrow> ChainBad KFail n
      | Inr w \<Rightarrow> if wk_expect w \<le> hi then ChainBad KFail (EndsEarly (wk_expect w - 1) hi)
                else ChainOk (wk_seen w))"

definition one_walk :: "statement list \<Rightarrow> int \<Rightarrow> int \<Rightarrow> walk \<Rightarrow> ledger_entry list \<Rightarrow> chain_result" where
  "one_walk stmts lo hi w ledger = close_walk hi (walk_all stmts lo w (ledger_slice lo hi ledger))"

lemma filter_from_drop:
  assumes "sorted_wrt (<) (map le_seq es)" "0 < m" "m \<le> length es"
  shows "filter (\<lambda>e. le_seq (last (take m es)) + 1 \<le> le_seq e) es = drop m es"
proof -
  let ?l = "le_seq (last (take m es))"
  have l: "last (take m es) = es ! (m - 1)"
    using assms by (subst last_conv_nth) (auto simp: min_absorb2)
  have s: "le_seq (es ! i) < le_seq (es ! j)" if "i < j" "j < length es" for i j
    using assms(1) that by (auto simp: sorted_wrt_iff_nth_less)
  have "\<forall>e \<in> set (take m es). \<not> ?l + 1 \<le> le_seq e"
  proof
    fix e assume "e \<in> set (take m es)"
    then obtain i where "i < m" "e = es ! i" using assms(3) by (auto simp: in_set_conv_nth)
    then show "\<not> ?l + 1 \<le> le_seq e"
      using l s [of i "m - 1"] assms(2,3) by (cases "i = m - 1") (simp, fastforce)
  qed
  moreover have "\<forall>e \<in> set (drop m es). ?l + 1 \<le> le_seq e"
  proof
    fix e assume "e \<in> set (drop m es)"
    then obtain i where "i < length es - m" "e = es ! (m + i)" by (auto simp: in_set_conv_nth)
    moreover have "m - 1 < m + i" "m + i < length es" using assms(2) \<open>i < length es - m\<close> by linarith+
    ultimately show "?l + 1 \<le> le_seq e" using l s [of "m - 1" "m + i"] by simp
  qed
  ultimately have "filter (\<lambda>e. ?l + 1 \<le> le_seq e) (take m es @ drop m es) = drop m es"
    by (simp only: filter_append) (simp add: filter_id_conv)
  then show ?thesis by simp
qed

lemma takeWhile_split:
  assumes "sorted_wrt (<) (map le_seq (xs @ ys))"
  shows "takeWhile (\<lambda>e. le_seq e \<le> hi) (xs @ ys)
     = takeWhile (\<lambda>e. le_seq e \<le> hi) xs @ takeWhile (\<lambda>e. le_seq e \<le> (hi :: int)) ys"
proof (cases "\<forall>e \<in> set xs. le_seq e \<le> hi")
  case True
  then have "takeWhile (\<lambda>e. le_seq e \<le> hi) xs = xs" using takeWhile_eq_all_conv by fast
  with True show ?thesis by (simp del: takeWhile_eq_all_conv)
next
  case False
  then obtain x where x: "x \<in> set xs" "\<not> le_seq x \<le> hi" by blast
  then have "\<forall>y \<in> set ys. hi < le_seq y"
    using assms by (fastforce simp: sorted_wrt_append)
  then have "takeWhile (\<lambda>e. le_seq e \<le> hi) ys = []" by (cases ys) auto
  then show ?thesis using x by (simp add: takeWhile_append1)
qed

lemma chain_loop_done: "hi < wk_expect w \<Longrightarrow> chain_loop stmts site lo hi k nxt w = Some (ChainOk (wk_seen w))"
  by (simp add: chain_loop.simps)

text \<open>Reading the ledger page by page is the one walk over what is left of it.\<close>

lemma paged_loop:
  assumes "ordered_ledger ledger" "0 < limit" "1 \<le> nxt"
    "\<forall>e \<in> set (filter (\<lambda>e. nxt \<le> le_seq e) ledger). wk_expect w \<le> le_seq e"
  shows "chain_loop stmts (serve limit ledger) lo hi k nxt w =
     Some (close_walk hi (walk_all stmts lo w
       (takeWhile (\<lambda>e. le_seq e \<le> hi) (filter (\<lambda>e. nxt \<le> le_seq e) ledger))))"
  using assms(3,4)
proof (induction "length (filter (\<lambda>e. nxt \<le> le_seq e) ledger)" arbitrary: k nxt w rule: less_induct)
  case less
  define R where "R = filter (\<lambda>e. nxt \<le> le_seq e) ledger"
  define T :: "ledger_entry list \<Rightarrow> ledger_entry list" where "T = takeWhile (\<lambda>e. le_seq e \<le> hi)"
  have so: "sorted_wrt (<) (map le_seq R)"
    using assms(1) by (auto simp: R_def ordered_ledger_def sorted_wrt_map intro: sorted_wrt_filter)
  have ge: "\<forall>e \<in> set R. wk_expect w \<le> le_seq e" using less.prems by (simp add: R_def)
  show ?case
  proof (cases "hi < wk_expect w")
    case True
    then have "T R = []" using ge by (cases R) (auto simp: T_def)
    with True show ?thesis by (simp add: chain_loop_done close_walk_def T_def R_def)
  next
    case False
    define es where "es = take limit R"
    have page: "serve limit ledger k nxt = Page es (if length es = limit then Some (le_seq (last es) + 1) else None)"
      using less.prems by (simp add: serve_def es_def R_def Let_def)
    have wp: "walk_page stmts lo hi w es = walk_all stmts lo w (T es)"
      by (simp add: walk_page_all T_def)
    show ?thesis
    proof (cases "length es = limit")
      case False
      then have "es = R" by (simp add: es_def min_def split: if_splits)
      with False \<open>\<not> hi < wk_expect w\<close> page wp show ?thesis
        by (subst chain_loop.simps)
          (auto simp: close_walk_def chain_loop_done T_def R_def split: sum.splits)
    next
      case True
      define R' where "R' = drop limit R"
      define nxt' where "nxt' = le_seq (last es) + 1"
      have len: "limit \<le> length R" using True by (simp add: es_def)
      have R: "R = es @ R'" by (simp add: es_def R'_def)
      have "es \<noteq> []" using True assms(2) by auto
      then have le: "last es \<in> set es" "last es \<in> set R" using R by auto
      then have pos: "nxt \<le> le_seq (last es)" "1 \<le> nxt'" using less.prems by (auto simp: R_def nxt'_def)
      have "filter (\<lambda>e. nxt' \<le> le_seq e) R = R'"
        using filter_from_drop [OF so assms(2) len] by (simp add: nxt'_def es_def R'_def)
      then have R': "filter (\<lambda>e. nxt' \<le> le_seq e) ledger = R'"
        using pos by (auto simp: R_def nxt'_def intro!: filter_cong)
      have T: "T R = T es @ T R'" using takeWhile_split so unfolding R T_def by blast
      show ?thesis
      proof (cases "walk_all stmts lo w (T es)")
        case (Inl n)
        with \<open>\<not> hi < wk_expect w\<close> page wp T show ?thesis
          by (subst chain_loop.simps) (simp add: walk_all_append close_walk_def R_def [symmetric] T_def [symmetric])
      next
        case (Inr w')
        have w': "linked stmts lo (wk_running w) (wk_expect w) (T es)" "w' = walked w (T es)"
          using Inr by (simp_all add: walk_all_Inr)
        have "wk_expect w' \<le> le_seq y" if y: "y \<in> set R'" for y
        proof -
          have "\<forall>e \<in> set (T es). le_seq e \<le> le_seq y - 1"
            using so y unfolding R T_def by (fastforce simp: sorted_wrt_append dest: set_takeWhileD)
          with linked_bound [OF w'(1)] ge y R w'(2) show ?thesis by fastforce
        qed
        then have "chain_loop stmts (serve limit ledger) lo hi (Suc k) nxt' w' = Some (close_walk hi (walk_all stmts lo w' (T R')))"
          using less.hyps [of nxt' w' "Suc k"] R' pos \<open>es \<noteq> []\<close> R unfolding R_def [symmetric] T_def by simp
        moreover have "next_from (Some (le_seq (last es) + 1)) (wk_expect w') = nxt'"
          using pos less.prems by (simp add: next_from_def nxt'_def)
        ultimately show ?thesis
          using \<open>\<not> hi < wk_expect w\<close> page wp T Inr True
          by (subst chain_loop.simps) (simp add: walk_all_append R_def [symmetric] T_def [symmetric])
      qed
    qed
  qed
qed


lemma ordered_slice:
  assumes "ordered_ledger ledger"
  shows "takeWhile (\<lambda>e. le_seq e \<le> hi) (filter (\<lambda>e. lo \<le> le_seq e) ledger) = ledger_slice lo hi ledger"
proof -
  have "takeWhile (\<lambda>e. le_seq e \<le> hi) es = filter (\<lambda>e. le_seq e \<le> hi) es"
    if "sorted_wrt (<) (map le_seq es)" for es :: "ledger_entry list"
    using that by (induction es) (auto simp: filter_empty_conv intro!: filter_False [symmetric])
  moreover have "sorted_wrt (<) (map le_seq (filter (\<lambda>e. lo \<le> le_seq e) ledger))"
    using assms by (simp add: ordered_ledger_def sorted_wrt_map sorted_wrt_filter)
  ultimately show ?thesis
    by (simp add: ledger_slice_def conj_commute)
qed

lemma chain_start_simps [simp]:
  "wk_expect (chain_start stmts n) = chain_low stmts n"
  "wk_seen (chain_start stmts n) = []"
  by (simp_all add: chain_start_def)

lemma chain_loop_serve:
  assumes "ordered_ledger ledger" "0 < limit" "1 \<le> chain_low stmts n"
  shows "chain_loop stmts (serve limit ledger) (chain_low stmts n) hi k (chain_low stmts n) (chain_start stmts n)
    = Some (one_walk stmts (chain_low stmts n) hi (chain_start stmts n) ledger)"
  using paged_loop [OF assms(1,2,3)] by (simp add: ordered_slice [OF assms(1)] one_walk_def)

definition seen_entries :: "chain_result \<Rightarrow> seen_entry list option" where
  "seen_entries r = (case r of ChainOk seen \<Rightarrow> Some seen | ChainBad _ _ \<Rightarrow> None)"

text \<open>
  C21. Against a site that serves a ledger in pages of any size, the check gives what one walk over the
  entries of the range gives.
\<close>

theorem paged_check_is_one_walk:
  assumes "ordered_ledger ledger" "0 < limit" "1 \<le> chain_low stmts n"
  shows "check_chain (serve limit ledger) stmts n =
     (let r = one_walk stmts (chain_low stmts n) (chain_high stmts) (chain_start stmts n) ledger
      in Some (seen_entries r, chain_report stmts n r))"
  using chain_loop_serve [OF assms] by (simp add: check_chain_def seen_entries_def Let_def)

text \<open>
  A site may send the reader on for ever. It does not when every page that names a next one starts
  with an entry of the range.
\<close>

definition pages_progress :: "int \<Rightarrow> site \<Rightarrow> bool" where
  "pages_progress hi site \<longleftrightarrow>
     (\<forall>k n es m. site k n = Page es (Some m) \<longrightarrow> (\<exists>e es'. es = e # es' \<and> le_seq e \<le> hi))"

lemma chain_loop_returns:
  assumes "pages_progress hi site"
  shows "\<exists>r. chain_loop stmts site lo hi k nxt w = Some r"
proof (induction "nat (hi + 1 - wk_expect w)" arbitrary: k nxt w rule: less_induct)
  case less
  show ?case
  proof (cases "hi < wk_expect w")
    case True
    then show ?thesis by (simp add: chain_loop_done)
  next
    case False
    have "\<exists>r. chain_loop stmts site lo hi (Suc k) nxt' w' = Some r"
      if page: "site k nxt = Page es p" and go: "walk_page stmts lo hi w es = Inr w'"
        and on: "\<not> (wk_expect w' \<le> hi \<and> p = None)" for es p w' nxt'
    proof (cases p)
      case None
      then show ?thesis using on by (simp add: chain_loop_done)
    next
      case (Some m)
      then obtain e es' where "es = e # es'" "le_seq e \<le> hi"
        using assms page unfolding pages_progress_def by blast
      then have "wk_expect w < wk_expect w'"
        using go by (auto simp: walk_page_all walk_all_Inr simp del: walk_all.simps)
      then show ?thesis using less.hyps [of w' "Suc k" nxt'] False by simp
    qed
    then show ?thesis
      using False by (subst chain_loop.simps) (auto split: fetched.splits sum.splits)
  qed
qed

text \<open>
  C22. The check returns a result whatever else the site answers.
\<close>

theorem check_returns_when_pages_progress:
  "pages_progress (chain_high stmts) site \<Longrightarrow> check_chain site stmts n \<noteq> None"
  using chain_loop_returns by (simp add: check_chain_def)

text \<open>A site whose pages are empty and name a next one holds the reader for ever.\<close>

definition tarpit :: "int \<Rightarrow> site" where
  "tarpit m k n = Page [] (Some m)"

lemma tarpit_loop: "chain_loop stmts (tarpit m) lo hi k nxt w = Some r \<Longrightarrow> hi < wk_expect w"
proof -
  have "site = tarpit m \<Longrightarrow> hi < wk_expect w"
    if "chain_loop stmts site lo hi k nxt w = Some r" for site
    using that
  proof (induction stmts site lo hi k nxt w r rule: chain_loop_induct)
    case (turn f stmts site lo hi k nxt w r)
    show ?case
      using turn(2,3) turn(1) [of stmts site lo hi "Suc k"] by (auto simp: tarpit_def split: if_splits)
  qed
  then show "chain_loop stmts (tarpit m) lo hi k nxt w = Some r \<Longrightarrow> hi < wk_expect w" by blast
qed

theorem tarpit_never_returns:
  "chain_low stmts n \<le> chain_high stmts \<Longrightarrow> check_chain (tarpit m) stmts n = None"
  using tarpit_loop [of stmts m "chain_low stmts n" "chain_high stmts" 0 "chain_low stmts n" "chain_start stmts n"]
  by (cases "chain_loop stmts (tarpit m) (chain_low stmts n) (chain_high stmts) 0 (chain_low stmts n)
       (chain_start stmts n)") (auto simp: check_chain_def)

section \<open>What a passing record certifies\<close>

definition start_head :: "statement list \<Rightarrow> int \<Rightarrow> string" where
  "start_head stmts n = wk_running (chain_start stmts n)"

text \<open>
  The entries that were read are exactly the range, each links to the hash of those before it, and
  every statement of the range names the hash recomputed up to it.
\<close>

definition committed :: "statement list \<Rightarrow> int \<Rightarrow> ledger_entry list \<Rightarrow> bool" where
  "committed stmts n es \<longleftrightarrow>
     (let lo = chain_low stmts n; h = start_head stmts n in
       map le_seq es = [lo .. chain_high stmts]
       \<and> (\<forall>i < length es. le_prev (es ! i) = hash_after h (take i es)
             \<and> le_hash (es ! i) = hash_after h (take (Suc i) es))
       \<and> (\<forall>st \<in> set stmts. lo \<le> st_seq st \<longrightarrow> st_seq st \<le> chain_high stmts \<longrightarrow>
             st_head st = hash_after h (take (nat (st_seq st - lo + 1)) es)))"

lemma linked_committed:
  assumes "linked stmts (chain_low stmts n) (start_head stmts n) (chain_low stmts n) es"
    "chain_low stmts n + int (length es) = chain_high stmts + 1"
  shows "committed stmts n es"
proof -
  let ?lo = "chain_low stmts n"
  have "st_head st = hash_after (start_head stmts n) (take (nat (st_seq st - ?lo + 1)) es)"
    if "st \<in> set stmts" "?lo \<le> st_seq st" "st_seq st \<le> chain_high stmts" for st
  proof -
    define i where "i = nat (st_seq st - ?lo)"
    then have "i < length es" "st_seq st = ?lo + int i" "nat (st_seq st - ?lo + 1) = Suc i"
      using that assms(2) by auto
    with linked_nth [OF assms(1) \<open>i < length es\<close>] that show ?thesis by simp
  qed
  moreover have "map le_seq es = [?lo .. chain_high stmts]"
    using linked_seqs [OF assms(1)] assms(2) by (simp add: algebra_simps)
  ultimately show ?thesis
    using linked_nth [OF assms(1)] by (simp add: committed_def Let_def)
qed

lemma check_chain_ok:
  assumes "check_chain site stmts n = Some (Some seen, evs)"
  shows "chain_loop stmts site (chain_low stmts n) (chain_high stmts) 0 (chain_low stmts n) (chain_start stmts n)
    = Some (ChainOk seen)"
proof -
  obtain r where "chain_loop stmts site (chain_low stmts n) (chain_high stmts) 0 (chain_low stmts n)
      (chain_start stmts n) = Some r"
    using assms by (auto simp: check_chain_def)
  with assms show ?thesis by (cases r) (auto simp: check_chain_def)
qed

lemma check_chain_committed:
  assumes "check_chain site stmts n = Some (Some seen, evs)"
  shows "\<exists>es. seen = map seen_of es \<and> committed stmts n es"
proof -
  let ?lo = "chain_low stmts n" and ?hi = "chain_high stmts" and ?w = "chain_start stmts n"
  have r: "chain_loop stmts site ?lo ?hi 0 ?lo ?w = Some (ChainOk seen)"
    by (rule check_chain_ok [OF assms])
  show ?thesis
  proof (cases "?lo \<le> ?hi + 1")
    case True
    with chain_loop_sound [OF r refl] linked_committed show ?thesis
      by (fastforce simp: chain_shown_def start_head_def)
  next
    case False
    with r have "seen = []" by (simp add: chain_loop_done)
    with False show ?thesis by (intro exI [of _ "[]"]) (simp add: committed_def Let_def)
  qed
qed

theorem passing_chain_is_committed:
  assumes "check_chain site stmts n = Some (Some seen, evs)"
  shows "\<exists>es. seen = map seen_of es \<and> committed stmts n es"
  using assms by (rule check_chain_committed)

text \<open>The texts hashed along a ledger, and that the last hash fixes them where sha256 does not collide.\<close>

fun chain_inputs :: "string \<Rightarrow> ledger_entry list \<Rightarrow> string list" where
  "chain_inputs h [] = []"
| "chain_inputs h (e # es) = (h @ CHR 0x1E # entry_payload e) # chain_inputs (entry_hash h e) es"

lemma chain_inputs_snoc:
  "chain_inputs h (es @ [e]) = chain_inputs h es @ [hash_after h es @ CHR 0x1E # entry_payload e]"
  by (induction es arbitrary: h) simp_all

lemma hash_after_length: "es \<noteq> [] \<Longrightarrow> length (hash_after h es) = 64"
  by (cases es rule: rev_cases) (simp_all add: entry_hash_def sha256_length)

lemma head_fixes_payloads:
  assumes "length es = length es'" "hash_after h es = hash_after h es'"
    "inj_on sha256 (set (chain_inputs h es) \<union> set (chain_inputs h es'))"
  shows "map entry_payload es = map entry_payload es'"
  using assms
proof (induction es arbitrary: es' rule: rev_induct)
  case (snoc e es)
  then obtain d ds where es': "es' = ds @ [d]" "length es = length ds"
    by (cases es' rule: rev_cases) auto
  have "hash_after h es @ CHR 0x1E # entry_payload e = hash_after h ds @ CHR 0x1E # entry_payload d"
    by (rule inj_onD [OF snoc.prems(3)]) (use snoc.prems(2) in \<open>simp_all add: es' entry_hash_def chain_inputs_snoc\<close>)
  moreover have "length (hash_after h es) = length (hash_after h ds)"
    using es'(2) hash_after_length [of es h] hash_after_length [of ds h] by (cases "es = []"; cases "ds = []") auto
  ultimately have "hash_after h es = hash_after h ds" "entry_payload e = entry_payload d" by simp_all
  with snoc.IH [OF es'(2)] snoc.prems(3) show ?case
    by (auto simp: es' chain_inputs_snoc elim: inj_on_subset)
qed simp

lemma ordered_walk_ok:
  assumes "ordered_ledger ledger" "0 < limit" "1 \<le> chain_low stmts n" "chain_low stmts n \<le> chain_high stmts"
    "check_chain (serve limit ledger) stmts n = Some (Some seen, evs)"
  shows "committed stmts n (ledger_slice (chain_low stmts n) (chain_high stmts) ledger)"
proof -
  let ?lo = "chain_low stmts n" and ?hi = "chain_high stmts" and ?w = "chain_start stmts n"
  let ?es = "ledger_slice ?lo ?hi ledger"
  have "one_walk stmts ?lo ?hi ?w ledger = ChainOk seen"
    using check_chain_ok [OF assms(5)] chain_loop_serve [OF assms(1-3)] by simp
  then have l: "linked stmts ?lo (start_head stmts n) ?lo ?es" "?hi < ?lo + int (length ?es)"
    by (auto simp: one_walk_def close_walk_def walk_all_Inr start_head_def split: sum.splits if_splits)
  have "?lo + int (length ?es) \<le> ?hi + 1"
    using linked_bound [OF l(1)] assms(4) by (simp add: ledger_slice_def)
  with l show ?thesis by (intro linked_committed) auto
qed


lemma committed_head:
  assumes "committed stmts n es" "stmts \<noteq> []" "chain_low stmts n \<le> chain_high stmts"
  shows "hash_after (start_head stmts n) es = st_head (last stmts)"
    "int (length es) = chain_high stmts - chain_low stmts n + 1"
proof -
  have "length es = nat (chain_high stmts - chain_low stmts n + 1)"
    using assms(1) by (auto simp: committed_def Let_def dest!: arg_cong [where f = length])
  then show "int (length es) = chain_high stmts - chain_low stmts n + 1" using assms(3) by simp
  with assms show "hash_after (start_head stmts n) es = st_head (last stmts)"
    by (auto simp: committed_def Let_def chain_high_def dest!: bspec [of _ _ "last stmts"])
qed

section \<open>What the hashed text says\<close>

text \<open>A forecast as the text states it: its probabilities are as printed.\<close>

definition forecast_of :: "ledger_entry \<Rightarrow> int \<times> int \<times> string \<times> int \<times> string \<times> string \<times> string \<times> int" where
  "forecast_of e = (le_predicted_at e, le_symbol e, le_horizon e, le_bar_ts e, go_g (le_raw e),
     go_g (le_cal e), le_feature e, le_model e)"

fun decimal_digits :: "shown_float \<Rightarrow> bool" where
  "decimal_digits (Shown neg ds e) = list_all (\<lambda>d. d < 10) ds"
| "decimal_digits _ = True"

definition plain_entry :: "ledger_entry \<Rightarrow> bool" where
  "plain_entry e \<longleftrightarrow> CHR ''|'' \<notin> set (le_horizon e) \<and> CHR ''|'' \<notin> set (le_feature e)
     \<and> decimal_digits (le_raw e) \<and> decimal_digits (le_cal e)"

lemma drop_zeros_digits: "set (fst (drop_zeros ds e)) \<subseteq> set ds"
proof (induction ds e rule: drop_zeros.induct)
  case (1 ds e)
  then show ?case by (subst drop_zeros.simps) (auto dest: in_set_butlastD)
qed

lemma go_digits_no_bar:
  assumes "\<forall>d \<in> set ds. d < 10"
  shows "CHR ''|'' \<notin> set (go_digits ds e)"
proof -
  have "\<forall>c \<in> set (digits_text ds). is_digit c" using assms digit_char_is by (auto simp: digits_text_def)
  then have "CHR ''|'' \<notin> set (digits_text ds)" using is_digit_cases by blast
  then show ?thesis
    using str_int_clean [of "\<bar>e + int (length ds) - 1\<bar>"]
    by (auto simp: go_digits_def Let_def zeros_def pad_left_def dest: in_set_takeD in_set_dropD)
qed

lemma go_g_no_bar:
  assumes "decimal_digits f"
  shows "CHR ''|'' \<notin> set (go_g f)"
proof (cases f)
  case (Shown neg ds e)
  have "set (fst (drop_zeros ds e)) \<subseteq> {d. d < 10}"
    using drop_zeros_digits [of ds e] assms by (auto simp: Shown list_all_iff)
  then show ?thesis
    using go_digits_no_bar [of "fst (drop_zeros ds e)" "snd (drop_zeros ds e)"]
    by (auto simp: Shown case_prod_unfold)
qed auto

lemma bars_of_payload:
  "count_list (entry_payload e) (CHR ''|'') = 7 + count_list (le_horizon e) (CHR ''|'')
     + count_list (le_feature e) (CHR ''|'') + count_list (go_g (le_raw e)) (CHR ''|'')
     + count_list (go_g (le_cal e)) (CHR ''|'')"
proof -
  have "count_list (str_int i) (CHR ''|'') = 0" for i using str_int_clean [of i] by (simp add: count_list_0_iff)
  then show ?thesis by (simp add: entry_payload_def)
qed

lemma payload_determines_forecast:
  assumes "entry_payload e = entry_payload e'" and "plain_entry e"
  shows "forecast_of e = forecast_of e'"
proof -
  have n: "CHR ''|'' \<notin> set (le_horizon e) \<and> CHR ''|'' \<notin> set (le_feature e)
      \<and> CHR ''|'' \<notin> set (go_g (le_raw e)) \<and> CHR ''|'' \<notin> set (go_g (le_cal e))"
    using assms(2) by (simp add: plain_entry_def go_g_no_bar)
  then have "count_list (entry_payload e') (CHR ''|'') = 7"
    using bars_of_payload [of e] by (simp add: assms(1) count_list_0_iff)
  then have n': "CHR ''|'' \<notin> set (le_horizon e') \<and> CHR ''|'' \<notin> set (le_feature e')
      \<and> CHR ''|'' \<notin> set (go_g (le_raw e')) \<and> CHR ''|'' \<notin> set (go_g (le_cal e'))"
    using bars_of_payload [of e'] by (simp add: count_list_0_iff)
  have "CHR ''|'' \<notin> set (str_int i)" for i using str_int_clean by blast
  with assms(1) n n' show ?thesis
    by (simp add: entry_payload_def forecast_of_def split_unique str_int_eq_iff)
qed

text \<open>
  A bar in a text field moves the fields: two entries with different forecasts have one text, so the
  hash of a committed entry whose fields hold bars does not fix its forecast.
\<close>

lemma bar_moves_the_fields:
  assumes "le_horizon e = h @ ''|bar_ts='' @ str_int b @ ''|raw_prob='' @ go_g r @ ''|cal_prob='' @ go_g c
      @ ''|feature_hash='' @ f"
  shows "entry_payload e = entry_payload (e\<lparr>le_horizon := h, le_bar_ts := b, le_raw := r, le_cal := c,
     le_feature := f @ ''|bar_ts='' @ str_int (le_bar_ts e) @ ''|raw_prob='' @ go_g (le_raw e)
       @ ''|cal_prob='' @ go_g (le_cal e) @ ''|feature_hash='' @ le_feature e\<rparr>)"
  by (simp add: entry_payload_def assms)

text \<open>
  C20. Two ledgers that both pass against the same statements hash the same texts over the range,
  unless sha256 collides on the texts hashed along them; and where the text fields of the entries of
  one of them hold no bar, they carry the same forecasts, whatever the other ledger's fields hold.
\<close>

theorem committed_forecasts_cannot_change:
  fixes ledger ledger' stmts n
  defines "lo \<equiv> chain_low stmts n" and "hi \<equiv> chain_high stmts"
  assumes "ordered_ledger ledger" "ordered_ledger ledger'" "0 < limit" "0 < limit'" "stmts \<noteq> []" "1 \<le> lo" "lo \<le> hi"
    and "check_chain (serve limit ledger) stmts n = Some (Some seen, evs)"
    and "check_chain (serve limit' ledger') stmts n = Some (Some seen', evs')"
    and "inj_on sha256 (set (chain_inputs (start_head stmts n) (ledger_slice lo hi ledger))
           \<union> set (chain_inputs (start_head stmts n) (ledger_slice lo hi ledger')))"
  shows "map entry_payload (ledger_slice lo hi ledger) = map entry_payload (ledger_slice lo hi ledger')
    \<and> ((\<forall>e \<in> set (ledger_slice lo hi ledger). plain_entry e)
       \<longrightarrow> map forecast_of (ledger_slice lo hi ledger) = map forecast_of (ledger_slice lo hi ledger'))"
proof -
  let ?es = "ledger_slice lo hi ledger" and ?es' = "ledger_slice lo hi ledger'"
  have c: "committed stmts n ?es" "committed stmts n ?es'"
    using assms ordered_walk_ok by (auto simp: lo_def hi_def)
  have same: "map entry_payload ?es = map entry_payload ?es'"
    using committed_head [OF c(1)] committed_head [OF c(2)] assms
    by (intro head_fixes_payloads [of _ _ "start_head stmts n"]) (simp_all add: lo_def hi_def)
  then have len: "length ?es = length ?es'" by (rule map_eq_imp_length_eq)
  have "entry_payload (?es ! i) = entry_payload (?es' ! i)" if "i < length ?es" for i
    using that same len by (metis nth_map)
  then have "map forecast_of ?es = map forecast_of ?es'" if "\<forall>e \<in> set ?es. plain_entry e"
    using that len by (intro nth_equalityI) (simp_all add: payload_determines_forecast)
  with same show ?thesis by blast
qed

lemma kind_count_0: "kind_count k evs = 0 \<longleftrightarrow> (\<forall>e \<in> set evs. fst e \<noteq> k)"
  by (auto simp: kind_count_def filter_empty_conv)

lemma verdict_status_0:
  "verdict_status evs = 0 \<longleftrightarrow> (\<forall>e \<in> set evs. fst e \<notin> {KFail, KWithheld, KSkip}) \<and> (\<exists>e \<in> set evs. fst e = KPass)"
  by (auto simp: verdict_status_def kind_count_0)

text \<open>The statements a run works with, after their timestamps were read.\<close>

definition timed_statements :: "public_repo \<Rightarrow> statement list" where
  "timed_statements repo = fst (check_tokens repo (fst (check_statements repo)))"

lemma verify_record_evs:
  assumes "verify_record repo site n = Some evs"
  shows "\<exists>evs5. verify_site site (timed_statements repo) n = Some evs5
     \<and> set evs = set (snd (check_statements repo)) \<union> set (snd (check_tokens repo (fst (check_statements repo))))
        \<union> set (check_ots repo (timed_statements repo)) \<union> set (check_history repo (timed_statements repo)) \<union> set evs5"
  using assms
  by (cases "check_statements repo"; cases "check_tokens repo (fst (check_statements repo))")
    (auto simp: verify_record_def timed_statements_def)

lemma chain_loop_bad_kind:
  "chain_loop stmts site lo hi k nxt w = Some r \<Longrightarrow> r = ChainBad kd note \<Longrightarrow> kd = KFail \<or> kd = KWithheld"
proof (induction stmts site lo hi k nxt w r rule: chain_loop_induct)
  case (turn f stmts site lo hi k nxt w r)
  then show ?case
    by (auto split: if_splits fetched.splits sum.splits)
qed

definition clean_line :: "report_kind \<times> report_note \<Rightarrow> bool" where
  "clean_line e \<longleftrightarrow> fst e \<noteq> KFail \<and> fst e \<noteq> KWithheld \<and> fst e \<noteq> KSkip"

lemma verify_site_ok:
  assumes "verify_site site stmts n = Some evs" "\<forall>e \<in> set evs. clean_line e"
  shows "\<exists>s seen evs'. site = Some s \<and> stmts \<noteq> [] \<and> check_chain s stmts n = Some (Some seen, evs')"
proof -
  obtain s where s: "site = Some s" "stmts \<noteq> []"
    using assms by (auto simp: verify_site_def clean_line_def split: option.splits if_splits)
  then obtain r where r: "chain_loop stmts s (chain_low stmts n) (chain_high stmts) 0 (chain_low stmts n)
      (chain_start stmts n) = Some r"
    using assms(1) by (auto simp: verify_site_def check_chain_def)
  have "\<exists>seen. r = ChainOk seen"
  proof (cases r)
    case (ChainBad k msg)
    then have "k = KFail \<or> k = KWithheld" using chain_loop_bad_kind [OF r] by blast
    with ChainBad r s assms show ?thesis
      by (auto simp: verify_site_def check_chain_def chain_report_def clean_line_def)
  qed blast
  with r s show ?thesis by (auto simp: check_chain_def)
qed

lemma check_log_ok: "\<forall>e \<in> set (check_log gh path). clean_line e \<Longrightarrow> rewritten_at [] (gh_revisions gh path) = None"
  by (auto simp: check_log_def clean_line_def Let_def split: option.splits)

text \<open>An append-only log: every revision extends every earlier one.\<close>


definition only_appended :: "string list \<Rightarrow> bool" where
  "only_appended revs \<longleftrightarrow> (\<forall>i j. i \<le> j \<longrightarrow> j < length revs \<longrightarrow> (\<exists>t. revs ! j = revs ! i @ t))"

lemma starts_with_iff: "starts_with p s \<longleftrightarrow> (\<exists>t. s = p @ t)"
  by (metis append_eq_conv_conj append_take_drop_id starts_with_def)

lemma starts_with_trans: "starts_with p s \<Longrightarrow> starts_with s u \<Longrightarrow> starts_with p u"
  by (auto simp: starts_with_iff)

lemma rewritten_at_None:
  "rewritten_at prev revs = None \<Longrightarrow> sorted_wrt starts_with (prev # map snd revs)"
proof (induction prev revs rule: rewritten_at.induct)
  case (2 prev commit cur rest)
  then show ?case by (auto split: if_splits intro: starts_with_trans)
qed simp

lemma rewritten_appended: "rewritten_at prev revs = None \<Longrightarrow> only_appended (map snd revs)"
  using rewritten_at_None [of prev revs, THEN sorted_wrt.simps(2) [THEN iffD1]]
  by (auto simp: only_appended_def sorted_wrt_iff_nth_less starts_with_iff le_less)

lemma check_history_ok:
  assumes "\<forall>e \<in> set (check_history repo stmts). clean_line e"
  shows "\<exists>gh. pu_git repo = Some gh
     \<and> only_appended (map snd (gh_revisions gh ''anchors.log'')) \<and> only_appended (map snd (gh_revisions gh ''prereg.log''))
     \<and> filter is_rewrite (stamp_changes [] (output_lines [] (gh_stamp_log gh))) = []
     \<and> (\<forall>st \<in> set stmts. binding_of gh (filter is_add (stamp_changes [] (output_lines [] (gh_stamp_log gh)))) st
            \<in> {NotAdded, Binds})"
proof (cases "pu_git repo")
  case (Some gh)
  let ?changes = "stamp_changes [] (output_lines [] (gh_stamp_log gh))"
  have logs: "\<forall>e \<in> set (check_log gh p). clean_line e" if "p = ''anchors.log'' \<or> p = ''prereg.log''" for p
    using that assms Some by (auto simp: check_history_def Let_def)
  have "filter is_rewrite ?changes = []"
  proof (rule ccontr)
    assume "\<not> ?thesis"
    then obtain change where "change \<in> set (filter is_rewrite ?changes)" by (meson last_in_set)
    moreover obtain c status path where "change = (c, status, path)" by (rule prod_cases3)
    ultimately have "(KFail, StampChanged path status c) \<in> set (check_history repo stmts)"
      using Some by (auto simp: check_history_def Let_def image_iff)
    then show False using assms by (auto simp: clean_line_def)
  qed
  moreover have "binding_of gh (filter is_add ?changes) st \<in> {NotAdded, Binds}" if st: "st \<in> set stmts" for st
  proof (rule ccontr)
    assume "\<not> ?thesis"
    then obtain e where "binding_note (st, binding_of gh (filter is_add ?changes) st) = Some e" "fst e = KFail"
      by (cases "binding_of gh (filter is_add ?changes) st") (auto simp: binding_note_def)
    moreover from this st have "e \<in> set (check_history repo stmts)"
      using Some by (auto simp: check_history_def Let_def map_filter_def image_iff)
    ultimately show False using assms by (auto simp: clean_line_def)
  qed
  ultimately show ?thesis
    using Some logs [THEN check_log_ok, THEN rewritten_appended] by (auto simp: filter_empty_conv)
qed (use assms in \<open>simp add: check_history_def clean_line_def\<close>)

lemma heads_regress_fails: "e \<in> set (heads_regress ss) \<Longrightarrow> fst e = KFail"
  by (induction ss rule: heads_regress.induct) (auto split: if_splits)

lemma heads_differ_fails: "e \<in> set (heads_differ seen ss) \<Longrightarrow> fst e = KFail"
  by (induction seen ss rule: heads_differ.induct) (auto split: if_splits option.splits)

lemma heads_regress_sorted: "heads_regress ss = [] \<Longrightarrow> sorted (map st_seq ss)"
  by (induction ss rule: heads_regress.induct) (auto split: if_splits simp: sorted2 sorted1 simp del: sorted_wrt.simps(2))

definition heads_agree :: "statement list \<Rightarrow> bool" where
  "heads_agree ss \<longleftrightarrow> (\<forall>a \<in> set ss. \<forall>b \<in> set ss. st_seq a = st_seq b \<longrightarrow> st_head a = st_head b)"

lemma heads_agree_iff: "heads_agree ss \<longleftrightarrow> (\<exists>h. \<forall>a \<in> set ss. st_head a = h (st_seq a))"
proof
  assume agree: "heads_agree ss"
  let ?at = "\<lambda>n. SOME b. b \<in> set ss \<and> st_seq b = n"
  have "st_head a = st_head (?at (st_seq a))" if "a \<in> set ss" for a
  proof -
    have "?at (st_seq a) \<in> set ss \<and> st_seq (?at (st_seq a)) = st_seq a"
      using that by (intro someI [of "\<lambda>b. b \<in> set ss \<and> st_seq b = st_seq a" a]) simp
    with agree that show ?thesis unfolding heads_agree_def by metis
  qed
  then show "\<exists>h. \<forall>a \<in> set ss. st_head a = h (st_seq a)"
    by (intro exI [of _ "\<lambda>n. st_head (?at n)"] ballI)
qed (auto simp: heads_agree_def)

lemma heads_differ_agree:
  "heads_differ seen ss = [] \<Longrightarrow> \<forall>a \<in> set seen. st_head a = h (st_seq a)
   \<Longrightarrow> \<exists>h. \<forall>a \<in> set (seen @ ss). st_head a = h (st_seq a)"
proof (induction seen ss arbitrary: h rule: heads_differ.induct)
  case (2 seen st rest)
  show ?case
  proof (cases "find (\<lambda>p. st_seq p = st_seq st) seen")
    case None
    then have "\<forall>a \<in> set seen. st_seq a \<noteq> st_seq st" by (simp add: find_None_iff)
    with 2(4) have "\<forall>a \<in> set (seen @ [st]). st_head a = (h(st_seq st := st_head st)) (st_seq a)" by simp
    from 2(1) [OF None _ this] 2(3) None show ?thesis by simp
  next
    case (Some prior)
    then have p: "prior \<in> set seen" "st_seq prior = st_seq st"
      by (auto simp: find_Some_iff)
    have st: "st_head prior = st_head st" "heads_differ seen rest = []"
      using 2(3) Some by (simp_all split: if_splits)
    from 2(2) [OF Some this(2) 2(4)] obtain g where g: "\<forall>a \<in> set (seen @ rest). st_head a = g (st_seq a)" ..
    with p st have "st_head st = g (st_seq st)" by (metis Un_iff set_append)
    with g show ?thesis by (intro exI [of _ g]) simp
  qed
qed auto

lemma fails_absent:
  assumes "\<forall>e \<in> set evs. fst e = KFail" "set evs \<subseteq> set all" "\<forall>e \<in> set all. clean_line e"
  shows "evs = []"
proof (rule ccontr)
  assume "evs \<noteq> []"
  then have l: "last evs \<in> set evs" by simp
  with assms(2,3) have "clean_line (last evs)" by blast
  with assms(1) l show False by (simp add: clean_line_def)
qed

lemma check_statements_ok:
  assumes "\<forall>e \<in> set (snd (check_statements repo)). clean_line e"
  shows "(\<forall>(name, raw) \<in> set (statement_files repo). \<exists>st. parse_statement name raw = Inr st)
    \<and> sorted (map st_seq (parsed_statements repo)) \<and> heads_agree (parsed_statements repo)"
proof -
  let ?ss = "parsed_statements repo"
  have "heads_regress ?ss = []"
    by (rule fails_absent [OF _ _ assms]) (auto simp: check_statements_def Let_def dest: heads_regress_fails)
  moreover have "heads_differ [] ?ss = []"
    by (rule fails_absent [OF _ _ assms]) (auto simp: check_statements_def Let_def dest: heads_differ_fails)
  moreover have "\<exists>st. parse_statement name raw = Inr st" if "(name, raw) \<in> set (statement_files repo)" for name raw
  proof (rule ccontr)
    assume "\<not> ?thesis"
    then obtain err where err: "parse_statement name raw = Inl err" by (cases "parse_statement name raw") auto
    have "(KFail, StatementBad err) \<in> set (List.map_filter (\<lambda>(n, raw). case parse_statement n raw of
        Inl e \<Rightarrow> Some (KFail, StatementBad e) | Inr _ \<Rightarrow> None) (statement_files repo))"
      using that err by (force simp: map_filter_def)
    then have "(KFail, StatementBad err) \<in> set (snd (check_statements repo))"
      by (simp add: check_statements_def Let_def)
    with assms show False by (auto simp: clean_line_def)
  qed
  ultimately show ?thesis
    using heads_regress_sorted [of ?ss] heads_differ_agree [of "[]" ?ss] by (auto simp: heads_agree_iff)
qed

lemma check_tokens_pinned:
  assumes "\<forall>e \<in> set (snd (check_tokens repo stmts)). clean_line e"
  shows "\<forall>(tsa, files) \<in> set TSAS. \<forall>f \<in> set files. pu_fingerprint repo f = PINS f"
proof -
  have "unpinned repo files = []" if t: "(tsa, files) \<in> set TSAS" for tsa files
  proof (rule ccontr)
    assume "\<not> ?thesis"
    then obtain f where "f \<in> set (unpinned repo files)" by (meson last_in_set)
    with t have "(KFail, NotPinned tsa f) \<in> set (snd (check_tokens repo stmts))"
      by (force simp: check_tokens_def Let_def split: prod.splits)
    with assms show False by (auto simp: clean_line_def)
  qed
  then show ?thesis by (auto simp: unpinned_def filter_empty_conv)
qed

text \<open>
  C19. An exit with status 0 certifies the record: the certificates are the pinned ones, every statement
  parses, their heads grow and never disagree, the logs were only appended to and no stamp was
  rewritten, no statement was committed with another registry or protocol, and the site's entries are
  the ones the statements commit to.
\<close>

theorem passing_record_certifies:
  assumes "verify_main (Some repo) site n = Some 0"
  shows "(\<forall>(tsa, files) \<in> set TSAS. \<forall>f \<in> set files. pu_fingerprint repo f = PINS f)
    \<and> (\<forall>(name, raw) \<in> set (statement_files repo). \<exists>st. parse_statement name raw = Inr st)
    \<and> sorted (map st_seq (parsed_statements repo)) \<and> heads_agree (parsed_statements repo)
    \<and> (\<exists>gh. pu_git repo = Some gh
         \<and> only_appended (map snd (gh_revisions gh ''anchors.log'')) \<and> only_appended (map snd (gh_revisions gh ''prereg.log''))
         \<and> filter is_rewrite (stamp_changes [] (output_lines [] (gh_stamp_log gh))) = []
         \<and> (\<forall>st \<in> set (timed_statements repo).
              binding_of gh (filter is_add (stamp_changes [] (output_lines [] (gh_stamp_log gh)))) st \<in> {NotAdded, Binds}))
    \<and> (\<exists>s es evs. site = Some s \<and> timed_statements repo \<noteq> []
         \<and> check_chain s (timed_statements repo) n = Some (Some (map seen_of es), evs)
         \<and> committed (timed_statements repo) n es)"
proof -
  obtain evs where evs: "verify_record repo site n = Some evs" "\<forall>e \<in> set evs. clean_line e"
    using assms by (auto simp: verify_main_def verdict_status_0 clean_line_def)
  obtain evs5 where e5: "verify_site site (timed_statements repo) n = Some evs5"
    "set evs = set (snd (check_statements repo)) \<union> set (snd (check_tokens repo (fst (check_statements repo))))
        \<union> set (check_ots repo (timed_statements repo)) \<union> set (check_history repo (timed_statements repo)) \<union> set evs5"
    using verify_record_evs [OF evs(1)] by blast
  have clean: "\<forall>e \<in> set (snd (check_statements repo)). clean_line e"
    "\<forall>e \<in> set (snd (check_tokens repo (fst (check_statements repo)))). clean_line e"
    "\<forall>e \<in> set (check_history repo (timed_statements repo)). clean_line e" "\<forall>e \<in> set evs5. clean_line e"
    using evs(2) unfolding e5(2) by blast+
  obtain s seen evs' where s: "site = Some s" "timed_statements repo \<noteq> []"
    "check_chain s (timed_statements repo) n = Some (Some seen, evs')"
    using verify_site_ok [OF e5(1) clean(4)] by blast
  from check_chain_committed [OF s(3)] obtain es where
    es: "seen = map seen_of es" "committed (timed_statements repo) n es" by blast
  show ?thesis
    by (intro conjI check_tokens_pinned [OF clean(2)] check_statements_ok [OF clean(1), THEN conjunct1]
        check_statements_ok [OF clean(1), THEN conjunct2, THEN conjunct1]
        check_statements_ok [OF clean(1), THEN conjunct2, THEN conjunct2] check_history_ok [OF clean(3)] exI)
      (use s es in auto)
qed

text \<open>A record of one statement before the first entry, and of one entry.\<close>

definition zero_hash :: string where
  "zero_hash = replicate 64 (CHR ''0'')"

definition sample_statement_text :: string where
  "sample_statement_text = ''signaldeck-statement v1'' @ CHR 0x0A # ''utc 2026-10-01T04:31:22Z'' @ CHR 0x0A
     # ''ledger-head seq=0 head='' @ zero_hash @ '' intact=true'' @ CHR 0x0A # ''anchor none'' @ CHR 0x0A
     # ''prereg none'' @ CHR 0x0A # ''registry-sha256 '' @ zero_hash @ CHR 0x0A # ''prereg-doc-sha256 none'' @ [CHR 0x0A]"

definition sample_history :: git_history where
  "sample_history = \<lparr>gh_revisions = (\<lambda>_. [(''c1'', ''one''), (''c2'', ''one, two'')]), gh_stamp_log = [],
     gh_file = (\<lambda>_ _. [])\<rparr>"

definition sample_repo :: public_repo where
  "sample_repo = \<lparr>pu_stamps = [(''20261001T043122Z.txt'', sample_statement_text)], pu_fingerprint = PINS,
     pu_token = (\<lambda>_ _. None), pu_ots = (\<lambda>_. None), pu_git = Some sample_history, pu_anchors = None\<rparr>"

definition sample_statement :: statement where
  "sample_statement = \<lparr>st_name = ''20261001T043122Z.txt'', st_raw = sample_statement_text, st_utc = 1790829082,
     st_seq = 0, st_head = zero_hash, st_anchor = ''none'', st_registry = zero_hash, st_doc = ''none'', st_ext = None\<rparr>"

lemma sample_parses: "parse_statement ''20261001T043122Z.txt'' sample_statement_text = Inr sample_statement"
  by code_simp

lemma sample_passes: "verify_main (Some sample_repo) (Some (serve 5000 [])) 0 = Some 0"
proof -
  have f: "statement_files sample_repo = [(''20261001T043122Z.txt'', sample_statement_text)]"
    by (simp add: statement_files_def sample_repo_def ends_with_def)
  have s: "check_statements sample_repo = ([sample_statement], [(KPass, StatementsParsed 1 ''20261001T043122Z.txt'' 0)])"
    by (simp add: check_statements_def parsed_statements_def f sample_parses map_filter_simps sample_statement_def)
  have pins: "unpinned sample_repo fs = []" for fs
    by (simp add: unpinned_def sample_repo_def)
  have t: "check_tokens sample_repo [sample_statement] = ([sample_statement], [(KWarn, NoTimestamp ''20261001T043122Z.txt'')])"
    by (simp add: check_tokens_def pins TSAS_def check_authority_def check_token_def Let_def)
      (simp add: sample_repo_def sample_statement_def)
  have h: "check_history sample_repo [sample_statement] = [(KPass, LogGrew ''anchors.log'' 2), (KPass, LogGrew ''prereg.log'' 2),
      (KPass, StampsKept 0), (KWarn, BoundCount 0 1), (KInfo, AnchorsNamed 0 0)]"
    by (simp add: check_history_def sample_repo_def sample_history_def check_log_def starts_with_def binding_of_def
        added_in_def binding_note_def map_filter_simps anchor_lines_def Let_def)
  have c: "check_chain (serve 5000 []) [sample_statement] 0 = Some (Some [], [(KPass, ChainRecomputed 1 0 0)])"
    by (simp add: check_chain_def chain_low_def chain_high_def chain_base_def chain_report_def chain_loop_done
        sample_statement_def)
  have o: "check_ots sample_repo [sample_statement] = []"
    by (simp add: check_ots_def sample_repo_def map_filter_simps)
  show ?thesis
    by (simp add: verify_main_def verify_record_def s t h o verify_site_def c verdict_status_def kind_count_def)
qed

theorem passing_record_certifies_witness:
  "\<exists>s es evs. Some (serve 5000 []) = Some s \<and> timed_statements sample_repo \<noteq> []
     \<and> check_chain s (timed_statements sample_repo) 0 = Some (Some (map seen_of es), evs)
     \<and> committed (timed_statements sample_repo) 0 es"
  using passing_record_certifies [OF sample_passes] by blast

lemma go_vectors:
  "map go_g [Shown False [0, 0] (-1), Shown False [1, 0] (-1), Shown True [2, 5] (-2), Shown False [1] (-5),
     Shown False [5, 1, 2, 3] (-8), Shown False [1] (-4), Shown False [1, 2, 3, 4, 5, 6, 0] (-1),
     Shown False [1, 0, 0, 0, 0, 0, 0, 0] (-1), Shown False [1, 5, 0, 0, 0, 0, 0, 0] (-1), Shown False [1] 21]
   = [''0'', ''1'', ''-0.25'', ''1e-05'', ''5.123e-05'', ''0.0001'', ''123456'', ''1e+06'', ''1.5e+06'', ''1e+21'']"
  by code_simp

lemma drop_zeros_snoc: "ds \<noteq> [] \<Longrightarrow> drop_zeros (ds @ [0]) e = drop_zeros ds (e + 1)"
  by (subst drop_zeros.simps) simp

lemma drop_zeros_replicate: "ds \<noteq> [] \<Longrightarrow> drop_zeros (ds @ replicate k 0) e = drop_zeros ds (e + int k)"
proof (induction k arbitrary: e)
  case (Suc k)
  have "ds @ replicate (Suc k) 0 = (ds @ replicate k 0) @ [0]" by (simp add: replicate_append_same)
  moreover have "drop_zeros ((ds @ replicate k 0) @ [0]) e = drop_zeros (ds @ replicate k 0) (e + 1)"
    using Suc.prems by (intro drop_zeros_snoc) simp
  moreover have "e + 1 + int k = e + int (Suc k)" by simp
  ultimately show ?case using Suc by metis
qed simp

text \<open>The text hashed for a number does not depend on how many zeros its decimal was written with.\<close>

theorem go_g_ignores_zeros: "go_g (Shown neg (ds @ replicate k 0) e) = go_g (Shown neg ds (e + int k))"
proof -
  have "list_all (\<lambda>d. d = 0) (ds @ replicate k 0) = list_all (\<lambda>d. d = 0) ds"
    by (simp add: list_all_iff set_replicate_conv_if)
  then show ?thesis
    using drop_zeros_replicate [of ds k e] by (cases "ds = []") simp_all
qed

text \<open>A ledger of one entry, and a statement that names its hash.\<close>

definition sample_entry :: ledger_entry where
  "sample_entry =
     (let e = \<lparr>le_seq = 1, le_predicted_at = 1790818021, le_symbol = 10, le_horizon = ''1d'', le_bar_ts = 1790817960,
        le_raw = Shown False [5] (-1), le_cal = Shown False [5] (-1), le_feature = zero_hash, le_model = 1,
        le_prev = [], le_hash = []\<rparr>
      in e\<lparr>le_hash := entry_hash [] e\<rparr>)"

definition sample_head :: statement where
  "sample_head = sample_statement\<lparr>st_seq := 1, st_head := entry_hash [] sample_entry\<rparr>"

lemma entry_hash_update [simp]: "entry_hash h (e\<lparr>le_hash := x\<rparr>) = entry_hash h e"
  by (simp add: entry_hash_def entry_payload_def)

lemma sample_fields:
  "le_seq sample_entry = 1" "le_prev sample_entry = []" "le_hash sample_entry = entry_hash [] sample_entry"
  "st_seq sample_head = 1" "st_head sample_head = entry_hash [] sample_entry"
  by (simp_all add: sample_entry_def sample_head_def Let_def entry_hash_def entry_payload_def)

definition longer_ledger :: "ledger_entry list" where
  "longer_ledger = [sample_entry, sample_entry\<lparr>le_seq := 2\<rparr>]"

lemma sample_ledger: "ordered_ledger [sample_entry]" "ordered_ledger longer_ledger"
  by (simp_all add: ordered_ledger_def longer_ledger_def sample_fields)

lemma sample_bounds: "chain_low [sample_head] 0 = 1" "chain_high [sample_head] = 1"
    "chain_start [sample_head] 0 = \<lparr>wk_running = [], wk_expect = 1, wk_seen = []\<rparr>"
    "start_head [sample_head] 0 = []"
  by (simp_all add: chain_low_def chain_base_def chain_high_def chain_start_def start_head_def sample_fields)

lemma sample_slice:
  "ledger_slice 1 1 [sample_entry] = [sample_entry]" "ledger_slice 1 1 longer_ledger = [sample_entry]"
  by (simp_all add: ledger_slice_def longer_ledger_def sample_fields)

lemma sample_check:
  assumes "ordered_ledger ledger" "ledger_slice 1 1 ledger = [sample_entry]" "0 < limit"
  shows "check_chain (serve limit ledger) [sample_head] 0 =
     Some (Some [seen_of sample_entry], [(KPass, ChainRecomputed 1 1 1)])"
proof -
  have "one_walk [sample_head] 1 1 \<lparr>wk_running = [], wk_expect = 1, wk_seen = []\<rparr> ledger
      = ChainOk [seen_of sample_entry]"
    by (simp add: one_walk_def assms(2) close_walk_def walk_entry_def sample_fields)
  then show ?thesis
    using chain_loop_serve [OF assms(1,3), of "[sample_head]" 0 1 0]
    by (simp add: sample_bounds check_chain_def chain_report_def chain_base_def)
qed

lemmas sample_checks = sample_check [OF sample_ledger(1) sample_slice(1)] sample_check [OF sample_ledger(2) sample_slice(2)]

lemma paged_check_is_one_walk_witness:
  "check_chain (serve 2 [sample_entry]) [sample_head] 0 =
     (let r = one_walk [sample_head] (chain_low [sample_head] 0) (chain_high [sample_head]) (chain_start [sample_head] 0) [sample_entry]
      in Some (seen_entries r, chain_report [sample_head] 0 r))"
  by (rule paged_check_is_one_walk) (simp_all add: sample_ledger sample_bounds)

lemma check_returns_when_pages_progress_witness: "check_chain (serve 2 [sample_entry]) [sample_head] 0 \<noteq> None"
proof (rule check_returns_when_pages_progress)
  show "pages_progress (chain_high [sample_head]) (serve 2 [sample_entry])"
    by (auto simp: pages_progress_def serve_def Let_def sample_bounds sample_fields split: if_splits)
qed

lemma passing_chain_is_committed_witness:
  "\<exists>es. [seen_of sample_entry] = map seen_of es \<and> committed [sample_head] 0 es"
  by (rule passing_chain_is_committed [OF sample_checks(1), of 2]) simp

lemma sample_plain: "plain_entry sample_entry"
  unfolding plain_entry_def sample_entry_def Let_def by (simp add: zero_hash_def)

lemma committed_forecasts_cannot_change_witness:
  "map forecast_of (ledger_slice 1 1 [sample_entry]) = map forecast_of (ledger_slice 1 1 longer_ledger)"
  using committed_forecasts_cannot_change
    [of "[sample_entry]" longer_ledger 2 5 "[sample_head]" 0, OF sample_ledger _ _ _ _ _ sample_checks] sample_plain
  by (simp add: sample_bounds sample_slice)

end
