(* ===== verification/Doc_Blocks.thy ===== *)
theory Doc_Blocks
  imports SD_Prelude
begin

text \<open>
  The documents that carry the live record (\<open>tools/live_accuracy.py\<close>): the block between two marker
  comments and how it is spliced and compared, and the scan that fails a build on a figure typed by
  hand. A document is its bytes; reading one translates its line ends as Python's text mode does.
\<close>

section \<open>Searching\<close>

text \<open>\<open>s.find(p)\<close> and \<open>s.find(p, k)\<close>.\<close>

fun find_sub :: "string \<Rightarrow> string \<Rightarrow> nat option" where
  "find_sub p [] = (if p = [] then Some 0 else None)"
| "find_sub p (c # s) = (if starts_with p (c # s) then Some 0 else map_option Suc (find_sub p s))"

definition find_from :: "string \<Rightarrow> string \<Rightarrow> nat \<Rightarrow> nat option" where
  "find_from p s k = (if length s < k then None else map_option ((+) k) (find_sub p (drop k s)))"

definition first_at :: "string \<Rightarrow> string \<Rightarrow> nat \<Rightarrow> bool" where
  "first_at p s i \<longleftrightarrow> starts_with p (drop i s) \<and> i \<le> length s \<and> (\<forall>j < i. \<not> starts_with p (drop j s))"

lemma find_sub_Some: "find_sub p s = Some i \<longleftrightarrow> first_at p s i"
proof (induction s arbitrary: i)
  case (Cons c s)
  show ?case
    by (cases i) (auto simp: Cons first_at_def less_Suc_eq_0_disj all_conj_distrib)
qed (auto simp: first_at_def starts_with_def)

lemma all_le_Suc: "(\<forall>j \<le> Suc n. P j) \<longleftrightarrow> P 0 \<and> (\<forall>j \<le> n. P (Suc j))"
  by (metis Suc_le_mono le0 not0_implies_Suc)

lemma find_sub_None: "find_sub p s = None \<longleftrightarrow> (\<forall>j \<le> length s. \<not> starts_with p (drop j s))"
  by (induction s) (auto simp: all_le_Suc, auto simp: starts_with_def)

section \<open>Reading\<close>

text \<open>Text mode reads the line ends \<open>\r\n\<close> and \<open>\r\<close> as \<open>\n\<close>.\<close>

fun universal_newlines :: "string \<Rightarrow> string" where
  "universal_newlines [] = []"
| "universal_newlines [c] = [if c = CHR 0x0D then CHR 0x0A else c]"
| "universal_newlines (c # d # s) =
     (if c = CHR 0x0D
      then CHR 0x0A # (if d = CHR 0x0A then universal_newlines s else universal_newlines (d # s))
      else c # universal_newlines (d # s))"

text \<open>The length of the line break \<open>str.splitlines\<close> sees at the front of a text, 0 where there is none.\<close>

definition line_break :: "string \<Rightarrow> nat" where
  "line_break s =
     (if starts_with [CHR 0x0D, CHR 0x0A] s then 2
      else if s \<noteq> [] \<and> hd s \<in> {CHR 0x0A, CHR 0x0B, CHR 0x0C, CHR 0x0D, CHR 0x1C, CHR 0x1D, CHR 0x1E} then 1
      else if starts_with [CHR 0xC2, CHR 0x85] s then 2
      else if starts_with [CHR 0xE2, CHR 0x80, CHR 0xA8] s \<or> starts_with [CHR 0xE2, CHR 0x80, CHR 0xA9] s then 3
      else 0)"

function split_breaks :: "string \<Rightarrow> string \<Rightarrow> string list" where
  "split_breaks acc s =
     (if s = [] then (if acc = [] then [] else [rev acc])
      else if line_break s = 0 then split_breaks (hd s # acc) (tl s)
      else rev acc # split_breaks [] (drop (line_break s) s))"
  by auto
termination by (relation "measure (\<lambda>(_, s). length s)") auto

declare split_breaks.simps [simp del]

definition splitlines :: "string \<Rightarrow> string list" where
  "splitlines = split_breaks []"

fun split_char :: "char \<Rightarrow> string \<Rightarrow> string list" where
  "split_char c [] = [[]]"
| "split_char c (d # s) =
     (if d = c then [] # split_char c s
      else (case split_char c s of l # ls \<Rightarrow> (d # l) # ls | [] \<Rightarrow> [[d]]))"

section \<open>Marker blocks\<close>

definition BEGIN_MARK :: string where "BEGIN_MARK = ''<!-- BEGIN GENERATED live_accuracy -->''"
definition END_MARK :: string where "END_MARK = ''<!-- END GENERATED live_accuracy -->''"
definition README_BEGIN :: string where "README_BEGIN = ''<!-- LIVE-ACCURACY:BEGIN -->''"
definition README_END :: string where "README_END = ''<!-- LIVE-ACCURACY:END -->''"

definition find_block :: "string \<Rightarrow> (nat \<times> nat) option" where
  "find_block text =
     (case find_sub BEGIN_MARK text of
        None \<Rightarrow> None
      | Some b \<Rightarrow> (case find_from END_MARK text b of
          None \<Rightarrow> None | Some e \<Rightarrow> Some (b, e + length END_MARK)))"

definition rstrip_nl :: "string \<Rightarrow> string" where
  "rstrip_nl s = rev (dropWhile (\<lambda>c. c = CHR 0x0A) (rev s))"

definition strip_nl :: "string \<Rightarrow> string" where
  "strip_nl s = rstrip_nl (dropWhile (\<lambda>c. c = CHR 0x0A) s)"

definition inject_text :: "string \<Rightarrow> string \<Rightarrow> string option" where
  "inject_text block text =
     map_option (\<lambda>(b, e). take b text @ rstrip_nl block @ drop e text) (find_block text)"

definition block_matches :: "string \<Rightarrow> string \<Rightarrow> bool" where
  "block_matches block text \<longleftrightarrow>
     (case find_block text of None \<Rightarrow> False | Some (b, e) \<Rightarrow> take (e - b) (drop b text) = rstrip_nl block)"

text \<open>\<open>text.split(p, 1)\<close> of a text that has \<open>p\<close>.\<close>

definition split_once :: "string \<Rightarrow> string \<Rightarrow> string \<times> string" where
  "split_once p text =
     (case find_sub p text of None \<Rightarrow> (text, []) | Some i \<Rightarrow> (take i text, drop (i + length p) text))"

definition readme_block :: "string \<Rightarrow> string option" where
  "readme_block text =
     (if contains README_BEGIN text \<and> contains README_END text
      then Some (fst (split_once README_END (snd (split_once README_BEGIN text)))) else None)"

text \<open>Where the end marker only stands before the opening one, the second split has no second part.\<close>

definition inject_readme_text :: "string \<Rightarrow> string \<Rightarrow> string py option" where
  "inject_readme_text section_text text =
     (if readme_block text = None then None
      else (case split_once README_BEGIN text of (before, rest) \<Rightarrow>
        Some (if contains README_END rest
              then Inr (before @ README_BEGIN @ CHR 0x0A # section_text @ CHR 0x0A # README_END
                          @ snd (split_once README_END rest))
              else Inl IndexErr)))"

section \<open>The scan\<close>

definition SUPERSEDED_LITERALS :: "string list" where
  "SUPERSEDED_LITERALS =
     [''48.1%'', ''54.6%'', ''48.0%'', ''54.4%'', ''46.7%'', ''46.2%'', ''48.6%'', ''56.2%'', ''46.3%'', ''52.9%'',
      ''13,058'', ''13,044'', ''12,696'', ''8,191'', ''18,762'', ''9,164'', ''8,272'', ''2,257'']"

definition HISTORICAL_MARKER :: string where "HISTORICAL_MARKER = ''SUPERSEDED-SNAPSHOT''"
definition HISTORICAL_BLOCK_LINES :: nat where "HISTORICAL_BLOCK_LINES = 25"

text \<open>The character before a match: none, or neither a minus sign (ASCII or U+2212), a digit nor a point.\<close>

definition standalone_after :: "string \<Rightarrow> bool" where
  "standalone_after before \<longleftrightarrow>
     before = [] \<or> (last before \<noteq> CHR ''-'' \<and> \<not> ends_with [CHR 0xE2, CHR 0x88, CHR 0x92] before
       \<and> \<not> is_digit (last before) \<and> last before \<noteq> CHR ''.'')"

function asserts_from :: "string \<Rightarrow> string \<Rightarrow> nat \<Rightarrow> bool" where
  "asserts_from line lit start =
     (case find_from lit line start of
        None \<Rightarrow> False
      | Some i \<Rightarrow> if standalone_after (take i line) then True else asserts_from line lit (i + 1))"
  by auto
termination
  by (relation "measure (\<lambda>(line, _, start). Suc (length line) - start)")
    (auto simp: find_from_def find_sub_Some first_at_def split: if_splits)

declare asserts_from.simps [simp del]

definition asserts_literal :: "string \<Rightarrow> string \<Rightarrow> bool" where
  "asserts_literal line lit = asserts_from line lit 0"

text \<open>A marker in the lines above the n-th, itself included; lines count from 1.\<close>

definition historical_block :: "string list \<Rightarrow> nat \<Rightarrow> bool" where
  "historical_block lines n =
     (let start = n - HISTORICAL_BLOCK_LINES - 1
      in list_ex (contains HISTORICAL_MARKER) (take (n - start) (drop start lines)))"

definition opens :: "string \<Rightarrow> bool" where
  "opens l \<longleftrightarrow> contains BEGIN_MARK l \<or> contains README_BEGIN l"

definition closes :: "string \<Rightarrow> bool" where
  "closes l \<longleftrightarrow> contains END_MARK l \<or> contains README_END l"

fun scan_from :: "string list \<Rightarrow> string list \<Rightarrow> bool \<Rightarrow> nat \<Rightarrow> string list \<Rightarrow> (nat \<times> string) list" where
  "scan_from banned lines inside n [] = []"
| "scan_from banned lines inside n (l # ls) =
     (if opens l then scan_from banned lines True (n + 1) ls
      else if closes l then scan_from banned lines False (n + 1) ls
      else (if inside then []
            else map (Pair n) (filter (\<lambda>lit. asserts_literal l lit \<and> \<not> historical_block lines n) banned))
        @ scan_from banned lines inside (n + 1) ls)"

definition exempt_path :: "string \<Rightarrow> bool" where
  "exempt_path path \<longleftrightarrow>
     (let parts = split_char (CHR ''/'') (map (\<lambda>c. if c = CHR 0x5C then CHR ''/'' else c) path)
      in ''audits'' \<in> set parts \<or> ''proofs'' \<in> set parts
         \<or> last (split_char (CHR ''/'') path) = ''PREREGISTRATION.md'')"

definition scan :: "string list \<Rightarrow> bool \<Rightarrow> string \<Rightarrow> string \<Rightarrow> (nat \<times> string) list" where
  "scan extra allow_whole_file_escape path text =
     (let lines = splitlines text
      in if allow_whole_file_escape \<and> contains HISTORICAL_MARKER (join_with [CHR 0x0A] (take 40 lines)) then []
         else if exempt_path path then []
         else scan_from (SUPERSEDED_LITERALS @ extra) lines False 1 lines)"

section \<open>Splicing\<close>

lemma starts_with_prefix: "starts_with p s \<longleftrightarrow> (\<exists>t. s = p @ t)"
  by (metis append_eq_conv_conj append_take_drop_id starts_with_def)

lemma starts_with_local:
  assumes "take (length p) s = take (length p) t"
  shows "starts_with p s \<longleftrightarrow> starts_with p t"
  using assms by (simp add: starts_with_def)

lemma starts_with_drop_local:
  assumes "take n s = take n t" "j + length p \<le> n"
  shows "starts_with p (drop j s) \<longleftrightarrow> starts_with p (drop j t)"
proof (rule starts_with_local)
  have "take (length p) (drop j s) = take (length p) (drop j (take n s))"
    using assms(2) by (simp add: drop_take min_def)
  also have "\<dots> = take (length p) (drop j (take n t))" using assms(1) by simp
  also have "\<dots> = take (length p) (drop j t)"
    using assms(2) by (simp add: drop_take min_def)
  finally show "take (length p) (drop j s) = take (length p) (drop j t)" .
qed

lemma first_at_local:
  assumes "first_at p s i" "take (i + length p) s = take (i + length p) t"
  shows "first_at p t i"
proof -
  have "starts_with p (drop j s) \<longleftrightarrow> starts_with p (drop j t)" if "j \<le> i" for j
    using starts_with_drop_local [OF assms(2), of j p] that by simp
  moreover have "i \<le> length t"
    using assms by (metis first_at_def le_add1 length_take min.absorb_iff2 min.bounded_iff nat_le_linear)
  ultimately show ?thesis using assms(1) by (auto simp: first_at_def)
qed

text \<open>A block that is spliced: it opens with the marker and its only end marker is at its end.\<close>

definition well_formed_block :: "string \<Rightarrow> bool" where
  "well_formed_block block \<longleftrightarrow>
     (let r = rstrip_nl block
      in starts_with BEGIN_MARK r \<and> find_sub END_MARK r = Some (length r - length END_MARK) \<and> length END_MARK \<le> length r)"

lemma find_block_span:
  assumes "find_block text = Some (b, e)"
  shows "first_at BEGIN_MARK text b" "b \<le> e" "e \<le> length text"
  using assms
  by (auto simp: find_block_def find_from_def find_sub_Some first_at_def starts_with_def
      split: option.splits if_splits dest!: arg_cong [where f = length])

lemma find_block_injected:
  assumes "find_block text = Some (b, e)" "well_formed_block block"
  shows "find_block (take b text @ rstrip_nl block @ drop e text) = Some (b, b + length (rstrip_nl block))"
proof -
  let ?r = "rstrip_nl block" and ?new = "take b text @ rstrip_nl block @ drop e text"
  have b: "b \<le> length text" using find_block_span [OF assms(1)] by simp
  obtain r' where r: "?r = BEGIN_MARK @ r'" "length END_MARK \<le> length ?r"
    "first_at END_MARK ?r (length ?r - length END_MARK)"
    using assms(2) by (auto simp: well_formed_block_def Let_def starts_with_prefix find_sub_Some)
  obtain u where u: "drop b text = BEGIN_MARK @ u"
    using find_block_span(1) [OF assms(1)] by (auto simp: first_at_def starts_with_prefix)
  have t: "text = take b text @ BEGIN_MARK @ u" by (metis append_take_drop_id u)
  have "take (b + length BEGIN_MARK) text = take (b + length BEGIN_MARK) ?new"
    by (subst t) (use b r(1) in \<open>simp add: min_def\<close>)
  then have "find_sub BEGIN_MARK ?new = Some b"
    using first_at_local find_block_span(1) [OF assms(1)] by (simp add: find_sub_Some)
  moreover have "drop b ?new = ?r @ drop e text" using b by simp
  moreover have "first_at END_MARK (?r @ drop e text) (length ?r - length END_MARK)"
    by (rule first_at_local [OF r(3)]) (use r(2) in simp)
  then have "find_sub END_MARK (?r @ drop e text) = Some (length ?r - length END_MARK)"
    by (simp add: find_sub_Some)
  ultimately show ?thesis
    using b r(2) by (simp add: find_block_def find_from_def)
qed

lemma inject_matches:
  assumes "inject_text block text = Some text'" "well_formed_block block"
  shows "block_matches block text'"
proof -
  obtain b e where be: "find_block text = Some (b, e)" "text' = take b text @ rstrip_nl block @ drop e text"
    using assms(1) by (auto simp: inject_text_def)
  have "b \<le> length text" using find_block_span [OF be(1)] by simp
  then show ?thesis
    using find_block_injected [OF be(1) assms(2)] be(2) by (simp add: block_matches_def)
qed

text \<open>
  A spliced document matches its block, keeps its text outside the markers, and splicing again changes
  nothing.
\<close>

theorem injected_document_matches:
  assumes "inject_text block text = Some text'" "well_formed_block block"
  shows "block_matches block text' \<and> inject_text block text' = Some text'
    \<and> (\<exists>b e. find_block text = Some (b, e) \<and> take b text' = take b text
         \<and> drop (b + length (rstrip_nl block)) text' = drop e text)"
proof -
  obtain b e where be: "find_block text = Some (b, e)" "text' = take b text @ rstrip_nl block @ drop e text"
    using assms(1) by (auto simp: inject_text_def)
  have "b \<le> length text" using find_block_span [OF be(1)] by simp
  then show ?thesis
    using inject_matches [OF assms] find_block_injected [OF be(1) assms(2)] be
    by (auto simp: inject_text_def min_def)
qed

section \<open>What the scan reports\<close>

lemma asserts_from_iff:
  "asserts_from line lit start \<longleftrightarrow>
     (\<exists>i \<ge> start. i \<le> length line \<and> starts_with lit (drop i line) \<and> standalone_after (take i line))"
proof (induction line lit start rule: asserts_from.induct)
  case (1 line lit start)
  show ?case
  proof (cases "find_from lit line start")
    case None
    then have "\<not> starts_with lit (drop i line)" if "start \<le> i" "i \<le> length line" for i
      using that by (auto simp: find_from_def find_sub_None add.commute split: if_splits dest!: spec [of _ "i - start"])
    with None show ?thesis by (subst asserts_from.simps) auto
  next
    case (Some i)
    then have i: "start \<le> i" "i \<le> length line" "starts_with lit (drop i line)"
      "\<And>j. start \<le> j \<Longrightarrow> j < i \<Longrightarrow> \<not> starts_with lit (drop j line)"
      by (auto simp: find_from_def find_sub_Some first_at_def add.commute split: if_splits)
        (metis add_diff_inverse_nat diff_add_inverse less_diff_conv2 not_less add.commute le_add_diff_inverse)
    show ?thesis
    proof (cases "standalone_after (take i line)")
      case True
      with Some i show ?thesis by (subst asserts_from.simps) auto
    next
      case False
      have "i + 1 \<le> j" if "start \<le> j" "starts_with lit (drop j line)" "standalone_after (take j line)" for j
      proof -
        have "\<not> j < i" "j \<noteq> i" using i(4) that False by auto
        then show ?thesis by simp
      qed
      moreover have "start \<le> j" if "i + 1 \<le> j" for j using that i(1) by simp
      moreover have "asserts_from line lit start = asserts_from line lit (i + 1)"
        using False Some by (subst asserts_from.simps) simp
      ultimately show ?thesis using 1 [OF Some False] by blast
    qed
  qed
qed

text \<open>
  A literal is asserted exactly where one of its occurrences stands alone: the loop over the
  occurrences ends and misses none.
\<close>

theorem asserts_literal_iff:
  "asserts_literal line lit \<longleftrightarrow> (\<exists>before rest. line = before @ lit @ rest \<and> standalone_after before)"
proof
  assume "asserts_literal line lit"
  then obtain i where "i \<le> length line" "starts_with lit (drop i line)" "standalone_after (take i line)"
    by (auto simp: asserts_literal_def asserts_from_iff)
  then show "\<exists>before rest. line = before @ lit @ rest \<and> standalone_after before"
    by (metis append_take_drop_id starts_with_prefix)
next
  assume "\<exists>before rest. line = before @ lit @ rest \<and> standalone_after before"
  then obtain before rest where "line = before @ lit @ rest" "standalone_after before" by blast
  then show "asserts_literal line lit"
    by (auto simp: asserts_literal_def asserts_from_iff intro!: exI [of _ "length before"])
qed

text \<open>The lines a marker comment has opened and no marker comment has closed since.\<close>

definition inside_block :: "string list \<Rightarrow> nat \<Rightarrow> bool" where
  "inside_block ls k \<longleftrightarrow>
     (\<exists>m < k. opens (ls ! m) \<and> (\<forall>j. m < j \<longrightarrow> j < k \<longrightarrow> opens (ls ! j) \<or> \<not> closes (ls ! j)))"

definition scanned :: "string list \<Rightarrow> nat \<Rightarrow> bool" where
  "scanned ls k \<longleftrightarrow> \<not> opens (ls ! k) \<and> \<not> closes (ls ! k) \<and> \<not> inside_block ls k"

lemma inside_block_0: "\<not> inside_block ls 0"
  by (simp add: inside_block_def)

lemma inside_block_Suc:
  "inside_block ls (Suc k) \<longleftrightarrow> opens (ls ! k) \<or> (\<not> closes (ls ! k) \<and> inside_block ls k)"
  by (auto simp: inside_block_def less_Suc_eq)

lemma scan_from_iff:
  assumes "drop k lines = ls" "inside = inside_block lines k"
  shows "(n, lit) \<in> set (scan_from banned lines inside (k + 1) ls) \<longleftrightarrow>
     (k < n \<and> n \<le> length lines \<and> lit \<in> set banned \<and> scanned lines (n - 1)
        \<and> asserts_literal (lines ! (n - 1)) lit \<and> \<not> historical_block lines n)"
  using assms
proof (induction ls arbitrary: k inside)
  case (Cons l ls)
  have kl: "k < length lines" using Cons.prems(1) by (cases "k < length lines") auto
  then have "drop k lines = lines ! k # drop (Suc k) lines" by (simp add: Cons_nth_drop_Suc)
  with Cons.prems(1) kl have k: "k < length lines" "lines ! k = l" "drop (Suc k) lines = ls" by simp_all
  define inside' where "inside' = inside_block lines (Suc k)"
  have IH: "(n, lit) \<in> set (scan_from banned lines inside' (Suc k + 1) ls) \<longleftrightarrow>
     (Suc k < n \<and> n \<le> length lines \<and> lit \<in> set banned \<and> scanned lines (n - 1)
        \<and> asserts_literal (lines ! (n - 1)) lit \<and> \<not> historical_block lines n)"
    by (rule Cons.IH) (simp_all add: k inside'_def)
  have in': "inside' = (opens l \<or> \<not> closes l \<and> inside)"
    by (simp add: inside'_def inside_block_Suc k Cons.prems(2))
  have head: "scanned lines k \<longleftrightarrow> \<not> opens l \<and> \<not> closes l \<and> \<not> inside"
    by (simp add: scanned_def k Cons.prems(2))
  consider "n = Suc k" | "Suc k < n" | "n \<le> k" by linarith
  then show ?case
  proof cases
    case 1
    with IH in' head k show ?thesis by auto
  next
    case 2
    with IH in' show ?thesis by auto
  next
    case 3
    with IH in' show ?thesis by auto
  qed
qed simp


text \<open>
  C25. The scan reports exactly the banned literals that a line outside the generated blocks asserts and no
  historical marker covers.
\<close>

theorem scan_reports_exactly:
  assumes "\<not> (allow \<and> contains HISTORICAL_MARKER (join_with [CHR 0x0A] (take 40 (splitlines text))))"
    "\<not> exempt_path path"
  shows "(n, lit) \<in> set (scan extra allow path text) \<longleftrightarrow>
     (let lines = splitlines text
      in 0 < n \<and> n \<le> length lines \<and> lit \<in> set SUPERSEDED_LITERALS \<union> set extra \<and> scanned lines (n - 1)
         \<and> asserts_literal (lines ! (n - 1)) lit \<and> \<not> historical_block lines n)"
  using assms scan_from_iff [of 0 "splitlines text" "splitlines text" False n lit "SUPERSEDED_LITERALS @ extra"]
  by (auto simp: scan_def inside_block_0 Let_def)

text \<open>
  One opening marker without a closing one silences the scan for the rest of a file, a source file
  included, for which only blocks of 25 lines may be exempt.
\<close>

lemma unclosed_marker_silences:
  assumes "m < length (splitlines text)" "opens (splitlines text ! m)"
    "\<forall>j. m < j \<longrightarrow> j < length (splitlines text) \<longrightarrow> \<not> closes (splitlines text ! j)"
    "(n, lit) \<in> set (scan extra False path text)"
  shows "n \<le> m"
proof (rule ccontr)
  let ?lines = "splitlines text"
  assume "\<not> n \<le> m"
  have "(n, lit) \<in> set (scan_from (SUPERSEDED_LITERALS @ extra) ?lines False 1 ?lines)"
    using assms(4) by (auto simp: scan_def Let_def split: if_splits)
  then have "scanned ?lines (n - 1)" "n \<le> length ?lines"
    using scan_from_iff [of 0 ?lines ?lines False n lit] by (auto simp: inside_block_0)
  moreover from this \<open>\<not> n \<le> m\<close> assms(2) have "m < n - 1"
    by (cases "n = Suc m") (auto simp: scanned_def)
  ultimately show False
    using assms(2,3) by (auto simp: scanned_def inside_block_def)
qed

text \<open>The exemption by directory sees the directories above the repository too.\<close>

lemma checkout_below_proofs_is_exempt:
  "scan extra False ''/home/ci/proofs/signaldeck/web/page.tsx'' text = []"
proof -
  have "exempt_path ''/home/ci/proofs/signaldeck/web/page.tsx''" by code_simp
  then show ?thesis by (simp add: scan_def Let_def)
qed

text \<open>Instances: a document with an outdated block, a source line with a superseded figure.\<close>

definition sample_block :: string where
  "sample_block = BEGIN_MARK @ CHR 0x0A # ''new'' @ CHR 0x0A # END_MARK @ [CHR 0x0A]"

definition sample_document :: string where
  "sample_document = ''title'' @ CHR 0x0A # BEGIN_MARK @ ''old'' @ END_MARK @ CHR 0x0A # ''tail''"

lemma injected_document_matches_witness:
  "block_matches sample_block (''title'' @ CHR 0x0A # rstrip_nl sample_block @ CHR 0x0A # ''tail'')"
proof -
  have "inject_text sample_block sample_document = Some (''title'' @ CHR 0x0A # rstrip_nl sample_block @ CHR 0x0A # ''tail'')"
    by code_simp
  moreover have "well_formed_block sample_block" by code_simp
  ultimately show ?thesis by (blast dest: injected_document_matches)
qed

lemma scan_reports_exactly_witness: "(1, ''48.1%'') \<in> set (scan [] False ''/r/a.go'' ''acc 48.1%'')"
proof -
  have lines: "splitlines ''acc 48.1%'' = [''acc 48.1%'']" "\<not> exempt_path ''/r/a.go''" by code_simp+
  moreover have "\<not> opens ''acc 48.1%''" "\<not> closes ''acc 48.1%''" "asserts_literal ''acc 48.1%'' ''48.1%''"
    "\<not> historical_block [''acc 48.1%''] 1" "''48.1%'' \<in> set SUPERSEDED_LITERALS" by code_simp+
  ultimately show ?thesis
    by (subst scan_reports_exactly) (simp_all add: Let_def scanned_def inside_block_0)
qed

end
