(* ===== verification/Live_Accuracy.thy ===== *)
theory Live_Accuracy
  imports Py_Num Doc_Blocks
begin

text \<open>
  \<open>tools/live_accuracy.py\<close>: the one renderer of the live record. It reads the registry, renders a
  block of Markdown, writes it to a partial and splices it into documents, or fails a build on a
  block that drifted and on a figure typed by hand. Figures are withheld by the licence switch, by a
  refused registry and, for the directional rows, by the switch of \<open>publication/withhold.go\<close>.
\<close>

type_synonym obj = "(string \<times> json) list"

text \<open>
  What a run finds around it: the environment variable, the Go file, the registry and the two reports
  beside it, and the decimal that \<open>repr\<close> shows for a float.
\<close>

record live_env =
  ev_publish :: "string option"
  ev_withhold :: "string option"
  ev_registry :: source_file
  ev_status :: "json option"
  ev_reval :: "json option"
  ev_reval_ops :: "json option"
  ev_repr :: "real \<Rightarrow> string"

section \<open>Values and texts\<close>

fun as_obj :: "json \<Rightarrow> obj py" where
  "as_obj (JObj d) = Inr d"
| "as_obj _ = Inl AttributeErr"

fun py_iter :: "json \<Rightarrow> json list py" where
  "py_iter (JArr xs) = Inr xs"
| "py_iter (JStr s) = Inr (map (\<lambda>c. JStr [c]) s)"
| "py_iter (JObj d) = Inr (map (\<lambda>kv. JStr (fst kv)) d)"
| "py_iter _ = Inl TypeErr"

text \<open>\<open>x[k]\<close> for a string \<open>k\<close>, and \<open>x.get(k, v)\<close>.\<close>

fun py_key :: "string \<Rightarrow> json \<Rightarrow> json py" where
  "py_key k (JObj d) = (case map_of d k of None \<Rightarrow> Inl KeyErr | Some v \<Rightarrow> Inr v)"
| "py_key k _ = Inl TypeErr"

definition py_get :: "json \<Rightarrow> string \<Rightarrow> json \<Rightarrow> json py" where
  "py_get v k j = py_bind (as_obj j) (\<lambda>d. Inr (jget_or v k d))"

text \<open>\<open>str(x)\<close>, floats by their shortest decimal.\<close>

fun py_text :: "live_env \<Rightarrow> json \<Rightarrow> string py" where
  "py_text ev (JFloat (Fin x)) = Inr (ev_repr ev x)"
| "py_text ev (JFloat PosInf) = Inr ''inf''"
| "py_text ev (JFloat NegInf) = Inr ''-inf''"
| "py_text ev (JFloat NaN) = Inr ''nan''"
| "py_text ev j = py_str j"

fun commas_rev :: "string \<Rightarrow> string" where
  "commas_rev (a # b # c # d # r) = a # b # c # CHR '','' # commas_rev (d # r)"
| "commas_rev r = r"

definition comma_int :: "int \<Rightarrow> string" where
  "comma_int i = (if i < 0 then ''-'' else []) @ rev (commas_rev (rev (str_nat (nat \<bar>i\<bar>))))"

text \<open>\<open>"{:,}".format(x)\<close>.\<close>

fun fmt_comma :: "json \<Rightarrow> string py" where
  "fmt_comma (JInt i) = Inr (comma_int i)"
| "fmt_comma (JBool b) = Inr (if b then ''1'' else ''0'')"
| "fmt_comma (JFloat _) = Inl OutOfModel"
| "fmt_comma (JStr _) = Inl ValueErr"
| "fmt_comma _ = Inl TypeErr"

text \<open>\<open>"%d" % x\<close>.\<close>

fun fmt_d :: "json \<Rightarrow> string py" where
  "fmt_d (JStr _) = Inl TypeErr"
| "fmt_d j = py_bind (py_int j) (\<lambda>i. Inr (str_int i))"

fun f_hundred :: "pyfloat \<Rightarrow> pyfloat" where
  "f_hundred (Fin x) = Fin (100 * x)"
| "f_hundred f = f"

definition pct :: "json \<Rightarrow> string py" where
  "pct x = (if x = JNull then Inr em_dash
            else py_bind (operand x) (\<lambda>f. Inr (fmt_float 1 (f_hundred f) @ ''%'')))"

definition pp :: "json \<Rightarrow> string py" where
  "pp x = (if x = JNull then Inr em_dash
           else py_bind (operand x) (\<lambda>f. Inr (fmt_signed 1 (f_hundred f) @ ''pp'')))"

definition cell_text :: "string \<Rightarrow> string" where
  "cell_text s = concat (map (\<lambda>c. if c = CHR ''|'' then [CHR 0x5C, CHR ''|''] else [c]) s)"

definition cell :: "live_env \<Rightarrow> json \<Rightarrow> string py" where
  "cell ev j = py_bind (py_text ev j) (\<lambda>s. Inr (cell_text s))"

definition interval :: "live_env \<Rightarrow> obj \<Rightarrow> string py" where
  "interval ev row =
     (case jget ''ci'' row of
        JArr [a, b] \<Rightarrow>
          (if a \<noteq> JNull \<and> b \<noteq> JNull
           then py_bind (pct a) (\<lambda>lo. py_bind (pct b) (\<lambda>hi. Inr (''['' @ lo @ '', '' @ hi @ '']'')))
           else cell ev (if truthy (jget ''ci_method'' row) then jget ''ci_method'' row else JStr ''withheld''))
      | _ \<Rightarrow> cell ev (if truthy (jget ''ci_method'' row) then jget ''ci_method'' row else JStr ''withheld''))"

definition is_live :: "obj \<Rightarrow> bool" where
  "is_live row = (case jget ''live_n'' row of JInt n \<Rightarrow> 0 < n | JBool b \<Rightarrow> b | _ \<Rightarrow> False)"

section \<open>The withholding switches\<close>

definition licence_withheld :: "live_env \<Rightarrow> bool" where
  "licence_withheld ev \<longleftrightarrow> ev_publish ev \<noteq> Some ''1''"

definition LICENCE_NOTICE :: string where
  "LICENCE_NOTICE =
    ''> **Withheld (licence): no live-record figures are published here.** Every figure '' @
    ''this record carries (accuracy, null, skill, sample sizes, distinct days, intervals, '' @
    ''verdicts, backtested claims and the survivorship measurement) is computed from Alpaca '' @
    ''market data, which Alpaca licenses for personal use only; derived figures may not be '' @
    ''shown to anyone else without Alpaca's written permission. Grading continues privately '' @
    ''into `data/accuracy_registry.json` (gitignored), and on a published deployment '' @
    ''`GET /api/accuracy` answers HTTP 451 to every caller except the operator. This block '' @
    ''carries figures again only once the operator records that permission with '' @
    ''`SIGNALDECK_PUBLISH_DERIVED=1`.''"

definition nl :: string where "nl = [CHR 0x0A]"

definition LICENCE_BLOCK :: string where
  "LICENCE_BLOCK = join_with nl
    [BEGIN_MARK, [],
     ''Generated by `tools/live_accuracy.py` with Alpaca-derived figures withheld '' @
     ''(`SIGNALDECK_PUBLISH_DERIVED` is not `1`). Nothing in this block is read from the '' @
     ''registry. Do not edit by hand '' @ em_dash @ '' edit the generator.'',
     [], LICENCE_NOTICE, [], END_MARK] @ nl"

definition README_LICENCE_SECTION :: string where
  "README_LICENCE_SECTION = join_with nl
    [''## Live accuracy (auto-updated)'', [],
     ''<!-- Generated by tools/live_accuracy.py --readme while SIGNALDECK_PUBLISH_DERIVED '' @
     ''is not 1 '' @ em_dash @ '' do not edit by hand. -->'',
     [], LICENCE_NOTICE, [],
     ''Grading methodology: `tools/accuracy_registry.py`; the operator's in-app view is '' @
     ''`/accuracy`.'']"

text \<open>The lines of the Go file that declare the switch and the reason.\<close>

definition strip_prefix :: "string \<Rightarrow> string \<Rightarrow> string option" where
  "strip_prefix p s = (if starts_with p s then Some (drop (length p) s) else None)"

definition blank_to_end :: "string \<Rightarrow> bool" where
  "blank_to_end s \<longleftrightarrow> list_all is_ws (takeWhile (\<lambda>c. c \<noteq> CHR 0x0A) s)"

fun line_starts :: "string \<Rightarrow> string list" where
  "line_starts [] = []"
| "line_starts (c # s) = (if c = CHR 0x0A then s # line_starts s else line_starts s)"

definition flag_at :: "string \<Rightarrow> bool option" where
  "flag_at s = Option.bind (strip_prefix ''var SD30Withheld = '' s) (\<lambda>r.
     if (\<exists>t \<in> set_option (strip_prefix ''true'' r). blank_to_end t) then Some True
     else if (\<exists>t \<in> set_option (strip_prefix ''false'' r). blank_to_end t) then Some False else None)"

definition reason_at :: "string \<Rightarrow> string option" where
  "reason_at s = Option.bind (strip_prefix (''const SD30Reason = '' @ [CHR 0x22]) s) (\<lambda>r.
     let body = takeWhile (\<lambda>c. c \<noteq> CHR 0x22 \<and> c \<noteq> CHR 0x5C) r; after = drop (length body) r
     in if body \<noteq> [] \<and> after \<noteq> [] \<and> hd after = CHR 0x22 \<and> blank_to_end (tl after) then Some body else None)"

fun first_some :: "('a \<Rightarrow> 'b option) \<Rightarrow> 'a list \<Rightarrow> 'b option" where
  "first_some f [] = None"
| "first_some f (x # xs) = (case f x of Some y \<Rightarrow> Some y | None \<Rightarrow> first_some f xs)"

definition sd30_flag :: "live_env \<Rightarrow> (bool \<times> string) py" where
  "sd30_flag ev =
     (case ev_withhold ev of
        None \<Rightarrow> Inl (SystemExit ''SD-30 flag unreadable'')
      | Some text \<Rightarrow>
          (case (first_some flag_at (text # line_starts text), first_some reason_at (text # line_starts text)) of
             (Some w, Some r) \<Rightarrow> Inr (w, r)
           | _ \<Rightarrow> Inl (SystemExit ''SD-30 flag or reason not found'')))"

definition word_char :: "char \<Rightarrow> bool" where
  "word_char c \<longleftrightarrow> is_digit c \<or> c \<in> set ''_abcdefghijklmnopqrstuvwxyzABCDEFGHIJKLMNOPQRSTUVWXYZ''"

text \<open>The search for \<open>\((1d|1w)\b\<close>.\<close>

fun names_horizon :: "string \<Rightarrow> bool" where
  "names_horizon [] = False"
| "names_horizon (c # s) =
     ((starts_with ''(1d'' (c # s) \<or> starts_with ''(1w'' (c # s)) \<and> (drop 2 s = [] \<or> \<not> word_char (hd (drop 2 s)))
      \<or> names_horizon s)"

definition sd30_withholds :: "bool \<Rightarrow> obj \<Rightarrow> bool py" where
  "sd30_withholds withheld row =
     (if withheld \<and> (jget ''family'' row = JStr ''direction'' \<or> jget ''family'' row = JStr ''benchmark'')
      then (if truthy (jget ''predictor'' row)
            then (case jget ''predictor'' row of JStr s \<Rightarrow> Inr (names_horizon s) | _ \<Rightarrow> Inl TypeErr)
            else Inr False)
      else Inr False)"

lemma horizon_examples: "names_horizon ''directional-ensemble (1d)''" "\<not> names_horizon ''x (1day)''" "\<not> names_horizon ''1w''"
  by code_simp+

lemma comma_examples: "comma_int 13058 = ''13,058''" "comma_int 999 = ''999''" "comma_int (- 1234567) = ''-1,234,567''"
  by (simp_all add: comma_int_def str_nat.simps digit_char_def)

section \<open>load_live_snapshot\<close>

record banner =
  bn_status :: json
  bn_reason :: json
  bn_age :: json
  bn_graded :: json
  bn_since :: json

definition py_or_else :: "json \<Rightarrow> json \<Rightarrow> json" where
  "py_or_else a b = (if truthy a then a else b)"

definition refusal_banner :: "obj \<Rightarrow> obj \<Rightarrow> banner" where
  "refusal_banner reg stale =
     \<lparr>bn_status = jget_or (JStr ''REFUSED'') ''status'' reg,
      bn_reason = jget_or (JStr ''unstated'') ''refusal_reason'' reg,
      bn_age = jget_or (JStr ''unknown'') ''last_successful_grade_age'' reg,
      bn_graded = py_or_else (jget ''graded_at'' stale) (py_or_else (jget ''generated'' stale)
        (py_or_else (jget ''graded_at'' reg) (JStr ''unknown''))),
      bn_since = py_or_else (jget ''refused_since'' reg) (JStr ''unknown'')\<rparr>"

definition load_document :: "json \<Rightarrow> (obj \<times> banner option) py" where
  "load_document j =
     py_bind (as_obj j) (\<lambda>reg.
       if truthy (jget ''rows'' reg) \<and> jget ''status'' reg \<noteq> JStr ''REFUSED'' then Inr (reg, None)
       else if jget ''status'' reg \<noteq> JStr ''REFUSED''
       then Inl (SystemExit ''registry has no publishable rows and is not marked REFUSED'')
       else py_bind (as_obj (py_or_else (jget ''stale_last_registry'' reg) (JObj []))) (\<lambda>stale.
         Inr (stale, Some (refusal_banner reg stale))))"

definition load_live_snapshot :: "live_env \<Rightarrow> (obj \<times> banner option) py" where
  "load_live_snapshot ev =
     (case ev_registry ev of
        NoFile \<Rightarrow> Inl (SystemExit ''registry not found'')
      | Unreadable \<Rightarrow> Inl (SystemExit ''registry unreadable'')
      | Readable b \<Rightarrow>
          (case blob_json b of None \<Rightarrow> Inl (SystemExit ''registry unreadable'') | Some j \<Rightarrow> load_document j))"

section \<open>The reports beside the registry\<close>

text \<open>\<open>except (KeyError, TypeError, AttributeError): return None\<close>.\<close>

definition caught :: "'a option py \<Rightarrow> 'a option py" where
  "caught m = (case m of
     Inl KeyErr \<Rightarrow> Inr None | Inl TypeErr \<Rightarrow> Inr None | Inl AttributeErr \<Rightarrow> Inr None | _ \<Rightarrow> m)"

definition STATUS_CLASSES :: "(string \<times> string) list" where
  "STATUS_CLASSES = [(''WATCHED'', ''watched''), (''UNWATCHED_TRADING'', ''unwatched but trading''),
     (''TRADING'', ''trading''), (''EXITED_DATED'', ''dated exit''), (''UNKNOWN'', ''unknown''),
     (''RETIRED_SOURCE'', ''retired source'')]"

definition STATUS_SCOPES :: "(string \<times> string) list" where
  "STATUS_SCOPES = [(''graded:prediction_outcomes'', ''directional''), (''graded:regime_outcomes'', ''structural'')]"

definition PRINTING_CLASSES :: "string list" where
  "PRINTING_CLASSES = [''WATCHED'', ''UNWATCHED_TRADING'', ''TRADING'']"

definition REGISTRY_RULE_NOTE :: string where
  "REGISTRY_RULE_NOTE =
    ''that count is the pinned registry's rule (`active=0` with no `delisted_at` '' @
    ''counts as unresolved) and `active` is the lean watch flag, so it is not a '' @
    ''count of delistings''"

fun int_addend :: "json \<Rightarrow> int py" where
  "int_addend (JInt i) = Inr i"
| "int_addend (JBool b) = Inr (if b then 1 else 0)"
| "int_addend (JFloat _) = Inl OutOfModel"
| "int_addend _ = Inl TypeErr"

text \<open>One scope of \<open>registry_undated_line\<close>: no part where there is nothing to count.\<close>

definition undated_part :: "json \<Rightarrow> string \<times> string \<Rightarrow> string list py" where
  "undated_part st kl =
     py_bind (py_key ''scopes'' st) (\<lambda>scopes.
     py_bind (py_get (JObj []) (fst kl) scopes) (\<lambda>scope.
     py_bind (py_get JNull ''registry_v1_inactive_undated'' scope) (\<lambda>reg.
       if \<not> truthy reg then Inr []
       else py_bind (py_key ''total'' reg) (\<lambda>total.
         if \<not> truthy total then Inr []
         else py_bind (py_key ''by_class'' reg) (\<lambda>by_class.
              py_bind (py_map (\<lambda>c. py_bind (py_get (JInt 0) c by_class) int_addend) PRINTING_CLASSES) (\<lambda>ns.
              py_bind (fmt_comma total) (\<lambda>t.
                Inr [snd kl @ '' '' @ comma_int (sum_list ns) @ '' of '' @ t])))))))"

definition registry_undated_line :: "live_env \<Rightarrow> string option py" where
  "registry_undated_line ev =
     (case ev_status ev of
        None \<Rightarrow> Inr None
      | Some st \<Rightarrow> caught (
          py_bind (py_map (undated_part st) STATUS_SCOPES) (\<lambda>pss.
            if concat pss = [] then Inr None
            else py_bind (py_bind (py_key ''sessions'' st) fmt_d) (\<lambda>sessions.
                 py_bind (py_bind (py_key ''as_of'' st) (py_text ev)) (\<lambda>as_of.
                 py_bind (py_bind (py_key ''measure_id'' st) (py_text ev)) (\<lambda>measure.
                   Inr (Some (''of those undated-inactive graded symbols, '' @ join_with '' and '' (concat pss)
                     @ '' printed a 1d bar within '' @ sessions @ '' sessions of '' @ as_of @ '', per '' @ measure))))))))"

definition class_part :: "json \<Rightarrow> string \<times> string \<Rightarrow> string list py" where
  "class_part counts cn =
     py_bind (py_get JNull (fst cn) counts) (\<lambda>v.
       if truthy v then py_bind (fmt_comma v) (\<lambda>t. Inr [t @ '' '' @ snd cn]) else Inr [])"

definition scope_part :: "json \<Rightarrow> string \<times> string \<Rightarrow> string list py" where
  "scope_part scopes kl =
     py_bind (py_get (JObj []) (fst kl) scopes) (\<lambda>scope.
     py_bind (py_get JNull ''counts'' scope) (\<lambda>counts.
       if counts = JNull then Inr []
       else py_bind (py_bind (py_key ''symbols'' scope) fmt_comma) (\<lambda>symbols.
            py_bind (py_map (class_part counts) STATUS_CLASSES) (\<lambda>ps.
              Inr [snd kl @ '' '' @ symbols @ '' symbols: '' @ join_with '', '' (concat ps)]))))"

definition survivorship_status_line :: "live_env \<Rightarrow> string option py" where
  "survivorship_status_line ev =
     (case ev_status ev of
        None \<Rightarrow> Inr None
      | Some st \<Rightarrow> caught (
          py_bind (py_key ''scopes'' st) (\<lambda>scopes.
          py_bind (py_map (scope_part scopes) STATUS_SCOPES) (\<lambda>pss.
            if concat pss = [] then Inr None
            else py_bind (py_bind (py_key ''measure_id'' st) (py_text ev)) (\<lambda>measure.
                 py_bind (py_bind (py_key ''as_of'' st) (py_text ev)) (\<lambda>as_of.
                   Inr (Some (measure @ '' as of '' @ as_of @ '' '' @ em_dash @ '' '' @ join_with ''; '' (concat pss)))))))))"

record effect =
  ef_active :: json
  ef_clean :: json
  ef_n_active :: json
  ef_n_clean :: json
  ef_generated :: json

definition survivorship_effect :: "json option \<Rightarrow> effect option py" where
  "survivorship_effect file =
     (case file of
        None \<Rightarrow> Inr None
      | Some j \<Rightarrow>
          py_bind (as_obj j) (\<lambda>snap.
          py_bind (as_obj (py_or_else (jget ''arms'' snap) (JObj []))) (\<lambda>arms.
            let active = jget ''active_only'' arms; clean = jget ''survivorship_clean'' arms
            in if \<not> truthy active \<or> \<not> truthy clean then Inr None
               else py_bind (as_obj active) (\<lambda>a.
                    if jget ''accuracy'' a = JNull then Inr None
                    else py_bind (as_obj clean) (\<lambda>c.
                      if jget ''accuracy'' c = JNull then Inr None
                      else Inr (Some \<lparr>ef_active = jget ''accuracy'' a, ef_clean = jget ''accuracy'' c,
                        ef_n_active = jget_or (JInt 0) ''n'' a, ef_n_clean = jget_or (JInt 0) ''n'' c,
                        ef_generated = jget_or (JStr ''unknown'') ''generated'' snap\<rparr>))))))"

definition measured_effect :: "live_env \<Rightarrow> effect option py" where
  "measured_effect ev =
     py_bind (survivorship_effect (ev_reval ev)) (\<lambda>e.
       case e of Some x \<Rightarrow> Inr (Some x) | None \<Rightarrow> survivorship_effect (ev_reval_ops ev))"

definition effect_text :: "live_env \<Rightarrow> effect \<Rightarrow> string py" where
  "effect_text ev e =
     py_bind (operand (ef_active e)) (\<lambda>a.
     py_bind (operand (ef_clean e)) (\<lambda>c.
     py_bind (fmt_comma (ef_n_clean e)) (\<lambda>nc.
     py_bind (fmt_comma (ef_n_active e)) (\<lambda>na.
     py_bind (py_text ev (ef_generated e)) (\<lambda>generated.
       Inr (''measured effect '' @ fmt_signed 2 (f_hundred (f_sub a c)) @ ''pp (active-only ''
         @ fmt_float 2 (f_hundred a) @ ''% minus survivorship-clean '' @ fmt_float 2 (f_hundred c) @ ''%, n='' @ nc
         @ '' clean vs '' @ na @ '' active, revalidation of '' @ generated @ '') '' @ em_dash
         @ '' POSITIVE means the active-only figure is higher than the all-names figure; `active` is ''
         @ ''the lean watch flag, so the gap mixes watch-set selection with ''
         @ ''survivorship and is not a delisting effect alone''))))))"

section \<open>render\<close>

definition snapshot_rows :: "obj \<Rightarrow> obj list py" where
  "snapshot_rows snap = py_bind (py_iter (jget_or (JArr []) ''rows'' snap)) (py_map as_obj)"

text \<open>A row's name as a key of a dict: a list or an object cannot be one.\<close>

definition row_key :: "obj \<Rightarrow> string option py" where
  "row_key r = (case jget ''predictor'' r of
     JStr s \<Rightarrow> Inr (Some s) | JNull \<Rightarrow> Inr None | JArr _ \<Rightarrow> Inl TypeErr | JObj _ \<Rightarrow> Inl TypeErr | _ \<Rightarrow> Inl OutOfModel)"

definition keyed_rows :: "obj list \<Rightarrow> (string option \<times> obj) list py" where
  "keyed_rows = py_map (\<lambda>r. py_bind (row_key r) (\<lambda>k. Inr (k, r)))"

definition withheld_keys :: "bool \<Rightarrow> (string option \<times> obj) list \<Rightarrow> string option list py" where
  "withheld_keys withheld rows =
     py_bind (py_map (\<lambda>(k, r). py_bind (sd30_withholds withheld r) (\<lambda>b. Inr (if b then [k] else []))) rows)
       (\<lambda>kss. Inr (concat kss))"

definition SD30_CELL :: string where "SD30_CELL = ''withheld (SD-30)''"

definition row_null :: "obj \<Rightarrow> json" where
  "row_null r = (if jget ''null_prequential'' r = JNull then jget ''null_acc'' r else jget ''null_prequential'' r)"

definition acc_cell :: "obj \<Rightarrow> string py" where
  "acc_cell r =
     (if jget ''live_acc'' r \<noteq> JNull \<and> row_null r = JNull then Inr (''withheld '' @ em_dash @ '' no null'')
      else pct (jget ''live_acc'' r))"

definition figure_cells :: "live_env \<Rightarrow> obj \<Rightarrow> string list py" where
  "figure_cells ev r =
     py_bind (acc_cell r) (\<lambda>acc. py_bind (pct (row_null r)) (\<lambda>null. py_bind (pp (jget ''skill'' r)) (\<lambda>skill.
     py_bind (py_text ev (jget_or (JInt 0) ''distinct_days'' r)) (\<lambda>days.
     py_bind (interval ev r) (\<lambda>ci. Inr [acc, null, skill, days, ci])))))"

definition row_line :: "live_env \<Rightarrow> string option list \<Rightarrow> string option \<times> obj \<Rightarrow> string py" where
  "row_line ev withheld kr =
     (case kr of (k, r) \<Rightarrow>
       py_bind (figure_cells ev r) (\<lambda>cells.
       py_bind (cell ev (jget_or (JStr ''?'') ''predictor'' r)) (\<lambda>name.
       py_bind (cell ev (jget_or (JStr ''all'') ''band'' r)) (\<lambda>band.
       py_bind (fmt_comma (jget_or (JInt 0) ''live_n'' r)) (\<lambda>n.
         let shown = (if k \<in> set withheld then [SD30_CELL, SD30_CELL, SD30_CELL, cells ! 3, SD30_CELL] else cells)
         in Inr (''| '' @ join_with '' | '' ([name, band, n] @ shown) @ '' |''))))))"

definition sd30_paragraph :: "string option list \<Rightarrow> string \<Rightarrow> string list" where
  "sd30_paragraph withheld reason =
     (if withheld = [] then []
      else [''**Directional 1d/1w figures '' @ reason @ ''.** These rows are scored against a label ''
              @ ''that is mostly realised when the call is issued, so their accuracy, null, ''
              @ ''skill, interval and verdict are not published; n and distinct days describe ''
              @ ''the sample only.'', []])"

definition interval_paragraph :: "obj list \<Rightarrow> string list" where
  "interval_paragraph live =
     (if live \<noteq> [] \<and> list_all (\<lambda>r. jget ''ci'' r = JNull) live
      then [''Intervals are withheld this cycle, so **no pass/fail verdict is ''
              @ ''published from them**. A point estimate without an interval is not ''
              @ ''a result; treat every row above as a running tally.'', []]
      else [])"

text \<open>The disclosure under a verdict its own interval does not support. The last row of a name counts.\<close>

definition unsupported_lines :: "live_env \<Rightarrow> (string option \<times> obj) list \<Rightarrow> obj \<Rightarrow> string list py" where
  "unsupported_lines ev rows r =
     py_bind (if map_of r ''predictor'' = None then Inr (Some ''?'') else row_key r) (\<lambda>name.
     let found = (case map_of (rev rows) name of None \<Rightarrow> [] | Some d \<Rightarrow> d)
     in py_bind (as_obj (py_or_else (jget ''honesty'' found) (JObj []))) (\<lambda>h.
        let res = jget ''resolvability'' h
        in if \<not> truthy res then Inr []
           else py_bind (as_obj res) (\<lambda>d.
             if jget ''supported'' d = JBool False \<and> truthy (jget ''reason'' d)
             then py_bind (py_text ev (jget ''reason'' d)) (\<lambda>t.
               Inr [''  - **verdict not supported by its own interval** '' @ em_dash @ '' '' @ t])
             else Inr [])))"

definition notice_lines :: "live_env \<Rightarrow> (string option \<times> obj) list \<Rightarrow> string option \<times> obj \<Rightarrow> string list py" where
  "notice_lines ev rows kr =
     py_bind (py_text ev (jget_or (JStr ''?'') ''predictor'' (snd kr))) (\<lambda>name.
     py_bind (py_text ev (jget ''verdict'' (snd kr))) (\<lambda>v.
     py_bind (unsupported_lines ev rows (snd kr)) (\<lambda>more.
       Inr ((''- `'' @ name @ ''` '' @ em_dash @ '' '' @ v) # more))))"

definition notices :: "live_env \<Rightarrow> string option list \<Rightarrow> (string option \<times> obj) list \<Rightarrow> string list py" where
  "notices ev withheld rows =
     py_bind (py_map (notice_lines ev rows)
         (filter (\<lambda>(k, r). truthy (jget ''verdict'' r) \<and> k \<notin> set withheld) rows)) (\<lambda>lss.
       Inr (if lss = [] then []
            else [''Sample-size notices carried by the registry itself (statements about ''
                    @ ''the sample, not verdicts about skill):'', []] @ concat lss @ [[]]))"

definition backtested_line :: "live_env \<Rightarrow> obj \<Rightarrow> string py" where
  "backtested_line ev r =
     py_bind (cell ev (jget_or (JStr ''?'') ''predictor'' r)) (\<lambda>name.
     py_bind (pct (jget ''claimed'' r)) (\<lambda>claimed.
     py_bind (fmt_comma (jget_or (JInt 0) ''forecasts_recorded'' r)) (\<lambda>n.
       Inr (''- `'' @ name @ ''` '' @ em_dash @ '' registered claim '' @ claimed @ '', '' @ n
              @ '' forecasts recorded, 0 graded. Not a live result.''))))"

definition backtested :: "live_env \<Rightarrow> obj list \<Rightarrow> string list py" where
  "backtested ev rows =
     py_bind (py_map (backtested_line ev) (filter (\<lambda>r. \<not> is_live r) rows)) (\<lambda>ls.
       Inr (if ls = [] then [] else [''### Backtested claims with no live record yet'', []] @ ls @ [[]]))"

definition multiplicity_lines :: "live_env \<Rightarrow> obj \<Rightarrow> string list py" where
  "multiplicity_lines ev snap =
     py_bind (py_map (\<lambda>k. py_bind (py_text ev (jget k snap)) (\<lambda>t. Inr (k @ ''='' @ t)))
         (filter (\<lambda>k. jget k snap \<noteq> JNull) [''family_size'', ''looks'', ''divisor'', ''corrected_alpha''])) (\<lambda>ms.
       Inr (if ms = [] then [] else [''**Multiplicity:** '' @ join_with '', '' ms @ ''.'', []]))"

definition survivorship_reason :: "obj list \<Rightarrow> json" where
  "survivorship_reason rows =
     (case find (\<lambda>r. jget ''survivorship_clean'' r = JBool False \<and> truthy (jget ''survivorship_reason'' r)) rows of
        None \<Rightarrow> JNull | Some r \<Rightarrow> jget ''survivorship_reason'' r)"

definition opt_list :: "'a option \<Rightarrow> 'a list" where
  "opt_list x = (case x of None \<Rightarrow> [] | Some y \<Rightarrow> [y])"

text \<open>The parts are joined as texts, which a reason of another type is not.\<close>

definition reason_parts :: "live_env \<Rightarrow> json \<Rightarrow> string list py" where
  "reason_parts ev reason =
     (case reason of
        JNull \<Rightarrow> Inr []
      | JStr t \<Rightarrow>
          (if contains ''with no delisted_at'' t
           then py_bind (registry_undated_line ev) (\<lambda>m. Inr ([t, REGISTRY_RULE_NOTE] @ opt_list m))
           else Inr [t])
      | _ \<Rightarrow> Inl TypeErr)"

definition survivorship_lines :: "live_env \<Rightarrow> obj \<Rightarrow> obj list \<Rightarrow> string list py" where
  "survivorship_lines ev snap rows =
     py_bind (if truthy (jget ''survivorship_epoch'' snap)
              then py_bind (py_text ev (jget ''survivorship_epoch'' snap)) (\<lambda>t. Inr [''epoch '' @ t]) else Inr []) (\<lambda>epoch.
     py_bind (reason_parts ev (survivorship_reason rows)) (\<lambda>reason.
     py_bind (survivorship_status_line ev) (\<lambda>status.
     py_bind (measured_effect ev) (\<lambda>e.
     py_bind (case e of None \<Rightarrow> Inr [] | Some x \<Rightarrow> py_bind (effect_text ev x) (\<lambda>t. Inr [t])) (\<lambda>effect.
       let surv = epoch @ reason @ opt_list status @ effect
       in Inr (if surv = [] then [] else [''**Survivorship:** '' @ join_with ''; '' surv @ ''.'', []]))))))"

definition generated_line :: "string \<Rightarrow> string \<Rightarrow> string" where
  "generated_line rel grade =
     ''Generated from `'' @ rel @ ''` ('' @ grade @ '') by `tools/live_accuracy.py`. Do not edit by hand '' @ em_dash
       @ '' edit the registry or the generator.''"

definition refusal_block :: "live_env \<Rightarrow> banner \<Rightarrow> string \<Rightarrow> string py" where
  "refusal_block ev b rel =
     py_bind (py_text ev (bn_status b)) (\<lambda>status. py_bind (py_text ev (bn_since b)) (\<lambda>since.
     py_bind (py_text ev (bn_reason b)) (\<lambda>reason. py_bind (py_text ev (bn_graded b)) (\<lambda>graded.
     py_bind (py_text ev (bn_age b)) (\<lambda>age.
       Inr (join_with nl [BEGIN_MARK, [], generated_line rel (''registry `'' @ status @ ''` since '' @ since), [],
         ''> **GRADING REFUSED '' @ em_dash @ '' no accuracy figures are published.** Reason: '' @ reason
           @ ''. The grade computed at '' @ graded @ '' ('' @ age @ '' old) is withheld, not lost: it is retained inside ''
           @ ''the registry under `stale_last_registry` for the historical record and is ''
           @ ''deliberately not reprinted here, because a number the publication gate refused ''
           @ ''to stand behind is not a live number. The in-app `/accuracy` page and ''
           @ ''`/api/accuracy` apply the same gate from the same registry.'',
         [], END_MARK] @ nl))))))"

definition figure_block :: "live_env \<Rightarrow> obj \<Rightarrow> string \<Rightarrow> string py" where
  "figure_block ev snap rel =
     py_bind (py_text ev (py_or_else (jget ''graded_at'' snap) (py_or_else (jget ''generated'' snap) (JStr ''unknown'')))) (\<lambda>graded.
     py_bind (snapshot_rows snap) (\<lambda>rows.
     py_bind (sd30_flag ev) (\<lambda>(flag, reason).
     py_bind (keyed_rows (filter is_live rows)) (\<lambda>live.
     py_bind (withheld_keys flag live) (\<lambda>withheld.
     py_bind (py_map (row_line ev withheld) live) (\<lambda>table.
     py_bind (notices ev withheld live) (\<lambda>note_lines.
     py_bind (backtested ev rows) (\<lambda>back.
     py_bind (multiplicity_lines ev snap) (\<lambda>mult.
     py_bind (survivorship_lines ev snap rows) (\<lambda>surv.
       Inr (join_with nl ([BEGIN_MARK, [], generated_line rel (''grade of '' @ graded), [],
         ''### Live record'', [],
         ''| Predictor | Band | n | Live acc | Null | Skill | Distinct days | Interval |'',
         ''|---|---|---|---|---|---|---|---|''] @ table @ [[]] @ sd30_paragraph withheld reason
         @ interval_paragraph (filter is_live rows) @ note_lines @ back @ mult @ surv @ [END_MARK]) @ nl)))))))))))"

definition render :: "live_env \<Rightarrow> obj \<Rightarrow> banner option \<Rightarrow> string \<Rightarrow> string py" where
  "render ev snap b rel = (case b of Some bn \<Rightarrow> refusal_block ev bn rel | None \<Rightarrow> figure_block ev snap rel)"

section \<open>current_literals\<close>

definition row_literals :: "obj \<Rightarrow> string list py" where
  "row_literals r =
     (case jget ''live_n'' r of
        JInt n \<Rightarrow>
          (if n < 30 then Inr []
           else py_bind (py_map pct (filter (\<lambda>v. v \<noteq> JNull)
                  [jget ''live_acc'' r, jget ''null_prequential'' r, jget ''null_acc'' r])) (\<lambda>ls.
                Inr (ls @ (if 1000 \<le> n then [comma_int n] else []))))
      | _ \<Rightarrow> Inr [])"

definition current_literals :: "obj \<Rightarrow> string list py" where
  "current_literals snap =
     py_bind (snapshot_rows snap) (\<lambda>rows. py_bind (py_map row_literals rows) (\<lambda>lss.
       Inr (sort (remdups (filter (\<lambda>l. l \<noteq> ''50.0%'') (concat lss))))))"

section \<open>check_readme_freshness\<close>

definition dir_name :: "string \<Rightarrow> string" where
  "dir_name p =
     (let d = rev (drop 1 (dropWhile (\<lambda>c. c \<noteq> CHR ''/'') (rev p)))
      in if d = [] \<and> CHR ''/'' \<in> set p then ''/'' else d)"

definition default_readme :: "string \<Rightarrow> string" where
  "default_readme registry =
     (let d = dir_name (dir_name registry) in (if ends_with ''/'' d then d else d @ ''/'') @ ''README.md'')"

type_synonym files = "string \<Rightarrow> string option"

definition read_file_text :: "files \<Rightarrow> string \<Rightarrow> string option" where
  "read_file_text fs path = map_option universal_newlines (fs path)"

text \<open>\<open>s.rstrip(\<dots>)\<close> of the middle dot and the space.\<close>

fun drop_dots :: "string \<Rightarrow> string" where
  "drop_dots (c # d # s) =
     (if c = CHR '' '' then drop_dots (d # s)
      else if c = CHR 0xB7 \<and> d = CHR 0xC2 then drop_dots s else c # d # s)"
| "drop_dots s = dropWhile (\<lambda>c. c = CHR '' '') s"

definition stamp_text :: "string \<Rightarrow> string" where
  "stamp_text s = strip (rev (drop_dots (rev s)))"

text \<open>The search for \<open>_Regenerated\s+(\S+)\<close>.\<close>

fun regenerated_stamp :: "string \<Rightarrow> string option" where
  "regenerated_stamp [] = None"
| "regenerated_stamp (c # s) =
     (case strip_prefix ''_Regenerated'' (c # s) of
        Some r \<Rightarrow>
          (if r \<noteq> [] \<and> is_ws (hd r) \<and> dropWhile is_ws r \<noteq> []
           then Some (takeWhile (\<lambda>d. \<not> is_ws d) (dropWhile is_ws r)) else regenerated_stamp s)
      | None \<Rightarrow> regenerated_stamp s)"

text \<open>Whether the check has a problem to report.\<close>

definition withheld_readme_problem :: "string option \<Rightarrow> bool" where
  "withheld_readme_problem text =
     (case text of
        None \<Rightarrow> False
      | Some t \<Rightarrow> (case readme_block t of None \<Rightarrow> False | Some b \<Rightarrow> strip_nl b \<noteq> README_LICENCE_SECTION))"

definition registry_generated :: "source_file \<Rightarrow> json option py" where
  "registry_generated f =
     (case f of
        Readable b \<Rightarrow>
          (case blob_json b of
             None \<Rightarrow> Inr None
           | Some j \<Rightarrow> py_bind (as_obj (py_or_else j (JObj []))) (\<lambda>d. Inr (Some (jget ''generated'' d))))
      | _ \<Rightarrow> Inr None)"

definition stale_readme_problem :: "json \<Rightarrow> string option \<Rightarrow> bool" where
  "stale_readme_problem reg_gen text =
     (case text of
        None \<Rightarrow> False
      | Some t \<Rightarrow>
          (case readme_block t of
             None \<Rightarrow> False
           | Some b \<Rightarrow>
               (case regenerated_stamp b of None \<Rightarrow> True | Some m \<Rightarrow> JStr (stamp_text m) \<noteq> reg_gen)))"

definition readme_problem :: "live_env \<Rightarrow> bool \<Rightarrow> string option \<Rightarrow> bool py" where
  "readme_problem ev withheld text =
     (if withheld then Inr (withheld_readme_problem text)
      else py_bind (registry_generated (ev_registry ev)) (\<lambda>g.
        case g of
          None \<Rightarrow> Inr True
        | Some reg_gen \<Rightarrow> Inr (\<not> truthy reg_gen \<or> stale_readme_problem reg_gen text)))"

section \<open>main\<close>

record live_args =
  ar_registry :: string
  ar_rel :: string                          \<comment> \<open>the registry's path below the repository\<close>
  ar_out :: string
  ar_write :: bool
  ar_check :: bool
  ar_inject :: "string list"
  ar_readme :: "string option"
  ar_scan :: "string list"
  ar_scan_code :: "string list"
  ar_includes :: "string list option"

definition strip_paths :: "string list \<Rightarrow> string list" where
  "strip_paths ps = filter (\<lambda>p. p \<noteq> []) (map strip ps)"

definition strip_args :: "live_args \<Rightarrow> live_args" where
  "strip_args a = a\<lparr>ar_inject := strip_paths (ar_inject a), ar_scan := strip_paths (ar_scan a),
     ar_scan_code := strip_paths (ar_scan_code a), ar_includes := map_option strip_paths (ar_includes a)\<rparr>"

definition any_mode :: "live_args \<Rightarrow> bool" where
  "any_mode a \<longleftrightarrow> ar_write a \<or> ar_check a \<or> ar_inject a \<noteq> [] \<or> ar_scan a \<noteq> [] \<or> ar_scan_code a \<noteq> []
     \<or> ar_includes a \<noteq> None \<or> (\<exists>r \<in> set_option (ar_readme a). r \<noteq> [])"

text \<open>The block a mode needs, and the figures of the current grade the scans look for.\<close>

definition wants_block :: "live_args \<Rightarrow> bool" where
  "wants_block a \<longleftrightarrow> ar_write a \<or> ar_check a \<or> ar_inject a \<noteq> []"

definition block_of :: "live_env \<Rightarrow> live_args \<Rightarrow> (string \<times> string list) py" where
  "block_of ev a =
     (if \<not> wants_block a then Inr ([], [])
      else if licence_withheld ev then Inr (LICENCE_BLOCK, [])
      else py_bind (load_live_snapshot ev) (\<lambda>(snap, b).
           py_bind (render ev snap b (ar_rel a)) (\<lambda>block.
           py_bind (current_literals snap) (\<lambda>lits. Inr (block, lits)))))"

definition scan_literals :: "live_env \<Rightarrow> live_args \<Rightarrow> string list \<Rightarrow> string list py" where
  "scan_literals ev a current =
     (if current = [] \<and> (ar_scan a \<noteq> [] \<or> ar_scan_code a \<noteq> []) \<and> ev_registry ev \<noteq> NoFile
      then py_bind (load_live_snapshot ev) (\<lambda>(snap, _). current_literals snap)
      else Inr current)"

definition readme_path :: "live_args \<Rightarrow> string" where
  "readme_path a = (case ar_readme a of Some r \<Rightarrow> r | None \<Rightarrow> default_readme (ar_registry a))"

definition plan :: "live_env \<Rightarrow> live_args \<Rightarrow> files \<Rightarrow> (bool \<times> string \<times> string list) py" where
  "plan ev a fs =
     py_bind (if ar_check a then readme_problem ev (licence_withheld ev) (read_file_text fs (readme_path a)) else Inr False) (\<lambda>bad.
     py_bind (block_of ev a) (\<lambda>(block, lits).
     py_bind (scan_literals ev a lits) (\<lambda>current. Inr (bad, block, current))))"

text \<open>
  The writing and checking stages carry the files and whether the exit status is still 0; an exception
  ends the run with the files as they are.
\<close>

type_synonym stage = "files \<Rightarrow> bool py \<times> files"

definition seq :: "stage \<Rightarrow> stage \<Rightarrow> stage" where
  "seq m n fs = (case m fs of
     (Inl e, fs') \<Rightarrow> (Inl e, fs')
   | (Inr ok, fs') \<Rightarrow> (case n fs' of (Inl e, fs'') \<Rightarrow> (Inl e, fs'') | (Inr ok', fs'') \<Rightarrow> (Inr (ok \<and> ok'), fs'')))"

definition skip_stage :: stage where "skip_stage fs = (Inr True, fs)"

fun each :: "('a \<Rightarrow> stage) \<Rightarrow> 'a list \<Rightarrow> stage" where
  "each f [] = skip_stage"
| "each f (x # xs) = seq (f x) (each f xs)"

definition with_file :: "string \<Rightarrow> (string \<Rightarrow> bool py \<times> string option) \<Rightarrow> stage" where
  "with_file path f fs =
     (case read_file_text fs path of
        None \<Rightarrow> (Inl OSErr, fs)
      | Some t \<Rightarrow> (case f t of (r, None) \<Rightarrow> (r, fs) | (r, Some t') \<Rightarrow> (r, fs(path \<mapsto> t'))))"

definition inject_stage :: "string \<Rightarrow> string \<Rightarrow> stage" where
  "inject_stage block doc = with_file doc (\<lambda>t.
     case inject_text block t of None \<Rightarrow> (Inr False, None) | Some t' \<Rightarrow> (Inr True, Some t'))"

definition match_stage :: "string \<Rightarrow> string \<Rightarrow> stage" where
  "match_stage block doc = with_file doc (\<lambda>t. (Inr (block_matches block t), None))"

definition out_stage :: "live_args \<Rightarrow> string \<Rightarrow> stage" where
  "out_stage a block fs =
     (if ar_check a then (Inr (read_file_text fs (ar_out a) = Some block), fs)
      else if ar_write a then (Inr True, fs(ar_out a \<mapsto> block)) else (Inr True, fs))"

definition readme_stage :: "live_args \<Rightarrow> stage" where
  "readme_stage a =
     (case ar_readme a of
        Some path \<Rightarrow>
          (if path \<noteq> [] \<and> \<not> ar_check a
           then with_file path (\<lambda>t. case inject_readme_text README_LICENCE_SECTION t of
                  None \<Rightarrow> (Inr False, None) | Some (Inl e) \<Rightarrow> (Inl e, None) | Some (Inr t') \<Rightarrow> (Inr True, Some t'))
           else skip_stage)
      | None \<Rightarrow> skip_stage)"

definition includes_stage :: "live_args \<Rightarrow> stage" where
  "includes_stage a fs =
     (case ar_includes a of
        None \<Rightarrow> (Inr True, fs)
      | Some docs \<Rightarrow>
          (case read_file_text fs (ar_out a) of
             None \<Rightarrow> (Inr False, fs)
           | Some partial \<Rightarrow> each (match_stage partial) docs fs))"

definition scan_stage :: "string list \<Rightarrow> bool \<Rightarrow> string \<Rightarrow> stage" where
  "scan_stage current allow doc = with_file doc (\<lambda>t. (Inr (scan current allow doc t = []), None))"

definition run_stages :: "live_args \<Rightarrow> bool \<Rightarrow> string \<Rightarrow> string list \<Rightarrow> stage" where
  "run_stages a bad block current =
     seq (\<lambda>fs. (Inr (\<not> bad), fs))
       (seq (out_stage a block)
         (seq (each (if ar_check a then match_stage block else inject_stage block) (ar_inject a))
           (seq (readme_stage a)
             (seq (includes_stage a)
               (seq (each (scan_stage current True) (ar_scan a)) (each (scan_stage current False) (ar_scan_code a)))))))"

text \<open>The exit status, or the exception that ended the run; \<^term>\<open>SystemExit\<close> is \<open>die\<close>, status 2.\<close>

definition live_main :: "live_env \<Rightarrow> live_args \<Rightarrow> files \<Rightarrow> nat py \<times> files" where
  "live_main ev args fs =
     (let a = strip_args args
      in if \<not> any_mode a then (Inr 2, fs)
         else if (\<exists>r \<in> set_option (ar_readme a). r \<noteq> []) \<and> \<not> licence_withheld ev then (Inl (SystemExit ''--readme''), fs)
         else case plan ev a fs of
           Inl e \<Rightarrow> (Inl e, fs)
         | Inr (bad, block, current) \<Rightarrow>
             (case run_stages a bad block current fs of
                (Inl e, fs') \<Rightarrow> (Inl e, fs') | (Inr ok, fs') \<Rightarrow> (Inr (if ok then 0 else 1), fs')))"

end
