(* ===== verification/Doc_Claims.thy ===== *)
theory Doc_Claims
  imports Deployment_Drift Live_Accuracy
begin

text \<open>
  What \<open>tools/docs_gate.py\<close> sees in the lines of a document: the markers of generated regions, the
  percentages left once confidence levels and the coin-flip null are scrubbed, the forbidden words,
  and table rows that call something verified. Every regular expression of the source is the
  function that consumes it from the front of a text; \<open>re.search\<close> and \<open>re.sub\<close> run such a function
  along the text and pass it the character before. Characters are read as ASCII: Unicode letters,
  digits and spaces are neither word characters, digits nor spaces here.
\<close>

section \<open>Reading lines\<close>

text \<open>\<open>read_text_lines\<close>: text mode, one entry for every line, without its newline.\<close>

definition text_lines :: "string \<Rightarrow> string list" where
  "text_lines s =
     (let ls = split_char (CHR 0x0A) (universal_newlines s)
      in if last ls = [] then butlast ls else ls)"

definition rstrip :: "string \<Rightarrow> string" where
  "rstrip s = rev (dropWhile is_ws (rev s))"

definition lower :: "string \<Rightarrow> string" where
  "lower s = map lower_char s"

section \<open>Searching and replacing\<close>

text \<open>A matcher takes the character before the text and answers with what follows the match.\<close>

type_synonym matcher = "char option \<Rightarrow> string \<Rightarrow> string option"

definition at_word :: "char option \<Rightarrow> bool" where
  "at_word p = (case p of None \<Rightarrow> False | Some c \<Rightarrow> is_word c)"

definition first_char :: "string \<Rightarrow> char option" where
  "first_char s = (case s of [] \<Rightarrow> None | c # _ \<Rightarrow> Some c)"

text \<open>\<open>\bw\b\<close> for a word \<open>w\<close>.\<close>

definition whole_word :: "string \<Rightarrow> matcher" where
  "whole_word w p s =
     (if at_word p then None
      else case expect w s of
             None \<Rightarrow> None
           | Some r \<Rightarrow> if at_word (first_char r) then None else Some r)"

fun re_search :: "matcher \<Rightarrow> char option \<Rightarrow> string \<Rightarrow> bool" where
  "re_search m p [] = (m p [] \<noteq> None)"
| "re_search m p (c # s) = (m p (c # s) \<noteq> None \<or> re_search m (Some c) s)"

text \<open>\<open>re.sub\<close> from the left; the number counts the characters of a match still to be dropped.\<close>

fun re_sub :: "matcher \<Rightarrow> string \<Rightarrow> char option \<Rightarrow> nat \<Rightarrow> string \<Rightarrow> string" where
  "re_sub m repl p n [] = []"
| "re_sub m repl p (Suc n) (c # s) = re_sub m repl (Some c) n s"
| "re_sub m repl p 0 (c # s) =
     (case m p (c # s) of
        None \<Rightarrow> c # re_sub m repl (Some c) 0 s
      | Some r \<Rightarrow> repl @ re_sub m repl (Some c) (length s - length r) s)"

section \<open>Percentages\<close>

text \<open>\<open>(?:\.d+)?\<close>, with the digits a parameter.\<close>

definition opt_fraction :: "(char \<Rightarrow> bool) \<Rightarrow> string \<Rightarrow> string" where
  "opt_fraction d s =
     (case s of
        c # e # r \<Rightarrow> if c = CHR ''.'' \<and> d e then dropWhile d r else s
      | _ \<Rightarrow> s)"

definition percent_sign :: "string \<Rightarrow> string option" where
  "percent_sign s = expect ''%'' (many_ws s)"

definition percentage :: matcher where
  "percentage p s =
     (if takeWhile is_digit s = [] then None
      else percent_sign (opt_fraction is_digit (dropWhile is_digit s)))"

definition conf_level :: "string \<Rightarrow> string option" where
  "conf_level s =
     (if take 2 s \<in> {''80'', ''90'', ''95'', ''98''} then Some (drop 2 s)
      else if take 2 s = ''99'' then Some (opt_fraction is_digit (drop 2 s))
      else None)"

definition conf_percent :: "string \<Rightarrow> string option" where
  "conf_percent s = Option.bind (conf_level s) percent_sign"

text \<open>A word without regard to case.\<close>

definition expect_ci :: "string \<Rightarrow> string \<Rightarrow> string option" where
  "expect_ci w s =
     (if lower (take (length w) s) = lower w then Some (drop (length w) s) else None)"

fun expect_any :: "string list \<Rightarrow> string \<Rightarrow> string option" where
  "expect_any [] s = None"
| "expect_any (w # ws) s = (case expect_ci w s of Some r \<Rightarrow> Some r | None \<Rightarrow> expect_any ws s)"

definition expect_CI :: "string \<Rightarrow> string option" where
  "expect_CI s =
     Option.bind (expect_ci ''ci'' s) (\<lambda>r. if at_word (first_char r) then None else Some r)"

definition or_else :: "'a option \<Rightarrow> 'a option \<Rightarrow> 'a option" where
  "or_else a b = (case a of None \<Rightarrow> b | Some x \<Rightarrow> Some x)"

text \<open>The number first: \<open>95% CI\<close>.\<close>

definition level_then_word :: "string \<Rightarrow> string option" where
  "level_then_word s =
     Option.bind (conf_percent s) (\<lambda>r. let t = many_ws r
       in or_else (expect_CI t) (expect_any [''confidence'', ''credible'', ''interval'', ''band''] t))"

text \<open>The word first: \<open>confidence level of 95%\<close>.\<close>

definition opt_level :: "string \<Rightarrow> string" where
  "opt_level s = (case expect_ci ''level'' s of None \<Rightarrow> s | Some r \<Rightarrow> many_ws r)"

definition opt_of :: "string \<Rightarrow> string" where
  "opt_of s = (case expect_any [''of'', ''at'', ''=''] s of None \<Rightarrow> s | Some r \<Rightarrow> r)"

definition word_then_level :: matcher where
  "word_then_level p s =
     Option.bind (or_else (if at_word p then None else expect_CI s)
                          (expect_any [''confidence'', ''credible'', ''interval''] s))
       (\<lambda>r. conf_percent (many_ws (opt_of (opt_level (many_ws r)))))"

definition confidence_pct :: matcher where
  "confidence_pct p s = or_else (level_then_word s) (word_then_level p s)"

definition coin_flip_null :: matcher where
  "coin_flip_null p s =
     (if at_word p then None
      else Option.bind (expect ''50'' s) (\<lambda>r. percent_sign (opt_fraction (\<lambda>c. c = CHR ''0'') r)))"

definition NULL_CONTEXT_WORDS :: "string list" where
  "NULL_CONTEXT_WORDS = [''baseline'', ''null'', ''never'', ''coin'', ''chance'', ''random'']"

definition scrub_non_accuracy_percentages :: "string \<Rightarrow> string" where
  "scrub_non_accuracy_percentages line =
     (let scrubbed = re_sub confidence_pct '' '' None 0 line
      in if list_ex (\<lambda>w. contains w (lower line)) NULL_CONTEXT_WORDS
         then re_sub coin_flip_null '' '' None 0 scrubbed else scrubbed)"

definition LIVE_ACCURACY_PHRASES :: "string list" where
  "LIVE_ACCURACY_PHRASES =
     [''live accuracy'', ''live record'', ''live directional'', ''directional accuracy'', ''hit rate'',
      ''win rate'', ''realized accuracy'', ''accuracy of'', ''graded at'', ''accuracy is'', ''accuracy was'']"

definition claims_live_accuracy :: "string \<Rightarrow> bool" where
  "claims_live_accuracy line \<longleftrightarrow>
     re_search percentage None (scrub_non_accuracy_percentages line)
     \<and> list_ex (\<lambda>p. contains p (lower line)) LIVE_ACCURACY_PHRASES"

section \<open>Forbidden claims\<close>

definition FORBIDDEN_PHRASES :: "string list" where
  "FORBIDDEN_PHRASES = [''guaranteed'', ''surefire'', ''zero risk'']"

definition forbidden_in :: "string \<Rightarrow> string list" where
  "forbidden_in line = filter (\<lambda>w. re_search (whole_word w) None (lower line)) FORBIDDEN_PHRASES"

definition table_row :: "string \<Rightarrow> bool" where
  "table_row s \<longleftrightarrow> starts_with ''|'' (many_ws s)"

definition table_separator :: "string \<Rightarrow> bool" where
  "table_separator s \<longleftrightarrow>
     (let t = rstrip (many_ws s)
      in 3 \<le> length t \<and> hd t = CHR ''|'' \<and> last t = CHR ''|''
         \<and> list_all (\<lambda>c. is_ws c \<or> c \<in> {CHR ''-'', CHR '':'', CHR ''|''}) t)"

definition opt_word :: "string \<Rightarrow> string \<Rightarrow> string" where
  "opt_word w s =
     (case Option.bind (expect w s) some_ws of None \<Rightarrow> s | Some r \<Rightarrow> r)"

definition negated_verified :: matcher where
  "negated_verified p s =
     (if at_word p then None
      else Option.bind (Option.bind
             (or_else (expect ''not'' s) (or_else (expect ''never'' s) (expect ''no'' s))) some_ws)
           (\<lambda>r. case expect ''verified'' (opt_word ''been'' (opt_word ''yet'' r)) of
                  None \<Rightarrow> None
                | Some t \<Rightarrow> if at_word (first_char t) then None else Some t))"

definition affirmed_text :: "string \<Rightarrow> string" where
  "affirmed_text line =
     re_sub (whole_word ''unverified'') [] None 0 (re_sub negated_verified [] None 0 (lower line))"

definition proof_link :: matcher where
  "proof_link p s =
     Option.bind (expect ''](''  s) (\<lambda>r.
     Option.bind (or_else (expect ''proofs/'' r) (expect ''repro/'' r)) (\<lambda>t.
       if takeWhile (\<lambda>c. c \<noteq> CHR '')'') t = [] then None
       else expect '')'' (dropWhile (\<lambda>c. c \<noteq> CHR '')'') t)))"

text \<open>The matcher of \<open>\w+\<close> and of \<open>\d+\<close>: at least one character of the kind.\<close>

definition many1 :: "(char \<Rightarrow> bool) \<Rightarrow> string \<Rightarrow> string option" where
  "many1 P s = (if takeWhile P s = [] then None else Some (dropWhile P s))"

definition code_ref :: matcher where
  "code_ref p s =
     (if at_word p then None
      else Option.bind (many1 is_word s) (\<lambda>a.
           Option.bind (expect ''.'' a) (\<lambda>b.
           Option.bind (many1 is_word b) (\<lambda>c.
           Option.bind (expect '':'' c) (\<lambda>d.
           Option.bind (many1 is_digit d) (\<lambda>e.
             if at_word (first_char e) then None else Some e))))))"

definition unproved_verified :: "string \<Rightarrow> bool" where
  "unproved_verified line \<longleftrightarrow>
     table_row (strip line) \<and> \<not> table_separator (strip line)
     \<and> re_search (whole_word ''verified'') None (lower line)
     \<and> re_search (whole_word ''verified'') None (affirmed_text line)
     \<and> \<not> (re_search proof_link None line \<or> re_search code_ref None line)"

section \<open>Markers of generated regions\<close>

definition comment_body :: "string \<Rightarrow> string \<Rightarrow> string option" where
  "comment_body word line = Option.bind (expect ''<!--'' line) (\<lambda>r. expect word (many_ws r))"

definition marker_name :: "string \<Rightarrow> string \<Rightarrow> string option" where
  "marker_name word line =
     Option.bind (comment_body word line) (\<lambda>r.
     Option.bind (if starts_with '':'' r then Some (many_ws (tl r)) else some_ws r) (\<lambda>t.
       let body = rstrip (take (length t - 3) t)
       in if ends_with ''-->'' t \<and> body \<noteq> [] \<and> list_all (\<lambda>c. \<not> is_ws c) body then Some body else None))"

definition generated_begin :: "string \<Rightarrow> string option" where
  "generated_begin = marker_name ''BEGIN GENERATED''"

definition generated_end :: "string \<Rightarrow> string option" where
  "generated_end = marker_name ''END GENERATED''"

definition partial_marker :: "string \<Rightarrow> string \<Rightarrow> bool" where
  "partial_marker word line \<longleftrightarrow>
     (case comment_body word line of None \<Rightarrow> False | Some r \<Rightarrow> many_ws r = ''-->'')"

definition live_begin :: "string \<Rightarrow> bool" where
  "live_begin = partial_marker ''LIVE-ACCURACY-PARTIAL:BEGIN''"

definition live_end :: "string \<Rightarrow> bool" where
  "live_end = partial_marker ''LIVE-ACCURACY-PARTIAL:END''"

definition is_marker_line :: "string \<Rightarrow> bool" where
  "is_marker_line line \<longleftrightarrow>
     generated_begin line \<noteq> None \<or> generated_end line \<noteq> None \<or> live_begin line \<or> live_end line"

lemmas scan_defs = percentage_def percent_sign_def opt_fraction_def conf_percent_def conf_level_def
  confidence_pct_def level_then_word_def word_then_level_def expect_CI_def expect_ci_def or_else_def
  opt_level_def opt_of_def coin_flip_null_def at_word_def first_char_def many_ws_def some_ws_def lower_def
  lower_char_def is_word_def is_ws_def is_digit_def

end
