(* ===== verification/Docs_Gate.thy ===== *)
theory Docs_Gate
  imports Doc_Claims Public_Record
begin

text \<open>
  \<open>tools/docs_gate.py\<close>, the gate a build of the documents must pass: the registry of the documents,
  figures typed by hand outside generated regions, forbidden claims, the committed snapshot of the
  database's facts with its age, the grader's state under one of two contracts, the data rules and
  the generated partials. A violation carries a constructor in place of its message. A run is a
  function of the files of the checkout; \<open>build\<close> and \<open>write-integrity\<close> return the checkout they leave.
\<close>

section \<open>The checkout and the violations\<close>

text \<open>
  Files by their path below the root, the names of the regular files in the root, and the two JSON
  files of \<open>ops/\<close> as \<open>json.load\<close> reads them: missing, not JSON (with the line), or a document.
\<close>

type_synonym json_file = "(nat + json) option"

record docs_repo =
  dr_files :: "string \<Rightarrow> string option"
  dr_root :: "string list"
  dr_registry :: json_file
  dr_snapshot :: json_file
  dr_max_age :: "string option"
  dr_now :: real
  dr_env :: live_env

datatype docs_fault =
    SnapshotMissing | SnapshotNotJson nat | NoUsableStamp | SnapshotTooOld real int
  | GraderNotOk json string | StateUnpublishable string | RefusalUnattributed | RefusalIsOutage string
  | DocumentMissing | FieldMissing string | BadDate string | BadStatus string | BadBacktest string
  | Unregistered
  | RegionNotDeclared string | RegionWithoutPartial string | RegionDrifted string
  | RegionMismatch string string nat | RegionNested nat | RegionUnterminated
  | HardcodedAccuracy | ForbiddenClaim string | VerifiedWithoutProof
  | UniverseEmpty | NoDelistRate | DelistRateBelowFloor | WithheldUniverseUnset | WithheldRateUnset
  | WithheldFloorBelow | UnlabelledBacktest
  | PartialMissing | PartialStale

record docs_violation =
  dv_check :: string
  dv_file :: string
  dv_line :: nat
  dv_fault :: docs_fault
  dv_text :: string

definition make_violation :: "string \<Rightarrow> string \<Rightarrow> nat \<Rightarrow> docs_fault \<Rightarrow> docs_violation" where
  "make_violation check file line fault =
     \<lparr>dv_check = check, dv_file = file, dv_line = line, dv_fault = fault, dv_text = []\<rparr>"

definition INTEGRITY_FILE :: string where "INTEGRITY_FILE = ''ops/data-integrity.json''"

definition integrity_violation :: "string \<Rightarrow> docs_fault \<Rightarrow> docs_violation" where
  "integrity_violation check fault = make_violation check INTEGRITY_FILE 0 fault"

subsection \<open>The allowlist\<close>

definition UNSUPPRESSIBLE_CHECKS :: "string list" where
  "UNSUPPRESSIBLE_CHECKS = [''grader-status'', ''data-integrity'', ''integrity-snapshot'']"

text \<open>One entry against one violation; a reason that is no string has no \<open>strip\<close>.\<close>

definition entry_suppresses :: "docs_violation \<Rightarrow> json \<Rightarrow> bool py" where
  "entry_suppresses v entry =
     py_bind (as_obj entry) (\<lambda>e.
       if jget ''file'' e \<noteq> JStr (dv_file v) then Inr False
       else case jget_or (JStr []) ''reason'' e of
              JStr reason \<Rightarrow>
                (if strip reason = [] then Inr False
                 else case jget_or (JStr []) ''line_contains'' e of
                        JStr part \<Rightarrow> Inr (contains part (dv_text v))
                      | j \<Rightarrow> if truthy j then Inl TypeErr else Inr True)
            | j \<Rightarrow> if truthy j then Inl AttributeErr else Inr False)"

fun any_suppresses :: "docs_violation \<Rightarrow> json list \<Rightarrow> bool py" where
  "any_suppresses v [] = Inr False"
| "any_suppresses v (e # es) =
     py_bind (entry_suppresses v e) (\<lambda>b. if b then Inr True else any_suppresses v es)"

definition kept_by :: "obj \<Rightarrow> docs_violation \<Rightarrow> bool py" where
  "kept_by allow v =
     (if dv_check v \<in> set UNSUPPRESSIBLE_CHECKS then Inr True
      else py_bind (py_iter (jget_or (JArr []) (dv_check v) allow)) (\<lambda>es.
           py_bind (any_suppresses v es) (\<lambda>b. Inr (\<not> b))))"

definition apply_allowlist :: "docs_violation list \<Rightarrow> obj \<Rightarrow> docs_violation list py" where
  "apply_allowlist vs allow = (if allow = [] then Inr vs else py_filter (kept_by allow) vs)"

subsection \<open>The registry of the documents\<close>

datatype gate_error =
    RegistryMissing | RegistryNotJson nat | RegistryNotObject | NoStrategyDocs | WrongShape string

definition is_arr :: "json \<Rightarrow> bool" where "is_arr j = (case j of JArr _ \<Rightarrow> True | _ \<Rightarrow> False)"

fun wrong_shape :: "obj \<Rightarrow> (string \<times> (json \<Rightarrow> bool)) list \<Rightarrow> string option" where
  "wrong_shape reg [] = None"
| "wrong_shape reg ((k, ok) # ks) =
     (case map_of reg k of
        Some j \<Rightarrow> if ok j then wrong_shape reg ks else Some k
      | None \<Rightarrow> wrong_shape reg ks)"

definition load_registry :: "docs_repo \<Rightarrow> gate_error + obj" where
  "load_registry rp =
     (case dr_registry rp of
        None \<Rightarrow> Inl RegistryMissing
      | Some (Inl n) \<Rightarrow> Inl (RegistryNotJson n)
      | Some (Inr (JObj reg)) \<Rightarrow>
          (case jget ''strategy_docs'' reg of
             JObj (d # ds) \<Rightarrow>
               (case wrong_shape reg [(''exempt'', is_arr), (''partials'', is_arr), (''allow'', is_obj)] of
                  Some k \<Rightarrow> Inl (WrongShape k)
                | None \<Rightarrow> Inr reg)
           | _ \<Rightarrow> Inl NoStrategyDocs)
      | Some (Inr _) \<Rightarrow> Inl RegistryNotObject)"

definition strategy_docs :: "obj \<Rightarrow> obj" where
  "strategy_docs reg = (case jget ''strategy_docs'' reg of JObj d \<Rightarrow> d | _ \<Rightarrow> [])"

section \<open>Registered documents\<close>

definition VALID_STATUSES :: "string list" where
  "VALID_STATUSES = [''DRAFT'', ''ACTIVE'', ''FROZEN'', ''NOT_AUTHORITATIVE'', ''SUPERSEDED'']"

definition VALID_BACKTEST_DATA :: "string list" where
  "VALID_BACKTEST_DATA = [''none'', ''pre-survivorship-fix'', ''post-survivorship-fix'']"

fun is_filled :: "json \<Rightarrow> bool" where
  "is_filled (JStr s) = (strip s \<noteq> [])"
| "is_filled _ = False"

text \<open>\<open>meta.get(k, "").strip()\<close>.\<close>

definition stripped_field :: "string \<Rightarrow> obj \<Rightarrow> string py" where
  "stripped_field k meta =
     (case jget_or (JStr []) k meta of JStr s \<Rightarrow> Inr (strip s) | _ \<Rightarrow> Inl AttributeErr)"

definition field_faults :: "obj \<Rightarrow> docs_fault list" where
  "field_faults meta =
     map FieldMissing (filter (\<lambda>k. \<not> is_filled (jget k meta))
       [''owner'', ''version'', ''data_as_of'', ''status'', ''backtest_data''])"

definition meta_faults :: "obj \<Rightarrow> docs_fault list py" where
  "meta_faults meta =
     py_bind (stripped_field ''data_as_of'' meta) (\<lambda>day.
     py_bind (if day = [] then Inr True else parses_as_timestamp day) (\<lambda>day_ok.
     py_bind (stripped_field ''status'' meta) (\<lambda>status.
     py_bind (stripped_field ''backtest_data'' meta) (\<lambda>backtest.
       Inr (field_faults meta
            @ (if day_ok then [] else [BadDate day])
            @ (if status = [] \<or> status \<in> set VALID_STATUSES then [] else [BadStatus status])
            @ (if backtest = [] \<or> backtest \<in> set VALID_BACKTEST_DATA then [] else [BadBacktest backtest]))))))"

definition document_faults :: "docs_repo \<Rightarrow> string \<times> json \<Rightarrow> docs_violation list py" where
  "document_faults rp doc = (case doc of (name, meta) \<Rightarrow>
     (case dr_files rp name of
        None \<Rightarrow> Inr [make_violation ''docs-index'' name 0 DocumentMissing]
      | Some _ \<Rightarrow>
          py_bind (as_obj meta) (\<lambda>m. py_bind (meta_faults m) (\<lambda>fs.
            Inr (map (make_violation ''docs-index'' name 0) fs)))))"

fun hashable :: "json \<Rightarrow> bool" where
  "hashable (JArr _) = False"
| "hashable (JObj _) = False"
| "hashable _ = True"

text \<open>\<open>set(xs)\<close> of a list.\<close>

definition py_set :: "json list \<Rightarrow> json list py" where
  "py_set xs = (if list_all hashable xs then Inr xs else Inl TypeErr)"

definition is_markdown :: "string \<Rightarrow> bool" where
  "is_markdown name \<longleftrightarrow> ends_with ''.md'' name \<and> 3 < length name"

definition check_docs_index :: "docs_repo \<Rightarrow> obj \<Rightarrow> docs_violation list py" where
  "check_docs_index rp reg =
     py_bind (py_iter (jget_or (JArr []) ''exempt'' reg)) (\<lambda>xs.
     py_bind (py_set xs) (\<lambda>exempt.
     py_bind (py_map (document_faults rp) (strategy_docs reg)) (\<lambda>faults.
       Inr (concat faults
            @ map (\<lambda>name. make_violation ''docs-index'' name 0 Unregistered)
                (filter (\<lambda>name. is_markdown name \<and> map_of (strategy_docs reg) name = None
                                \<and> JStr name \<notin> set exempt) (dr_root rp))))))"

section \<open>Generated regions\<close>

fun names_of :: "json list \<Rightarrow> string list py" where
  "names_of [] = Inr []"
| "names_of (j # js) =
     (case j of
        JStr s \<Rightarrow> py_bind (names_of js) (\<lambda>ns. Inr (s # ns))
      | _ \<Rightarrow> Inl AttributeErr)"

definition truthy_list :: "json \<Rightarrow> json list py" where
  "truthy_list j = (if truthy j then py_iter j else Inr [])"

definition with_and_without_md :: "string \<Rightarrow> string list" where
  "with_and_without_md n =
     [n, if ends_with ''.md'' n then take (length n - 3) n else n @ ''.md'']"

definition anchorable_names :: "obj \<Rightarrow> string list py" where
  "anchorable_names reg =
     py_bind (truthy_list (jget ''partials'' reg)) (\<lambda>ps.
     py_bind (py_set ps) (\<lambda>ps.
     py_bind (truthy_list (jget ''external_partials'' reg)) (\<lambda>es.
     py_bind (py_set es) (\<lambda>es.
     py_bind (names_of (ps @ es)) (\<lambda>ns. Inr (concat (map with_and_without_md ns)))))))"

text \<open>The lines of a partial between its own markers.\<close>

definition strip_markers :: "string list \<Rightarrow> string list" where
  "strip_markers ls = rev (dropWhile is_marker_line (rev (dropWhile is_marker_line ls)))"

definition partial_body :: "docs_repo \<Rightarrow> string \<Rightarrow> string list option" where
  "partial_body rp name =
     (case dr_files rp (''partials/'' @ name) of
        Some s \<Rightarrow> Some (strip_markers (text_lines s))
      | None \<Rightarrow> map_option (\<lambda>s. strip_markers (text_lines s)) (dr_files rp (''partials/'' @ name @ ''.md'')))"

definition norm_lines :: "string list \<Rightarrow> string list" where
  "norm_lines ls =
     (let out = map (\<lambda>l. rstrip (universal_newlines l)) ls; blank = (\<lambda>l. l = [])
      in rev (dropWhile blank (rev (dropWhile blank out))))"

text \<open>\<open>_region_is_anchored\<close>: \<^term>\<open>None\<close> where the region has earned its exemption.\<close>

definition region_fault :: "docs_repo \<Rightarrow> obj \<Rightarrow> string \<Rightarrow> string list \<Rightarrow> docs_fault option py" where
  "region_fault rp reg name body =
     py_bind (anchorable_names reg) (\<lambda>names.
       Inr (if name \<notin> set names then Some (RegionNotDeclared name)
            else case partial_body rp name of
                   None \<Rightarrow> Some (RegionWithoutPartial name)
                 | Some expected \<Rightarrow>
                     if norm_lines body \<noteq> norm_lines expected then Some (RegionDrifted name) else None))"

text \<open>
  The first pass over a document: which region a line is in. A state carries the line of the opening
  marker; one step answers with the next state, the region it closed well, and the violations.
\<close>

datatype region_state = Outside | InGenerated nat string | InLive nat

type_synonym region_out = "region_state \<times> (nat \<times> nat) list \<times> docs_violation list"

abbreviation region_violation :: "string \<Rightarrow> nat \<Rightarrow> docs_fault \<Rightarrow> docs_violation" where
  "region_violation \<equiv> make_violation ''single-source-of-truth''"

definition open_region :: "nat \<Rightarrow> string \<Rightarrow> region_state" where
  "open_region i line =
     (case generated_begin line of
        Some name \<Rightarrow> InGenerated i name
      | None \<Rightarrow> if live_begin line then InLive i else Outside)"

definition close_region ::
    "docs_repo \<Rightarrow> obj \<Rightarrow> string \<Rightarrow> string list \<Rightarrow> nat \<Rightarrow> nat \<Rightarrow> string \<Rightarrow> region_out py" where
  "close_region rp reg file lines b i name =
     py_bind (region_fault rp reg name (take (i - 1 - b) (drop b lines))) (\<lambda>why.
       Inr (Outside, case why of
                       None \<Rightarrow> ([(b, i)], [])
                     | Some f \<Rightarrow> ([], [region_violation file b f])))"

definition nested_region :: "string \<Rightarrow> nat \<Rightarrow> nat \<Rightarrow> string \<Rightarrow> region_state \<Rightarrow> region_out" where
  "nested_region file b i line st =
     (if generated_begin line \<noteq> None \<or> live_begin line
      then (Outside, [], [region_violation file i (RegionNested b)])
      else (st, [], []))"

fun region_step ::
    "docs_repo \<Rightarrow> obj \<Rightarrow> string \<Rightarrow> string list \<Rightarrow> nat \<Rightarrow> string \<Rightarrow> region_state \<Rightarrow> region_out py" where
  "region_step rp reg file lines i line Outside = Inr (open_region i line, [], [])"
| "region_step rp reg file lines i line (InGenerated b name) =
     (case generated_end line of
        Some e \<Rightarrow>
          (if e = name then close_region rp reg file lines b i name
           else Inr (Outside, [], [region_violation file b (RegionMismatch name e i)]))
      | None \<Rightarrow> Inr (nested_region file b i line (InGenerated b name)))"
| "region_step rp reg file lines i line (InLive b) =
     (if live_end line then close_region rp reg file lines b i ''live_accuracy''
      else Inr (nested_region file b i line (InLive b)))"

fun left_open :: "string \<Rightarrow> region_state \<Rightarrow> docs_violation list" where
  "left_open file Outside = []"
| "left_open file (InGenerated b name) = [region_violation file b RegionUnterminated]"
| "left_open file (InLive b) = [region_violation file b RegionUnterminated]"

fun region_scan ::
    "docs_repo \<Rightarrow> obj \<Rightarrow> string \<Rightarrow> string list \<Rightarrow> nat \<Rightarrow> region_state \<Rightarrow> string list
     \<Rightarrow> ((nat \<times> nat) list \<times> docs_violation list) py" where
  "region_scan rp reg file lines i st [] = Inr ([], left_open file st)"
| "region_scan rp reg file lines i st (l # ls) =
     py_bind (region_step rp reg file lines i l st) (\<lambda>(st', rs, vs).
     py_bind (region_scan rp reg file lines (i + 1) st' ls) (\<lambda>(rs', vs').
       Inr (rs @ rs', vs @ vs')))"

text \<open>The second pass.\<close>

definition exempt_line :: "(nat \<times> nat) list \<Rightarrow> nat \<Rightarrow> bool" where
  "exempt_line rs i = list_ex (\<lambda>(a, b). a \<le> i \<and> i \<le> b) rs"

definition line_violation :: "string \<Rightarrow> string \<Rightarrow> nat \<times> string \<Rightarrow> docs_fault \<Rightarrow> docs_violation" where
  "line_violation check file numbered fault =
     \<lparr>dv_check = check, dv_file = file, dv_line = fst numbered, dv_fault = fault, dv_text = snd numbered\<rparr>"

definition hardcoded_lines :: "string \<Rightarrow> (nat \<times> nat) list \<Rightarrow> string list \<Rightarrow> docs_violation list" where
  "hardcoded_lines file rs lines =
     map (\<lambda>nl. line_violation ''no-hardcoded-live-accuracy'' file nl HardcodedAccuracy)
       (filter (\<lambda>(i, l). \<not> exempt_line rs i \<and> claims_live_accuracy l) (List.enumerate 1 lines))"

definition accuracy_in_document :: "docs_repo \<Rightarrow> obj \<Rightarrow> string \<Rightarrow> docs_violation list py" where
  "accuracy_in_document rp reg file =
     (case dr_files rp file of
        None \<Rightarrow> Inr []
      | Some s \<Rightarrow>
          py_bind (region_scan rp reg file (text_lines s) 1 Outside (text_lines s)) (\<lambda>(rs, vs).
            Inr (vs @ hardcoded_lines file rs (text_lines s))))"

definition check_no_hardcoded_live_accuracy :: "docs_repo \<Rightarrow> obj \<Rightarrow> docs_violation list py" where
  "check_no_hardcoded_live_accuracy rp reg =
     py_bind (py_map (accuracy_in_document rp reg) (map fst (strategy_docs reg))) (\<lambda>vs. Inr (concat vs))"

definition claims_in_line :: "string \<Rightarrow> nat \<times> string \<Rightarrow> docs_violation list" where
  "claims_in_line file numbered =
     map (\<lambda>w. line_violation ''forbidden-claims'' file numbered (ForbiddenClaim w))
       (forbidden_in (snd numbered))
     @ (if unproved_verified (snd numbered)
        then [line_violation ''forbidden-claims'' file numbered VerifiedWithoutProof] else [])"

definition check_forbidden_claims :: "docs_repo \<Rightarrow> obj \<Rightarrow> docs_violation list" where
  "check_forbidden_claims rp reg =
     concat (map (\<lambda>file. case dr_files rp file of
         None \<Rightarrow> []
       | Some s \<Rightarrow> concat (map (claims_in_line file) (List.enumerate 1 (text_lines s))))
       (map fst (strategy_docs reg)))"

section \<open>The snapshot of the database\<close>

text \<open>The instant an accepted timestamp names; \<^term>\<open>None\<close> is \<open>fromisoformat\<close>'s \<open>ValueError\<close>, no offset is UTC.\<close>

definition number_at :: "nat \<Rightarrow> nat \<Rightarrow> string \<Rightarrow> int" where
  "number_at i k s = int (digits_val (take k (drop i s)))"

definition second_fraction :: "string \<Rightarrow> real" where
  "second_fraction t =
     (if starts_with ''.'' t
      then (let d = take 6 (takeWhile is_digit (tl t)) in of_nat (digits_val d) / 10 ^ length d) else 0)"

definition utc_offset :: "string \<Rightarrow> int" where
  "utc_offset t =
     (let z = (if starts_with ''.'' t then dropWhile is_digit (tl t) else t)
      in if z = [] then 0
         else (if hd z = CHR ''-'' then - 1 else 1) * (3600 * number_at 1 2 z + 60 * number_at 4 2 z))"

definition iso_instant :: "string \<Rightarrow> real option py" where
  "iso_instant text =
     py_bind (parses_as_timestamp text) (\<lambda>ok.
       let s = replace_Z (strip text);
           midnight = 86400 * day_number (number_at 0 4 s) (number_at 5 2 s) (number_at 8 2 s)
       in Inr (if \<not> ok then None
               else if length s = 10 then Some (of_int midnight)
               else Some (of_int (midnight + 3600 * number_at 11 2 s + 60 * number_at 14 2 s
                                   + number_at 17 2 s - utc_offset (drop 19 s))
                          + second_fraction (drop 19 s))))"

definition loaded_snapshot :: "docs_repo \<Rightarrow> json option" where
  "loaded_snapshot rp = (case dr_snapshot rp of Some (Inr j) \<Rightarrow> Some j | _ \<Rightarrow> None)"

definition snapshot_fault :: "docs_repo \<Rightarrow> docs_fault list" where
  "snapshot_fault rp =
     (case dr_snapshot rp of
        None \<Rightarrow> [SnapshotMissing] | Some (Inl n) \<Rightarrow> [SnapshotNotJson n] | Some (Inr _) \<Rightarrow> [])"

definition age_bound :: "docs_repo \<Rightarrow> int py" where
  "age_bound rp =
     (case dr_max_age rp of
        None \<Rightarrow> Inr 7 | Some v \<Rightarrow> if v = [] then Inr 7 else int_of_str v)"

definition generated_field :: "docs_repo \<Rightarrow> json" where
  "generated_field rp =
     (case loaded_snapshot rp of Some (JObj d) \<Rightarrow> jget ''generated'' d | _ \<Rightarrow> JNull)"

text \<open>The document that is the JSON \<open>null\<close> is \<open>None\<close> for the callers, as a missing file is.\<close>

definition check_integrity_snapshot :: "docs_repo \<Rightarrow> (docs_violation list \<times> json option) py" where
  "check_integrity_snapshot rp =
     (let found = map (integrity_violation ''integrity-snapshot'') (snapshot_fault rp);
          snapshot = (if loaded_snapshot rp = Some JNull then None else loaded_snapshot rp)
      in py_bind (py_text (dr_env rp) (generated_field rp)) (\<lambda>text.
         py_bind (iso_instant text) (\<lambda>stamped.
           case stamped of
             None \<Rightarrow> Inr (found @ [integrity_violation ''integrity-snapshot'' NoUsableStamp], snapshot)
           | Some t \<Rightarrow>
               py_bind (age_bound rp) (\<lambda>bound.
                 let age = (dr_now rp - t) / 86400
                 in Inr (found @ (if of_int bound < age
                                  then [integrity_violation ''integrity-snapshot'' (SnapshotTooOld age bound)]
                                  else []), snapshot)))))"

section \<open>The grader's state under a contract\<close>

datatype contract = Strict | Release

definition upper_char :: "char \<Rightarrow> char" where
  "upper_char c = (let n = of_char c :: nat in if 97 \<le> n \<and> n \<le> 122 then char_of (n - 32) else c)"

definition upper :: "string \<Rightarrow> string" where
  "upper s = map upper_char s"

definition RELEASE_OK_STATES :: "string list" where "RELEASE_OK_STATES = [''OK'', ''REFUSED'']"
definition CHECK_OUTAGE_PREFIX :: string where "CHECK_OUTAGE_PREFIX = ''CHECK UNAVAILABLE''"

text \<open>\<open>str(x).strip()\<close> and \<open>str(x or "").strip()\<close>.\<close>

definition stripped_text :: "live_env \<Rightarrow> json \<Rightarrow> string py" where
  "stripped_text ev j = py_bind (py_text ev j) (\<lambda>s. Inr (strip s))"

definition stripped_or_empty :: "live_env \<Rightarrow> json \<Rightarrow> string py" where
  "stripped_or_empty ev j = (if truthy j then stripped_text ev j else Inr [])"

definition is_outage :: "string \<Rightarrow> bool" where
  "is_outage reason \<longleftrightarrow> starts_with CHECK_OUTAGE_PREFIX (upper reason)"

fun state_fault :: "contract \<Rightarrow> json \<Rightarrow> string \<Rightarrow> string \<Rightarrow> docs_fault option" where
  "state_fault Strict shown status reason =
     (if upper status \<noteq> ''OK'' then Some (GraderNotOk shown reason) else None)"
| "state_fault Release shown status reason =
     (if upper status \<notin> set RELEASE_OK_STATES then Some (StateUnpublishable status)
      else if upper status \<noteq> ''REFUSED'' then None
      else if reason = [] then Some RefusalUnattributed
      else if is_outage reason then Some (RefusalIsOutage reason)
      else None)"

definition grader_of :: "json \<Rightarrow> obj py" where
  "grader_of snapshot = py_bind (py_get (JObj []) ''grader'' snapshot) as_obj"

definition check_grader_status :: "live_env \<Rightarrow> contract \<Rightarrow> json \<Rightarrow> docs_violation list py" where
  "check_grader_status ev c snapshot =
     py_bind (grader_of snapshot) (\<lambda>g.
     py_bind (stripped_text ev (jget_or (JStr []) ''status'' g)) (\<lambda>status.
     py_bind (stripped_or_empty ev (jget ''refusal_reason'' g)) (\<lambda>reason.
       Inr (map (integrity_violation ''grader-status'')
              (opt_list (state_fault c (jget ''status'' g) status reason))))))"

section \<open>The data rules\<close>

definition DEFAULT_MIN_DELIST_RATE :: json where "DEFAULT_MIN_DELIST_RATE = JFloat (Fin (2 / 100))"

definition dict_or_empty :: "json \<Rightarrow> obj py" where
  "dict_or_empty j = (if truthy j then as_obj j else Inr [])"

text \<open>\<open>a < b\<close> and \<open>a <= 0\<close> on values of a document.\<close>

definition py_less :: "json \<Rightarrow> json \<Rightarrow> bool py" where
  "py_less a b = py_bind (operand a) (\<lambda>x. py_bind (operand b) (\<lambda>y. Inr (f_lt x y)))"

definition not_positive :: "json \<Rightarrow> bool" where
  "not_positive j = (case operand j of Inl _ \<Rightarrow> True | Inr x \<Rightarrow> f_le x (Fin 0))"

definition is_plain_number :: "json \<Rightarrow> bool" where
  "is_plain_number j \<longleftrightarrow> is_number j \<and> (case j of JBool _ \<Rightarrow> False | _ \<Rightarrow> True)"

abbreviation data_violation :: "docs_fault \<Rightarrow> docs_violation" where
  "data_violation \<equiv> integrity_violation ''data-integrity''"

definition min_delist_rate :: "obj \<Rightarrow> json py" where
  "min_delist_rate reg =
     py_get DEFAULT_MIN_DELIST_RATE ''min_delist_rate_per_year'' (jget_or (JObj []) ''thresholds'' reg)"

definition check_withheld_integrity :: "obj \<Rightarrow> json \<Rightarrow> docs_violation list py" where
  "check_withheld_integrity snap least =
     py_bind (dict_or_empty (jget ''delisting'' snap)) (\<lambda>delisting.
     py_bind (if jget ''rate_at_or_above_floor'' delisting \<noteq> JBool True
              then Inr [data_violation WithheldRateUnset]
              else let judged = jget ''floor_per_year'' delisting
                   in if \<not> is_plain_number judged then Inr [data_violation WithheldFloorBelow]
                      else py_bind (py_less judged least) (\<lambda>b.
                             Inr (if b then [data_violation WithheldFloorBelow] else []))) (\<lambda>vs.
       Inr ((if jget ''universe_membership_populated'' snap \<noteq> JBool True
             then [data_violation WithheldUniverseUnset] else []) @ vs)))"

definition universe_and_rate :: "json \<Rightarrow> json \<Rightarrow> json \<Rightarrow> docs_violation list py" where
  "universe_and_rate rows rate least =
     py_bind (if \<not> is_number rate then Inr [data_violation NoDelistRate]
              else py_bind (py_less rate least) (\<lambda>b.
                     Inr (if b then [data_violation DelistRateBelowFloor] else []))) (\<lambda>vs.
       Inr ((if not_positive rows then [data_violation UniverseEmpty] else []) @ vs))"

definition snapshot_facts :: "obj \<Rightarrow> json \<Rightarrow> docs_violation list py" where
  "snapshot_facts snap least =
     (if truthy (jget ''withheld'' snap)
      then py_bind (check_withheld_integrity snap least) (\<lambda>vs.
           py_bind (universe_and_rate (JInt 1) least least) (\<lambda>ws. Inr (vs @ ws)))
      else py_bind (dict_or_empty (jget ''delisting'' snap)) (\<lambda>delisting.
             universe_and_rate (jget_or (JInt 0) ''universe_membership_rows'' snap)
               (jget ''rate_per_year'' delisting) least))"

definition BACKTEST_LABELS :: "string list" where
  "BACKTEST_LABELS = [''pre-survivorship-fix'', ''FROZEN'', ''NOT AUTHORITATIVE'']"

definition unlabelled_backtest :: "docs_repo \<Rightarrow> string \<times> json \<Rightarrow> bool" where
  "unlabelled_backtest rp doc = (case doc of
       (name, JObj meta) \<Rightarrow>
         jget ''backtest_data'' meta = JStr ''pre-survivorship-fix''
         \<and> (case dr_files rp name of
              None \<Rightarrow> False
            | Some s \<Rightarrow> \<not> list_ex (\<lambda>w. contains w (universal_newlines s)) BACKTEST_LABELS)
     | _ \<Rightarrow> False)"

definition check_data_integrity :: "docs_repo \<Rightarrow> obj \<Rightarrow> json \<Rightarrow> docs_violation list py" where
  "check_data_integrity rp reg snapshot =
     py_bind (min_delist_rate reg) (\<lambda>least.
     py_bind (as_obj snapshot) (\<lambda>snap.
     py_bind (snapshot_facts snap least) (\<lambda>vs.
       Inr (vs @ map (\<lambda>doc. make_violation ''data-integrity'' (fst doc) 0 UnlabelledBacktest)
                   (filter (unlabelled_backtest rp) (sort_key fst (strategy_docs reg)))))))"

section \<open>Generated partials\<close>

definition text_of_lines :: "string list \<Rightarrow> string" where
  "text_of_lines ls = concat (map (\<lambda>l. l @ nl) ls)"

definition wrap_partial :: "string \<Rightarrow> string \<Rightarrow> string" where
  "wrap_partial name body =
     text_of_lines [''<!-- BEGIN GENERATED: '' @ name @ '' -->'',
                    ''<!-- GENERATED by tools/docs_gate.py from ops/data-integrity.json -->'',
                    ''<!-- DO NOT EDIT. Regenerate: python tools/docs_gate.py build -->'', []]
     @ body @ text_of_lines [''<!-- END GENERATED: '' @ name @ '' -->'']"

definition shown_line :: "live_env \<Rightarrow> string \<Rightarrow> json \<Rightarrow> string list py" where
  "shown_line ev label j = py_bind (py_text ev j) (\<lambda>s. Inr [label @ s])"

definition optional_line :: "live_env \<Rightarrow> string \<Rightarrow> json \<Rightarrow> string list py" where
  "optional_line ev label j = (if truthy j then shown_line ev label j else Inr [])"

definition live_record_lines :: "live_env \<Rightarrow> obj \<Rightarrow> string \<Rightarrow> string list py" where
  "live_record_lines ev g status =
     (if upper status = ''OK''
      then py_bind (shown_line ev ''Graded at: '' (jget ''graded_at'' g)) (\<lambda>a.
           py_bind (shown_line ev ''Graded rows: '' (jget_or (JInt 0) ''rows'' g)) (\<lambda>b.
             Inr (a @ b @ [[], ''Live accuracy figures are published only when the grader status is OK.''])))
      else py_bind (optional_line ev ''Refusal reason: '' (jget ''refusal_reason'' g)) (\<lambda>a.
           py_bind (optional_line ev ''Refused since: '' (jget ''refused_since'' g)) (\<lambda>b.
             Inr ([''Grader status: '' @ status] @ a @ b
                  @ [[], ''No live-accuracy figure is publishable while the grader is refusing.'']))))"

definition generate_live_record :: "live_env \<Rightarrow> json \<Rightarrow> string py" where
  "generate_live_record ev snapshot =
     py_bind (grader_of snapshot) (\<lambda>g.
     py_bind (stripped_text ev (jget_or (JStr []) ''status'' g)) (\<lambda>status.
     py_bind (live_record_lines ev g status) (\<lambda>ls.
       Inr (wrap_partial ''live_record.md'' (text_of_lines ([''# Live Record'', []] @ ls))))))"

definition generate_partial :: "live_env \<Rightarrow> json \<Rightarrow> string \<Rightarrow> string py" where
  "generate_partial ev snapshot name =
     (if name = ''live_record.md'' then generate_live_record ev snapshot
      else Inr (wrap_partial name
             (text_of_lines [''# '' @ name, [], ''No generator defined for this partial.''])))"

text \<open>A name that is no string cannot be joined to a path.\<close>

fun path_names :: "json list \<Rightarrow> string list py" where
  "path_names [] = Inr []"
| "path_names (j # js) =
     (case j of
        JStr s \<Rightarrow> py_bind (path_names js) (\<lambda>ns. Inr (s # ns))
      | _ \<Rightarrow> Inl TypeErr)"

definition declared_partials :: "obj \<Rightarrow> string list py" where
  "declared_partials reg =
     py_bind (py_iter (jget_or (JArr []) ''partials'' reg)) path_names"

definition partial_path :: "string \<Rightarrow> string" where
  "partial_path name = ''partials/'' @ name"

definition partial_fault :: "docs_repo \<Rightarrow> json \<Rightarrow> string \<Rightarrow> docs_violation list py" where
  "partial_fault rp snapshot name =
     (case dr_files rp (partial_path name) of
        None \<Rightarrow> Inr [make_violation ''single-source-of-truth'' (partial_path name) 0 PartialMissing]
      | Some actual \<Rightarrow>
          py_bind (generate_partial (dr_env rp) snapshot name) (\<lambda>expected.
            Inr (if universal_newlines expected \<noteq> universal_newlines actual
                 then [make_violation ''single-source-of-truth'' (partial_path name) 0 PartialStale] else [])))"

definition check_single_source_of_truth :: "docs_repo \<Rightarrow> obj \<Rightarrow> json \<Rightarrow> docs_violation list py" where
  "check_single_source_of_truth rp reg snapshot =
     py_bind (declared_partials reg) (\<lambda>names.
     py_bind (py_map (partial_fault rp snapshot) names) (\<lambda>vs. Inr (concat vs)))"

section \<open>The check\<close>

datatype evidence_state =
    NoSnapshot | CheckOutage string | MeasuredRefusal string json | StateNamed string

definition evidence_of :: "live_env \<Rightarrow> json option \<Rightarrow> evidence_state py" where
  "evidence_of ev snapshot =
     (case snapshot of
        None \<Rightarrow> Inr NoSnapshot
      | Some snap \<Rightarrow>
          py_bind (py_get (JObj []) ''grader'' snap) (\<lambda>g0.
          py_bind (dict_or_empty g0) (\<lambda>g.
          py_bind (stripped_text ev (jget_or (JStr []) ''status'' g)) (\<lambda>status.
          py_bind (stripped_or_empty ev (jget ''refusal_reason'' g)) (\<lambda>reason.
            let shown = (if status = [] then ''(blank)'' else status)
            in Inr (if upper shown \<noteq> ''REFUSED'' then StateNamed shown
                    else if is_outage reason then CheckOutage shown
                    else MeasuredRefusal shown (jget ''graded_at'' g)))))))"

definition snapshot_violations :: "docs_repo \<Rightarrow> contract \<Rightarrow> obj \<Rightarrow> json option \<Rightarrow> docs_violation list py" where
  "snapshot_violations rp c reg snapshot =
     (case snapshot of
        None \<Rightarrow> Inr []
      | Some snap \<Rightarrow>
          py_bind (check_grader_status (dr_env rp) c snap) (\<lambda>gs.
          py_bind (check_data_integrity rp reg snap) (\<lambda>ds.
          py_bind (check_single_source_of_truth rp reg snap) (\<lambda>ps. Inr (gs @ ds @ ps)))))"

definition all_violations ::
    "docs_repo \<Rightarrow> contract \<Rightarrow> obj \<Rightarrow> (docs_violation list \<times> json option) py" where
  "all_violations rp c reg =
     py_bind (check_docs_index rp reg) (\<lambda>is.
     py_bind (check_no_hardcoded_live_accuracy rp reg) (\<lambda>hs.
     py_bind (check_integrity_snapshot rp) (\<lambda>(vs, snapshot).
     py_bind (snapshot_violations rp c reg snapshot) (\<lambda>ss.
       Inr (is @ hs @ check_forbidden_claims rp reg @ vs @ ss, snapshot)))))"

definition allow_of :: "obj \<Rightarrow> obj" where
  "allow_of reg = (case jget_or (JObj []) ''allow'' reg of JObj a \<Rightarrow> a | _ \<Rightarrow> [])"

text \<open>\<open>mode_check\<close>: violations in the order of check, file and line, the evidence line, the status.\<close>

definition mode_check ::
    "docs_repo \<Rightarrow> contract \<Rightarrow> obj \<Rightarrow> (docs_violation list \<times> evidence_state \<times> nat) py" where
  "mode_check rp c reg =
     py_bind (all_violations rp c reg) (\<lambda>(vs, snapshot).
     py_bind (apply_allowlist vs (allow_of reg)) (\<lambda>kept.
     py_bind (evidence_of (dr_env rp) snapshot) (\<lambda>evidence.
       Inr (sort_key (\<lambda>v. (dv_check v, dv_file v, dv_line v)) kept, evidence, if kept = [] then 0 else 1))))"

text \<open>The status of the process: a \<open>GateError\<close> is 2, an exception that leaves \<open>main\<close> is 1.\<close>

definition docs_check_status :: "docs_repo \<Rightarrow> contract \<Rightarrow> nat" where
  "docs_check_status rp c =
     (case load_registry rp of
        Inl _ \<Rightarrow> 2
      | Inr reg \<Rightarrow> (case mode_check rp c reg of Inl _ \<Rightarrow> 1 | Inr (_, _, st) \<Rightarrow> st))"

section \<open>Building the partials\<close>

text \<open>
  The files as they stand when the loop ends or raises: a partial is written before the next one is
  generated. \<open>sha256_file\<close> reads back what was written.
\<close>

fun build_partials ::
    "live_env \<Rightarrow> json \<Rightarrow> json list \<Rightarrow> files \<Rightarrow> files \<times> (string \<times> string) list py" where
  "build_partials ev snapshot [] fs = (fs, Inr [])"
| "build_partials ev snapshot (j # js) fs =
     (case j of
        JStr name \<Rightarrow>
          (case generate_partial ev snapshot name of
             Inl e \<Rightarrow> (fs, Inl e)
           | Inr content \<Rightarrow>
               (case build_partials ev snapshot js (fs(partial_path name := Some content)) of
                  (fs', r) \<Rightarrow> (fs', py_bind r (\<lambda>ws. Inr ((name, sha256 content) # ws)))))
      | _ \<Rightarrow> (fs, Inl TypeErr))"

definition build_log :: "live_env \<Rightarrow> string \<Rightarrow> json \<Rightarrow> (string \<times> string) list \<Rightarrow> string py" where
  "build_log ev stamp snapshot written =
     py_bind (as_obj snapshot) (\<lambda>snap.
     py_bind (py_text ev (jget ''generated'' snap)) (\<lambda>generated.
     py_bind (dict_or_empty (jget ''grader'' snap)) (\<lambda>g.
     py_bind (py_text ev (jget ''status'' g)) (\<lambda>status.
       Inr (text_of_lines
         ([''docs_gate build '' @ stamp,
           ''source: ops/data-integrity.json (generated '' @ generated @ '')'',
           ''grader status: '' @ status]
          @ map (\<lambda>(n, d). ''wrote '' @ partial_path n @ ''  sha256='' @ d) written
          @ (if written = [] then [''no partials declared in ops/docs-registry.json''] else [])))))))"

definition mode_build :: "string \<Rightarrow> docs_repo \<Rightarrow> obj \<Rightarrow> docs_repo \<times> nat" where
  "mode_build stamp rp reg =
     (case loaded_snapshot rp of
        None \<Rightarrow> (rp, 2)
      | Some snapshot \<Rightarrow>
          (case truthy_list (jget_or (JArr []) ''partials'' reg) of
             Inl e \<Rightarrow> (rp, 1)
           | Inr names \<Rightarrow>
               (case build_partials (dr_env rp) snapshot names (dr_files rp) of
                  (fs, Inl e) \<Rightarrow> (rp \<lparr>dr_files := fs\<rparr>, 1)
                | (fs, Inr written) \<Rightarrow>
                    (case build_log (dr_env rp) stamp snapshot written of
                       Inl e \<Rightarrow> (rp \<lparr>dr_files := fs\<rparr>, 1)
                     | Inr log_text \<Rightarrow>
                         (rp \<lparr>dr_files := fs(''logs/docs_build.log'' := Some log_text)\<rparr>, 0)))))"

section \<open>Answering on the machine that has the database\<close>

definition has_text :: "json \<Rightarrow> string option" where
  "has_text j = (case j of JStr s \<Rightarrow> if strip s = [] then None else Some (strip s) | _ \<Rightarrow> None)"

definition grader_status_of :: "obj \<Rightarrow> string" where
  "grader_status_of reg =
     (case has_text (jget ''status'' reg) of
        Some s \<Rightarrow> s
      | None \<Rightarrow>
          if truthy (jget ''refusal_reason'' reg) \<or> truthy (jget ''refused_since'' reg) then ''REFUSED''
          else if \<not> truthy (jget ''rows'' reg) then ''EMPTY''
          else ''OK'')"

text \<open>
  What the run finds: the registry of the grader (missing, unreadable with the text of the error, or
  a document), the database (missing, not opened, or its answers), the previous snapshot, the clock.
  The answer to a query is an error's text or a value that may be NULL.
\<close>

type_synonym answer = "string + int option"

record integrity_db =
  id_universe :: answer
  id_stocks :: answer
  id_delisted :: answer
  id_oldest :: answer

record integrity_source =
  is_root :: string
  is_registry :: "(string + json) option"
  is_database :: "(string + integrity_db) option"
  is_previous :: json_file
  is_now :: int
  is_stamp :: string
  is_today :: string

fun py_len :: "json \<Rightarrow> int py" where
  "py_len (JArr xs) = Inr (int (length xs))"
| "py_len (JObj d) = Inr (int (length d))"
| "py_len (JStr s) = Inr (int (length s))"
| "py_len _ = Inl TypeErr"

definition missing_grader :: "integrity_source \<Rightarrow> obj" where
  "missing_grader src =
     [(''status'', JStr ''MISSING''), (''graded_at'', JNull), (''refused_since'', JNull),
      (''refusal_reason'', JStr (is_root src @ ''/data/accuracy_registry.json not found'')), (''rows'', JInt 0)]"

definition grader_entry :: "obj \<Rightarrow> obj py" where
  "grader_entry reg =
     py_bind (if truthy (jget ''rows'' reg) then py_len (jget ''rows'' reg) else Inr 0) (\<lambda>n.
       Inr [(''status'', JStr (grader_status_of reg)), (''graded_at'', jget ''graded_at'' reg),
            (''refused_since'', jget ''refused_since'' reg),
            (''refusal_reason'', jget ''refusal_reason'' reg), (''rows'', JInt n)])"

definition unreadable :: "string \<Rightarrow> string" where
  "unreadable why = ''accuracy_registry.json unreadable: '' @ why"

definition read_grader :: "integrity_source \<Rightarrow> (obj \<times> string list) py" where
  "read_grader src =
     (case is_registry src of
        None \<Rightarrow> Inr (missing_grader src, [])
      | Some (Inl e) \<Rightarrow> Inr (missing_grader src, [unreadable e])
      | Some (Inr (JObj reg)) \<Rightarrow> py_bind (grader_entry reg) (\<lambda>g. Inr (g, []))
      | Some (Inr j) \<Rightarrow>
          Inr (missing_grader src,
               [unreadable ([CHR 0x27] @ type_name j @ [CHR 0x27] @ '' object has no attribute ''
                            @ [CHR 0x27] @ ''get'' @ [CHR 0x27])]))"

definition UNIVERSE_SQL :: string where "UNIVERSE_SQL = ''SELECT COUNT(*) FROM universe_membership''"
definition STOCKS_SQL :: string where
  "STOCKS_SQL = ''SELECT COUNT(*) FROM symbols WHERE market='' @ [CHR 0x27] @ ''stocks'' @ [CHR 0x27]"
definition DELISTED_SQL :: string where
  "DELISTED_SQL = STOCKS_SQL @ '' AND delisted_at IS NOT NULL''"
definition OLDEST_SQL :: string where
  "OLDEST_SQL = ''SELECT MIN(added_at) FROM symbols WHERE market='' @ [CHR 0x27] @ ''stocks'' @ [CHR 0x27]"

text \<open>\<open>scalar(sql)\<close>: 0 for NULL and for an error, which leaves a warning.\<close>

definition scalar :: "string \<Rightarrow> answer \<Rightarrow> int \<times> string list" where
  "scalar sql a =
     (case a of
        Inl e \<Rightarrow> (0, [take 60 sql @ '': '' @ e])
      | Inr None \<Rightarrow> (0, [])
      | Inr (Some n) \<Rightarrow> (n, []))"

definition round_to :: "nat \<Rightarrow> real \<Rightarrow> real" where
  "round_to k x = of_int (round_even (x * 10 ^ k)) / 10 ^ k"

definition listing_span :: "int \<Rightarrow> int \<Rightarrow> real" where
  "listing_span now oldest =
     (if oldest = 0 then 1 / 2 else max (1 / 2) (of_int (now - oldest) / 31557600))"

definition delisting_rate :: "int \<Rightarrow> int \<Rightarrow> real \<Rightarrow> real" where
  "delisting_rate delisted total_count listed =
     (if total_count = 0 then 0 else of_int delisted / of_int total_count / listed)"

definition delisting_entry :: "int \<Rightarrow> int \<Rightarrow> real \<Rightarrow> real \<Rightarrow> obj" where
  "delisting_entry total_count delisted listed rate =
     [(''stocks_total'', JInt total_count), (''stocks_delisted'', JInt delisted),
      (''span_years'', JFloat (Fin listed)), (''rate_per_year'', JFloat (Fin rate))]"

definition measure_db :: "int \<Rightarrow> integrity_db \<Rightarrow> int \<times> obj \<times> string list" where
  "measure_db now db =
     (case (scalar UNIVERSE_SQL (id_universe db), scalar STOCKS_SQL (id_stocks db),
            scalar DELISTED_SQL (id_delisted db), scalar OLDEST_SQL (id_oldest db)) of
        ((u, w1), (t, w2), (d, w3), (added, w4)) \<Rightarrow>
          (let listed = listing_span now added
           in (u, delisting_entry t d (round_to 3 listed) (round_to 4 (delisting_rate d t listed)),
               w1 @ w2 @ w3 @ w4)))"

definition read_database :: "integrity_source \<Rightarrow> int \<times> obj \<times> string list" where
  "read_database src =
     (case is_database src of
        None \<Rightarrow> (0, delisting_entry 0 0 0 0, [is_root src @ ''/data/signaldeck.db not found''])
      | Some (Inl e) \<Rightarrow> (0, delisting_entry 0 0 0 0, [''cannot open database: '' @ e])
      | Some (Inr db) \<Rightarrow> measure_db (is_now src) db)"

text \<open>The recorded repair date is kept; today's stands in where there is none.\<close>

definition fix_date :: "integrity_source \<Rightarrow> json" where
  "fix_date src =
     (case is_previous src of
        Some (Inr (JObj d)) \<Rightarrow>
          if truthy (jget ''survivorship_fix_date'' d) then jget ''survivorship_fix_date'' d
          else JStr (is_today src)
      | _ \<Rightarrow> JStr (is_today src))"

definition integrity_record :: "integrity_source \<Rightarrow> obj py" where
  "integrity_record src =
     py_bind (read_grader src) (\<lambda>(g, w).
       case read_database src of
         (u, d, w') \<Rightarrow>
           Inr ([(''generated'', JStr (is_stamp src)), (''source_db'', JStr ''data/signaldeck.db''),
                 (''grader'', JObj g), (''universe_membership_rows'', JInt u), (''delisting'', JObj d),
                 (''survivorship_fix_date'', fix_date src)]
                @ (if w @ w' = [] then [] else [(''warnings'', JArr (map JStr (w @ w')))])))"

subsection \<open>The licence\<close>

definition INTEGRITY_WITHHELD :: string where
  "INTEGRITY_WITHHELD =
     ''licence: database counts withheld (Alpaca-derived; SIGNALDECK_PUBLISH_DERIVED is not 1). '' @
     ''Only the pass/fail facts this gate reads are recorded.''"

definition withheld_grader :: "live_env \<Rightarrow> obj \<Rightarrow> obj py" where
  "withheld_grader ev g =
     (if truthy (jget ''refusal_reason'' g)
      then py_bind (py_text ev (jget ''refusal_reason'' g)) (\<lambda>reason.
             Inr (jset ''refusal_reason''
               (JStr (strip (before_sep '':'' reason) @ '': detail withheld (licence)'')) g))
      else Inr g)"

text \<open>\<open>(x or 0) > 0\<close> and \<open>(x or 0.0) >= floor\<close>.\<close>

definition or_zero :: "json \<Rightarrow> json" where
  "or_zero j = (if truthy j then j else JInt 0)"

definition withhold_integrity :: "live_env \<Rightarrow> obj \<Rightarrow> pyfloat \<Rightarrow> obj py" where
  "withhold_integrity ev out least =
     py_bind (dict_or_empty (jget ''grader'' out)) (\<lambda>g.
     py_bind (withheld_grader ev g) (\<lambda>g.
     py_bind (dict_or_empty (jget ''delisting'' out)) (\<lambda>d.
     py_bind (operand (or_zero (jget ''universe_membership_rows'' out))) (\<lambda>rows.
     py_bind (operand (or_zero (jget ''rate_per_year'' d))) (\<lambda>rate.
       Inr ([(''generated'', jget ''generated'' out), (''source_db'', jget ''source_db'' out),
             (''withheld'', JStr INTEGRITY_WITHHELD), (''grader'', JObj g),
             (''universe_membership_populated'', JBool (f_lt (Fin 0) rows)),
             (''delisting'', JObj [(''rate_at_or_above_floor'', JBool (f_le least rate)),
                                   (''floor_per_year'', JFloat least)]),
             (''survivorship_fix_date'', jget ''survivorship_fix_date'' out)]
            @ (if truthy (jget ''warnings'' out) then [(''warnings'', jget ''warnings'' out)] else [])))))))"

definition floor_in_force :: "docs_repo \<Rightarrow> pyfloat py" where
  "floor_in_force rp =
     py_bind (case load_registry rp of
                Inl _ \<Rightarrow> Inr [] | Inr reg \<Rightarrow> dict_or_empty (jget ''thresholds'' reg)) (\<lambda>th.
       py_float (jget_or DEFAULT_MIN_DELIST_RATE ''min_delist_rate_per_year'' th))"

definition integrity_document :: "docs_repo \<Rightarrow> integrity_source \<Rightarrow> obj py" where
  "integrity_document rp src =
     py_bind (integrity_record src) (\<lambda>out.
       if \<not> licence_withheld (dr_env rp) then Inr out
       else py_bind (floor_in_force rp) (withhold_integrity (dr_env rp) out))"

definition mode_write_integrity :: "docs_repo \<Rightarrow> integrity_source \<Rightarrow> docs_repo \<times> nat" where
  "mode_write_integrity rp src =
     (case integrity_document rp src of
        Inl e \<Rightarrow> (rp, 1)
      | Inr out \<Rightarrow> (rp \<lparr>dr_snapshot := Some (Inr (JObj out))\<rparr>, 0))"

section \<open>The command\<close>

datatype docs_mode = Check contract | Build string | WriteIntegrity integrity_source

fun docs_main :: "docs_mode \<Rightarrow> docs_repo \<Rightarrow> docs_repo \<times> nat" where
  "docs_main (Check c) rp = (rp, docs_check_status rp c)"
| "docs_main (Build stamp) rp =
     (case load_registry rp of Inl _ \<Rightarrow> (rp, 2) | Inr reg \<Rightarrow> mode_build stamp rp reg)"
| "docs_main (WriteIntegrity src) rp = mode_write_integrity rp src"

end
