(* ===== verification/Live_Publication.thy ===== *)
theory Live_Publication
  imports Live_Accuracy
begin

text \<open>
  What the renderer of the live record publishes and withholds. A run that wrote its documents is
  clean when it is checked; nothing reaches a document while the licence switch withholds; a refused
  registry shows no row; and the figures of the withheld directional rows do not reach a block, by
  comparing the blocks of two registries that differ in them only.
\<close>

section \<open>A run that wrote is clean when checked\<close>

lemma universal_newlines_no_cr: "CHR 0x0D \<notin> set (universal_newlines s)"
  by (induction s rule: universal_newlines.induct) auto

lemma universal_newlines_id: "CHR 0x0D \<notin> set s \<Longrightarrow> universal_newlines s = s"
  by (induction s rule: universal_newlines.induct) auto

lemma rstrip_nl_set: "set (rstrip_nl s) \<subseteq> set s"
  by (auto simp: rstrip_nl_def dest: set_dropWhileD)

lemma inject_text_no_cr:
  assumes "inject_text block t = Some t'" "CHR 0x0D \<notin> set block" "CHR 0x0D \<notin> set t"
  shows "CHR 0x0D \<notin> set t'"
  using assms rstrip_nl_set [of block] by (auto simp: inject_text_def dest: in_set_takeD in_set_dropD)

lemma seq_ok:
  "seq m n fs = (Inr True, fs') \<longleftrightarrow> (\<exists>fs1. m fs = (Inr True, fs1) \<and> n fs1 = (Inr True, fs'))"
  by (auto simp: seq_def split: prod.splits sum.splits)

text \<open>A document that carries the block, as it is read.\<close>

definition carries :: "string \<Rightarrow> files \<Rightarrow> string \<Rightarrow> bool" where
  "carries block fs doc \<longleftrightarrow> (\<exists>t. fs doc = Some t \<and> CHR 0x0D \<notin> set t \<and> block_matches block t)"

lemma inject_stage_ok:
  assumes "inject_stage block doc fs = (Inr True, fs')" "well_formed_block block" "CHR 0x0D \<notin> set block"
  shows "carries block fs' doc \<and> (\<forall>p. p \<noteq> doc \<longrightarrow> fs' p = fs p)"
proof -
  obtain t t' where t: "read_file_text fs doc = Some t" "inject_text block t = Some t'" "fs' = fs(doc \<mapsto> t')"
    using assms(1) by (auto simp: inject_stage_def with_file_def split: option.splits)
  have "CHR 0x0D \<notin> set t" using t(1) universal_newlines_no_cr by (auto simp: read_file_text_def)
  then show ?thesis
    using inject_text_no_cr [OF t(2) assms(3)] inject_matches [OF t(2) assms(2)] t(3)
    by (simp add: carries_def)
qed

lemma inject_all_ok:
  assumes "each (inject_stage block) docs fs = (Inr True, fs')" "well_formed_block block" "CHR 0x0D \<notin> set block"
  shows "(\<forall>doc \<in> set docs. carries block fs' doc) \<and> (\<forall>p. p \<notin> set docs \<longrightarrow> fs' p = fs p)"
  using assms(1)
proof (induction docs arbitrary: fs)
  case (Cons d ds)
  then obtain fs1 where fs1: "inject_stage block d fs = (Inr True, fs1)" "each (inject_stage block) ds fs1 = (Inr True, fs')"
    by (auto simp: seq_ok)
  from Cons.IH [OF fs1(2)] inject_stage_ok [OF fs1(1) assms(2,3)] show ?case
    by (cases "d \<in> set ds") (auto simp: carries_def)
qed (simp add: skip_stage_def)

lemma match_all_ok: "\<forall>doc \<in> set docs. carries block fs doc \<Longrightarrow> each (match_stage block) docs fs = (Inr True, fs)"
proof (induction docs)
  case (Cons d ds)
  then have "match_stage block d fs = (Inr True, fs)"
    by (auto simp: carries_def match_stage_def with_file_def read_file_text_def universal_newlines_id)
  with Cons show ?case by (auto simp: seq_ok)
qed (simp add: skip_stage_def)

definition plain_args :: "live_args \<Rightarrow> bool" where
  "plain_args a \<longleftrightarrow> ar_readme a = None \<and> ar_includes a = None \<and> ar_scan a = [] \<and> ar_scan_code a = []"

lemma seq_const: "seq (\<lambda>fs. (Inr True, fs)) m fs = (Inr True, fs') \<Longrightarrow> seq (\<lambda>fs. (Inr b, fs)) m fs = (Inr b, fs')"
  by (auto simp: seq_def split: prod.splits sum.splits)

lemma run_stages_bad:
  "run_stages a False block current fs = (Inr True, fs') \<Longrightarrow> run_stages a bad block current fs = (Inr (\<not> bad), fs')"
  unfolding run_stages_def by (rule seq_const) simp

text \<open>
  C24. After a run that wrote the partial and every document, the same run with \<open>--check\<close> changes
  nothing and its exit status is that of the README's own check alone: 1 where the README has a problem
  and 0 where it is in order. The run has no README, include or scan argument, its block has no second
  end marker and no carriage return, and the partial is none of the documents.
\<close>

theorem written_record_checks_clean:
  assumes "live_main ev a fs = (Inr 0, fs')" "ar_write a" "\<not> ar_check a" "plain_args a"
    "block_of ev (strip_args a) = Inr (block, lits)" "well_formed_block block" "CHR 0x0D \<notin> set block"
    "ar_out a \<notin> set (strip_paths (ar_inject a))"
    "readme_problem ev (licence_withheld ev) (read_file_text fs' (readme_path a)) = Inr bad"
  shows "live_main ev (a\<lparr>ar_check := True\<rparr>) fs' = (Inr (if bad then 1 else 0), fs')"
proof -
  let ?a = "strip_args a" and ?docs = "strip_paths (ar_inject a)"
  have a: "ar_write ?a" "\<not> ar_check ?a" "plain_args ?a" "ar_inject ?a = ?docs" "ar_out ?a = ar_out a"
    "readme_path (?a\<lparr>ar_check := True\<rparr>) = readme_path a" "strip_args (a\<lparr>ar_check := True\<rparr>) = ?a\<lparr>ar_check := True\<rparr>"
    using assms(2-4) by (simp_all add: strip_args_def plain_args_def strip_paths_def readme_path_def)
  have modes: "any_mode ?a" "any_mode (?a\<lparr>ar_check := True\<rparr>)" using a by (simp_all add: any_mode_def)
  have "block_of ev (?a\<lparr>ar_check := True\<rparr>) = block_of ev ?a"
    using a by (simp add: block_of_def wants_block_def)
  then have plans: "plan ev ?a fs = Inr (False, block, lits)"
    "plan ev (?a\<lparr>ar_check := True\<rparr>) fs' = Inr (bad, block, lits)"
    using a assms(5,9) by (simp_all add: plan_def scan_literals_def plain_args_def)
  have "run_stages ?a False block lits fs = (Inr True, fs')"
    using assms(1) modes plans a(3)
    by (auto simp: live_main_def Let_def plain_args_def split: prod.splits sum.splits if_splits)
  then have "each (inject_stage block) ?docs (fs(ar_out a \<mapsto> block)) = (Inr True, fs')"
    using a by (auto simp: run_stages_def seq_ok out_stage_def readme_stage_def includes_stage_def
        plain_args_def skip_stage_def)
  from inject_all_ok [OF this assms(6,7)] have docs: "\<forall>doc \<in> set ?docs. carries block fs' doc"
    and out: "fs' (ar_out a) = Some block" using assms(8) by auto
  have "run_stages (?a\<lparr>ar_check := True\<rparr>) False block lits fs' = (Inr True, fs')"
    using a match_all_ok [OF docs] out universal_newlines_id [OF assms(7)]
    by (simp add: run_stages_def seq_ok out_stage_def readme_stage_def includes_stage_def
        plain_args_def skip_stage_def read_file_text_def)
  then have "run_stages (?a\<lparr>ar_check := True\<rparr>) bad block lits fs' = (Inr (\<not> bad), fs')"
    by (rule run_stages_bad)
  then show ?thesis
    using modes plans a by (simp add: live_main_def Let_def plain_args_def)
qed

text \<open>
  While figures are withheld by the licence switch, nothing a run writes and no exit status depends
  on the registry, its reports or the Go switch (the scans aside, which look for the grade's figures).
\<close>

theorem withheld_run_reads_no_figure:
  assumes "licence_withheld ev" "licence_withheld ev'" "ar_scan a = []" "ar_scan_code a = []"
  shows "live_main ev a fs = live_main ev' a fs"
proof -
  have "plan ev (strip_args a) = plan ev' (strip_args a)"
    using assms by (auto simp: plan_def block_of_def scan_literals_def readme_problem_def strip_args_def strip_paths_def
        fun_eq_iff split: if_splits)
  then show ?thesis using assms by (simp add: live_main_def Let_def)
qed

text \<open>A block whose text has no comment of its own.\<close>

definition marked :: "string \<Rightarrow> string" where
  "marked mid = BEGIN_MARK @ mid @ END_MARK @ nl"

lemma marked_rstrip: "rstrip_nl (marked mid) = BEGIN_MARK @ mid @ END_MARK"
  by (simp add: rstrip_nl_def marked_def nl_def END_MARK_def)

lemma marked_well_formed:
  assumes "CHR ''<'' \<notin> set mid"
  shows "well_formed_block (marked mid)"
proof -
  let ?r = "BEGIN_MARK @ mid @ END_MARK" and ?i = "length BEGIN_MARK + length mid"
  have "\<not> starts_with END_MARK (drop j ?r)" if j: "j < ?i" for j
  proof
    assume "starts_with END_MARK (drop j ?r)"
    then have s: "starts_with END_MARK (drop j ?r)" and "?r ! j = CHR ''<''"
      using j by (auto simp: starts_with_prefix END_MARK_def nth_via_drop)
    have "\<not> length BEGIN_MARK \<le> j"
    proof
      assume le: "length BEGIN_MARK \<le> j"
      have lt: "j - length BEGIN_MARK < length mid" using j le by linarith
      then have "mid ! (j - length BEGIN_MARK) = CHR ''<''"
        using le \<open>?r ! j = CHR ''<''\<close> by (simp add: nth_append)
      with lt assms show False by (metis nth_mem)
    qed
    then have "j < length BEGIN_MARK" "BEGIN_MARK ! j = CHR ''<''"
      using \<open>?r ! j = CHR ''<''\<close> by (auto simp: nth_append)
    then have "j = 0"
      by (auto simp: BEGIN_MARK_def less_Suc_eq nth_Cons' split: if_splits)
    with s show False by (simp add: BEGIN_MARK_def END_MARK_def)
  qed
  then have "first_at END_MARK ?r ?i" by (simp add: first_at_def starts_with_append [of END_MARK "[]", simplified])
  then show ?thesis
    by (simp add: well_formed_block_def marked_rstrip Let_def find_sub_Some)
qed

lemma licence_marked: "\<exists>mid. LICENCE_BLOCK = marked mid \<and> CHR ''<'' \<notin> set mid \<and> CHR 0x0D \<notin> set mid"
proof -
  have c: "CHR ''<'' \<notin> set LICENCE_NOTICE" "CHR 0x0D \<notin> set LICENCE_NOTICE"
    by (simp_all add: LICENCE_NOTICE_def)
  show ?thesis
    by (rule exI [of _ "nl @ nl @ ''Generated by `tools/live_accuracy.py` with Alpaca-derived figures withheld '' @
     ''(`SIGNALDECK_PUBLISH_DERIVED` is not `1`). Nothing in this block is read from the '' @
     ''registry. Do not edit by hand '' @ em_dash @ '' edit the generator.'' @ nl @ nl @ LICENCE_NOTICE @ nl @ nl"])
      (simp add: LICENCE_BLOCK_def marked_def c, simp add: nl_def em_dash_def)
qed


lemma licence_block: "well_formed_block LICENCE_BLOCK" "CHR 0x0D \<notin> set LICENCE_BLOCK"
proof -
  obtain mid where mid: "LICENCE_BLOCK = marked mid" "CHR ''<'' \<notin> set mid" "CHR 0x0D \<notin> set mid"
    using licence_marked by blast
  show "well_formed_block LICENCE_BLOCK" unfolding mid(1) by (rule marked_well_formed [OF mid(2)])
  have "CHR 0x0D \<notin> set BEGIN_MARK \<union> set END_MARK \<union> set nl"
    by (simp add: BEGIN_MARK_def END_MARK_def nl_def)
  with mid(3) show "CHR 0x0D \<notin> set LICENCE_BLOCK" unfolding mid(1) marked_def by simp
qed

section \<open>A refused registry\<close>

definition rendered :: "live_env \<Rightarrow> string \<Rightarrow> string py" where
  "rendered ev rel = py_bind (load_live_snapshot ev) (\<lambda>(snap, b). render ev snap b rel)"

text \<open>
  A refused registry renders its refusal only: no row and nothing of the withheld grade but its date
  reaches the block.
\<close>

theorem refused_registry_shows_no_row:
  assumes "ev_registry ev = Readable (Blob s (Some (JObj reg)))" "jget ''status'' reg = JStr ''REFUSED''"
    "jget ''stale_last_registry'' reg = JObj stale" "k \<noteq> ''graded_at''" "k \<noteq> ''generated''"
  shows "rendered (ev\<lparr>ev_registry := Readable (Blob s' (Some (JObj
       (jset ''rows'' v (jset ''stale_last_registry'' (JObj (jset k w stale)) reg)))))\<rparr>) rel = rendered ev rel"
proof -
  have shown: "py_text (ev\<lparr>ev_registry := f\<rparr>) j = py_text ev j" for f j
    by (cases "(ev, j)" rule: py_text.cases) auto
  let ?stale' = "jset k w stale" and ?reg' = "jset ''rows'' v (jset ''stale_last_registry'' (JObj (jset k w stale)) reg)"
  have "load_live_snapshot ev = Inr (stale, Some (refusal_banner reg stale))"
    using assms(1-3) by (auto simp: load_live_snapshot_def load_document_def py_or_else_def)
  moreover have "load_live_snapshot (ev\<lparr>ev_registry := Readable (Blob s' (Some (JObj ?reg')))\<rparr>)
      = Inr (?stale', Some (refusal_banner ?reg' ?stale'))"
    using assms(2,3) jset_dom [of k w stale] by (auto simp: load_live_snapshot_def load_document_def py_or_else_def)
  moreover have "refusal_banner ?reg' ?stale' = refusal_banner reg stale"
    using assms(4,5) by (simp add: refusal_banner_def)
  ultimately show ?thesis by (simp add: rendered_def render_def refusal_block_def shown)
qed

section \<open>The withheld directional rows\<close>

definition figure_keys :: "string set" where
  "figure_keys = {''live_acc'', ''null_prequential'', ''null_acc'', ''skill'', ''ci'', ''ci_method'', ''verdict'', ''honesty''}"

text \<open>Two rows that differ only in their figures, over a label that is withheld.\<close>

definition same_but_figures :: "obj \<Rightarrow> obj \<Rightarrow> bool" where
  "same_but_figures r r' \<longleftrightarrow>
     r = r' \<or> (is_live r \<and> sd30_withholds True r = Inr True \<and> (\<forall>k. k \<notin> figure_keys \<longrightarrow> map_of r k = map_of r' k))"

text \<open>Both rows have an interval or neither has.\<close>

definition same_presence :: "obj \<Rightarrow> obj \<Rightarrow> bool" where
  "same_presence r r' \<longleftrightarrow> (jget ''ci'' r = JNull \<longleftrightarrow> jget ''ci'' r' = JNull)"

lemma same_get: "same_but_figures r r' \<Longrightarrow> k \<notin> figure_keys \<Longrightarrow> jget_or v k r = jget_or v k r'"
  by (auto simp: same_but_figures_def jget_or_def)

lemma same_tests:
  assumes "same_but_figures r r'"
  shows "is_live r' = is_live r" "row_key r' = row_key r" "sd30_withholds b r' = sd30_withholds b r"
proof -
  have "jget k r' = jget k r" if "k \<notin> figure_keys" for k
    using same_get [OF assms that] by simp
  from this [of "''live_n''"] this [of "''predictor''"] this [of "''family''"]
  have "jget ''live_n'' r' = jget ''live_n'' r" "jget ''predictor'' r' = jget ''predictor'' r"
    "jget ''family'' r' = jget ''family'' r" by (simp_all add: figure_keys_def)
  then show "is_live r' = is_live r" "row_key r' = row_key r" "sd30_withholds b r' = sd30_withholds b r"
    by (simp_all only: is_live_def row_key_def sd30_withholds_def)
qed

lemma py_map_rel:
  assumes "list_all2 (\<lambda>x y. \<forall>u v. f x = Inr u \<longrightarrow> g y = Inr v \<longrightarrow> P u v) xs ys"
    "py_map f xs = Inr us" "py_map g ys = Inr vs"
  shows "list_all2 P us vs"
  using assms
proof (induction arbitrary: us vs rule: list_all2_induct)
  case (Cons x xs y ys)
  then show ?case by (auto simp: py_bind_Inr)
qed simp

definition same_keyed :: "string option \<times> obj \<Rightarrow> string option \<times> obj \<Rightarrow> bool" where
  "same_keyed a b \<longleftrightarrow> fst a = fst b \<and> row_key (snd a) = Inr (fst a) \<and> same_but_figures (snd a) (snd b)"

lemma keyed_rows_rel:
  assumes "list_all2 same_but_figures rs rs'" "keyed_rows rs = Inr live" "keyed_rows rs' = Inr live'"
  shows "list_all2 same_keyed live live'"
proof (rule py_map_rel)
  show "list_all2 (\<lambda>x y. \<forall>u v. py_bind (row_key x) (\<lambda>k. Inr (k, x)) = Inr u \<longrightarrow>
      py_bind (row_key y) (\<lambda>k. Inr (k, y)) = Inr v \<longrightarrow> same_keyed u v) rs rs'"
    by (rule list_all2_mono [OF assms(1)]) (auto simp: py_bind_Inr same_keyed_def same_tests(2))
qed (use assms(2,3) in \<open>simp_all add: keyed_rows_def\<close>)

lemma withheld_keys_rel:
  assumes "list_all2 same_keyed live live'"
  shows "withheld_keys b live' = withheld_keys b live"
proof -
  have "py_map (\<lambda>(k, r). py_bind (sd30_withholds b r) (\<lambda>b. Inr (if b then [k] else []))) live'
      = py_map (\<lambda>(k, r). py_bind (sd30_withholds b r) (\<lambda>b. Inr (if b then [k] else []))) live"
    using assms by (induction rule: list_all2_induct) (auto simp: same_keyed_def same_tests(3))
  then show ?thesis by (simp add: withheld_keys_def)
qed

lemma withheld_keys_mem:
  assumes "withheld_keys True live = Inr ks" "(k, r) \<in> set live" "sd30_withholds True r = Inr True"
  shows "k \<in> set ks"
  using assms
proof (induction live arbitrary: ks)
  case (Cons x live)
  then show ?case by (cases x) (auto simp: withheld_keys_def py_bind_Inr)
qed simp


lemma row_line_rel:
  assumes "same_keyed a b" "sd30_withholds True (snd a) = Inr True \<Longrightarrow> fst a \<in> set ks"
    "row_line ev ks a = Inr u" "row_line ev ks b = Inr v"
  shows "u = v"
proof -
  obtain k r r' where ab: "a = (k, r)" "b = (k, r')" "same_but_figures r r'"
    using assms(1) by (cases a; cases b) (auto simp: same_keyed_def)
  show ?thesis
  proof (cases "r = r'")
    case True
    with assms ab show ?thesis by simp
  next
    case False
    then have "k \<in> set ks" using assms(2) ab by (auto simp: same_but_figures_def)
    moreover have "jget_or x key r' = jget_or x key r" if "key \<notin> figure_keys" for x key
      using same_get [OF ab(3) that] by simp
    from this [of "''distinct_days''"] this [of "''predictor''"] this [of "''band''"] this [of "''live_n''"]
    have "jget_or x ''distinct_days'' r' = jget_or x ''distinct_days'' r" "jget_or x ''predictor'' r' = jget_or x ''predictor'' r"
      "jget_or x ''band'' r' = jget_or x ''band'' r" "jget_or x ''live_n'' r' = jget_or x ''live_n'' r" for x
      by (simp_all add: figure_keys_def)
    ultimately show ?thesis
      using assms(3,4) ab by (auto simp: row_line_def figure_cells_def py_bind_Inr Let_def)
  qed
qed

lemma interval_paragraph_rel:
  assumes "list_all2 same_but_figures rs rs'" and "list_all2 same_presence rs rs'"
  shows "interval_paragraph (filter is_live rs') = interval_paragraph (filter is_live rs)"
proof -
  have "list_all (\<lambda>r. jget ''ci'' r = JNull) (filter is_live rs') = list_all (\<lambda>r. jget ''ci'' r = JNull) (filter is_live rs)
      \<and> (filter is_live rs' = []) = (filter is_live rs = [])"
    using assms by (induction rule: list_all2_induct) (auto simp: same_tests(1) same_presence_def)
  then show ?thesis by (simp add: interval_paragraph_def)
qed

lemma filter_same:
  assumes "list_all2 (\<lambda>x y. P x = P y \<and> (P x \<longrightarrow> x = y)) xs ys"
  shows "filter P ys = filter P xs"
  using assms
proof (induction xs arbitrary: ys)
  case (Cons x xs)
  then obtain y zs where "ys = y # zs" "P x = P y" "P x \<longrightarrow> x = y" "filter P zs = filter P xs"
    by (auto simp: list_all2_Cons1)
  then show ?case by (cases "P x") simp_all
qed simp

lemma backtested_rel:
  assumes "list_all2 same_but_figures rs rs'"
  shows "backtested ev rs' = backtested ev rs"
proof -
  have "filter (\<lambda>r. \<not> is_live r) rs' = filter (\<lambda>r. \<not> is_live r) rs"
  proof (rule filter_same, rule list_all2_mono [OF assms])
    fix r r' assume same: "same_but_figures r r'"
    then have "\<not> is_live r \<longrightarrow> r = r'" unfolding same_but_figures_def by blast
    with same_tests(1) [OF same] show "(\<not> is_live r) = (\<not> is_live r') \<and> (\<not> is_live r \<longrightarrow> r = r')" by simp
  qed
  then show ?thesis by (simp add: backtested_def)
qed

lemma live_rel: "list_all2 same_but_figures rs rs' \<Longrightarrow> list_all2 same_but_figures (filter is_live rs) (filter is_live rs')"
  by (induction rule: list_all2_induct) (auto simp: same_tests(1))

lemma survivorship_reason_rel:
  "list_all2 same_but_figures rs rs' \<Longrightarrow> survivorship_reason rs' = survivorship_reason rs"
proof (induction rule: list_all2_induct)
  case (Cons r rs r' rs')
  have "jget k r' = jget k r" if "k \<notin> figure_keys" for k using same_get [OF Cons.hyps(1) that] by simp
  from this [of "''survivorship_clean''"] this [of "''survivorship_reason''"]
  have "jget ''survivorship_clean'' r' = jget ''survivorship_clean'' r" "jget ''survivorship_reason'' r' = jget ''survivorship_reason'' r"
    by (simp_all add: figure_keys_def)
  with Cons.IH show ?case by (simp add: survivorship_reason_def)
qed (simp add: survivorship_reason_def)

text \<open>Names whose figures are not withheld find the same row in both registries.\<close>

lemma map_of_filter_key: "map_of (filter (\<lambda>a. fst a = k) xs) k = map_of xs k"
  by (induction xs) auto

lemma same_keyed_filter:
  assumes "list_all2 same_keyed xs ys" "\<And>a. a \<in> set xs \<Longrightarrow> sd30_withholds True (snd a) = Inr True \<Longrightarrow> \<not> P (fst a)"
  shows "filter (\<lambda>a. P (fst a) \<and> Q (fst a) (snd a)) ys = filter (\<lambda>a. P (fst a) \<and> Q (fst a) (snd a)) xs"
proof (rule filter_same, rule list.rel_mono_strong [OF assms(1)])
  fix a b assume ab: "a \<in> set xs" "same_keyed a b"
  have "fst a = fst b" using ab(2) by (simp add: same_keyed_def)
  moreover have "a = b" if "P (fst a)"
  proof -
    have "sd30_withholds True (snd a) \<noteq> Inr True" using assms(2) [OF ab(1)] that by blast
    then show ?thesis using ab(2) by (auto simp: same_keyed_def same_but_figures_def prod_eq_iff)
  qed
  ultimately show "(P (fst a) \<and> Q (fst a) (snd a)) = (P (fst b) \<and> Q (fst b) (snd b))
      \<and> (P (fst a) \<and> Q (fst a) (snd a) \<longrightarrow> a = b)" by metis
qed

lemma lookup_rel:
  assumes "list_all2 same_keyed xs ys" "\<And>a. a \<in> set xs \<Longrightarrow> sd30_withholds True (snd a) = Inr True \<Longrightarrow> fst a \<noteq> name"
  shows "map_of (rev ys) name = map_of (rev xs) name"
proof -
  have "filter (\<lambda>a. fst a = name) ys = filter (\<lambda>a. fst a = name) xs"
    using same_keyed_filter [of xs ys "\<lambda>k. k = name" "\<lambda>_ _. True"] assms by simp
  then show ?thesis
    using map_of_filter_key [of name "rev ys"] map_of_filter_key [of name "rev xs"] by (simp add: rev_filter [symmetric])
qed

lemma py_map_cong: "(\<And>x. x \<in> set xs \<Longrightarrow> f x = g x) \<Longrightarrow> py_map f xs = py_map g xs"
  by (induction xs) auto

lemma withheld_name: "row_key r = Inr k \<Longrightarrow> sd30_withholds True r = Inr True \<Longrightarrow> k \<noteq> Some ''?''"
  by (auto simp: row_key_def sd30_withholds_def split: json.splits if_splits)

lemma notices_rel:
  assumes "list_all2 same_keyed live live'" "withheld_keys True live = Inr ks"
  shows "notices ev ks live' = notices ev ks live"
proof -
  let ?shown = "\<lambda>a. fst a \<notin> set ks \<and> truthy (jget ''verdict'' (snd a))"
  have held: "fst a \<in> set ks" if "a \<in> set live" "sd30_withholds True (snd a) = Inr True" for a
    using withheld_keys_mem [OF assms(2), of "fst a" "snd a"] that by simp
  have f: "filter ?shown live' = filter ?shown live"
    using same_keyed_filter [OF assms(1), of "\<lambda>k. k \<notin> set ks" "\<lambda>_ r. truthy (jget ''verdict'' r)"] held by blast
  have keyed: "row_key (snd a) = Inr (fst a)" if "a \<in> set live" for a
    using assms(1) that by (auto simp: list_all2_conv_all_nth in_set_conv_nth same_keyed_def)
  have lookup: "map_of (rev live') name = map_of (rev live) name" if "name \<notin> set ks \<or> name = Some ''?''" for name
    using lookup_rel [OF assms(1)] held keyed withheld_name that by metis
  have "notice_lines ev live' a = notice_lines ev live a" if "a \<in> set (filter ?shown live)" for a
  proof -
    have "row_key (snd a) = Inr (fst a)" "fst a \<notin> set ks" using keyed that by auto
    then show ?thesis
      using lookup [of "fst a"] lookup [of "Some ''?''"] by (simp add: notice_lines_def unsupported_lines_def)
  qed
  then have "py_map (notice_lines ev live') (filter ?shown live) = py_map (notice_lines ev live) (filter ?shown live)"
    by (rule py_map_cong)
  then show ?thesis using f by (simp add: notices_def case_prod_beta' conj_commute)
qed

lemma snapshot_rows_objs: "jget_or (JArr []) ''rows'' snap = JArr (map JObj rs) \<Longrightarrow> snapshot_rows snap = Inr rs"
proof -
  have "py_map as_obj (map JObj rs) = Inr rs" by (induction rs) auto
  then show "jget_or (JArr []) ''rows'' snap = JArr (map JObj rs) \<Longrightarrow> snapshot_rows snap = Inr rs"
    by (simp add: snapshot_rows_def)
qed

lemma shown_keys_cong:
  assumes "\<And>k. k \<in> set keys \<Longrightarrow> jget k s' = jget k s"
  shows "py_map (\<lambda>k. py_bind (py_text ev (jget k s')) (g k)) (filter (\<lambda>k. jget k s' \<noteq> JNull) keys)
    = py_map (\<lambda>k. py_bind (py_text ev (jget k s)) (g k)) (filter (\<lambda>k. jget k s \<noteq> JNull) keys)"
  using assms by (induction keys) auto

lemma multiplicity_lines_set: "multiplicity_lines ev (jset ''rows'' v snap) = multiplicity_lines ev snap"
  unfolding multiplicity_lines_def by (subst shown_keys_cong [of _ _ snap]) auto

text \<open>
  C23. While the directional label is withheld, a published block tells nothing of the figures of the rows
  graded against it beyond whether they have an interval: two registries that differ only in those
  figures, where the same rows have an interval, render the same block.
\<close>

theorem withheld_rows_leak_nothing:
  assumes "sd30_flag ev = Inr (True, reason)" "jget_or (JArr []) ''rows'' snap = JArr (map JObj rs)"
    "list_all2 same_but_figures rs rs'" "figure_block ev snap rel = Inr t"
    "figure_block ev (jset ''rows'' (JArr (map JObj rs')) snap) rel = Inr t'"
    "list_all2 same_presence rs rs'"
  shows "t = t'"
proof -
  let ?snap' = "jset ''rows'' (JArr (map JObj rs')) snap"
  have rows: "snapshot_rows snap = Inr rs" "snapshot_rows ?snap' = Inr rs'"
    using assms(2) by (simp_all add: snapshot_rows_objs)
  obtain graded live ks table nts bk mult surv where L: 
    "py_text ev (py_or_else (jget ''graded_at'' snap) (py_or_else (jget ''generated'' snap) (JStr ''unknown''))) = Inr graded"
    "keyed_rows (filter is_live rs) = Inr live" "withheld_keys True live = Inr ks"
    "py_map (row_line ev ks) live = Inr table" "notices ev ks live = Inr nts" "backtested ev rs = Inr bk"
    "multiplicity_lines ev snap = Inr mult" "survivorship_lines ev snap rs = Inr surv"
    and t: "t = join_with nl ([BEGIN_MARK, [], generated_line rel (''grade of '' @ graded), [],
         ''### Live record'', [],
         ''| Predictor | Band | n | Live acc | Null | Skill | Distinct days | Interval |'',
         ''|---|---|---|---|---|---|---|---|''] @ table @ [[]] @ sd30_paragraph ks reason
         @ interval_paragraph (filter is_live rs) @ nts @ bk @ mult @ surv @ [END_MARK]) @ nl"
    using assms(4) unfolding figure_block_def rows assms(1) py_bind_Inr py_bind_simps prod.case by blast
  obtain graded' live' ks' table' nts' bk' mult' surv' where L': 
    "py_text ev (py_or_else (jget ''graded_at'' ?snap') (py_or_else (jget ''generated'' ?snap') (JStr ''unknown''))) = Inr graded'"
    "keyed_rows (filter is_live rs') = Inr live'" "withheld_keys True live' = Inr ks'"
    "py_map (row_line ev ks') live' = Inr table'" "notices ev ks' live' = Inr nts'" "backtested ev rs' = Inr bk'"
    "multiplicity_lines ev ?snap' = Inr mult'" "survivorship_lines ev ?snap' rs' = Inr surv'"
    and t': "t' = join_with nl ([BEGIN_MARK, [], generated_line rel (''grade of '' @ graded'), [],
         ''### Live record'', [],
         ''| Predictor | Band | n | Live acc | Null | Skill | Distinct days | Interval |'',
         ''|---|---|---|---|---|---|---|---|''] @ table' @ [[]] @ sd30_paragraph ks' reason
         @ interval_paragraph (filter is_live rs') @ nts' @ bk' @ mult' @ surv' @ [END_MARK]) @ nl"
    using assms(5) unfolding figure_block_def rows assms(1) py_bind_Inr py_bind_simps prod.case by blast
  have live: "list_all2 same_keyed live live'"
    by (rule keyed_rows_rel [OF live_rel [OF assms(3)] L(2) L'(2)])
  then have ks: "ks' = ks" using withheld_keys_rel L(3) L'(3) by simp
  have "list_all2 (=) table table'"
  proof (rule py_map_rel [OF _ L(4)])
    show "py_map (row_line ev ks) live' = Inr table'" using L'(4) ks by simp
    show "list_all2 (\<lambda>x y. \<forall>u v. row_line ev ks x = Inr u \<longrightarrow> row_line ev ks y = Inr v \<longrightarrow> u = v) live live'"
    proof (rule list.rel_mono_strong [OF live])
      fix a b assume "a \<in> set live" "same_keyed a b"
      then show "\<forall>u v. row_line ev ks a = Inr u \<longrightarrow> row_line ev ks b = Inr v \<longrightarrow> u = v"
        using row_line_rel withheld_keys_mem [OF L(3), of "fst a" "snd a"] by (metis prod.collapse)
    qed
  qed
  moreover have "nts' = nts" using notices_rel [OF live L(3)] L(5) L'(5) ks by simp
  moreover have "bk' = bk" using backtested_rel [OF assms(3)] L(6) L'(6) by simp
  moreover have "mult' = mult" using multiplicity_lines_set L(7) L'(7) by simp
  moreover have "survivorship_lines ev ?snap' rs' = survivorship_lines ev snap rs"
    by (simp add: survivorship_lines_def survivorship_reason_rel [OF assms(3)])
  then have "surv' = surv" using L(8) L'(8) by simp
  moreover have "graded' = graded" using L(1) L'(1) by simp
  moreover have "interval_paragraph (filter is_live rs') = interval_paragraph (filter is_live rs)"
    by (rule interval_paragraph_rel [OF assms(3,6)])
  ultimately show ?thesis using t t' ks by (simp add: list.rel_eq)
qed

section \<open>Instances\<close>

definition sample_go :: string where
  "sample_go = ''package publication'' @ nl @ ''var SD30Withheld = true'' @ nl
     @ ''const SD30Reason = '' @ [CHR 0x22] @ ''withheld: label'' @ [CHR 0x22] @ nl"

definition sample_ev :: live_env where
  "sample_ev = \<lparr>ev_publish = None, ev_withhold = Some sample_go, ev_registry = NoFile, ev_status = None,
     ev_reval = None, ev_reval_ops = None, ev_repr = (\<lambda>_. ''x'')\<rparr>"

definition sample_args :: live_args where
  "sample_args = \<lparr>ar_registry = ''/r/data/accuracy_registry.json'', ar_rel = ''data/accuracy_registry.json'',
     ar_out = ''/r/partials/live_accuracy.md'', ar_write = True, ar_check = False, ar_inject = [''/r/DOC.md'' @ [CHR 0x0D]],
     ar_readme = None, ar_scan = [], ar_scan_code = [], ar_includes = None\<rparr>"

definition sample_files :: files where
  "sample_files = [''/r/DOC.md'' \<mapsto> sample_document]"

definition filled_document :: string where
  "filled_document = ''title'' @ nl @ rstrip_nl LICENCE_BLOCK @ nl @ ''tail''"

definition written_files :: files where
  "written_files = [''/r/DOC.md'' \<mapsto> filled_document, ''/r/partials/live_accuracy.md'' \<mapsto> LICENCE_BLOCK]"

lemma sample_paths: "strip_paths [''/r/DOC.md'' @ [CHR 0x0D]] = [''/r/DOC.md'']" "universal_newlines sample_document = sample_document"
    "find_block sample_document = Some (6, 83)" "take 6 sample_document = ''title'' @ nl" "drop 83 sample_document = nl @ ''tail''"
    "default_readme ''/r/data/accuracy_registry.json'' = ''/r/README.md''"
  by code_simp+

lemma sample_stripped: "strip_args sample_args = sample_args\<lparr>ar_inject := [''/r/DOC.md'']\<rparr>"
  using sample_paths(1) by (simp add: strip_args_def sample_args_def strip_paths_def)

lemma sample_withheld: "licence_withheld sample_ev" by (simp add: licence_withheld_def sample_ev_def)

lemma sample_written: "live_main sample_ev sample_args sample_files = (Inr 0, written_files)"
proof -
  have "inject_text LICENCE_BLOCK sample_document = Some filled_document"
    by (simp add: inject_text_def sample_paths filled_document_def)
  then have "inject_stage LICENCE_BLOCK ''/r/DOC.md'' (sample_files(''/r/partials/live_accuracy.md'' \<mapsto> LICENCE_BLOCK))
      = (Inr True, written_files)"
    by (simp add: inject_stage_def with_file_def read_file_text_def sample_files_def written_files_def sample_paths fun_upd_twist)
  then have stages: "run_stages (sample_args\<lparr>ar_inject := [''/r/DOC.md'']\<rparr>) False LICENCE_BLOCK [] sample_files
      = (Inr True, written_files)"
    by (simp add: run_stages_def seq_def out_stage_def readme_stage_def includes_stage_def skip_stage_def sample_args_def)
  have "plan sample_ev (sample_args\<lparr>ar_inject := [''/r/DOC.md'']\<rparr>) sample_files = Inr (False, LICENCE_BLOCK, [])"
    using sample_withheld by (simp add: plan_def block_of_def wants_block_def scan_literals_def sample_args_def)
  with stages show ?thesis
    by (simp add: live_main_def sample_stripped any_mode_def) (simp add: sample_args_def)
qed

lemma written_record_checks_clean_witness:
  "live_main sample_ev (sample_args\<lparr>ar_check := True\<rparr>) written_files = (Inr 0, written_files)"
proof (rule written_record_checks_clean [OF sample_written, where bad = False, simplified if_False])
  show "block_of sample_ev (strip_args sample_args) = Inr (LICENCE_BLOCK, [])"
    using sample_withheld by (simp add: sample_stripped block_of_def wants_block_def)
  show "readme_problem sample_ev (licence_withheld sample_ev) (read_file_text written_files (readme_path sample_args)) = Inr False"
    using sample_withheld
    by (simp add: readme_problem_def withheld_readme_problem_def read_file_text_def readme_path_def sample_args_def
        sample_paths written_files_def)
qed (use sample_paths(1) in \<open>simp_all add: sample_args_def plain_args_def licence_block\<close>)

lemma withheld_run_reads_no_figure_witness:
  "live_main sample_ev sample_args sample_files
     = live_main (sample_ev\<lparr>ev_registry := Readable (Blob ''[]'' (Some (JArr [])))\<rparr>) sample_args sample_files"
  by (rule withheld_run_reads_no_figure) (simp_all add: licence_withheld_def sample_ev_def sample_args_def)

definition refused_registry :: obj where
  "refused_registry = [(''status'', JStr ''REFUSED''), (''refusal_reason'', JStr ''unregistered grader''),
     (''stale_last_registry'', JObj [(''graded_at'', JStr ''2026-10-01''), (''rows'', JArr [])])]"

lemma refused_registry_shows_no_row_witness:
  "rendered (sample_ev\<lparr>ev_registry := Readable (Blob [] (Some (JObj (jset ''rows'' (JArr [JObj [(''live_n'', JInt 40)]])
       (jset ''stale_last_registry'' (JObj (jset ''rows'' (JArr [JObj [(''live_n'', JInt 900)]])
          [(''graded_at'', JStr ''2026-10-01''), (''rows'', JArr [])])) refused_registry)))))\<rparr>) ''r.json''
   = rendered (sample_ev\<lparr>ev_registry := Readable (Blob [] (Some (JObj refused_registry)))\<rparr>) ''r.json''"
  using refused_registry_shows_no_row
    [of "sample_ev\<lparr>ev_registry := Readable (Blob [] (Some (JObj refused_registry)))\<rparr>" "[]" refused_registry
      "[(''graded_at'', JStr ''2026-10-01''), (''rows'', JArr [])]" "''rows''" "[]" "JArr [JObj [(''live_n'', JInt 40)]]"
      "JArr [JObj [(''live_n'', JInt 900)]]" "''r.json''"]
  by (simp add: refused_registry_def)

text \<open>A directional row over the withheld label, with and without its figures, beside a row that is shown.\<close>

definition held_row :: obj where
  "held_row = [(''predictor'', JStr ''ensemble (1d)''), (''family'', JStr ''direction''), (''live_n'', JInt 1200),
     (''live_acc'', JFloat (Fin 0.62)), (''null_acc'', JFloat (Fin 0.5)), (''skill'', JFloat (Fin 0.12)),
     (''verdict'', JStr ''SKILL'')]"

definition bare_row :: obj where
  "bare_row = [(''predictor'', JStr ''ensemble (1d)''), (''family'', JStr ''direction''), (''live_n'', JInt 1200),
     (''verdict'', JStr ''FAILED'')]"

definition shown_row :: obj where
  "shown_row = [(''predictor'', JStr ''vol21''), (''family'', JStr ''structure''), (''live_n'', JInt 40)]"

definition sample_snapshot :: "obj list \<Rightarrow> obj" where
  "sample_snapshot rows = [(''graded_at'', JStr ''2026-10-20''), (''rows'', JArr (map JObj rows))]"

lemma sample_flag: "sd30_flag sample_ev = Inr (True, ''withheld: label'')"
  by (simp add: sd30_flag_def sample_ev_def) (code_simp)

lemma sample_tests: "names_horizon ''ensemble (1d)''" "comma_int 1200 = ''1,200''" "comma_int 40 = ''40''"
  by code_simp+

lemma sample_row_lines:
  "\<exists>t. row_line sample_ev ks (k, held_row) = Inr t" "\<exists>t. row_line sample_ev ks (k, bare_row) = Inr t"
  "\<exists>t. row_line sample_ev ks (k, shown_row) = Inr t"
  by (simp_all add: row_line_def figure_cells_def acc_cell_def row_null_def pct_def pp_def interval_def cell_def
      held_row_def bare_row_def shown_row_def)

lemma sample_block_renders:
  assumes "r = held_row \<or> r = bare_row"
  shows "\<exists>t. figure_block sample_ev (sample_snapshot [r, shown_row]) ''r.json'' = Inr t"
proof -
  let ?k = "Some ''ensemble (1d)''" and ?v = "Some ''vol21''"
  have rows: "snapshot_rows (sample_snapshot [r, shown_row]) = Inr [r, shown_row]"
    by (rule snapshot_rows_objs) (simp add: sample_snapshot_def)
  have live: "filter is_live [r, shown_row] = [r, shown_row]" and keyed: "keyed_rows [r, shown_row] = Inr [(?k, r), (?v, shown_row)]"
    and keys: "withheld_keys True [(?k, r), (?v, shown_row)] = Inr [?k]"
    using assms sample_tests(1)
    by (auto simp: is_live_def keyed_rows_def row_key_def withheld_keys_def sd30_withholds_def held_row_def bare_row_def
        shown_row_def)
  obtain l l' where "row_line sample_ev [?k] (?k, r) = Inr l" "row_line sample_ev [?k] (?v, shown_row) = Inr l'"
    using assms sample_row_lines by metis
  then have table: "py_map (row_line sample_ev [?k]) [(?k, r), (?v, shown_row)] = Inr [l, l']" by simp
  have rest: "notices sample_ev [?k] [(?k, r), (?v, shown_row)] = Inr []" "backtested sample_ev [r, shown_row] = Inr []"
    "multiplicity_lines sample_ev (sample_snapshot [r, shown_row]) = Inr []"
    "survivorship_lines sample_ev (sample_snapshot [r, shown_row]) [r, shown_row] = Inr []"
    using live assms
    by (auto simp: notices_def backtested_def multiplicity_lines_def survivorship_lines_def survivorship_reason_def
        sample_snapshot_def held_row_def bare_row_def shown_row_def reason_parts_def survivorship_status_line_def
        measured_effect_def survivorship_effect_def sample_ev_def opt_list_def)
  have "py_text sample_ev (py_or_else (jget ''graded_at'' (sample_snapshot [r, shown_row])) x) = Inr ''2026-10-20''" for x
    by (simp add: sample_snapshot_def py_or_else_def)
  then show ?thesis
    unfolding figure_block_def rows sample_flag live keyed keys table rest py_bind_simps prod.case by simp
qed

lemma withheld_rows_leak_nothing_witness:
  "figure_block sample_ev (sample_snapshot [held_row, shown_row]) ''r.json''
     = figure_block sample_ev (sample_snapshot [bare_row, shown_row]) ''r.json''"
proof -
  have same: "same_but_figures held_row bare_row"
    using sample_tests(1)
    by (auto simp: same_but_figures_def held_row_def bare_row_def is_live_def sd30_withholds_def figure_keys_def)
  have presence: "same_presence held_row bare_row" by (simp add: same_presence_def held_row_def bare_row_def)
  have set_rows: "jset ''rows'' (JArr (map JObj [bare_row, shown_row])) (sample_snapshot [held_row, shown_row])
      = sample_snapshot [bare_row, shown_row]"
    by (simp add: sample_snapshot_def)
  obtain t t' where "figure_block sample_ev (sample_snapshot [held_row, shown_row]) ''r.json'' = Inr t"
    "figure_block sample_ev (sample_snapshot [bare_row, shown_row]) ''r.json'' = Inr t'"
    using sample_block_renders by blast
  then show ?thesis
    using withheld_rows_leak_nothing [OF sample_flag, of "sample_snapshot [held_row, shown_row]" "[held_row, shown_row]"
        "[bare_row, shown_row]" "''r.json''" t t'] same presence
    by (simp add: set_rows) (simp add: sample_snapshot_def same_but_figures_def same_presence_def)
qed

end
