(* ===== verification/Docs_Gate_Facts.thy ===== *)
theory Docs_Gate_Facts
  imports Docs_Gate Live_Publication
begin

text \<open>
  What a clean exit of the documentation gate certifies: measurements no allowlist can hide, regions
  that earned their exemption, partials a build leaves in step with the snapshot, the two contracts
  compared, and a withheld snapshot that answers the data rules as the full one does.
\<close>

section \<open>Steps that may raise\<close>

lemma py_map_Inr: "py_map f xs = Inr ys \<longleftrightarrow> list_all2 (\<lambda>x y. f x = Inr y) xs ys"
  by (induction xs arbitrary: ys) (auto simp: py_bind_Inr list_all2_Cons1)

lemma apply_allowlist_Inr:
  "apply_allowlist vs allow = Inr kept \<Longrightarrow>
     v \<in> set vs \<Longrightarrow> dv_check v \<in> set UNSUPPRESSIBLE_CHECKS \<Longrightarrow> v \<in> set kept"
  by (auto simp: apply_allowlist_def kept_by_def dest!: py_filter_Inr split: if_splits)

lemma apply_allowlist_subset:
  "apply_allowlist vs allow = Inr kept \<Longrightarrow> set kept \<subseteq> set vs"
  by (auto simp: apply_allowlist_def dest!: py_filter_Inr split: if_splits)

lemma docs_check_0:
  "docs_check_status rp c = 0 \<longleftrightarrow>
     (\<exists>reg vs snapshot evidence. load_registry rp = Inr reg
        \<and> all_violations rp c reg = Inr (vs, snapshot)
        \<and> apply_allowlist vs (allow_of reg) = Inr []
        \<and> evidence_of (dr_env rp) snapshot = Inr evidence)"
  by (auto simp: docs_check_status_def mode_check_def py_bind_Inr split: sum.splits if_splits)

lemma clean_has_no_measurement:
  assumes "apply_allowlist vs allow = Inr []" and "v \<in> set vs"
  shows "dv_check v \<notin> set UNSUPPRESSIBLE_CHECKS"
  using apply_allowlist_Inr [OF assms] by auto

lemma all_violations_Inr:
  "all_violations rp c reg = Inr (vs, snapshot) \<longleftrightarrow>
     (\<exists>us hs is' ss. check_docs_index rp reg = Inr us
        \<and> check_no_hardcoded_live_accuracy rp reg = Inr hs
        \<and> check_integrity_snapshot rp = Inr (is', snapshot)
        \<and> snapshot_violations rp c reg snapshot = Inr ss
        \<and> vs = us @ hs @ check_forbidden_claims rp reg @ is' @ ss)"
  by (auto simp: all_violations_def py_bind_Inr)

lemma integrity_violation_check [simp]: "dv_check (integrity_violation k f) = k"
  by (simp add: integrity_violation_def make_violation_def)

lemma opt_list_Nil [simp]: "opt_list x = [] \<longleftrightarrow> x = None"
  by (cases x) (auto simp: opt_list_def)

section \<open>Measurements\<close>

lemma stamp_of_null: "iso_instant ''None'' = Inr None"
  by (simp add: iso_instant_def parses_as_timestamp_def replace_Z_def strip_def is_ws_def)

lemma fresh_snapshot:
  assumes "check_integrity_snapshot rp = Inr (vs, snapshot)"
    and "list_all (\<lambda>v. dv_check v \<noteq> ''integrity-snapshot'') vs"
  shows "\<exists>snap shown t bound. dr_snapshot rp = Some (Inr (JObj snap)) \<and> snapshot = Some (JObj snap)
    \<and> py_text (dr_env rp) (jget ''generated'' snap) = Inr shown \<and> iso_instant shown = Inr (Some t)
    \<and> age_bound rp = Inr bound \<and> (dr_now rp - t) / 86400 \<le> of_int bound"
proof -
  obtain shown where shown: "py_text (dr_env rp) (generated_field rp) = Inr shown"
    using assms(1) by (auto simp: check_integrity_snapshot_def Let_def py_bind_Inr)
  obtain t where t: "iso_instant shown = Inr (Some t)"
    using assms shown by (fastforce simp: check_integrity_snapshot_def Let_def py_bind_Inr split: option.splits)
  obtain bound where bound: "age_bound rp = Inr bound"
    using assms(1) shown t by (auto simp: check_integrity_snapshot_def Let_def py_bind_Inr)
  have "generated_field rp \<noteq> JNull"
    using shown t stamp_of_null by auto
  then obtain snap where snap: "loaded_snapshot rp = Some (JObj snap)"
    by (auto simp: generated_field_def split: option.splits json.splits)
  then have "dr_snapshot rp = Some (Inr (JObj snap))"
    by (auto simp: loaded_snapshot_def split: option.splits sum.splits)
  moreover have "generated_field rp = jget ''generated'' snap"
    using snap by (simp add: generated_field_def)
  moreover have "snapshot = Some (JObj snap)" "(dr_now rp - t) / 86400 \<le> of_int bound"
    using assms shown t bound snap
    by (auto simp: check_integrity_snapshot_def Let_def split: if_splits)
  ultimately show ?thesis using shown t bound by auto
qed

text \<open>What the rules ask of a snapshot that is fresh.\<close>

definition measured_well :: "docs_repo \<Rightarrow> contract \<Rightarrow> obj \<Rightarrow> obj \<Rightarrow> bool" where
  "measured_well rp c reg snap \<longleftrightarrow>
     check_grader_status (dr_env rp) c (JObj snap) = Inr []
     \<and> (\<exists>least. min_delist_rate reg = Inr least \<and> snapshot_facts snap least = Inr [])
     \<and> list_all (\<lambda>doc. \<not> unlabelled_backtest rp doc) (strategy_docs reg)"

definition fresh :: "docs_repo \<Rightarrow> obj \<Rightarrow> bool" where
  "fresh rp snap \<longleftrightarrow>
     (\<exists>shown t bound. py_text (dr_env rp) (jget ''generated'' snap) = Inr shown
        \<and> iso_instant shown = Inr (Some t) \<and> age_bound rp = Inr bound
        \<and> (dr_now rp - t) / 86400 \<le> of_int bound)"

lemma measurement_checks:
  assumes "check_integrity_snapshot rp = Inr (vs, snapshot)"
  shows "list_all (\<lambda>v. dv_check v = ''integrity-snapshot'') vs"
  using assms by (auto simp: check_integrity_snapshot_def Let_def py_bind_Inr list_all_iff split: option.splits if_splits)

lemma grader_checks:
  "check_grader_status ev c snapshot = Inr vs \<Longrightarrow> list_all (\<lambda>v. dv_check v = ''grader-status'') vs"
  by (auto simp: check_grader_status_def py_bind_Inr list_all_iff opt_list_def split: option.splits)

lemma universe_and_rate_checks:
  "universe_and_rate rows rate least = Inr vs \<Longrightarrow> list_all (\<lambda>v. dv_check v = ''data-integrity'') vs"
  by (auto simp: universe_and_rate_def py_bind_Inr list_all_iff split: if_splits)

lemma withheld_checks:
  "check_withheld_integrity snap least = Inr vs \<Longrightarrow> list_all (\<lambda>v. dv_check v = ''data-integrity'') vs"
  by (auto simp: check_withheld_integrity_def py_bind_Inr Let_def list_all_iff split: if_splits)

lemma facts_checks:
  assumes "snapshot_facts snap least = Inr vs"
  shows "list_all (\<lambda>v. dv_check v = ''data-integrity'') vs"
proof (cases "truthy (jget ''withheld'' snap)")
  case True
  then obtain us ws where "check_withheld_integrity snap least = Inr us"
    and "universe_and_rate (JInt 1) least least = Inr ws" and "vs = us @ ws"
    using assms by (auto simp: snapshot_facts_def py_bind_Inr)
  then show ?thesis using withheld_checks universe_and_rate_checks by simp
next
  case False
  then show ?thesis using assms universe_and_rate_checks
    by (auto simp: snapshot_facts_def py_bind_Inr)
qed

lemma data_checks:
  assumes "check_data_integrity rp reg snapshot = Inr vs"
  shows "list_all (\<lambda>v. dv_check v = ''data-integrity'') vs"
  using assms facts_checks
  by (fastforce simp: check_data_integrity_def py_bind_Inr list_all_iff make_violation_def)

lemma none_of_kind:
  assumes "list_all (\<lambda>v. dv_check v = k) vs" and "k \<in> set UNSUPPRESSIBLE_CHECKS"
    and "\<And>v. v \<in> set vs \<Longrightarrow> dv_check v \<notin> set UNSUPPRESSIBLE_CHECKS"
  shows "vs = []"
  using assms by (cases vs) auto

lemma clean_check_certifies_rule:
  assumes "docs_check_status rp c = 0"
  shows "\<exists>reg snap. load_registry rp = Inr reg \<and> dr_snapshot rp = Some (Inr (JObj snap))
    \<and> fresh rp snap \<and> measured_well rp c reg snap"
proof -
  obtain reg vs snapshot where reg: "load_registry rp = Inr reg"
    and vs: "all_violations rp c reg = Inr (vs, snapshot)"
    and clean: "apply_allowlist vs (allow_of reg) = Inr []"
    using assms by (auto simp: docs_check_0)
  note no = clean_has_no_measurement [OF clean]
  obtain xs hs us ss where us: "check_integrity_snapshot rp = Inr (us, snapshot)"
    and ss: "snapshot_violations rp c reg snapshot = Inr ss"
    and "vs = xs @ hs @ check_forbidden_claims rp reg @ us @ ss"
    using vs unfolding all_violations_Inr by blast
  then have sub: "set us \<union> set ss \<subseteq> set vs" by auto
  have "us = []"
    by (rule none_of_kind [OF measurement_checks [OF us]]) (use no sub in \<open>auto simp: UNSUPPRESSIBLE_CHECKS_def\<close>)
  then obtain snap where snap: "dr_snapshot rp = Some (Inr (JObj snap))" "snapshot = Some (JObj snap)"
    and "fresh rp snap"
    using fresh_snapshot [OF us] by (auto simp: fresh_def)
  obtain gs ds where gs: "check_grader_status (dr_env rp) c (JObj snap) = Inr gs"
    and ds: "check_data_integrity rp reg (JObj snap) = Inr ds" and sub': "set (gs @ ds) \<subseteq> set ss"
    using ss snap by (force simp: snapshot_violations_def py_bind_Inr)
  have "gs = []"
    by (rule none_of_kind [OF grader_checks [OF gs]]) (use no sub sub' in \<open>auto simp: UNSUPPRESSIBLE_CHECKS_def\<close>)
  moreover have "ds = []"
    by (rule none_of_kind [OF data_checks [OF ds]]) (use no sub sub' in \<open>auto simp: UNSUPPRESSIBLE_CHECKS_def\<close>)
  ultimately have "measured_well rp c reg snap"
    using gs ds by (auto simp: measured_well_def check_data_integrity_def py_bind_Inr list_all_iff
        filter_empty_conv)
  then show ?thesis using reg snap \<open>fresh rp snap\<close> by blast
qed

text \<open>
  C28. The allowlist cannot hide a measurement: when the check exits with 0, under either contract and
  whatever the allowlist says, the committed snapshot is there, its stamp is no older than the bound,
  the grader's state passes the contract, the data rules found nothing, and every backtest on the
  old universe is labelled.
\<close>

theorem clean_check_certifies:
  assumes "docs_check_status rp c = 0"
  shows "\<exists>reg snap. load_registry rp = Inr reg \<and> dr_snapshot rp = Some (Inr (JObj snap))
    \<and> fresh rp snap \<and> measured_well rp c reg snap"
  by (rule clean_check_certifies_rule [OF assms])

section \<open>The two contracts\<close>

lemma same_grader_same_violations:
  assumes "check_integrity_snapshot rp = Inr (us, Some snap)"
    and "check_grader_status (dr_env rp) c snap = check_grader_status (dr_env rp) c' snap"
  shows "docs_check_status rp c = docs_check_status rp c'"
proof -
  have "all_violations rp c reg = all_violations rp c' reg" for reg
    using assms by (simp add: all_violations_def snapshot_violations_def)
  then show ?thesis unfolding docs_check_status_def mode_check_def by presburger
qed

lemma clean_grader:
  "check_grader_status ev c snap = Inr [] \<longleftrightarrow>
     (\<exists>g status reason. grader_of snap = Inr g
        \<and> stripped_text ev (jget_or (JStr []) ''status'' g) = Inr status
        \<and> stripped_or_empty ev (jget ''refusal_reason'' g) = Inr reason
        \<and> state_fault c (jget ''status'' g) status reason = None)"
  by (auto simp: check_grader_status_def py_bind_Inr)

lemma state_fault_None:
  "state_fault Strict shown status reason = None \<longleftrightarrow> upper status = ''OK''"
  "state_fault Release shown status reason = None \<longleftrightarrow>
     upper status = ''OK'' \<or> upper status = ''REFUSED'' \<and> reason \<noteq> [] \<and> \<not> is_outage reason"
  by (auto simp: RELEASE_OK_STATES_def)

lemma evidence_of_refusal:
  assumes "grader_of snap = Inr g" and "stripped_text ev (jget_or (JStr []) ''status'' g) = Inr status"
    and "stripped_or_empty ev (jget ''refusal_reason'' g) = Inr reason"
    and "upper status = ''REFUSED''" and "\<not> is_outage reason"
  shows "evidence_of ev (Some snap) = Inr (MeasuredRefusal status (jget ''graded_at'' g))"
proof -
  obtain g0 where g0: "py_get (JObj []) ''grader'' snap = Inr g0" "as_obj g0 = Inr g"
    using assms(1) by (auto simp: grader_of_def py_bind_Inr)
  then have "dict_or_empty g0 = Inr g" by (cases g0) (auto simp: dict_or_empty_def)
  moreover have "status \<noteq> []" using assms(4) by (auto simp: upper_def)
  ultimately show ?thesis using assms g0 by (simp add: evidence_of_def)
qed

lemma strict_is_release:
  "check_grader_status ev Strict snap = Inr [] \<Longrightarrow> check_grader_status ev Release snap = Inr []"
  unfolding clean_grader state_fault_None by blast

lemma release_not_strict:
  assumes "check_grader_status ev Release snap = Inr []" and "check_grader_status ev Strict snap \<noteq> Inr []"
  shows "\<exists>g status reason. grader_of snap = Inr g
    \<and> stripped_or_empty ev (jget ''refusal_reason'' g) = Inr reason \<and> reason \<noteq> [] \<and> \<not> is_outage reason
    \<and> evidence_of ev (Some snap) = Inr (MeasuredRefusal status (jget ''graded_at'' g))"
  using assms evidence_of_refusal unfolding clean_grader state_fault_None by metis

lemma clean_snapshot:
  assumes "docs_check_status rp c = 0"
  shows "\<exists>us snap. check_integrity_snapshot rp = Inr (us, Some (JObj snap))
    \<and> dr_snapshot rp = Some (Inr (JObj snap)) \<and> check_grader_status (dr_env rp) c (JObj snap) = Inr []"
proof -
  obtain reg snap where s: "dr_snapshot rp = Some (Inr (JObj snap))" "measured_well rp c reg snap"
    using clean_check_certifies_rule [OF assms] by blast
  obtain us snapshot where us: "check_integrity_snapshot rp = Inr (us, snapshot)"
    using assms by (auto simp: docs_check_0 all_violations_Inr)
  have "snapshot = Some (JObj snap)"
    using us s(1) by (auto simp: check_integrity_snapshot_def loaded_snapshot_def Let_def py_bind_Inr
        split: option.splits if_splits)
  then show ?thesis using us s by (auto simp: measured_well_def)
qed

text \<open>
  C29. The two contracts differ by exactly one state: what the strict contract passes the release contract
  passes, and where only the release contract exits with 0 the evidence is a measured refusal, that
  is, a refusal with a reason that is not the outage of a check.
\<close>

theorem contracts_differ_by_measured_refusals:
  "(docs_check_status rp Strict = 0 \<longrightarrow> docs_check_status rp Release = 0)
   \<and> (docs_check_status rp Release = 0 \<and> docs_check_status rp Strict \<noteq> 0 \<longrightarrow>
       (\<exists>snap g status reason. dr_snapshot rp = Some (Inr (JObj snap)) \<and> grader_of (JObj snap) = Inr g
          \<and> stripped_or_empty (dr_env rp) (jget ''refusal_reason'' g) = Inr reason
          \<and> reason \<noteq> [] \<and> \<not> is_outage reason
          \<and> evidence_of (dr_env rp) (Some (JObj snap))
              = Inr (MeasuredRefusal status (jget ''graded_at'' g))))"
proof (intro conjI impI)
  assume strict: "docs_check_status rp Strict = 0"
  show "docs_check_status rp Release = 0"
    using clean_snapshot [OF strict] strict_is_release same_grader_same_violations strict by metis
next
  assume only: "docs_check_status rp Release = 0 \<and> docs_check_status rp Strict \<noteq> 0"
  obtain us snap where us: "check_integrity_snapshot rp = Inr (us, Some (JObj snap))"
    and s: "dr_snapshot rp = Some (Inr (JObj snap))"
    and g: "check_grader_status (dr_env rp) Release (JObj snap) = Inr []"
    using clean_snapshot only by blast
  have "check_grader_status (dr_env rp) Strict (JObj snap) \<noteq> Inr []"
    using same_grader_same_violations [OF us] g only by metis
  then show "\<exists>snap g status reason. dr_snapshot rp = Some (Inr (JObj snap)) \<and> grader_of (JObj snap) = Inr g
      \<and> stripped_or_empty (dr_env rp) (jget ''refusal_reason'' g) = Inr reason
      \<and> reason \<noteq> [] \<and> \<not> is_outage reason
      \<and> evidence_of (dr_env rp) (Some (JObj snap)) = Inr (MeasuredRefusal status (jget ''graded_at'' g))"
    using release_not_strict [OF g] s by blast
qed

section \<open>The withheld snapshot\<close>

text \<open>The counts a run reads: the rows of the universe, the delisting rate, the warnings.\<close>

definition universe_count :: "integrity_source \<Rightarrow> int" where
  "universe_count src = fst (read_database src)"

definition measured_rate :: "integrity_source \<Rightarrow> real" where
  "measured_rate src =
     (case jget ''rate_per_year'' (fst (snd (read_database src))) of JFloat (Fin r) \<Rightarrow> r | _ \<Rightarrow> 0)"

lemma read_database_shape:
  obtains u t d s r w where
    "read_database src = (u, delisting_entry t d s r, w)" "universe_count src = u" "measured_rate src = r"
proof -
  have "\<exists>u t d s r w. read_database src = (u, delisting_entry t d s r, w)"
    by (auto simp: read_database_def measure_db_def Let_def split: option.splits sum.splits prod.splits)
  then obtain u t d s r w where "read_database src = (u, delisting_entry t d s r, w)" by blast
  then show thesis
    by (intro that) (auto simp: universe_count_def measured_rate_def delisting_entry_def jget_or_def)
qed

lemma record_fields:
  assumes "integrity_record src = Inr out"
  obtains g w t d s where "read_grader src = Inr (g, w)" "jget ''grader'' out = JObj g"
    "jget ''withheld'' out = JNull" "jget_or (JInt 0) ''universe_membership_rows'' out = JInt (universe_count src)"
    "jget ''universe_membership_rows'' out = JInt (universe_count src)"
    "jget ''delisting'' out = JObj (delisting_entry t d s (measured_rate src))"
    "jget ''generated'' out = JStr (is_stamp src)" "jget ''source_db'' out = JStr ''data/signaldeck.db''"
    "jget ''survivorship_fix_date'' out = fix_date src"
    "jget ''warnings'' out = (if w @ snd (snd (read_database src)) = [] then JNull
       else JArr (map JStr (w @ snd (snd (read_database src)))))"
proof -
  obtain u t d s r w' where db: "read_database src = (u, delisting_entry t d s r, w')"
    "universe_count src = u" "measured_rate src = r" by (rule read_database_shape)
  obtain g w where "read_grader src = Inr (g, w)" using assms by (auto simp: integrity_record_def py_bind_Inr)
  with assms db show thesis
    by (intro that [of g w t d s]) (auto simp: integrity_record_def jget_or_def)
qed

lemma dict_or_empty_obj [simp]: "dict_or_empty (JObj d) = Inr d"
  by (simp add: dict_or_empty_def)

lemma withheld_rows_and_rate:
  "operand (or_zero (JInt u)) = Inr (Fin (of_int u))"
  "operand (or_zero (jget ''rate_per_year'' (delisting_entry t d s r))) = Inr (Fin r)"
  by (auto simp: or_zero_def delisting_entry_def jget_or_def)

lemma full_facts:
  assumes "integrity_record src = Inr out" and "operand least = Inr (Fin x)"
  shows "snapshot_facts out least = Inr [] \<longleftrightarrow> 0 < universe_count src \<and> x \<le> measured_rate src"
proof -
  obtain t d s where "jget ''delisting'' out = JObj (delisting_entry t d s (measured_rate src))"
    "jget ''withheld'' out = JNull" "jget_or (JInt 0) ''universe_membership_rows'' out = JInt (universe_count src)"
    using record_fields [OF assms(1)] by metis
  then show ?thesis
    using assms(2)
    by (auto simp: snapshot_facts_def dict_or_empty_def universe_and_rate_def py_less_def not_positive_def
        delisting_entry_def jget_or_def)
qed

definition withheld_document :: "integrity_source \<Rightarrow> real \<Rightarrow> string list \<Rightarrow> obj \<Rightarrow> obj" where
  "withheld_document src x ws g =
     [(''generated'', JStr (is_stamp src)), (''source_db'', JStr ''data/signaldeck.db''),
      (''withheld'', JStr INTEGRITY_WITHHELD), (''grader'', JObj g),
      (''universe_membership_populated'', JBool (0 < universe_count src)),
      (''delisting'', JObj [(''rate_at_or_above_floor'', JBool (x \<le> measured_rate src)),
                            (''floor_per_year'', JFloat (Fin x))]),
      (''survivorship_fix_date'', fix_date src)]
     @ (if ws @ snd (snd (read_database src)) = [] then []
        else [(''warnings'', JArr (map JStr (ws @ snd (snd (read_database src)))))])"

text \<open>What is written under the licence, field by field.\<close>

lemma withhold_record:
  assumes "integrity_record src = Inr out" and "read_grader src = Inr (g, ws)"
  shows "withhold_integrity ev out (Fin x)
    = py_bind (withheld_grader ev g) (\<lambda>g'. Inr (withheld_document src x ws g'))"
proof -
  obtain g1 ws1 t d s where r: "read_grader src = Inr (g1, ws1)" and f: "jget ''grader'' out = JObj g1"
    "jget ''universe_membership_rows'' out = JInt (universe_count src)"
    "jget ''delisting'' out = JObj (delisting_entry t d s (measured_rate src))"
    "jget ''generated'' out = JStr (is_stamp src)" "jget ''source_db'' out = JStr ''data/signaldeck.db''"
    "jget ''survivorship_fix_date'' out = fix_date src"
    "jget ''warnings'' out = (if ws1 @ snd (snd (read_database src)) = [] then JNull
       else JArr (map JStr (ws1 @ snd (snd (read_database src)))))"
    by (rule record_fields [OF assms(1)])
  have "g1 = g" "ws1 = ws" using r assms(2) by simp_all
  note parts = f [unfolded this] withheld_rows_and_rate
  show ?thesis
  proof (cases "withheld_grader ev g")
    case (Inl e)
    then show ?thesis by (simp add: withhold_integrity_def parts(1))
  next
    case (Inr g')
    then show ?thesis
      by (auto simp: withhold_integrity_def parts withheld_document_def not_less)
  qed
qed

lemma withheld_gets:
  "jget ''withheld'' (withheld_document src x ws g) = JStr INTEGRITY_WITHHELD"
  "jget ''grader'' (withheld_document src x ws g) = JObj g"
  "jget ''universe_membership_populated'' (withheld_document src x ws g) = JBool (0 < universe_count src)"
  "jget ''delisting'' (withheld_document src x ws g)
     = JObj [(''rate_at_or_above_floor'', JBool (x \<le> measured_rate src)), (''floor_per_year'', JFloat (Fin x))]"
  by (simp_all add: withheld_document_def)

lemma withheld_facts:
  assumes "operand least = Inr (Fin x)"
  shows "snapshot_facts (withheld_document src x ws g) least = Inr []
    \<longleftrightarrow> 0 < universe_count src \<and> x \<le> measured_rate src"
proof -
  let ?w = "withheld_document src x ws g"
  have num: "is_number least" using assms operand_number by blast
  have "check_withheld_integrity ?w least
      = Inr ((if 0 < universe_count src then [] else [data_violation WithheldUniverseUnset])
             @ (if x \<le> measured_rate src then [] else [data_violation WithheldRateUnset]))"
    using assms by (simp add: check_withheld_integrity_def withheld_gets py_less_def is_plain_number_def)
  moreover have "universe_and_rate (JInt 1) least least = Inr []"
    using num assms by (simp add: universe_and_rate_def py_less_def not_positive_def)
  moreover have "truthy (jget ''withheld'' ?w)" by (simp add: withheld_gets INTEGRITY_WITHHELD_def)
  ultimately show ?thesis by (simp add: snapshot_facts_def)
qed

section \<open>A sample checkout\<close>

definition sample_registry :: obj where
  "sample_registry =
     [(''strategy_docs'', JObj [(''S.md'', JObj
        [(''owner'', JStr ''o''), (''version'', JStr ''1''), (''data_as_of'', JStr ''2026-01-01''),
         (''status'', JStr ''ACTIVE''), (''backtest_data'', JStr ''none'')])])]"

definition sample_snapshot :: "string \<Rightarrow> json \<Rightarrow> obj" where
  "sample_snapshot status reason =
     [(''generated'', JStr ''2026-01-01T00:00:00Z''),
      (''grader'', JObj [(''status'', JStr status), (''refusal_reason'', reason)]),
      (''universe_membership_rows'', JInt 5),
      (''delisting'', JObj [(''rate_per_year'', JFloat (Fin (1 / 10)))])]"

definition sample_repo :: "string \<Rightarrow> json \<Rightarrow> docs_repo" where
  "sample_repo status reason =
     \<lparr>dr_files = [''S.md'' \<mapsto> ''# S''], dr_root = [''S.md''],
      dr_registry = Some (Inr (JObj sample_registry)),
      dr_snapshot = Some (Inr (JObj (sample_snapshot status reason))),
      dr_max_age = None, dr_now = 1767312000, dr_env = sample_ev\<rparr>"

lemma sample_loads: "load_registry (sample_repo st r) = Inr sample_registry"
  by (simp add: load_registry_def sample_repo_def sample_registry_def)

lemmas calendar_defs = parses_as_timestamp_def valid_date_def two_digits_def days_in_month_def
  replace_Z_def strip_def is_ws_def is_digit_def digit_val_def

lemma sample_date: "parses_as_timestamp ''2026-01-01'' = Inr True"
  by (simp add: calendar_defs)

lemma sample_index: "check_docs_index (sample_repo st r) sample_registry = Inr []"
proof -
  have "meta_faults [(''owner'', JStr ''o''), (''version'', JStr ''1''), (''data_as_of'', JStr ''2026-01-01''),
         (''status'', JStr ''ACTIVE''), (''backtest_data'', JStr ''none'')] = Inr []"
    by (simp add: meta_faults_def stripped_field_def sample_date field_faults_def strip_def is_ws_def
        VALID_STATUSES_def VALID_BACKTEST_DATA_def)
  then show ?thesis
    by (simp add: check_docs_index_def document_faults_def sample_repo_def sample_registry_def
        strategy_docs_def py_set_def)
qed

lemma sample_line:
  "text_lines ''# S'' = [''# S'']" "\<not> claims_live_accuracy ''# S''" "claims_in_line f (i, ''# S'') = []"
  "open_region i ''# S'' = Outside"
proof -
  show "text_lines ''# S'' = [''# S'']" by (simp add: text_lines_def)
  have "\<not> re_search percentage None ''# S''" by (simp add: scan_defs)
  moreover have "scrub_non_accuracy_percentages ''# S'' = ''# S''" by code_simp
  ultimately show "\<not> claims_live_accuracy ''# S''" by (simp add: claims_live_accuracy_def)
  have "forbidden_in ''# S'' = []" "\<not> unproved_verified ''# S''" by code_simp+
  then show "claims_in_line f (i, ''# S'') = []" by (simp add: claims_in_line_def)
  have "generated_begin ''# S'' = None" "\<not> live_begin ''# S''" by code_simp+
  then show "open_region i ''# S'' = Outside" by (simp add: open_region_def)
qed

lemma sample_prose:
  "check_no_hardcoded_live_accuracy (sample_repo st r) sample_registry = Inr []"
  "check_forbidden_claims (sample_repo st r) sample_registry = []"
  by (simp_all add: check_no_hardcoded_live_accuracy_def check_forbidden_claims_def accuracy_in_document_def
      sample_repo_def sample_registry_def strategy_docs_def sample_line hardcoded_lines_def)

lemma sample_stamp: "iso_instant ''2026-01-01T00:00:00Z'' = Inr (Some 1767225600)"
  by (simp add: iso_instant_def calendar_defs valid_clock_def clock_tail_def offset_form_def valid_offset_def
      day_number_def number_at_def digits_val_def utc_offset_def second_fraction_def)

lemma sample_age:
  "check_integrity_snapshot (sample_repo st r) = Inr ([], Some (JObj (sample_snapshot st r)))"
  by (simp add: check_integrity_snapshot_def sample_repo_def generated_field_def loaded_snapshot_def sample_snapshot_def
      sample_stamp age_bound_def snapshot_fault_def)

lemma sample_measures:
  "check_data_integrity (sample_repo st r) sample_registry (JObj (sample_snapshot st r)) = Inr []"
  "check_single_source_of_truth (sample_repo st r) sample_registry (JObj (sample_snapshot st r)) = Inr []"
proof -
  have "snapshot_facts (sample_snapshot st r) DEFAULT_MIN_DELIST_RATE = Inr []"
    by (simp add: snapshot_facts_def sample_snapshot_def universe_and_rate_def py_less_def not_positive_def
        DEFAULT_MIN_DELIST_RATE_def)
  then show "check_data_integrity (sample_repo st r) sample_registry (JObj (sample_snapshot st r)) = Inr []"
    by (simp add: check_data_integrity_def min_delist_rate_def py_get_def sample_registry_def strategy_docs_def
        unlabelled_backtest_def)
qed (simp add: check_single_source_of_truth_def declared_partials_def sample_registry_def)

lemma sample_status:
  assumes "stripped_text sample_ev (JStr st) = Inr st" and "stripped_or_empty sample_ev r = Inr reason"
  shows "docs_check_status (sample_repo st r) c =
    (if state_fault c (JStr st) st reason = None then 0 else 1)"
proof -
  have g: "check_grader_status sample_ev c (JObj (sample_snapshot st r)) =
      Inr (map (integrity_violation ''grader-status'') (opt_list (state_fault c (JStr st) st reason)))"
    using assms by (simp add: check_grader_status_def grader_of_def py_get_def sample_snapshot_def)
  have "evidence_of sample_ev (Some (JObj (sample_snapshot st r))) \<noteq> Inl e" for e
    using assms by (simp add: evidence_of_def py_get_def sample_snapshot_def Let_def)
  then obtain evidence where e: "evidence_of sample_ev (Some (JObj (sample_snapshot st r))) = Inr evidence"
    by (cases "evidence_of sample_ev (Some (JObj (sample_snapshot st r)))") auto
  have env: "dr_env (sample_repo st r) = sample_ev" by (simp add: sample_repo_def)
  have allow: "allow_of sample_registry = []" by (simp add: allow_of_def sample_registry_def)
  show ?thesis
    by (simp add: docs_check_status_def sample_loads mode_check_def all_violations_def sample_index sample_prose
        sample_age snapshot_violations_def env g sample_measures allow apply_allowlist_def e opt_list_def
        split: option.splits)
qed

lemma sample_exits:
  "docs_check_status (sample_repo ''OK'' JNull) Strict = 0"
  "docs_check_status (sample_repo ''REFUSED'' (JStr ''grader exited 1'')) Release = 0"
  "docs_check_status (sample_repo ''REFUSED'' (JStr ''grader exited 1'')) Strict = 1"
  "docs_check_status (sample_repo ''REFUSED'' (JStr ''CHECK UNAVAILABLE: x'')) Release = 1"
proof -
  have texts: "stripped_text sample_ev (JStr ''OK'') = Inr ''OK''" "stripped_or_empty sample_ev JNull = Inr []"
    "stripped_text sample_ev (JStr ''REFUSED'') = Inr ''REFUSED''"
    "stripped_or_empty sample_ev (JStr ''grader exited 1'') = Inr ''grader exited 1''"
    "stripped_or_empty sample_ev (JStr ''CHECK UNAVAILABLE: x'') = Inr ''CHECK UNAVAILABLE: x''"
    by (simp_all add: stripped_text_def stripped_or_empty_def strip_def is_ws_def)
  have states: "upper ''OK'' = ''OK''" "upper ''REFUSED'' = ''REFUSED''"
    "\<not> is_outage ''grader exited 1''" "is_outage ''CHECK UNAVAILABLE: x''"
    by code_simp+
  show "docs_check_status (sample_repo ''OK'' JNull) Strict = 0"
    "docs_check_status (sample_repo ''REFUSED'' (JStr ''grader exited 1'')) Release = 0"
    "docs_check_status (sample_repo ''REFUSED'' (JStr ''grader exited 1'')) Strict = 1"
    "docs_check_status (sample_repo ''REFUSED'' (JStr ''CHECK UNAVAILABLE: x'')) Release = 1"
    by (simp_all add: sample_status [OF texts(1,2)] sample_status [OF texts(3,4)] sample_status [OF texts(3,5)]
        states RELEASE_OK_STATES_def)
qed

theorem clean_check_certifies_witness:
  "\<exists>reg snap. load_registry (sample_repo ''OK'' JNull) = Inr reg
    \<and> measured_well (sample_repo ''OK'' JNull) Strict reg snap"
  using clean_check_certifies [OF sample_exits(1)] by blast

theorem contracts_differ_by_measured_refusals_witness:
  "\<exists>status g. evidence_of sample_ev
     (Some (JObj (sample_snapshot ''REFUSED'' (JStr ''grader exited 1''))))
     = Inr (MeasuredRefusal status (jget ''graded_at'' g))"
proof -
  let ?rp = "sample_repo ''REFUSED'' (JStr ''grader exited 1'')"
  have "dr_env ?rp = sample_ev"
    "dr_snapshot ?rp = Some (Inr (JObj (sample_snapshot ''REFUSED'' (JStr ''grader exited 1''))))"
    by (simp_all add: sample_repo_def)
  then show ?thesis
    using contracts_differ_by_measured_refusals [of ?rp] sample_exits(2,3) by auto
qed

section \<open>A withheld snapshot reads as the full one\<close>

text \<open>Where the prefix of an outage starts is not changed by stripping, nor by cutting at a colon.\<close>

lemma starts_takeWhile:
  assumes "\<And>x. f x = c \<longleftrightarrow> x = c" and "c \<notin> set p"
  shows "starts_with p (map f (takeWhile (\<lambda>x. x \<noteq> c) s)) \<longleftrightarrow> starts_with p (map f s)"
  using assms(2)
proof (induction p arbitrary: s)
  case (Cons a p)
  have "f c = c" using assms(1) by blast
  with Cons show ?case using assms(1) by (cases s) (auto simp: \<open>f c = c\<close>)
qed simp

lemma starts_append_sep: "c \<notin> set p \<Longrightarrow> starts_with p (a @ c # t) \<longleftrightarrow> starts_with p a"
proof (induction p arbitrary: a)
  case (Cons x p)
  then show ?case by (cases a) auto
qed simp

lemma starts_with_append_iff:
  "starts_with p (a @ b) \<longleftrightarrow> starts_with p a \<or> (length a < length p \<and> take (length a) p = a \<and> starts_with (drop (length a) p) b)"
proof (induction p arbitrary: a)
  case (Cons x p)
  then show ?case by (cases a) auto
qed simp

lemma starts_before_blank:
  assumes "p \<noteq> []" and "last p \<notin> f ` set w"
  shows "starts_with p (map f (s @ w)) \<longleftrightarrow> starts_with p (map f s)"
proof -
  have "\<not> starts_with (drop (length s) p) (map f w)" if "length s < length p"
  proof
    assume "starts_with (drop (length s) p) (map f w)"
    then have "set (drop (length s) p) \<subseteq> f ` set w"
      by (metis starts_with_def set_map set_take_subset)
    moreover have "last p \<in> set (drop (length s) p)"
      using that by (metis drop_eq_Nil last_drop last_in_set not_less)
    ultimately show False using assms(2) by blast
  qed
  then show ?thesis by (auto simp: starts_with_append_iff)
qed

lemma rstrip_split: "\<exists>w. s = rstrip s @ w \<and> list_all is_ws w"
proof (intro exI conjI)
  show "s = rstrip s @ rev (takeWhile is_ws (rev s))"
    by (metis rev_append rev_rev_ident rstrip_def takeWhile_dropWhile_id)
  show "list_all is_ws (rev (takeWhile is_ws (rev s)))"
    by (auto simp: list_all_iff dest: set_takeWhileD)
qed

lemma upper_char_ws: "is_ws c \<Longrightarrow> upper_char c = c"
  by (auto simp: is_ws_def upper_char_def)

lemma upper_char_colon: "upper_char x = CHR '':'' \<longleftrightarrow> x = CHR '':''"
proof
  assume u: "upper_char x = CHR '':''"
  let ?n = "of_char x :: nat"
  have "\<not> (97 \<le> ?n \<and> ?n \<le> 122)"
  proof
    assume r: "97 \<le> ?n \<and> ?n \<le> 122"
    then have "?n - 32 < 256" by linarith
    then have "of_char (upper_char x) = ?n - 32" using r by (simp add: upper_char_def)
    moreover have "of_char (upper_char x) = (58 :: nat)" using u by simp
    ultimately show False using r by linarith
  qed
  then show "x = CHR '':''" using u by (auto simp: upper_char_def)
qed (simp add: upper_char_def)

lemma before_sep_takeWhile: "before_sep '':'' s = takeWhile (\<lambda>x. x \<noteq> CHR '':'') s"
  by (induction s) auto

lemma outage_prefix: "CHECK_OUTAGE_PREFIX \<noteq> []" "CHR '':'' \<notin> set CHECK_OUTAGE_PREFIX"
  "last CHECK_OUTAGE_PREFIX = CHR ''E''"
  by (simp_all add: CHECK_OUTAGE_PREFIX_def)

lemma outage_rstrip: "is_outage (rstrip s) \<longleftrightarrow> starts_with CHECK_OUTAGE_PREFIX (map upper_char s)"
proof -
  obtain w where w: "s = rstrip s @ w" "list_all is_ws w" using rstrip_split by blast
  have "CHR ''E'' \<notin> upper_char ` set w"
    using w(2) upper_char_ws by (force simp: list_all_iff is_ws_def)
  then show ?thesis
    using starts_before_blank [of CHECK_OUTAGE_PREFIX upper_char w "rstrip s"] outage_prefix w(1)
    by (simp add: is_outage_def upper_def)
qed

lemma strip_rstrip: "strip s = rstrip (dropWhile is_ws s)"
  by (simp add: strip_def rstrip_def)

lemma dropWhile_before_colon:
  "dropWhile is_ws (takeWhile (\<lambda>x. x \<noteq> CHR '':'') s) = takeWhile (\<lambda>x. x \<noteq> CHR '':'') (dropWhile is_ws s)"
  by (induction s) (auto simp: is_ws_def)

lemma strip_keeps: "c \<in> set s \<Longrightarrow> \<not> is_ws c \<Longrightarrow> strip s \<noteq> []"
  by (auto simp: strip_def dropWhile_eq_Nil_conv in_set_conv_decomp dropWhile_append2 dropWhile_append)

text \<open>The class of a refusal survives withholding: an outage stays one, and nothing else becomes one.\<close>

lemma outage_survives_withholding:
  "is_outage (strip (strip (before_sep '':'' s) @ '': detail withheld (licence)'')) \<longleftrightarrow> is_outage (strip s)"
proof -
  let ?t = "'': detail withheld (licence)''" and ?b = "strip (before_sep '':'' s)"
  have first: "dropWhile is_ws (?b @ ?t) = ?b @ ?t"
  proof (cases ?b)
    case (Cons c cs)
    then have "\<not> is_ws c"
      by (metis dropWhile_eq_Cons_conv hd_append2 hd_dropWhile list.sel(1) list.distinct(1) rstrip_split
          strip_rstrip append_is_Nil_conv)
    with Cons show ?thesis by simp
  qed (simp add: is_ws_def)
  have "is_outage (strip (?b @ ?t)) \<longleftrightarrow> starts_with CHECK_OUTAGE_PREFIX (map upper_char (?b @ ?t))"
    by (simp only: strip_rstrip [of "?b @ ?t"] first outage_rstrip)
  also have "\<dots> \<longleftrightarrow> starts_with CHECK_OUTAGE_PREFIX (map upper_char ?b)"
    using starts_append_sep [OF outage_prefix(2), of "map upper_char ?b" "map upper_char (tl ?t)"]
    by (simp add: upper_char_def)
  also have "\<dots> \<longleftrightarrow> is_outage ?b" by (simp add: is_outage_def upper_def)
  also have "\<dots> \<longleftrightarrow> starts_with CHECK_OUTAGE_PREFIX (map upper_char (dropWhile is_ws s))"
    by (simp only: strip_rstrip outage_rstrip before_sep_takeWhile dropWhile_before_colon
        starts_takeWhile [OF upper_char_colon outage_prefix(2)])
  also have "\<dots> \<longleftrightarrow> is_outage (strip s)" by (simp only: strip_rstrip outage_rstrip)
  finally show ?thesis .
qed

lemma jget_or_found: "jget k d = v \<Longrightarrow> v \<noteq> JNull \<Longrightarrow> jget_or x k d = v"
  by (auto simp: jget_or_def split: option.splits)

lemma grader_of_entry: "jget ''grader'' d = JObj g \<Longrightarrow> grader_of (JObj d) = Inr g"
  using jget_or_found [of "''grader''" d "JObj g"] by (simp add: grader_of_def py_get_def)

definition blank_reason :: "live_env \<Rightarrow> obj \<Rightarrow> bool" where
  "blank_reason ev g \<longleftrightarrow>
     truthy (jget ''refusal_reason'' g) \<and> stripped_text ev (jget ''refusal_reason'' g) = Inr []"

lemma state_fault_reason:
  assumes "reason = [] \<longleftrightarrow> reason' = []" and "is_outage reason \<longleftrightarrow> is_outage reason'"
  shows "state_fault c shown status reason = None \<longleftrightarrow> state_fault c shown' status reason' = None"
  using assms by (cases c) (auto simp: state_fault_None simp del: state_fault.simps)

lemma clean_grader_at:
  assumes "jget ''grader'' d = JObj g" and "stripped_or_empty ev (jget ''refusal_reason'' g) = Inr reason"
  shows "check_grader_status ev c (JObj d) = Inr [] \<longleftrightarrow>
    (\<exists>status. stripped_text ev (jget_or (JStr []) ''status'' g) = Inr status
       \<and> state_fault c (jget ''status'' g) status reason = None)"
  using assms grader_of_entry [OF assms(1)] by (simp add: clean_grader)

lemma state_fault_text:
  assumes "state_fault c shown status reason = None" and "r \<noteq> []" and "is_outage r \<longrightarrow> is_outage reason"
  shows "state_fault c shown' status r = None"
  using assms by (cases c) (auto simp: state_fault_None is_outage_def simp del: state_fault.simps)

lemma withheld_status: "withheld_grader ev g = Inr g' \<Longrightarrow> jget_or v ''status'' g' = jget_or v ''status'' g"
  by (auto simp: withheld_grader_def py_bind_Inr split: if_splits)

lemma withheld_reason:
  assumes "withheld_grader ev g = Inr g'" and "truthy (jget ''refusal_reason'' g)"
  shows "\<exists>reason r. stripped_or_empty ev (jget ''refusal_reason'' g) = Inr reason
    \<and> stripped_or_empty ev (jget ''refusal_reason'' g') = Inr r
    \<and> r \<noteq> [] \<and> (is_outage r \<longleftrightarrow> is_outage reason) \<and> (blank_reason ev g \<longleftrightarrow> reason = [])"
proof -
  obtain s where s: "py_text ev (jget ''refusal_reason'' g) = Inr s"
    and g': "g' = jset ''refusal_reason'' (JStr (strip (before_sep '':'' s) @ '': detail withheld (licence)'')) g"
    using assms by (auto simp: withheld_grader_def py_bind_Inr)
  let ?r = "strip (strip (before_sep '':'' s) @ '': detail withheld (licence)'')"
  have "stripped_or_empty ev (jget ''refusal_reason'' g) = Inr (strip s)"
    using assms(2) s by (simp add: stripped_or_empty_def stripped_text_def)
  moreover have "stripped_or_empty ev (jget ''refusal_reason'' g') = Inr ?r"
    by (simp add: stripped_or_empty_def stripped_text_def g')
  moreover have "?r \<noteq> []" by (rule strip_keeps [of "CHR '':''"]) (simp_all add: is_ws_def)
  moreover have "blank_reason ev g \<longleftrightarrow> strip s = []"
    using assms(2) s by (simp add: blank_reason_def stripped_text_def)
  ultimately show ?thesis using outage_survives_withholding [of s] by blast
qed

lemma withheld_grader_verdict:
  assumes "withheld_grader ev g = Inr g'"
    and "jget ''grader'' out = JObj g" and "jget ''grader'' w = JObj g'"
  shows "(check_grader_status ev c (JObj out) = Inr [] \<longrightarrow> check_grader_status ev c (JObj w) = Inr [])
    \<and> (check_grader_status ev c (JObj w) = Inr [] \<longrightarrow> check_grader_status ev c (JObj out) = Inr [] \<or> blank_reason ev g)"
proof (cases "truthy (jget ''refusal_reason'' g)")
  case False
  then have "g' = g" using assms(1) by (simp add: withheld_grader_def)
  then show ?thesis using assms(2,3) by (simp add: check_grader_status_def grader_of_entry)
next
  case True
  let ?status = "\<lambda>st. stripped_text ev (jget_or (JStr []) ''status'' g) = Inr st"
  obtain reason r where texts: "stripped_or_empty ev (jget ''refusal_reason'' g) = Inr reason"
      "stripped_or_empty ev (jget ''refusal_reason'' g') = Inr r"
    and r: "r \<noteq> []" "is_outage r \<longleftrightarrow> is_outage reason" "blank_reason ev g \<longleftrightarrow> reason = []"
    using withheld_reason [OF assms(1) True] by blast
  have full: "check_grader_status ev c (JObj out) = Inr []
      \<longleftrightarrow> (\<exists>st. ?status st \<and> state_fault c (jget ''status'' g) st reason = None)"
    by (rule clean_grader_at [OF assms(2) texts(1)])
  have short: "check_grader_status ev c (JObj w) = Inr []
      \<longleftrightarrow> (\<exists>st. ?status st \<and> state_fault c (jget ''status'' g) st r = None)"
    using clean_grader_at [OF assms(3) texts(2), of c] by (simp only: withheld_status [OF assms(1)])
  have "state_fault c shown st r = None" if "state_fault c shown st reason = None" for shown st
    by (rule state_fault_text [OF that r(1)]) (simp add: r(2))
  moreover have "state_fault c shown st reason = None" if "state_fault c shown st r = None" "reason \<noteq> []" for shown st
    by (rule state_fault_text [OF that]) (simp add: r(2))
  ultimately show ?thesis unfolding full short r(3) by blast
qed

text \<open>
  C30. Withholding the counts decides nothing: of the full snapshot and the withheld one, written in the
  same run, either both pass the data rules or neither does, and the grader's state passes either
  contract in both or in neither, with one exception: a refusal whose reason is blank may pass in the
  withheld snapshot alone, never in the full one alone.
\<close>

theorem withholding_decides_nothing:
  assumes "integrity_record src = Inr out" and "withhold_integrity ev out (Fin x) = Inr w"
    and "operand least = Inr (Fin x)" and "jget ''grader'' out = JObj g"
  shows "(snapshot_facts w least = Inr [] \<longleftrightarrow> snapshot_facts out least = Inr [])
    \<and> (check_grader_status ev c (JObj out) = Inr [] \<longrightarrow> check_grader_status ev c (JObj w) = Inr [])
    \<and> (check_grader_status ev c (JObj w) = Inr [] \<longrightarrow> check_grader_status ev c (JObj out) = Inr [] \<or> blank_reason ev g)"
proof -
  obtain g1 ws where g1: "read_grader src = Inr (g1, ws)" "jget ''grader'' out = JObj g1"
    by (rule record_fields [OF assms(1)])
  then have "g1 = g" using assms(4) by simp
  then obtain g' where g': "withheld_grader ev g = Inr g'" "w = withheld_document src x ws g'"
    using withhold_record [OF assms(1) g1(1)] assms(2) by (auto simp: py_bind_Inr)
  then have w: "jget ''grader'' w = JObj g'" by (simp add: withheld_gets(2))
  have "snapshot_facts w least = Inr [] \<longleftrightarrow> snapshot_facts out least = Inr []"
    unfolding full_facts [OF assms(1,3)] g'(2) withheld_facts [OF assms(3)] by simp
  with withheld_grader_verdict [OF g'(1) assms(4) w, of c] show ?thesis by (intro conjI) simp_all
qed

lemma missing_grader_db [simp]: "missing_grader (src \<lparr>is_database := db, is_now := now\<rparr>) = missing_grader src"
  by (simp add: missing_grader_def)

lemma read_grader_db: "read_grader (src \<lparr>is_database := db, is_now := now\<rparr>) = read_grader src"
  unfolding read_grader_def missing_grader_db by simp

lemma fix_date_db: "fix_date (src \<lparr>is_database := db, is_now := now\<rparr>) = fix_date src"
  by (simp add: fix_date_def split: option.splits sum.splits json.splits)

text \<open>
  The withheld snapshot leaks no count: two runs that differ only in what the database answered, with
  the same two pass/fail facts and the same warnings, write the same document.
\<close>

theorem withheld_snapshot_leaks_no_count:
  assumes "src' = src \<lparr>is_database := db, is_now := now\<rparr>"
    and "integrity_record src = Inr out" and "integrity_record src' = Inr out'"
    and "0 < universe_count src' \<longleftrightarrow> 0 < universe_count src"
    and "x \<le> measured_rate src' \<longleftrightarrow> x \<le> measured_rate src"
    and "snd (snd (read_database src')) = snd (snd (read_database src))"
  shows "withhold_integrity ev out' (Fin x) = withhold_integrity ev out (Fin x)"
proof -
  obtain g ws where g: "read_grader src = Inr (g, ws)" by (rule record_fields [OF assms(2)])
  have same: "read_grader src' = read_grader src" "fix_date src' = fix_date src" "is_stamp src' = is_stamp src"
    by (simp_all add: assms(1) read_grader_db fix_date_db)
  then have g': "read_grader src' = Inr (g, ws)" using g by simp
  have "withheld_document src' x ws = withheld_document src x ws"
    using same assms(4-6) by (intro ext) (simp add: withheld_document_def)
  then show ?thesis by (simp add: withhold_record [OF assms(2) g] withhold_record [OF assms(3) g'])
qed

definition sample_source :: "int \<Rightarrow> int \<Rightarrow> integrity_source" where
  "sample_source u delisted =
     \<lparr>is_root = ''/r'',
      is_registry = Some (Inr (JObj [(''status'', JStr ''REFUSED''),
        (''refusal_reason'', JStr ''publication gate: 3 of 9 days'')])),
      is_database = Some (Inr \<lparr>id_universe = Inr (Some u), id_stocks = Inr (Some 100),
        id_delisted = Inr (Some delisted), id_oldest = Inr (Some 1)\<rparr>),
      is_previous = None, is_now = 31557601, is_stamp = ''2026-01-01T00:00:00Z'', is_today = ''2026-01-01''\<rparr>"

definition sample_grader :: obj where
  "sample_grader =
     [(''status'', JStr ''REFUSED''), (''graded_at'', JNull), (''refused_since'', JNull),
      (''refusal_reason'', JStr ''publication gate: 3 of 9 days''), (''rows'', JInt 0)]"

lemma sample_read: "read_grader (sample_source u d) = Inr (sample_grader, [])"
  by (simp add: read_grader_def sample_source_def grader_entry_def grader_status_of_def has_text_def strip_def
      is_ws_def sample_grader_def)

lemma sample_counts:
  "universe_count (sample_source u 10) = u" "measured_rate (sample_source u 10) = 1 / 10"
  "universe_count (sample_source u 20) = u" "measured_rate (sample_source u 20) = 1 / 5"
  "snd (snd (read_database (sample_source u d))) = []"
  by (simp_all add: universe_count_def measured_rate_def read_database_def sample_source_def measure_db_def scalar_def
      listing_span_def delisting_rate_def delisting_entry_def round_to_def round_even_def Let_def)

lemma sample_record:
  "\<exists>out. integrity_record (sample_source u d) = Inr out \<and> jget ''grader'' out = JObj sample_grader"
proof -
  obtain a b w where "read_database (sample_source u d) = (a, b, w)" by (cases "read_database (sample_source u d)")
  then show ?thesis by (simp add: integrity_record_def sample_read)
qed

lemma sample_withheld_grader:
  "\<exists>g. withheld_grader sample_ev sample_grader = Inr g" "\<not> blank_reason sample_ev sample_grader"
  by (simp_all add: withheld_grader_def sample_grader_def blank_reason_def stripped_text_def strip_def is_ws_def)

theorem withholding_decides_nothing_witness:
  "\<exists>out w. integrity_record (sample_source 5 10) = Inr out
    \<and> withhold_integrity sample_ev out (Fin (2 / 100)) = Inr w
    \<and> (snapshot_facts w DEFAULT_MIN_DELIST_RATE = Inr []
        \<longleftrightarrow> snapshot_facts out DEFAULT_MIN_DELIST_RATE = Inr [])"
proof -
  obtain out where out: "integrity_record (sample_source 5 10) = Inr out" "jget ''grader'' out = JObj sample_grader"
    using sample_record by blast
  obtain w where w: "withhold_integrity sample_ev out (Fin (2 / 100)) = Inr w"
    using withhold_record [OF out(1) sample_read] sample_withheld_grader(1) by auto
  have "operand DEFAULT_MIN_DELIST_RATE = Inr (Fin (2 / 100))" by (simp add: DEFAULT_MIN_DELIST_RATE_def)
  then show ?thesis
    using withholding_decides_nothing [OF out(1) w _ out(2)] out(1) w by blast
qed

theorem withheld_snapshot_leaks_no_count_witness:
  "\<exists>out out'. integrity_record (sample_source 5 10) = Inr out \<and> integrity_record (sample_source 9 20) = Inr out'
    \<and> withhold_integrity sample_ev out' (Fin (2 / 100)) = withhold_integrity sample_ev out (Fin (2 / 100))"
proof -
  obtain out out' where out: "integrity_record (sample_source 5 10) = Inr out"
    "integrity_record (sample_source 9 20) = Inr out'"
    using sample_record by metis
  have src: "sample_source 9 20 = sample_source 5 10 \<lparr>is_database := is_database (sample_source 9 20),
      is_now := is_now (sample_source 9 20)\<rparr>"
    by (simp add: sample_source_def)
  have "withhold_integrity sample_ev out' (Fin (2 / 100)) = withhold_integrity sample_ev out (Fin (2 / 100))"
    by (rule withheld_snapshot_leaks_no_count [OF src out]) (simp_all add: sample_counts)
  then show ?thesis using out by blast
qed

text \<open>
  A reason of blanks only is the exception: the full snapshot carries an unattributed refusal, the
  withheld one a text after the colon, and the release contract lets it pass.
\<close>

lemma blank_reason_becomes_attributed:
  "withheld_grader ev [(''status'', JStr ''REFUSED''), (''refusal_reason'', JStr '' '')]
     = Inr [(''status'', JStr ''REFUSED''), (''refusal_reason'', JStr '': detail withheld (licence)'')]"
  "state_fault Release x ''REFUSED'' (strip '' '') = Some RefusalUnattributed"
  "state_fault Release x ''REFUSED'' (strip '': detail withheld (licence)'') = None"
  by (simp_all add: withheld_grader_def strip_def is_ws_def RELEASE_OK_STATES_def upper_def upper_char_def
      is_outage_def CHECK_OUTAGE_PREFIX_def)

text \<open>
  The age of the snapshot is bounded from above only: a stamp in the future is younger than any bound,
  so a snapshot dated ahead passes the age rule until its date has long gone by.
\<close>

lemma future_stamp_passes:
  assumes "generated_field rp = JStr s" and "iso_instant s = Inr (Some t)" and "dr_now rp \<le> t"
    and "age_bound rp = Inr bound" and "0 \<le> bound" and "loaded_snapshot rp = Some (JObj snap)"
  shows "check_integrity_snapshot rp = Inr ([], Some (JObj snap))"
proof -
  have "\<not> of_int bound < (dr_now rp - t) / 86400" using assms(3,5) by (simp add: not_less)
  moreover have "snapshot_fault rp = []"
    using assms(6) by (auto simp: snapshot_fault_def loaded_snapshot_def split: option.splits sum.splits)
  ultimately show ?thesis using assms by (simp add: check_integrity_snapshot_def)
qed

text \<open>
  A snapshot that is JSON but no object ends the check with an exception, hence with the status of a
  violation and not with the status the tool reserves for a gate that could not look.
\<close>

lemma array_snapshot_raises:
  assumes "dr_snapshot rp = Some (Inr (JArr xs))" and "load_registry rp = Inr reg"
    and "check_docs_index rp reg = Inr is'" and "check_no_hardcoded_live_accuracy rp reg = Inr hs"
  shows "mode_check rp c reg = Inl AttributeErr" and "docs_check_status rp c = 1"
proof -
  have "check_integrity_snapshot rp
      = Inr ([integrity_violation ''integrity-snapshot'' NoUsableStamp], Some (JArr xs))"
    using assms(1) stamp_of_null
    by (simp add: check_integrity_snapshot_def loaded_snapshot_def generated_field_def snapshot_fault_def)
  then show "mode_check rp c reg = Inl AttributeErr"
    using assms by (simp add: mode_check_def all_violations_def snapshot_violations_def check_grader_status_def
        grader_of_def py_get_def)
  then show "docs_check_status rp c = 1" using assms(2) by (simp add: docs_check_status_def)
qed

end
