(* ===== verification/Docs_Partials.thy ===== *)
theory Docs_Partials
  imports Docs_Gate_Facts
begin

text \<open>
  Generated text in the documents: a build leaves partials the check finds in step with the snapshot,
  and a live-accuracy figure that the check lets stand is a line of a partial the registry declares.
\<close>

section \<open>What a build leaves\<close>

lemma partial_path_inject [simp]: "partial_path n = partial_path m \<longleftrightarrow> n = m"
  by (simp add: partial_path_def)

lemma partial_path_not_log [simp]: "partial_path n \<noteq> ''logs/docs_build.log''"
  by (simp add: partial_path_def)

lemma build_partials_leaves:
  assumes "build_partials ev snapshot js fs = (fs', Inr ws)"
  shows "\<exists>names. path_names js = Inr names
    \<and> (\<forall>n \<in> set names. \<exists>c. generate_partial ev snapshot n = Inr c \<and> fs' (partial_path n) = Some c)
    \<and> (\<forall>p. p \<notin> partial_path ` set names \<longrightarrow> fs' p = fs p)"
  using assms
proof (induction js arbitrary: fs ws)
  case (Cons j js)
  then obtain name c us where j: "j = JStr name" "generate_partial ev snapshot name = Inr c"
    and rest: "build_partials ev snapshot js (fs(partial_path name := Some c)) = (fs', Inr us)"
    by (auto simp: py_bind_Inr split: json.splits sum.splits prod.splits)
  obtain names where names: "path_names js = Inr names"
    "\<forall>n \<in> set names. \<exists>c. generate_partial ev snapshot n = Inr c \<and> fs' (partial_path n) = Some c"
    "\<forall>p. p \<notin> partial_path ` set names \<longrightarrow> fs' p = (fs(partial_path name := Some c)) p"
    using Cons.IH [OF rest] by blast
  have "\<exists>c. generate_partial ev snapshot name = Inr c \<and> fs' (partial_path name) = Some c"
  proof (cases "name \<in> set names")
    case False
    then have "partial_path name \<notin> partial_path ` set names" by auto
    then show ?thesis using names(3) j(2) by simp
  qed (use names(2) in blast)
  then show ?case using j names by (intro exI [of _ "name # names"]) auto
qed simp

lemma loaded_partials:
  assumes "load_registry rp = Inr reg"
  obtains js where "jget_or (JArr []) ''partials'' reg = JArr js"
proof -
  have "wrong_shape reg [(''exempt'', is_arr), (''partials'', is_arr), (''allow'', is_obj)] = None"
    using assms by (auto simp: load_registry_def simp del: wrong_shape.simps split: option.splits sum.splits json.splits list.splits)
  then have "map_of reg ''partials'' = None \<or> (\<exists>js. map_of reg ''partials'' = Some (JArr js))"
    by (auto simp: is_arr_def split: option.splits if_splits json.splits)
  then show thesis by (auto simp: jget_or_def intro: that)
qed

text \<open>
  C31. Partials a build has written are in step: after a build that exits with 0 the check of the partials
  finds nothing, and no file but the declared partials and the log has changed.
\<close>

theorem built_partials_check_clean:
  assumes "load_registry rp = Inr reg" and "loaded_snapshot rp = Some snapshot"
    and "mode_build stamp rp reg = (rp', 0)"
  shows "check_single_source_of_truth rp' reg snapshot = Inr []
    \<and> (\<exists>names. declared_partials reg = Inr names
         \<and> (\<forall>p. p \<notin> partial_path ` set names \<longrightarrow> p \<noteq> ''logs/docs_build.log'' \<longrightarrow> dr_files rp' p = dr_files rp p))"
proof -
  obtain js where js: "jget_or (JArr []) ''partials'' reg = JArr js" by (rule loaded_partials [OF assms(1)])
  have "truthy_list (JArr js) = Inr js" by (simp add: truthy_list_def)
  then obtain fs ws log_text where fs: "build_partials (dr_env rp) snapshot js (dr_files rp) = (fs, Inr ws)"
    and rp': "rp' = rp \<lparr>dr_files := fs(''logs/docs_build.log'' := Some log_text)\<rparr>"
    using assms(2,3) js by (auto simp: mode_build_def split: prod.splits sum.splits)
  obtain names where names: "path_names js = Inr names"
    "\<forall>n \<in> set names. \<exists>c. generate_partial (dr_env rp) snapshot n = Inr c \<and> fs (partial_path n) = Some c"
    "\<forall>p. p \<notin> partial_path ` set names \<longrightarrow> fs p = dr_files rp p"
    using build_partials_leaves [OF fs] by blast
  have each: "partial_fault rp' snapshot n = Inr []" if "n \<in> set names" for n
    using names(2) that rp' by (fastforce simp: partial_fault_def)
  have "py_map (partial_fault rp' snapshot) ns = Inr (map (\<lambda>_. []) ns)" if "set ns \<subseteq> set names" for ns
    using that each by (induction ns) auto
  then have "py_map (partial_fault rp' snapshot) names = Inr (map (\<lambda>_. []) names)" by blast
  moreover have "declared_partials reg = Inr names"
    using js names(1) by (simp add: declared_partials_def)
  ultimately show ?thesis using names(3) rp' by (simp add: check_single_source_of_truth_def)
qed

section \<open>Figures the check lets stand\<close>

lemma region_step_regions:
  assumes "region_step rp reg file lines i l st = Inr (st', rs, vs)" and "(a, b) \<in> set rs"
  shows "\<exists>name. region_fault rp reg name (take (b - 1 - a) (drop a lines)) = Inr None"
  using assms
  by (cases st) (auto simp: close_region_def nested_region_def py_bind_Inr split: option.splits if_splits)

lemma region_scan_regions:
  assumes "region_scan rp reg file lines i st ls = Inr (rs, vs)" and "(a, b) \<in> set rs"
  shows "\<exists>name. region_fault rp reg name (take (b - 1 - a) (drop a lines)) = Inr None"
  using assms
proof (induction ls arbitrary: i st rs vs)
  case (Cons l ls)
  then show ?case using region_step_regions by (fastforce simp: py_bind_Inr)
qed simp

lemma split_char_subset: "l \<in> set (split_char c s) \<Longrightarrow> set l \<subseteq> set s"
  by (induction s arbitrary: l) (fastforce split: if_splits list.splits)+

lemma text_lines_no_cr:
  assumes "l \<in> set (text_lines s)"
  shows "universal_newlines l = l"
proof -
  have "l \<in> set (split_char (CHR 0x0A) (universal_newlines s))"
    using assms by (auto simp: text_lines_def Let_def split: if_splits dest: in_set_butlastD)
  then show ?thesis
    using split_char_subset universal_newlines_no_cr by (intro universal_newlines_id) blast
qed

lemma set_dropWhile_blank: "x \<in> set xs \<Longrightarrow> \<not> P x \<Longrightarrow> x \<in> set (dropWhile P xs)"
  by (induction xs) auto

lemma norm_lines_mem:
  assumes "rstrip (universal_newlines l) \<noteq> []"
  shows "rstrip (universal_newlines l) \<in> set (norm_lines ls) \<longleftrightarrow>
    rstrip (universal_newlines l) \<in> (\<lambda>l. rstrip (universal_newlines l)) ` set ls"
  using assms by (auto simp: norm_lines_def Let_def set_dropWhile_blank dest!: set_dropWhileD)

lemma contains_set: "contains p s \<Longrightarrow> set p \<subseteq> set s"
proof (induction s)
  case (Cons c s)
  then show ?case
  proof (cases "contains p s")
    case False
    then have "p = take (length p) (c # s)" using Cons.prems by (simp add: starts_with_def)
    then show ?thesis by (metis set_take_subset)
  qed auto
qed simp

lemma phrases_have_letters: "list_all (list_ex (\<lambda>c. \<not> is_ws c)) LIVE_ACCURACY_PHRASES"
  by code_simp

lemma claim_not_blank:
  assumes "claims_live_accuracy l"
  shows "rstrip l \<noteq> []"
proof
  assume "rstrip l = []"
  then have blank: "is_ws c" if "c \<in> set l" for c
    using rstrip_split [of l] that by (auto simp: list_all_iff)
  obtain p where p: "p \<in> set LIVE_ACCURACY_PHRASES" "contains p (lower l)"
    using assms by (auto simp: claims_live_accuracy_def list_ex_iff)
  obtain c where c: "c \<in> set p" "\<not> is_ws c"
    using phrases_have_letters p(1) by (auto simp: list_all_iff list_ex_iff)
  then obtain d where d: "d \<in> set l" "c = lower_char d"
    using contains_set [OF p(2)] by (auto simp: lower_def)
  have "lower_char d = d" using blank [OF d(1)] by (auto simp: is_ws_def lower_char_def)
  then show False using blank [OF d(1)] d c by simp
qed

text \<open>
  C32. A figure cannot be excused by markers somebody typed: where the check of a document reports no
  hardcoded figure for a line that claims live accuracy, the line lies in a region whose name the
  registry declares and whose text is that of the partial, and between the two markers the line is
  a line of the partial.
\<close>

theorem figures_stand_in_partials:
  assumes "accuracy_in_document rp reg file = Inr vs" and "dr_files rp file = Some s"
    and "i < length (text_lines s)" and "claims_live_accuracy (text_lines s ! i)"
    and "list_all (\<lambda>v. dv_check v = ''no-hardcoded-live-accuracy'' \<longrightarrow> dv_line v \<noteq> i + 1) vs"
  shows "\<exists>a b name names expected. a \<le> i + 1 \<and> i + 1 \<le> b
    \<and> anchorable_names reg = Inr names \<and> name \<in> set names \<and> partial_body rp name = Some expected
    \<and> norm_lines (take (b - 1 - a) (drop a (text_lines s))) = norm_lines expected
    \<and> (a < i + 1 \<and> i + 1 < b \<longrightarrow>
         rstrip (text_lines s ! i) \<in> (\<lambda>l. rstrip (universal_newlines l)) ` set expected)"
proof -
  let ?ls = "text_lines s" and ?l = "text_lines s ! i"
  obtain rs us where scan: "region_scan rp reg file ?ls 1 Outside ?ls = Inr (rs, us)"
    and vs: "vs = us @ hardcoded_lines file rs ?ls"
    using assms(1,2) by (auto simp: accuracy_in_document_def py_bind_Inr)
  have "exempt_line rs (i + 1)"
  proof (rule ccontr)
    assume "\<not> exempt_line rs (i + 1)"
    moreover have "(i + 1, ?l) \<in> set (List.enumerate 1 ?ls)"
      using assms(3) by (simp add: in_set_enumerate_eq)
    ultimately have "line_violation ''no-hardcoded-live-accuracy'' file (i + 1, ?l) HardcodedAccuracy \<in> set vs"
      using assms(4) unfolding vs hardcoded_lines_def by (auto intro!: image_eqI)
    then show False using assms(5) by (auto simp: list_all_iff line_violation_def)
  qed
  then obtain a b where ab: "(a, b) \<in> set rs" "a \<le> i + 1" "i + 1 \<le> b"
    by (auto simp: exempt_line_def list_ex_iff)
  let ?body = "take (b - 1 - a) (drop a ?ls)"
  obtain name where "region_fault rp reg name ?body = Inr None"
    using region_scan_regions [OF scan ab(1)] by blast
  then obtain names expected where n: "anchorable_names reg = Inr names" "name \<in> set names"
    "partial_body rp name = Some expected" "norm_lines ?body = norm_lines expected"
    by (auto simp: region_fault_def py_bind_Inr split: if_splits option.splits)
  have cr: "universal_newlines ?l = ?l" using assms(3) by (intro text_lines_no_cr [of _ s]) simp
  have "rstrip ?l \<in> (\<lambda>l. rstrip (universal_newlines l)) ` set expected" if "a < i + 1 \<and> i + 1 < b"
  proof -
    have "?l = ?body ! (i - a)" "i - a < length ?body" using that assms(3) by auto
    then have "?l \<in> set ?body" by (metis nth_mem)
    then have "rstrip (universal_newlines ?l) \<in> (\<lambda>l. rstrip (universal_newlines l)) ` set ?body"
      by (rule imageI)
    then have "rstrip (universal_newlines ?l) \<in> set (norm_lines ?body)"
      using norm_lines_mem [of ?l ?body] claim_not_blank [OF assms(4)] cr by simp
    then show ?thesis
      using norm_lines_mem [of ?l expected] claim_not_blank [OF assms(4)] cr n(4) by simp
  qed
  then show ?thesis using ab n by blast
qed

section \<open>Instances\<close>

definition generated_document :: string where
  "generated_document = ''<!-- BEGIN GENERATED x -->'' @ nl @ ''hit rate 91%'' @ nl @ ''<!-- END GENERATED x -->''"

definition figure_registry :: obj where
  "figure_registry = [(''strategy_docs'', JObj [(''S.md'', JObj [])]), (''external_partials'', JArr [JStr ''x''])]"

definition figure_repo :: docs_repo where
  "figure_repo = sample_repo ''OK'' JNull
     \<lparr>dr_files := [''S.md'' \<mapsto> generated_document, ''partials/x'' \<mapsto> ''hit rate 91%'']\<rparr>"

lemma figure_lines:
  "text_lines generated_document = [''<!-- BEGIN GENERATED x -->'', ''hit rate 91%'', ''<!-- END GENERATED x -->'']"
  "text_lines ''hit rate 91%'' = [''hit rate 91%'']"
  by (simp_all add: generated_document_def text_lines_def nl_def)

lemma figure_markers:
  "generated_begin ''<!-- BEGIN GENERATED x -->'' = Some ''x''" "generated_end ''<!-- BEGIN GENERATED x -->'' = None"
  "generated_end ''<!-- END GENERATED x -->'' = Some ''x''" "generated_begin ''hit rate 91%'' = None"
  "generated_end ''hit rate 91%'' = None" "\<not> live_begin ''hit rate 91%''" "\<not> live_end ''hit rate 91%''"
  "claims_live_accuracy ''hit rate 91%''" "\<not> is_marker_line ''hit rate 91%''"
  by code_simp+

lemma figure_scan:
  "region_scan figure_repo figure_registry ''S.md'' (text_lines generated_document) 1 Outside
     (text_lines generated_document) = Inr ([(1, 3)], [])"
proof -
  have "anchorable_names figure_registry = Inr [''x'', ''x.md'']"
    by (simp add: anchorable_names_def figure_registry_def truthy_list_def py_set_def with_and_without_md_def
        ends_with_def)
  moreover have "partial_body figure_repo ''x'' = Some [''hit rate 91%'']"
    by (simp add: partial_body_def figure_repo_def figure_lines strip_markers_def figure_markers)
  ultimately show ?thesis
    by (simp add: figure_lines open_region_def figure_markers nested_region_def close_region_def region_fault_def)
qed

theorem figures_stand_in_partials_witness:
  "\<exists>vs. accuracy_in_document figure_repo figure_registry ''S.md'' = Inr vs
    \<and> claims_live_accuracy (text_lines generated_document ! 1)
    \<and> (\<exists>names name. anchorable_names figure_registry = Inr names \<and> name \<in> set names)"
proof -
  have doc: "dr_files figure_repo ''S.md'' = Some generated_document" by (simp add: figure_repo_def)
  have checked: "accuracy_in_document figure_repo figure_registry ''S.md''
      = Inr (hardcoded_lines ''S.md'' [(1, 3)] (text_lines generated_document))"
    by (simp add: accuracy_in_document_def doc figure_scan [unfolded One_nat_def])
  have claim: "claims_live_accuracy (text_lines generated_document ! 1)"
    by (simp add: figure_lines figure_markers)
  have none: "list_all (\<lambda>v. dv_check v = ''no-hardcoded-live-accuracy'' \<longrightarrow> dv_line v \<noteq> 1 + 1)
      (hardcoded_lines ''S.md'' [(1, 3)] (text_lines generated_document))"
    by (auto simp: list_all_iff hardcoded_lines_def line_violation_def exempt_line_def)
  show ?thesis
    using figures_stand_in_partials [OF checked doc _ claim none] checked claim
    by (auto simp: figure_lines)
qed

definition build_repo :: docs_repo where
  "build_repo = sample_repo ''REFUSED'' (JStr ''grader exited 1'')
     \<lparr>dr_registry := Some (Inr (JObj (sample_registry @ [(''partials'', JArr [JStr ''live_record.md''])])))\<rparr>"

theorem built_partials_check_clean_witness:
  "\<exists>rp' reg snapshot. mode_build ''now'' build_repo reg = (rp', 0)
     \<and> check_single_source_of_truth rp' reg snapshot = Inr []"
proof -
  let ?reg = "sample_registry @ [(''partials'', JArr [JStr ''live_record.md''])]"
  let ?snap = "JObj (sample_snapshot ''REFUSED'' (JStr ''grader exited 1''))"
  have reg: "load_registry build_repo = Inr ?reg"
    by (simp add: load_registry_def build_repo_def sample_registry_def is_arr_def)
  have snap: "loaded_snapshot build_repo = Some ?snap"
    by (simp add: loaded_snapshot_def build_repo_def sample_repo_def)
  have g: "grader_of ?snap = Inr [(''status'', JStr ''REFUSED''), (''refusal_reason'', JStr ''grader exited 1'')]"
    by (simp add: grader_of_def py_get_def sample_snapshot_def)
  have "\<exists>c. generate_partial ev ?snap ''live_record.md'' = Inr c" for ev
    by (simp add: generate_partial_def generate_live_record_def g stripped_text_def live_record_lines_def
        shown_line_def optional_line_def)
  then obtain c where c: "generate_partial (dr_env build_repo) ?snap ''live_record.md'' = Inr c" by blast
  have "\<exists>t. build_log ev stamp ?snap ws = Inr t" for ev stamp ws
    by (simp add: build_log_def sample_snapshot_def)
  then obtain t where t: "build_log (dr_env build_repo) ''now'' ?snap [(''live_record.md'', sha256 c)] = Inr t"
    by blast
  obtain rp' where "mode_build ''now'' build_repo ?reg = (rp', 0)"
    using c t by (simp add: mode_build_def snap sample_registry_def truthy_list_def)
  then show ?thesis using built_partials_check_clean [OF reg snap] by blast
qed

end
