(* ===== verification/Anchor_Checks.thy ===== *)
theory Anchor_Checks
  imports Deployment_Drift Public_Record Doc_Blocks
begin

text \<open>
  The two tools around the signed ledger anchors. \<open>tools/anchor_liveness.py\<close> measures how far
  publication lags behind signing. \<open>tools/anchor_fallback.py\<close> recomputes, without the daemon, the
  line \<open>ops/anchor-publish.sh\<close> publishes: it prints one only for an anchor that the ledger still
  reproduces and whose signature verifies under a pinned key. What \<open>openssl\<close> answers is a parameter,
  a function of the key's bytes, the message and the signature's bytes; the encoding of the key as a
  file of \<open>openssl\<close> is not followed.
\<close>

section \<open>How far publication lags\<close>

text \<open>
  \<open>ledger_anchors.created_at\<close> and the value of \<open>meta\<close> under \<open>anchor_last_published\<close>; a table that is
  not there raises.
\<close>

record anchor_db =
  ad_created :: "int list option"
  ad_meta :: "(string \<times> json) list option"

datatype anchor_verdict = NoAnchors | NeverPublished | Stale | Current

fun verdict_ok :: "anchor_verdict \<Rightarrow> bool" where
  "verdict_ok NoAnchors = True"
| "verdict_ok NeverPublished = False"
| "verdict_ok Stale = False"
| "verdict_ok Current = True"

definition last_published :: "(string \<times> json) list \<Rightarrow> int option py" where
  "last_published meta =
     (case map_of meta ''anchor_last_published'' of
        None \<Rightarrow> Inr None
      | Some JNull \<Rightarrow> Inr None
      | Some v \<Rightarrow> py_bind (py_int v) (\<lambda>t. Inr (Some t)))"

definition hours2 :: "int \<Rightarrow> real" where
  "hours2 secs = of_int (round_even (of_int secs / 3600 * 100)) / 100"

record anchor_report =
  ar_count :: int
  ar_newest :: "int option"
  ar_published :: "int option"
  ar_age :: "real option"
  ar_verdict :: anchor_verdict

definition judge_anchors :: "int \<Rightarrow> int \<Rightarrow> int list \<Rightarrow> int option \<Rightarrow> anchor_verdict \<times> real option" where
  "judge_anchors now max_hours created published =
     (case (max_opt created, published) of
        (None, _) \<Rightarrow> (NoAnchors, None)
      | (Some made, None) \<Rightarrow> (NeverPublished, Some (hours2 (now - made)))
      | (Some made, Some p) \<Rightarrow>
          (if p < made \<and> max_hours * 3600 < now - p then (Stale, Some (hours2 (made - p)))
           else (Current, Some (hours2 (now - p)))))"

definition anchor_measure :: "int \<Rightarrow> int \<Rightarrow> anchor_db \<Rightarrow> anchor_report py" where
  "anchor_measure now max_hours db =
     (case (ad_created db, ad_meta db) of
        (Some created, Some meta) \<Rightarrow>
          py_bind (last_published meta) (\<lambda>published.
            case judge_anchors now max_hours created published of
              (v, age) \<Rightarrow> Inr \<lparr>ar_count = int (length created), ar_newest = max_opt created,
                              ar_published = published, ar_age = age, ar_verdict = v\<rparr>)
      | _ \<Rightarrow> Inl OperationalErr)"

text \<open>
  The status and the row of \<open>dq_events\<close> a failing run asked to record (its timestamp, verdict and
  gap). A database that does not open is 2, an exception ends the process with 1.
\<close>

definition liveness_exit :: "anchor_report \<Rightarrow> nat" where
  "liveness_exit rep = (if verdict_ok (ar_verdict rep) then 0 else 1)"

definition anchor_liveness_main ::
    "int \<Rightarrow> int \<Rightarrow> bool \<Rightarrow> anchor_db option \<Rightarrow> nat \<times> (int \<times> anchor_verdict \<times> real option) option" where
  "anchor_liveness_main now max_hours log_dq db =
     (case db of
        None \<Rightarrow> (2, None)
      | Some con \<Rightarrow>
          (case anchor_measure now max_hours con of
             Inl _ \<Rightarrow> (1, None)
           | Inr rep \<Rightarrow>
               (liveness_exit rep,
                if log_dq \<and> \<not> verdict_ok (ar_verdict rep) then Some (now, ar_verdict rep, ar_age rep) else None)))"

section \<open>The fallback's line\<close>

record anchor_row =
  an_seq :: int
  an_created :: int
  an_ledger_seq :: int
  an_count :: int
  an_head :: string
  an_alg :: string
  an_pub :: string
  an_sig :: string
  an_digest :: string

text \<open>The two tables of one read-only connection; the ledger's rows are sequence number and entry hash.\<close>

record anchor_store =
  as_anchors :: "anchor_row list option"
  as_ledger :: "(int \<times> string) list option"

record openssl_run =
  os_code :: int
  os_out :: string
  os_err :: string

datatype anchor_refusal =
    PinsUnreadable | PinsMalformed | NoAnchorRows | UnknownScheme string | UnpinnedKey int
  | SeqGone int | HeadDiffers int | CountDiffers int int int | DatabaseFails
  | MalformedKey | OpensslMissing | OpensslNoVerdict string | SignatureBad | DigestDiffers

definition is_hex :: "char \<Rightarrow> bool" where
  "is_hex c \<longleftrightarrow> is_digit c \<or> lower_char c \<in> set ''abcdef''"

definition hex_of_length :: "nat \<Rightarrow> string \<Rightarrow> bool" where
  "hex_of_length k s \<longleftrightarrow> length s = k \<and> s \<noteq> [] \<and> list_all is_hex s"

definition lowered :: "string \<Rightarrow> string" where
  "lowered s = map lower_char s"

fun lines_of :: "string \<Rightarrow> string \<Rightarrow> string list" where
  "lines_of acc [] = (if acc = [] then [] else [rev acc])"
| "lines_of acc (c # s) = (if c = CHR 0x0A then rev acc # lines_of [] s else lines_of (c # acc) s)"

definition pinned_keys :: "string \<Rightarrow> string list" where
  "pinned_keys contents =
     filter (\<lambda>k. k \<noteq> []) (map (\<lambda>l. lowered (strip (before_sep ''#'' l))) (lines_of [] (universal_newlines contents)))"

definition newest_anchor :: "anchor_row list \<Rightarrow> anchor_row option" where
  "newest_anchor rows = (if rows = [] then None else Some (newest_of an_seq rows))"

definition check_scheme :: "string list \<Rightarrow> anchor_row \<Rightarrow> anchor_refusal option" where
  "check_scheme pins a =
     (if an_alg a \<noteq> ''ed25519'' then Some (UnknownScheme (an_alg a))
      else if lowered (an_pub a) \<notin> set pins then Some (UnpinnedKey (an_ledger_seq a))
      else None)"

definition check_ledger :: "(int \<times> string) list \<Rightarrow> anchor_row \<Rightarrow> anchor_refusal option" where
  "check_ledger ledger a =
     (case map_of ledger (an_ledger_seq a) of
        None \<Rightarrow> Some (SeqGone (an_ledger_seq a))
      | Some h \<Rightarrow>
          (let n = count_if (\<lambda>(s, _). s \<le> an_ledger_seq a) ledger
           in if h \<noteq> an_head a then Some (HeadDiffers (an_ledger_seq a))
              else if n \<noteq> an_count a then Some (CountDiffers (an_ledger_seq a) n (an_count a))
              else None))"

definition anchor_message :: "anchor_row \<Rightarrow> string" where
  "anchor_message a =
     ''signaldeck-ledger-anchor|v1|alg=ed25519|created_at='' @ str_int (an_created a)
     @ ''|ledger_seq='' @ str_int (an_ledger_seq a) @ ''|ledger_count='' @ str_int (an_count a)
     @ ''|head='' @ an_head a"

definition hex_value :: "char \<Rightarrow> nat" where
  "hex_value c = length (takeWhile (\<lambda>d. d \<noteq> lower_char c) ''0123456789abcdef'')"

fun from_hex :: "string \<Rightarrow> string" where
  "from_hex (a # b # s) = char_of (16 * hex_value a + hex_value b) # from_hex s"
| "from_hex _ = []"

definition first_line :: "string \<Rightarrow> string" where
  "first_line s = (case nonblank_lines (strip s) of [] \<Rightarrow> ''no output'' | l # _ \<Rightarrow> l)"

definition check_signature ::
    "(string \<Rightarrow> string \<Rightarrow> string \<Rightarrow> openssl_run option) \<Rightarrow> anchor_row \<Rightarrow> anchor_refusal option" where
  "check_signature openssl a =
     (if \<not> hex_of_length 64 (an_pub a) \<or> \<not> hex_of_length 128 (an_sig a) then Some MalformedKey
      else case openssl (from_hex (an_pub a)) (anchor_message a) (from_hex (an_sig a)) of
             None \<Rightarrow> Some OpensslMissing
           | Some r \<Rightarrow>
               (if os_code r \<noteq> 0 \<and> \<not> contains ''Signature Verification Failure'' (os_out r)
                then Some (OpensslNoVerdict (first_line (os_err r)))
                else if os_code r \<noteq> 0 \<or> \<not> contains ''Signature Verified Successfully'' (os_out r)
                then Some SignatureBad
                else None))"

definition anchor_digest :: "anchor_row \<Rightarrow> string" where
  "anchor_digest a = sha256 (anchor_message a @ [record_sep] @ an_sig a @ [record_sep] @ an_pub a)"

definition publish_line :: "anchor_row \<Rightarrow> string" where
  "publish_line a =
     ''SIGNALDECK-LEDGER-ANCHOR v1 seq='' @ str_int (an_ledger_seq a) @ '' count='' @ str_int (an_count a)
     @ '' ts='' @ str_int (an_created a) @ '' digest='' @ anchor_digest a"

definition sealed ::
    "(string \<Rightarrow> string \<Rightarrow> string \<Rightarrow> openssl_run option) \<Rightarrow> anchor_row \<Rightarrow> anchor_refusal + string" where
  "sealed openssl a =
     (case check_signature openssl a of
        Some r \<Rightarrow> Inl r
      | None \<Rightarrow> if anchor_digest a \<noteq> an_digest a then Inl DigestDiffers else Inr (publish_line a))"

definition check_anchor ::
    "(string \<Rightarrow> string \<Rightarrow> string \<Rightarrow> openssl_run option) \<Rightarrow> string option \<Rightarrow> anchor_store \<Rightarrow> anchor_refusal + string" where
  "check_anchor openssl pins_file con =
     (case pins_file of
        None \<Rightarrow> Inl PinsUnreadable
      | Some contents \<Rightarrow>
          (if \<not> list_all (hex_of_length 64) (pinned_keys contents) then Inl PinsMalformed
           else case as_anchors con of
                  None \<Rightarrow> Inl DatabaseFails
                | Some rows \<Rightarrow>
                    (case newest_anchor rows of
                       None \<Rightarrow> Inl NoAnchorRows
                     | Some a \<Rightarrow>
                         (case check_scheme (pinned_keys contents) a of
                            Some r \<Rightarrow> Inl r
                          | None \<Rightarrow>
                              (case as_ledger con of
                                 None \<Rightarrow> Inl DatabaseFails
                               | Some ledger \<Rightarrow>
                                   (case check_ledger ledger a of
                                      Some r \<Rightarrow> Inl r
                                    | None \<Rightarrow> sealed openssl a))))))"

text \<open>What is printed, and the status; a wrong number of arguments is 2.\<close>

definition fallback_main ::
    "nat \<Rightarrow> (string \<Rightarrow> string \<Rightarrow> string \<Rightarrow> openssl_run option) \<Rightarrow> string option \<Rightarrow> anchor_store
     \<Rightarrow> string option \<times> nat" where
  "fallback_main argc openssl pins_file con =
     (if argc \<noteq> 2 then (None, 2)
      else case check_anchor openssl pins_file con of
             Inr line \<Rightarrow> (Some line, 0)
           | Inl _ \<Rightarrow> (None, 1))"

section \<open>What a printed line certifies\<close>

lemma check_scheme_None:
  "check_scheme pins a = None \<longleftrightarrow> an_alg a = ''ed25519'' \<and> lowered (an_pub a) \<in> set pins"
  by (simp add: check_scheme_def)

lemma check_ledger_None:
  "check_ledger ledger a = None \<longleftrightarrow> map_of ledger (an_ledger_seq a) = Some (an_head a)
     \<and> count_if (\<lambda>(s, _). s \<le> an_ledger_seq a) ledger = an_count a"
  by (auto simp: check_ledger_def Let_def split: option.splits)

definition verifies :: "(string \<Rightarrow> string \<Rightarrow> string \<Rightarrow> openssl_run option) \<Rightarrow> anchor_row \<Rightarrow> bool" where
  "verifies openssl a \<longleftrightarrow> hex_of_length 64 (an_pub a) \<and> hex_of_length 128 (an_sig a)
     \<and> (\<exists>r. openssl (from_hex (an_pub a)) (anchor_message a) (from_hex (an_sig a)) = Some r
          \<and> os_code r = 0 \<and> contains ''Signature Verified Successfully'' (os_out r))"

lemma check_signature_None: "check_signature openssl a = None \<longleftrightarrow> verifies openssl a"
  by (auto simp: check_signature_def verifies_def split: option.splits)

lemma newest_anchor_Some:
  assumes "newest_anchor rows = Some a"
  shows "a \<in> set rows" and "r \<in> set rows \<Longrightarrow> an_seq r \<le> an_seq a"
  using assms newest_of_in [of rows an_seq] newest_of_ge [of r rows an_seq]
  by (auto simp: newest_anchor_def split: if_splits)

text \<open>The anchor a run may publish: the newest, earned on every count.\<close>

definition earned ::
    "(string \<Rightarrow> string \<Rightarrow> string \<Rightarrow> openssl_run option) \<Rightarrow> string list \<Rightarrow> (int \<times> string) list \<Rightarrow> anchor_row \<Rightarrow> bool" where
  "earned openssl pins ledger a \<longleftrightarrow>
     an_alg a = ''ed25519'' \<and> lowered (an_pub a) \<in> set pins
     \<and> map_of ledger (an_ledger_seq a) = Some (an_head a)
     \<and> count_if (\<lambda>(s, _). s \<le> an_ledger_seq a) ledger = an_count a
     \<and> verifies openssl a \<and> anchor_digest a = an_digest a"

lemma earned_iff:
  "earned openssl pins ledger a \<longleftrightarrow> check_scheme pins a = None \<and> check_ledger ledger a = None
     \<and> verifies openssl a \<and> anchor_digest a = an_digest a"
  by (auto simp: earned_def check_scheme_None check_ledger_None)

lemma sealed_Inr:
  "sealed openssl a = Inr line \<longleftrightarrow>
     verifies openssl a \<and> anchor_digest a = an_digest a \<and> line = publish_line a"
  by (auto simp: sealed_def simp flip: check_signature_None split: option.splits)

lemma check_anchor_Inr:
  "check_anchor openssl pins_file con = Inr line \<longleftrightarrow>
     (\<exists>contents rows ledger a. pins_file = Some contents \<and> list_all (hex_of_length 64) (pinned_keys contents)
        \<and> as_anchors con = Some rows \<and> newest_anchor rows = Some a \<and> as_ledger con = Some ledger
        \<and> earned openssl (pinned_keys contents) ledger a \<and> line = publish_line a)"
  by (auto simp: check_anchor_def earned_iff sealed_Inr split: option.splits)

lemma publish_line_accepted: "line_anchor (''anchor '' @ publish_line a) = Some (publish_line a)"
  by (simp add: line_anchor_def publish_line_def)

text \<open>
  C33. The fallback prints a line exactly for the newest anchor that is signed with the scheme it knows
  under a pinned key, whose head the ledger still carries at its sequence number with as many rows up
  to it, whose signature \<open>openssl\<close> accepts over the recomputed message, and whose digest reproduces.
  The line is one the reader's verifier takes as the anchor of a statement.
\<close>

theorem fallback_publishes_exactly_earned:
  "fallback_main 2 openssl pins_file con = (Some line, 0) \<longleftrightarrow>
     (\<exists>contents rows ledger a. pins_file = Some contents \<and> list_all (hex_of_length 64) (pinned_keys contents)
        \<and> as_anchors con = Some rows \<and> a \<in> set rows \<and> newest_anchor rows = Some a
        \<and> as_ledger con = Some ledger \<and> earned openssl (pinned_keys contents) ledger a
        \<and> line = publish_line a \<and> line_anchor (''anchor '' @ line) = Some line)"
proof -
  have "fallback_main 2 openssl pins_file con = (Some line, 0) \<longleftrightarrow>
      check_anchor openssl pins_file con = Inr line"
    by (simp add: fallback_main_def split: sum.splits)
  then show ?thesis
    unfolding check_anchor_Inr using newest_anchor_Some(1) publish_line_accepted by blast
qed

text \<open>
  A ledger rewritten below the anchor is never published: let the entry at the anchored number be
  gone or carry another hash, or the rows up to it be more or fewer than were signed. Then no line is
  printed, whatever \<open>openssl\<close> answers, and the status is 1.
\<close>

theorem rewritten_ledger_is_refused:
  assumes "as_anchors con = Some rows" and "newest_anchor rows = Some a" and "as_ledger con = Some ledger"
    and "map_of ledger (an_ledger_seq a) \<noteq> Some (an_head a)
      \<or> count_if (\<lambda>(s, _). s \<le> an_ledger_seq a) ledger \<noteq> an_count a"
  shows "fallback_main 2 openssl pins_file con = (None, 1)"
proof -
  have "check_anchor openssl pins_file con \<noteq> Inr line" for line
    using assms by (auto simp: check_anchor_Inr earned_def)
  then show ?thesis by (cases "check_anchor openssl pins_file con") (auto simp: fallback_main_def)
qed

text \<open>
  Publication that stops is noticed: once an anchor is newer than the last publication, every later
  run that is more than the allowed hours past that publication exits with 1, and so does every run
  while nothing was ever published.
\<close>

theorem stopped_publication_is_noticed:
  assumes "ad_created con = Some created" and "ad_meta con = Some meta" and "t \<in> set created"
    and "last_published meta = Inr p" and "\<And>q. p = Some q \<Longrightarrow> q < t \<and> q + max_hours * 3600 < now"
  shows "fst (anchor_liveness_main now max_hours log_dq (Some con)) = 1"
proof -
  obtain made where m: "max_opt created = Some made" "t \<le> made"
    using assms(3) max_opt_None [of created] max_opt_Some [of created] by (cases "max_opt created") auto
  have "\<not> verdict_ok (fst (judge_anchors now max_hours created p))"
    using m assms(5) by (cases p) (auto simp: judge_anchors_def)
  then show ?thesis
    using assms(1,2,4)
    by (auto simp: anchor_liveness_main_def anchor_measure_def liveness_exit_def split: prod.splits)
qed

section \<open>Instances\<close>

definition sample_anchor :: anchor_row where
  "sample_anchor = \<lparr>an_seq = 1, an_created = 10, an_ledger_seq = 2, an_count = 2, an_head = ''h2'',
     an_alg = ''ed25519'', an_pub = replicate 64 (CHR ''a''), an_sig = replicate 128 (CHR ''b''), an_digest = ''d''\<rparr>"

theorem rewritten_ledger_is_refused_witness:
  "fallback_main 2 (\<lambda>_ _ _. Some \<lparr>os_code = 0, os_out = ''Signature Verified Successfully'', os_err = []\<rparr>)
     (Some (replicate 64 (CHR ''a'')))
     \<lparr>as_anchors = Some [sample_anchor], as_ledger = Some [(1, ''h1''), (2, ''forged'')]\<rparr> = (None, 1)"
  by (rule rewritten_ledger_is_refused [where rows = "[sample_anchor]" and a = sample_anchor
      and ledger = "[(1, ''h1''), (2, ''forged'')]"])
     (simp_all add: newest_anchor_def newest_of_def sample_anchor_def)

theorem stopped_publication_is_noticed_witness:
  "fst (anchor_liveness_main 1000000 48 True
     (Some \<lparr>ad_created = Some [400, 900], ad_meta = Some [(''anchor_last_published'', JStr ''500'')]\<rparr>)) = 1"
  by (rule stopped_publication_is_noticed [where created = "[400, 900]" and t = 900 and p = "Some 500"
      and meta = "[(''anchor_last_published'', JStr ''500'')]"])
     (simp_all add: last_published_def int_of_str_def strip_def is_ws_def is_digit_def digits_val_def digit_val_def)

end
