(* ===== verification/Listing_Status.thy ===== *)
theory Listing_Status
  imports Docs_Gate
begin

text \<open>
  \<open>tools/survivorship_status.py\<close>: the listing evidence for every graded symbol as of a date. A symbol
  is classified by a decision list over its exit stamp, its daily bars, the SEC's companies and, for
  the current date only, the watch flag; the classes are counted per scope beside the rule of the
  pinned registry. The report is modelled as its figures; the fixed texts of the JSON file, its
  writing and the summary line are left out.
\<close>

section \<open>Tables\<close>

record listing =          \<comment> \<open>\<open>symbols\<close>\<close>
  ls_id :: int
  ls_symbol :: string
  ls_market :: string
  ls_name :: string
  ls_active :: int
  ls_added :: int
  ls_delisted :: "int option"

record company =          \<comment> \<open>\<open>companies\<close>\<close>
  co_ticker :: string
  co_exchange :: string
  co_name :: string
  co_updated :: "int option"

record graded_outcome =      \<comment> \<open>the columns read of \<open>prediction_outcomes\<close> and \<open>regime_outcomes\<close>\<close>
  gc_symbol :: int
  gc_ts :: int
  gc_resolved :: "int option"

record listing_db =
  ld_symbols :: "listing list option"
  ld_bars :: "bar_row list option"
  ld_companies :: "company list option"
  ld_outcomes :: "graded_outcome list option"
  ld_regime :: "graded_outcome list option"

definition NATIONAL_EXCHANGES :: "string list" where
  "NATIONAL_EXCHANGES = [''NYSE'', ''Nasdaq'', ''CBOE'', ''TXSE'']"

definition SESSION_REFERENCE :: string where "SESSION_REFERENCE = ''SPY''"

definition daily_bars :: "bar_row list \<Rightarrow> int \<Rightarrow> int \<Rightarrow> int list" where
  "daily_bars bars sid t =
     map bar_ts (filter (\<lambda>b. bar_symbol b = sid \<and> bar_tf b = ''1d'' \<and> bar_ts b \<le> t) bars)"

section \<open>The session window\<close>

text \<open>The day of the oldest of the last \<open>n\<close> sessions, and whether it was read from bars.\<close>

definition session_cutoff_day :: "listing list \<Rightarrow> bar_row list \<Rightarrow> int \<Rightarrow> int \<Rightarrow> int \<times> bool" where
  "session_cutoff_day syms bars t n =
     (let approx = (t div SECONDS_PER_DAY - (n * 7 div 5 + 3), False)
      in case filter (\<lambda>s. ls_symbol s = SESSION_REFERENCE \<and> ls_market s = ''stocks'') syms of
           [] \<Rightarrow> approx
         | s # _ \<Rightarrow>
             (let ts = take (nat n) (rev (sort (daily_bars bars (ls_id s) t)))
              in if int (length ts) = n \<and> ts \<noteq> [] then (last ts div SECONDS_PER_DAY, True) else approx))"

section \<open>Classes\<close>

datatype listing_class =
    RetiredSource | Unknown | ExitedDated | Watched | UnwatchedTrading | Trading

definition CLASSES :: "listing_class list" where
  "CLASSES = [RetiredSource, Unknown, ExitedDated, Watched, UnwatchedTrading, Trading]"

text \<open>The classes in the order of the report.\<close>

fun class_rank :: "listing_class \<Rightarrow> nat" where
  "class_rank RetiredSource = 0"
| "class_rank Unknown = 1"
| "class_rank ExitedDated = 2"
| "class_rank Watched = 3"
| "class_rank UnwatchedTrading = 4"
| "class_rank Trading = 5"

lemma class_rank_inject: "class_rank a = class_rank b \<longleftrightarrow> a = b"
  by (cases a; cases b) simp_all

instantiation listing_class :: linorder
begin

definition less_eq_listing_class :: "listing_class \<Rightarrow> listing_class \<Rightarrow> bool" where
  "a \<le> b \<longleftrightarrow> class_rank a \<le> class_rank b"

definition less_listing_class :: "listing_class \<Rightarrow> listing_class \<Rightarrow> bool" where
  "a < b \<longleftrightarrow> class_rank a < class_rank b"

instance
  by standard (auto simp: less_eq_listing_class_def less_listing_class_def class_rank_inject)

end

datatype exit_kind = SourceRetired | TickerReuseArchive | OtcAfterExit | Unattributed
datatype stamp_shape = EqualsLastBar | MidnightUtc | OtherShape

datatype listing_reason =
    NoSymbolsRow
  | BarsAfterExit int int "int option"        \<comment> \<open>bars, exit stamp, last bar\<close>
  | SecMapsElsewhere string string string int
  | NoBarAtAll bool                           \<comment> \<open>watched\<close>
  | NoBarSince bool int

definition dated_exit :: "int \<Rightarrow> listing \<Rightarrow> int option" where
  "dated_exit t s =
     (case ls_delisted s of None \<Rightarrow> None | Some d \<Rightarrow> if d \<noteq> 0 \<and> d \<le> t then Some d else None)"

definition exit_conflicts :: "listing \<Rightarrow> int \<Rightarrow> int \<times> int option \<Rightarrow> company option \<Rightarrow> listing_reason list" where
  "exit_conflicts s d post sec =
     (if fst post \<noteq> 0 then [BarsAfterExit (fst post) d (snd post)] else [])
     @ (case sec of
          Some c \<Rightarrow> if co_exchange c \<in> set NATIONAL_EXCHANGES
                    then [SecMapsElsewhere (ls_symbol s) (co_exchange c) (co_name c) d] else []
        | None \<Rightarrow> [])"

text \<open>\<open>re.search(r"\.\d{6}$", symbol)\<close>.\<close>

definition archived_symbol :: "string \<Rightarrow> bool" where
  "archived_symbol s \<longleftrightarrow>
     (let t = drop (length s - 7) s in length t = 7 \<and> hd t = CHR ''.'' \<and> list_all is_digit (tl t))"

definition exit_kind_of :: "listing \<Rightarrow> company option \<Rightarrow> exit_kind" where
  "exit_kind_of s sec =
     (if archived_symbol (ls_symbol s) \<or> contains ''ticker later reused'' (ls_name s) then TickerReuseArchive
      else case sec of
             Some c \<Rightarrow> if co_exchange c = ''OTC'' then OtcAfterExit else Unattributed
           | None \<Rightarrow> Unattributed)"

definition silent_class ::
    "bool \<Rightarrow> bool \<Rightarrow> int \<Rightarrow> int option \<Rightarrow> listing_class \<times> exit_kind option \<times> listing_reason list" where
  "silent_class watched current cutoff last_bar =
     (case last_bar of
        None \<Rightarrow> (Unknown, None, [NoBarAtAll watched])
      | Some b \<Rightarrow>
          (if cutoff \<le> b div SECONDS_PER_DAY
           then (if watched then Watched else if current then UnwatchedTrading else Trading, None, [])
           else (Unknown, None, [NoBarSince watched b])))"

definition classify_symbol ::
    "listing option \<Rightarrow> int option \<Rightarrow> int \<times> int option \<Rightarrow> company option \<Rightarrow> bool \<Rightarrow> int \<Rightarrow> int
     \<Rightarrow> listing_class \<times> exit_kind option \<times> listing_reason list" where
  "classify_symbol row last_bar post sec current cutoff t =
     (case row of
        None \<Rightarrow> (Unknown, None, [NoSymbolsRow])
      | Some s \<Rightarrow>
          (case dated_exit t s of
             Some d \<Rightarrow>
               (if ls_market s = ''crypto'' then (RetiredSource, Some SourceRetired, [])
                else if exit_conflicts s d post sec \<noteq> [] then (Unknown, None, exit_conflicts s d post sec)
                else (ExitedDated, Some (exit_kind_of s sec), []))
           | None \<Rightarrow> silent_class (current \<and> ls_active s = 1) current cutoff last_bar))"

section \<open>Evaluation\<close>

text \<open>An SEC row that is knowable at the date, and the one kept per ticker: a national listing wins.\<close>

definition knowable :: "bool \<Rightarrow> int \<Rightarrow> company \<Rightarrow> bool" where
  "knowable current t c \<longleftrightarrow> co_ticker c \<noteq> []
     \<and> (case co_updated c of None \<Rightarrow> current | Some u \<Rightarrow> u \<le> t)"

definition preferred :: "company option \<Rightarrow> company \<Rightarrow> company" where
  "preferred prev c =
     (case prev of
        None \<Rightarrow> c
      | Some p \<Rightarrow> if co_exchange c \<in> set NATIONAL_EXCHANGES \<and> co_exchange p \<notin> set NATIONAL_EXCHANGES
                  then c else p)"

definition sec_of :: "bool \<Rightarrow> int \<Rightarrow> company list option \<Rightarrow> string \<Rightarrow> company option" where
  "sec_of current t companies ticker =
     (case companies of
        None \<Rightarrow> None
      | Some cs \<Rightarrow>
          fold (\<lambda>c kept. Some (preferred kept c))
            (filter (\<lambda>c. knowable current t c \<and> upper (co_ticker c) = upper ticker) cs) None)"

definition graded_ids :: "string \<Rightarrow> int \<Rightarrow> graded_outcome list \<Rightarrow> int list" where
  "graded_ids table t calls =
     sort (remdups (map gc_symbol
       (filter (\<lambda>c. (\<exists>r \<in> set_option (gc_resolved c). r \<le> t)
                    \<and> population_epoch_ts table \<le> gc_ts c \<and> gc_ts c \<le> t) calls)))"

definition table_scope :: "string \<Rightarrow> int \<Rightarrow> graded_outcome list option \<Rightarrow> (string \<times> int list) list" where
  "table_scope table t calls =
     (case calls of None \<Rightarrow> [] | Some cs \<Rightarrow> [(''graded:'' @ table, graded_ids table t cs)])"

definition scopes_at :: "int \<Rightarrow> listing_db \<Rightarrow> listing list \<Rightarrow> (string \<times> int list) list" where
  "scopes_at t db syms =
     table_scope ''prediction_outcomes'' t (ld_outcomes db) @ table_scope ''regime_outcomes'' t (ld_regime db)
     @ [(''universe'', sort (map ls_id (filter (\<lambda>s. ls_added s \<le> t) syms)))]"

definition symbol_row_of :: "listing list \<Rightarrow> int \<Rightarrow> listing option" where
  "symbol_row_of syms sid = map_of (map (\<lambda>s. (ls_id s, s)) syms) sid"

text \<open>\<open>COUNT\<close> and \<open>MAX\<close> of the daily bars after the day of an exit.\<close>

definition post_exit :: "bar_row list \<Rightarrow> int \<Rightarrow> int \<Rightarrow> int \<Rightarrow> int \<times> int option" where
  "post_exit bars sid t d =
     (let later = filter (\<lambda>b. (d div SECONDS_PER_DAY + 1) * SECONDS_PER_DAY \<le> b) (daily_bars bars sid t)
      in (int (length later), max_opt later))"

definition shape_of :: "bar_row list \<Rightarrow> int \<Rightarrow> int \<Rightarrow> stamp_shape" where
  "shape_of bars sid d =
     (if \<exists>b \<in> set bars. bar_symbol b = sid \<and> bar_tf b = ''1d'' \<and> bar_ts b = d then EqualsLastBar
      else if d mod SECONDS_PER_DAY = 0 then MidnightUtc
      else OtherShape)"

record judged =
  jd_id :: int
  jd_class :: listing_class
  jd_kind :: "exit_kind option"
  jd_reasons :: "listing_reason list"
  jd_last :: "int option"
  jd_shape :: "stamp_shape option"
  jd_row :: "listing option"

definition judge ::
    "bool \<Rightarrow> int \<Rightarrow> int \<Rightarrow> listing_db \<Rightarrow> listing list \<Rightarrow> bar_row list \<Rightarrow> int \<Rightarrow> judged" where
  "judge current cutoff t db syms bars sid =
     (let row = symbol_row_of syms sid;
          last_bar = (case row of None \<Rightarrow> None | Some _ \<Rightarrow> max_opt (daily_bars bars sid t));
          exit_at = Option.bind row (dated_exit t);
          post = (case exit_at of None \<Rightarrow> (0, None) | Some d \<Rightarrow> post_exit bars sid t d);
          sec = Option.bind row (\<lambda>s. sec_of current t (ld_companies db) (ls_symbol s))
      in case classify_symbol row last_bar post sec current cutoff t of
           (cls, kind, reasons) \<Rightarrow>
             \<lparr>jd_id = sid, jd_class = cls, jd_kind = kind, jd_reasons = reasons, jd_last = last_bar,
              jd_shape = (if kind = None \<or> map_option ls_market row = Some ''crypto'' then None
                          else map_option (shape_of bars sid) exit_at),
              jd_row = row\<rparr>)"

record scope_report =
  sc_name :: string
  sc_symbols :: int
  sc_counts :: "(listing_class \<times> int) list"
  sc_watch :: "int \<times> int \<times> int"           \<comment> \<open>not point in time, watched, unwatched\<close>
  sc_kinds :: "exit_kind \<Rightarrow> int"
  sc_shapes :: "stamp_shape \<Rightarrow> int"
  sc_undated :: int
  sc_undated_by :: "(listing_class \<times> int) list"
  sc_unknown :: "judged list"

text \<open>The rule of the pinned registry: no exit stamp at all, and not watched.\<close>

definition undated_inactive :: "judged \<Rightarrow> bool" where
  "undated_inactive j =
     (case jd_row j of None \<Rightarrow> False | Some s \<Rightarrow> ls_delisted s = None \<and> ls_active s = 0)"

definition has_row :: "(listing \<Rightarrow> bool) \<Rightarrow> judged \<Rightarrow> bool" where
  "has_row p j = (case jd_row j of None \<Rightarrow> False | Some s \<Rightarrow> p s)"

definition scope_of :: "bool \<Rightarrow> string \<Rightarrow> judged list \<Rightarrow> scope_report" where
  "scope_of current name js =
     \<lparr>sc_name = name, sc_symbols = int (length js),
      sc_counts = map (\<lambda>c. (c, count_if (\<lambda>j. jd_class j = c) js)) CLASSES,
      sc_watch = (if current
                  then (0, count_if (has_row (\<lambda>s. ls_active s = 1)) js, count_if (has_row (\<lambda>s. ls_active s \<noteq> 1)) js)
                  else (count_if (has_row (\<lambda>_. True)) js, 0, 0)),
      sc_kinds = (\<lambda>k. count_if (\<lambda>j. jd_kind j = Some k) js),
      sc_shapes = (\<lambda>k. count_if (\<lambda>j. jd_shape j = Some k) js),
      sc_undated = count_if undated_inactive js,
      sc_undated_by = map (\<lambda>(c, g). (c, int (length g))) (group_by jd_class (filter undated_inactive js)),
      sc_unknown = filter (\<lambda>j. jd_class j = Unknown) js\<rparr>"

record listing_report =
  lr_as_of :: int
  lr_current :: bool
  lr_cutoff :: "int \<times> bool"
  lr_scopes :: "scope_report list"

definition day_end :: "int \<Rightarrow> int" where
  "day_end d = d * SECONDS_PER_DAY + SECONDS_PER_DAY - 1"

text \<open>Without a table of bars the queries of the reference symbol and of a judged symbol raise.\<close>

definition listing_bars :: "listing_db \<Rightarrow> listing list \<Rightarrow> int \<Rightarrow> bar_row list py" where
  "listing_bars db syms t =
     (case ld_bars db of
        Some bars \<Rightarrow> Inr bars
      | None \<Rightarrow>
          (if (\<exists>s \<in> set syms. ls_symbol s = SESSION_REFERENCE \<and> ls_market s = ''stocks'')
              \<or> (\<exists>sc \<in> set (scopes_at t db syms). \<exists>i \<in> set (snd sc). symbol_row_of syms i \<noteq> None)
           then Inl OperationalErr else Inr []))"

definition evaluate :: "listing_db \<Rightarrow> int \<Rightarrow> int \<Rightarrow> int \<Rightarrow> listing_report py" where
  "evaluate db as_of sessions today =
     (if today < as_of \<or> sessions < 1 then Inl ValueErr
      else case ld_symbols db of
             None \<Rightarrow> Inl OperationalErr
           | Some syms \<Rightarrow>
               (let t = day_end as_of; current = (as_of = today)
                in case listing_bars db syms t of
                     Inl e \<Rightarrow> Inl e
                   | Inr bars \<Rightarrow>
                       (let cut = session_cutoff_day syms bars t sessions
                        in Inr \<lparr>lr_as_of = as_of, lr_current = current, lr_cutoff = cut,
                                lr_scopes = map (\<lambda>(name, ids).
                                  scope_of current name (map (judge current (fst cut) t db syms bars) ids))
                                  (scopes_at t db syms)\<rparr>)))"

text \<open>An error of the database or of the arguments is 1; \<^term>\<open>None\<close> is a file that does not open.\<close>

definition listing_main :: "listing_db option \<Rightarrow> int option \<Rightarrow> int \<Rightarrow> int \<Rightarrow> nat" where
  "listing_main db as_of sessions today =
     (case db of
        None \<Rightarrow> 1
      | Some con \<Rightarrow>
          (case evaluate con (case as_of of None \<Rightarrow> today | Some d \<Rightarrow> d) sessions today of
             Inl _ \<Rightarrow> 1
           | Inr _ \<Rightarrow> 0))"

section \<open>What a date in the past may depend on\<close>

text \<open>
  The part of the database dated up to \<open>t\<close>: bars, grades and SEC rows dated after \<open>t\<close> are gone, and so are
  the symbols added after \<open>t\<close>, except the reference of the sessions and the symbols graded by then, which
  the code reads whenever they were added. An exit stamp dated after \<open>t\<close> is no stamp, and the watch flag,
  which is not dated, is cleared. These are effective dates: when a row was written is not stored, so a
  stamp written later for a date up to \<open>t\<close> stays.
\<close>

definition known_call :: "int \<Rightarrow> graded_outcome \<Rightarrow> bool" where
  "known_call t c \<longleftrightarrow> gc_ts c \<le> t \<and> (\<exists>r \<in> set_option (gc_resolved c). r \<le> t)"

definition known_listing :: "int \<Rightarrow> listing \<Rightarrow> listing" where
  "known_listing t s = s\<lparr>ls_active := 0, ls_delisted := dated_exit t s\<rparr>"

definition graded_at :: "int \<Rightarrow> listing_db \<Rightarrow> int list" where
  "graded_at t db = concat (map snd
     (table_scope ''prediction_outcomes'' t (ld_outcomes db) @ table_scope ''regime_outcomes'' t (ld_regime db)))"

definition dated_row :: "int \<Rightarrow> listing_db \<Rightarrow> listing \<Rightarrow> bool" where
  "dated_row t db s \<longleftrightarrow> ls_added s \<le> t \<or> (ls_symbol s = SESSION_REFERENCE \<and> ls_market s = ''stocks'')
     \<or> ls_id s \<in> set (graded_at t db)"

definition dated_by :: "int \<Rightarrow> listing_db \<Rightarrow> listing_db" where
  "dated_by t db = \<lparr>
     ld_symbols = map_option (\<lambda>syms. map (known_listing t) (filter (dated_row t db) syms)) (ld_symbols db),
     ld_bars = map_option (filter (\<lambda>b. bar_ts b \<le> t)) (ld_bars db),
     ld_companies = map_option (filter (\<lambda>c. \<exists>u \<in> set_option (co_updated c). u \<le> t)) (ld_companies db),
     ld_outcomes = map_option (filter (known_call t)) (ld_outcomes db),
     ld_regime = map_option (filter (known_call t)) (ld_regime db)\<rparr>"

text \<open>The figures of a report that speak of a date: the registry's rule and the watch flag are not among them.\<close>

definition scope_figures :: "scope_report \<Rightarrow>
    string \<times> int \<times> (listing_class \<times> int) list \<times> (exit_kind \<Rightarrow> int) \<times> (stamp_shape \<Rightarrow> int)
      \<times> (int \<times> listing_reason list \<times> int option) list" where
  "scope_figures s = (sc_name s, sc_symbols s, sc_counts s, sc_kinds s, sc_shapes s,
     map (\<lambda>j. (jd_id j, jd_reasons j, jd_last j)) (sc_unknown s))"

definition dated_figures where
  "dated_figures r = (lr_as_of r, lr_cutoff r, map scope_figures (lr_scopes r))"

lemma known_listing_simps [simp]:
  "ls_id (known_listing t s) = ls_id s" "ls_symbol (known_listing t s) = ls_symbol s"
  "ls_market (known_listing t s) = ls_market s" "ls_name (known_listing t s) = ls_name s"
  "ls_added (known_listing t s) = ls_added s" "ls_delisted (known_listing t s) = dated_exit t s"
  by (simp_all add: known_listing_def)

lemma dated_exit_known [simp]: "dated_exit t (known_listing t s) = dated_exit t s"
  by (auto simp: dated_exit_def split: option.splits)

lemma dated_exit_le: "dated_exit t s = Some d \<Longrightarrow> d \<le> t"
  by (auto simp: dated_exit_def split: option.splits if_splits)

lemma daily_bars_known [simp]: "daily_bars (filter (\<lambda>b. bar_ts b \<le> t) bars) sid t = daily_bars bars sid t"
  unfolding daily_bars_def filter_filter by (metis (no_types, lifting))

lemma filter_dated_row [simp]:
  "filter (\<lambda>s. dated_row t db s \<and> ls_symbol s = SESSION_REFERENCE \<and> ls_market s = ''stocks'') syms
   = filter (\<lambda>s. ls_symbol s = SESSION_REFERENCE \<and> ls_market s = ''stocks'') syms"
  "filter (\<lambda>s. dated_row t db s \<and> ls_added s \<le> t) syms = filter (\<lambda>s. ls_added s \<le> t) syms"
  by (auto simp: dated_row_def intro!: filter_cong)

lemma session_cutoff_known [simp]:
  "session_cutoff_day (map (known_listing t) (filter (dated_row t db) syms)) (filter (\<lambda>b. bar_ts b \<le> t) bars) t n
   = session_cutoff_day syms bars t n"
  by (cases "filter (\<lambda>s. ls_symbol s = SESSION_REFERENCE \<and> ls_market s = ''stocks'') syms")
    (simp_all add: session_cutoff_day_def filter_map comp_def)

lemma post_exit_known [simp]: "post_exit (filter (\<lambda>b. bar_ts b \<le> t) bars) sid t d = post_exit bars sid t d"
  by (simp add: post_exit_def)

lemma shape_known: "d \<le> t \<Longrightarrow> shape_of (filter (\<lambda>b. bar_ts b \<le> t) bars) sid d = shape_of bars sid d"
  by (auto simp: shape_of_def)

lemma sec_known [simp]:
  "sec_of False t (map_option (filter (\<lambda>c. \<exists>u \<in> set_option (co_updated c). u \<le> t)) cs) x = sec_of False t cs x"
proof -
  have "(\<lambda>c. (knowable False t c \<and> upper (co_ticker c) = upper x) \<and> (\<exists>u \<in> set_option (co_updated c). u \<le> t))
      = (\<lambda>c. knowable False t c \<and> upper (co_ticker c) = upper x)"
    by (auto simp: knowable_def fun_eq_iff split: option.splits)
  then show ?thesis by (simp add: sec_of_def conj_commute split: option.split)
qed

lemma graded_ids_known [simp]: "graded_ids table t (filter (known_call t) calls) = graded_ids table t calls"
  unfolding graded_ids_def filter_filter known_call_def by (metis (no_types, lifting))

lemma table_scope_known [simp]: "table_scope table t (map_option (filter (known_call t)) calls) = table_scope table t calls"
  by (simp add: table_scope_def split: option.split)

lemma scopes_known [simp]:
  "scopes_at t (dated_by t db) (map (known_listing t) (filter (dated_row t db) syms)) = scopes_at t db syms"
  by (simp add: scopes_at_def dated_by_def filter_map comp_def)

lemma symbol_row_known:
  "symbol_row_of (map (known_listing t) syms) sid = map_option (known_listing t) (symbol_row_of syms sid)"
  by (induction syms) (auto simp: symbol_row_of_def)

lemma symbol_row_filter:
  "(\<And>s. s \<in> set syms \<Longrightarrow> ls_id s = sid \<Longrightarrow> p s) \<Longrightarrow> symbol_row_of (filter p syms) sid = symbol_row_of syms sid"
  by (induction syms) (auto simp: symbol_row_of_def)

text \<open>The row of a symbol of a scope is among the dated ones.\<close>

lemma scope_symbols_are_dated:
  assumes "distinct (map ls_id syms)" "scope \<in> set (scopes_at t db syms)" "i \<in> set (snd scope)"
    and "s \<in> set syms" "ls_id s = i"
  shows "dated_row t db s"
proof (cases "snd scope = snd (last (scopes_at t db syms))")
  case True
  with assms(3) obtain u where u: "u \<in> set syms" "ls_id u = i" "ls_added u \<le> t" by (auto simp: scopes_at_def)
  with assms(1,4,5) have "u = s" by (metis distinct_map inj_onD)
  with u show ?thesis by (simp add: dated_row_def)
next
  case False
  with assms(2,3,5) show ?thesis by (auto simp: dated_row_def graded_at_def scopes_at_def)
qed

lemma scope_row_known:
  assumes "distinct (map ls_id syms)" "scope \<in> set (scopes_at t db syms)" "i \<in> set (snd scope)"
  shows "symbol_row_of (map (known_listing t) (filter (dated_row t db) syms)) i
       = map_option (known_listing t) (symbol_row_of syms i)"
  using scope_symbols_are_dated [OF assms] by (simp add: symbol_row_known symbol_row_filter)

lemma classify_known [simp]:
  "classify_symbol (map_option (known_listing t) row) last_bar post sec False cutoff t
   = classify_symbol row last_bar post sec False cutoff t"
  by (simp add: classify_symbol_def exit_conflicts_def exit_kind_of_def cong: option.case_cong split: option.split)

definition judged_figures where
  "judged_figures j = (jd_id j, jd_class j, jd_kind j, jd_reasons j, jd_last j, jd_shape j)"

lemma judge_known:
  assumes "symbol_row_of known sid = map_option (known_listing t) (symbol_row_of syms sid)"
  shows "judged_figures (judge False cutoff t (dated_by t db) known (filter (\<lambda>b. bar_ts b \<le> t) bars) sid)
       = judged_figures (judge False cutoff t db syms bars sid)"
proof (cases "symbol_row_of syms sid")
  case None
  with assms show ?thesis by (simp add: judge_def judged_figures_def classify_symbol_def)
next
  case (Some s)
  have "map_option (shape_of (filter (\<lambda>b. bar_ts b \<le> t) bars) sid) (dated_exit t s)
      = map_option (shape_of bars sid) (dated_exit t s)"
    by (cases "dated_exit t s") (auto simp: shape_known dest: dated_exit_le)
  with assms Some classify_known [of t "Some s"] show ?thesis
    by (simp add: judge_def judged_figures_def dated_by_def Let_def case_prod_unfold cong: option.case_cong)
qed

text \<open>The dated figures of a scope read the judgements through \<^const>\<open>judged_figures\<close> only.\<close>

lemma scope_figures_cong:
  assumes "\<And>i. i \<in> set ids \<Longrightarrow> judged_figures (f i) = judged_figures (g i)"
  shows "scope_figures (scope_of current name (map f ids)) = scope_figures (scope_of current name (map g ids))"
  using assms
proof (induction ids)
  case (Cons i ids)
  from Cons.prems [of i] have "judged_figures (f i) = judged_figures (g i)" by simp
  with Cons.IH Cons.prems show ?case
    by (auto simp: scope_of_def scope_figures_def judged_figures_def count_if_def fun_eq_iff)
qed simp

lemma listing_bars_known:
  assumes "distinct (map ls_id syms)"
  shows "listing_bars (dated_by t db) (map (known_listing t) (filter (dated_row t db) syms)) t
       = map_sum id (filter (\<lambda>b. bar_ts b \<le> t)) (listing_bars db syms t)"
proof (cases "ld_bars db")
  case None
  have "(\<exists>sc \<in> set (scopes_at t db syms). \<exists>i \<in> set (snd sc).
            symbol_row_of (map (known_listing t) (filter (dated_row t db) syms)) i \<noteq> None)
      \<longleftrightarrow> (\<exists>sc \<in> set (scopes_at t db syms). \<exists>i \<in> set (snd sc). symbol_row_of syms i \<noteq> None)"
    by (intro bex_cong refl) (simp add: scope_row_known [OF assms])
  moreover have "(\<exists>s \<in> set (map (known_listing t) (filter (dated_row t db) syms)).
            ls_symbol s = SESSION_REFERENCE \<and> ls_market s = ''stocks'')
      \<longleftrightarrow> (\<exists>s \<in> set syms. ls_symbol s = SESSION_REFERENCE \<and> ls_market s = ''stocks'')"
    by (auto simp: dated_row_def)
  moreover have "ld_bars (dated_by t db) = None" using None by (simp add: dated_by_def)
  ultimately show ?thesis using None
    unfolding listing_bars_def scopes_known by (simp del: set_map set_filter)
next
  case (Some bars)
  then show ?thesis by (simp add: listing_bars_def dated_by_def)
qed

text \<open>
  C34. A report for a date in the past reads nothing dated after it. Its classes, exit kinds, stamp shapes
  and unknown symbols with their reasons are those of the part of the database dated up to the end of
  that date, whatever rows the tables hold beside it; \<open>id\<close> is the key of \<open>symbols\<close>. Later bars, grades, SEC
  rows, exits and symbols and today's watch flag decide none of them; an exit stamped with a date up to
  then does, also when it was written afterwards.
\<close>
theorem past_reports_read_dated_rows:
  assumes "as_of < today" and "\<forall>syms \<in> set_option (ld_symbols db). distinct (map ls_id syms)"
  shows "map_sum id dated_figures (evaluate (dated_by (day_end as_of) db) as_of sessions today)
       = map_sum id dated_figures (evaluate db as_of sessions today)"
proof (cases "ld_symbols db")
  case None
  then show ?thesis by (simp add: evaluate_def dated_by_def)
next
  case (Some syms)
  let ?t = "day_end as_of"
  let ?known = "map (known_listing ?t) (filter (dated_row ?t db) syms)"
  from assms(2) Some have ids: "distinct (map ls_id syms)" by simp
  have row: "ld_symbols (dated_by ?t db) = Some ?known"
    using Some by (simp add: dated_by_def)
  show ?thesis
  proof (cases "listing_bars db syms ?t")
    case (Inl e)
    then show ?thesis using assms(1) Some row by (simp add: evaluate_def listing_bars_known [OF ids])
  next
    case (Inr bars)
    have "map scope_figures (map (\<lambda>(name, ids). scope_of False name
            (map (judge False c ?t (dated_by ?t db) ?known (filter (\<lambda>b. bar_ts b \<le> ?t) bars)) ids))
            (scopes_at ?t db syms))
        = map scope_figures (map (\<lambda>(name, ids). scope_of False name (map (judge False c ?t db syms bars) ids))
            (scopes_at ?t db syms))" for c
      by (auto intro!: scope_figures_cong judge_known scope_row_known [OF ids])
    then show ?thesis using assms(1) Some row Inr
      by (simp add: evaluate_def listing_bars_known [OF ids] dated_figures_def Let_def)
  qed
qed

text \<open>
  Fifteen days later the first symbol has printed again and is off the watch list, the second has an
  exit stamp and a third has been added: none of it is a matter of day 10.
\<close>

definition revised_db :: listing_db where
  "revised_db = \<lparr>
     ld_symbols = Some
       [\<lparr>ls_id = 1, ls_symbol = ''SPY'', ls_market = ''stocks'', ls_name = [], ls_active = 0, ls_added = 0, ls_delisted = None\<rparr>,
        \<lparr>ls_id = 2, ls_symbol = ''WBD'', ls_market = ''stocks'', ls_name = [], ls_active = 0, ls_added = 0,
         ls_delisted = Some 1900000\<rparr>],
     ld_bars = Some [\<lparr>bar_symbol = 1, bar_tf = ''1d'', bar_ts = 864000\<rparr>, \<lparr>bar_symbol = 2, bar_tf = ''1d'', bar_ts = 864000\<rparr>,
                     \<lparr>bar_symbol = 1, bar_tf = ''1d'', bar_ts = 2160000\<rparr>],
     ld_companies = None, ld_outcomes = None, ld_regime = None\<rparr>"

definition grown_db :: listing_db where
  "grown_db = revised_db\<lparr>ld_symbols := map_option (\<lambda>syms. syms @
     [\<lparr>ls_id = 3, ls_symbol = ''NEWCO'', ls_market = ''stocks'', ls_name = [], ls_active = 1, ls_added = 1500000,
       ls_delisted = None\<rparr>]) (ld_symbols revised_db)\<rparr>"

theorem past_reports_read_dated_rows_witness:
  "map_sum id dated_figures (evaluate (dated_by (day_end 10) grown_db) 10 1 25)
     = map_sum id dated_figures (evaluate grown_db 10 1 25)
   \<and> map_sum id (\<lambda>r. map sc_counts (lr_scopes r)) (evaluate grown_db 10 1 25)
     = Inr [[(RetiredSource, 0), (Unknown, 0), (ExitedDated, 0), (Watched, 0), (UnwatchedTrading, 0), (Trading, 2)]]
   \<and> map_sum id (\<lambda>r. map sc_counts (lr_scopes r)) (evaluate grown_db 25 1 25)
     = Inr [[(RetiredSource, 0), (Unknown, 1), (ExitedDated, 1), (Watched, 0), (UnwatchedTrading, 1), (Trading, 0)]]
   \<and> map_option length (ld_symbols (dated_by (day_end 10) grown_db)) = Some 2"
proof (intro conjI)
  show "map_sum id dated_figures (evaluate (dated_by (day_end 10) grown_db) 10 1 25)
     = map_sum id dated_figures (evaluate grown_db 10 1 25)"
    by (rule past_reports_read_dated_rows) (simp_all add: grown_db_def revised_db_def)
qed code_simp+

text \<open>The count kept beside the classes is not one of day 10: the later stamp takes the symbol out of it.\<close>

lemma registry_rule_looks_ahead:
  "map_sum id (\<lambda>r. map sc_undated (lr_scopes r)) (evaluate revised_db 10 1 25) = Inr [1]
   \<and> map_sum id (\<lambda>r. map sc_undated (lr_scopes r)) (evaluate (dated_by (day_end 10) revised_db) 10 1 25) = Inr [2]"
  by (rule conjI; code_simp)

section \<open>What the figures of a report say\<close>

definition class_count :: "scope_report \<Rightarrow> listing_class \<Rightarrow> int" where
  "class_count s c = (\<Sum>(c', n)\<leftarrow>sc_counts s. if c' = c then n else 0)"

lemma class_count_scope_of [simp]: "class_count (scope_of current name js) c = count_if (\<lambda>j. jd_class j = c) js"
  by (cases c) (simp_all add: class_count_def scope_of_def CLASSES_def)

lemma classify_facts:
  assumes "classify_symbol row last_bar post sec current cutoff t = (cls, kind, reasons)"
  shows "kind = Some SourceRetired \<longleftrightarrow> cls = RetiredSource"
    and "kind \<in> {Some TickerReuseArchive, Some OtcAfterExit, Some Unattributed} \<longleftrightarrow> cls = ExitedDated"
    and "cls = Trading \<Longrightarrow> \<not> current" "cls \<in> {Watched, UnwatchedTrading} \<Longrightarrow> current"
    and "cls \<in> {RetiredSource, ExitedDated} \<Longrightarrow> \<exists>s d. row = Some s \<and> dated_exit t s = Some d"
    and "cls = Watched \<Longrightarrow> \<exists>s. row = Some s \<and> ls_active s = 1"
    and "cls = Unknown \<longleftrightarrow> reasons \<noteq> []"
  using assms
  by (auto simp: classify_symbol_def silent_class_def exit_kind_of_def split: option.splits if_splits)

lemma judge_class:
  "\<exists>row last_bar post sec. row = symbol_row_of syms sid
     \<and> classify_symbol row last_bar post sec current cutoff t
       = (jd_class (judge current cutoff t db syms bars sid), jd_kind (judge current cutoff t db syms bars sid),
          jd_reasons (judge current cutoff t db syms bars sid))
     \<and> jd_row (judge current cutoff t db syms bars sid) = row"
  by (simp add: judge_def Let_def case_prod_unfold del: split_paired_Ex) blast

lemma judge_facts:
  fixes current cutoff t db syms bars sid
  defines "j \<equiv> judge current cutoff t db syms bars sid"
  shows "jd_kind j = Some SourceRetired \<longleftrightarrow> jd_class j = RetiredSource"
    and "jd_kind j \<in> {Some TickerReuseArchive, Some OtcAfterExit, Some Unattributed} \<longleftrightarrow> jd_class j = ExitedDated"
    and "jd_class j = Trading \<Longrightarrow> \<not> current" "jd_class j \<in> {Watched, UnwatchedTrading} \<Longrightarrow> current"
    and "undated_inactive j \<Longrightarrow> jd_class j \<notin> {RetiredSource, ExitedDated, Watched}"
    and "jd_class j = Unknown \<longleftrightarrow> jd_reasons j \<noteq> []"
proof -
  obtain row last_bar post sec where c: "classify_symbol row last_bar post sec current cutoff t
      = (jd_class j, jd_kind j, jd_reasons j)" and row: "jd_row j = row"
    using judge_class [of syms sid current cutoff t db bars] unfolding j_def by blast
  note f = classify_facts [OF c]
  show "jd_kind j = Some SourceRetired \<longleftrightarrow> jd_class j = RetiredSource" by (rule f)
  show "jd_kind j \<in> {Some TickerReuseArchive, Some OtcAfterExit, Some Unattributed} \<longleftrightarrow> jd_class j = ExitedDated"
    by (rule f)
  show "jd_class j = Trading \<Longrightarrow> \<not> current" "jd_class j \<in> {Watched, UnwatchedTrading} \<Longrightarrow> current"
    by (fact f)+
  show "jd_class j = Unknown \<longleftrightarrow> jd_reasons j \<noteq> []" by (rule f)
  show "jd_class j \<notin> {RetiredSource, ExitedDated, Watched}" if "undated_inactive j"
    using that f(5,6) row by (auto simp: undated_inactive_def dated_exit_def split: option.splits)
qed

lemma count_if_disj:
  "(\<And>x. x \<in> set xs \<Longrightarrow> \<not> (P x \<and> Q x)) \<Longrightarrow> count_if P xs + count_if Q xs = count_if (\<lambda>x. P x \<or> Q x) xs"
  by (induction xs) auto

lemma class_counts_sum:
  "count_if (\<lambda>j. jd_class j = RetiredSource) js + count_if (\<lambda>j. jd_class j = Unknown) js
   + count_if (\<lambda>j. jd_class j = ExitedDated) js + count_if (\<lambda>j. jd_class j = Watched) js
   + count_if (\<lambda>j. jd_class j = UnwatchedTrading) js + count_if (\<lambda>j. jd_class j = Trading) js = int (length js)"
proof (induction js)
  case (Cons j js)
  then show ?case by (cases "jd_class j") simp_all
qed simp

lemma count_if_cong_set: "(\<And>x. x \<in> set xs \<Longrightarrow> P x = Q x) \<Longrightarrow> count_if P xs = count_if Q xs"
  by (induction xs) auto

lemma count_if_none: "(\<And>x. x \<in> set xs \<Longrightarrow> \<not> P x) \<Longrightarrow> count_if P xs = 0"
  by (induction xs) auto

lemma exit_kinds_sum:
  "count_if (\<lambda>j. jd_kind j = Some TickerReuseArchive) js + count_if (\<lambda>j. jd_kind j = Some OtcAfterExit) js
   + count_if (\<lambda>j. jd_kind j = Some Unattributed) js
   = count_if (\<lambda>j. jd_kind j \<in> {Some TickerReuseArchive, Some OtcAfterExit, Some Unattributed}) js"
  by (induction js) auto

text \<open>
  C35. Every scope of a report balances. Each symbol has exactly one class, so the six counts add up to
  the symbols; the exit kinds account for the two exit classes one for one; only a current report knows
  watched from unwatched; the unknown list has the unknown symbols, each with a reason. And the
  registry's undated-inactive count is not a count of exits: its symbols are Unknown or still trading.
\<close>
theorem scopes_balance:
  assumes "evaluate db as_of sessions today = Inr r" "s \<in> set (lr_scopes r)"
  shows "class_count s RetiredSource + class_count s Unknown + class_count s ExitedDated
         + class_count s Watched + class_count s UnwatchedTrading + class_count s Trading = sc_symbols s
    \<and> sc_kinds s SourceRetired = class_count s RetiredSource
    \<and> sc_kinds s TickerReuseArchive + sc_kinds s OtcAfterExit + sc_kinds s Unattributed = class_count s ExitedDated
    \<and> (if lr_current r then class_count s Trading = 0
          else class_count s Watched = 0 \<and> class_count s UnwatchedTrading = 0)
    \<and> int (length (sc_unknown s)) = class_count s Unknown \<and> list_all (\<lambda>j. jd_reasons j \<noteq> []) (sc_unknown s)
    \<and> (\<Sum>(c, n)\<leftarrow>sc_undated_by s. n) = sc_undated s
    \<and> list_all (\<lambda>(c, n). c \<in> {Unknown, UnwatchedTrading, Trading}) (sc_undated_by s)"
proof (intro conjI)
  let ?t = "day_end as_of"
  obtain syms bars cutoff name ids where r: "lr_current r = (as_of = today)"
    and s: "s = scope_of (lr_current r) name (map (judge (lr_current r) cutoff ?t db syms bars) ids)"
    using assms by (auto simp: evaluate_def Let_def split: if_splits option.splits sum.splits)
  define js where "js = map (judge (lr_current r) cutoff ?t db syms bars) ids"
  have f: "jd_kind j = Some SourceRetired \<longleftrightarrow> jd_class j = RetiredSource"
    "jd_kind j \<in> {Some TickerReuseArchive, Some OtcAfterExit, Some Unattributed} \<longleftrightarrow> jd_class j = ExitedDated"
    "jd_class j = Trading \<Longrightarrow> \<not> lr_current r" "jd_class j \<in> {Watched, UnwatchedTrading} \<Longrightarrow> lr_current r"
    "undated_inactive j \<Longrightarrow> jd_class j \<notin> {RetiredSource, ExitedDated, Watched}"
    "jd_class j = Unknown \<longleftrightarrow> jd_reasons j \<noteq> []" if j: "j \<in> set js" for j
  proof -
    obtain sid where "j = judge (lr_current r) cutoff ?t db syms bars sid" using j by (auto simp: js_def)
    note facts = judge_facts [of "lr_current r" cutoff ?t db syms bars sid, folded this]
    show "jd_kind j = Some SourceRetired \<longleftrightarrow> jd_class j = RetiredSource"
      "jd_kind j \<in> {Some TickerReuseArchive, Some OtcAfterExit, Some Unattributed} \<longleftrightarrow> jd_class j = ExitedDated"
      "jd_class j = Trading \<Longrightarrow> \<not> lr_current r" "jd_class j \<in> {Watched, UnwatchedTrading} \<Longrightarrow> lr_current r"
      "undated_inactive j \<Longrightarrow> jd_class j \<notin> {RetiredSource, ExitedDated, Watched}"
      "jd_class j = Unknown \<longleftrightarrow> jd_reasons j \<noteq> []"
      by (fact facts)+
  qed
  have s: "s = scope_of (lr_current r) name js" using s by (simp add: js_def)
  show "class_count s RetiredSource + class_count s Unknown + class_count s ExitedDated
         + class_count s Watched + class_count s UnwatchedTrading + class_count s Trading = sc_symbols s"
    using class_counts_sum [of js] by (simp add: s) (simp add: scope_of_def)
  show "sc_kinds s SourceRetired = class_count s RetiredSource"
    by (simp add: s) (simp add: scope_of_def count_if_cong_set [OF f(1)])
  show "sc_kinds s TickerReuseArchive + sc_kinds s OtcAfterExit + sc_kinds s Unattributed = class_count s ExitedDated"
    using exit_kinds_sum [of js] count_if_cong_set [OF f(2)] by (simp add: s) (simp add: scope_of_def)
  show "(if lr_current r then class_count s Trading = 0
          else class_count s Watched = 0 \<and> class_count s UnwatchedTrading = 0)"
    using f(3,4) by (auto simp: s intro!: count_if_none)
  show "int (length (sc_unknown s)) = class_count s Unknown"
    by (simp add: s) (simp add: scope_of_def count_if_def)
  show "list_all (\<lambda>j. jd_reasons j \<noteq> []) (sc_unknown s)"
    using f(6) by (auto simp: s scope_of_def list_all_iff)
  show "(\<Sum>(c, n)\<leftarrow>sc_undated_by s. n) = sc_undated s"
    using sum_group [of "\<lambda>_. 1 :: int" jd_class "filter undated_inactive js"]
    by (simp add: s scope_of_def comp_def case_prod_unfold count_if_def sum_list_triv)
  have "c \<in> {Unknown, UnwatchedTrading, Trading}" if m: "(c, g) \<in> set (group_by jd_class (filter undated_inactive js))" for c g
  proof -
    obtain j where "j \<in> set g" using group_nonempty [OF m] by (cases g) auto
    then have "jd_class j = c" "j \<in> set js" "undated_inactive j" using group_keyed [OF m] by auto
    with f(5) [of j] show ?thesis by (cases c) auto
  qed
  then show "list_all (\<lambda>(c, n). c \<in> {Unknown, UnwatchedTrading, Trading}) (sc_undated_by s)"
    by (auto simp: s scope_of_def list_all_iff)
qed

theorem scopes_balance_witness:
  "\<exists>r s. evaluate revised_db 25 1 25 = Inr r \<and> lr_scopes r = [s] \<and> sc_symbols s = 2
     \<and> class_count s RetiredSource + class_count s Unknown + class_count s ExitedDated
         + class_count s Watched + class_count s UnwatchedTrading + class_count s Trading = 2
     \<and> class_count s ExitedDated = 1 \<and> sc_kinds s Unattributed = 1 \<and> sc_undated s = 1"
proof -
  have c: "map_sum id (\<lambda>r. map (\<lambda>s. (sc_symbols s, class_count s ExitedDated, sc_kinds s Unattributed, sc_undated s)) (lr_scopes r))
      (evaluate revised_db 25 1 25) = Inr [(2, 1, 1, 1)]"
    by code_simp
  then obtain r s where r: "evaluate revised_db 25 1 25 = Inr r" "lr_scopes r = [s]"
    by (cases "evaluate revised_db 25 1 25") auto
  with c scopes_balance [OF r(1), of s] show ?thesis by auto
qed

lemma mult_le_iff_le_div: "0 < (k::int) \<Longrightarrow> a * k \<le> b \<longleftrightarrow> a \<le> b div k"
proof
  show "a \<le> b div k" if "0 < k" "a * k \<le> b" using zdiv_mono1 [OF that(2) that(1)] that(1) by simp
next
  assume k: "0 < k" and "a \<le> b div k"
  then have "a * k \<le> b div k * k" by (simp add: mult_right_mono)
  also have "\<dots> = b - b mod k" by (simp add: minus_mod_eq_div_mult)
  also have "\<dots> \<le> b" using k by simp
  finally show "a * k \<le> b" .
qed

text \<open>
  What it takes to be classed as exited: a stamp at or before the date on a symbol that is not
  crypto, no daily bar of a later day up to the date, and no national listing in the SEC rows that are
  knowable; in every other case the symbol gets another class. A missing bar alone is never an exit.
\<close>
theorem exits_rest_on_evidence:
  "jd_class (judge current cutoff t db syms bars sid) = ExitedDated
   \<longleftrightarrow> (\<exists>s d. symbol_row_of syms sid = Some s \<and> ls_delisted s = Some d \<and> d \<noteq> 0 \<and> d \<le> t \<and> ls_market s \<noteq> ''crypto''
        \<and> \<not> (\<exists>b \<in> set (daily_bars bars sid t). d div SECONDS_PER_DAY < b div SECONDS_PER_DAY)
        \<and> \<not> (\<exists>c. sec_of current t (ld_companies db) (ls_symbol s) = Some c \<and> co_exchange c \<in> set NATIONAL_EXCHANGES))"
proof (cases "symbol_row_of syms sid")
  case None
  then show ?thesis by (simp add: judge_def classify_symbol_def)
next
  case (Some s)
  have later: "((d div SECONDS_PER_DAY + 1) * SECONDS_PER_DAY \<le> b) = (d div SECONDS_PER_DAY < b div SECONDS_PER_DAY)" for b d
    using mult_le_iff_le_div [of SECONDS_PER_DAY "d div SECONDS_PER_DAY + 1" b]
    by (simp only: add1_zle_eq) (simp add: SECONDS_PER_DAY_def)
  have post: "fst (post_exit bars sid t d) \<noteq> 0
      \<longleftrightarrow> (\<exists>b \<in> set (daily_bars bars sid t). d div SECONDS_PER_DAY < b div SECONDS_PER_DAY)" for d
    by (simp add: post_exit_def later Let_def filter_empty_conv)
  show ?thesis
  proof (cases "dated_exit t s")
    case None
    then show ?thesis using Some
      by (auto simp: judge_def Let_def classify_symbol_def silent_class_def dated_exit_def split: option.splits if_splits)
  next
    case (Some d)
    then have "ls_delisted s = Some d" "d \<noteq> 0" "d \<le> t"
      by (auto simp: dated_exit_def split: option.splits if_splits)
    then show ?thesis using Some \<open>symbol_row_of syms sid = Some s\<close> post [of d]
      by (simp add: judge_def Let_def classify_symbol_def exit_conflicts_def split: option.split)
  qed
qed

end
