(* ===== verification/Revision_Reachability.thy ===== *)
theory Revision_Reachability
  imports Chain_Gates
begin

text \<open>
  \<open>tools/ledger_revision_reachability.py\<close>: the early warning for the code-revision gate of the grader.
  Every revision cited by a row from the epoch on is classed by two answers of \<open>git\<close>: whether it
  resolves to a commit, which is what the gate asks, and whether some ref reaches it, without which
  the next collection of the repository removes the commit. The answers are parameters. A line of
  the report is a record; its text and the self-check are left out.
\<close>

section \<open>What is cited\<close>

record citation =         \<comment> \<open>\<open>revision\<close>, the family column and the time column of either table\<close>
  ci_revision :: "string option"
  ci_family :: "string option"
  ci_ts :: int

definition ledger_citation :: "ledger_row \<Rightarrow> citation" where
  "ledger_citation r = \<lparr>ci_revision = pl_revision r, ci_family = pl_horizon r, ci_ts = pl_at r\<rparr>"

definition regime_citation :: "regime_row \<Rightarrow> citation" where
  "regime_citation r = \<lparr>ci_revision = ro_revision r, ci_family = Some (ro_kind r), ci_ts = ro_ts r\<rparr>"

record cited_revision =
  cr_families :: "(string \<times> int) list"
  cr_newest :: int

definition family_label :: "citation \<Rightarrow> string" where
  "family_label c = (case ci_family c of None \<Rightarrow> ''(none)'' | Some f \<Rightarrow> if f = [] then ''(none)'' else f)"

definition citation_key :: "citation \<Rightarrow> string" where
  "citation_key c = rev_key (ci_revision c)"

text \<open>One entry per revision: the rows of each family, and the newest time.\<close>

definition cited_entry :: "citation list \<Rightarrow> cited_revision" where
  "cited_entry g =
     \<lparr>cr_families = map (\<lambda>(f, h). (f, int (length h))) (group_by family_label g),
      cr_newest = fold max (map ci_ts g) 0\<rparr>"

definition post_epoch :: "int \<Rightarrow> ledger_row list \<Rightarrow> regime_row list \<Rightarrow> citation list" where
  "post_epoch epoch led rows =
     filter (\<lambda>c. epoch \<le> ci_ts c) (map ledger_citation led @ map regime_citation rows)"

definition scan_revisions :: "database \<Rightarrow> int \<Rightarrow> (string \<times> cited_revision) list py" where
  "scan_revisions con epoch =
     (case (db_ledger con, db_ledger_has_revision con, db_regime con, db_has_revision con) of
        (Some led, True, Some rows, True) \<Rightarrow>
          Inr (map (\<lambda>(k, g). (k, cited_entry g)) (group_by citation_key (post_epoch epoch led rows)))
      | _ \<Rightarrow> Inl OperationalErr)"

section \<open>What git answers\<close>

text \<open>
  Whether \<open>git cat-file -e rev^{commit}\<close> succeeds, and what \<open>git rev-list -1 rev --not --all\<close> prints,
  \<^term>\<open>None\<close> when it fails.
\<close>

record git_repo =
  gr_resolves :: "string \<Rightarrow> bool"
  gr_unreached :: "string \<Rightarrow> string option"

definition resolvable :: "git_repo \<Rightarrow> string \<Rightarrow> bool" where
  "resolvable repo sha \<longleftrightarrow> \<not> (sha = [] \<or> ends_with ''+dirty'' sha) \<and> gr_resolves repo sha"

definition reachable :: "git_repo \<Rightarrow> string \<Rightarrow> bool" where
  "reachable repo sha = (case gr_unreached repo sha of None \<Rightarrow> False | Some out \<Rightarrow> strip out = [])"

datatype attribution = Unresolvable | Unreachable | Attributed

definition attribute_revision :: "git_repo \<Rightarrow> string \<Rightarrow> attribution" where
  "attribute_revision repo sha =
     (if \<not> resolvable repo sha then Unresolvable
      else if \<not> reachable repo sha then Unreachable
      else Attributed)"

section \<open>The report\<close>

record revision_line =
  rl_key :: string
  rl_status :: attribution
  rl_use :: cited_revision

definition revision_lines :: "git_repo \<Rightarrow> (string \<times> cited_revision) list \<Rightarrow> revision_line list" where
  "revision_lines repo revs =
     map (\<lambda>(k, u). \<lparr>rl_key = k, rl_status = attribute_revision repo k, rl_use = u\<rparr>) revs"

text \<open>The offenders, the number of revisions and the status; the lines are in the order of the keys.\<close>

definition run_reachability :: "git_repo \<Rightarrow> database option \<Rightarrow> (revision_line list \<times> int) option \<times> nat" where
  "run_reachability repo db =
     (case db of
        None \<Rightarrow> (None, 2)
      | Some con \<Rightarrow>
          (case scan_revisions con REVISION_EPOCH_TS of
             Inl _ \<Rightarrow> (None, 2)
           | Inr revs \<Rightarrow>
               (let offenders = filter (\<lambda>l. rl_status l \<noteq> Attributed) (revision_lines repo revs)
                in (Some (offenders, int (length revs)), if offenders = [] then 0 else 1))))"

section \<open>The check and the gate\<close>

lemma resolvable_as_the_grader [simp]: "resolvable repo sha \<longleftrightarrow> revision_resolvable (gr_resolves repo) sha"
  by (simp add: resolvable_def revision_resolvable_def)

text \<open>The commits a repository still has once everything no ref reaches has been collected.\<close>

definition collected :: "git_repo \<Rightarrow> string \<Rightarrow> bool" where
  "collected repo sha \<longleftrightarrow> gr_resolves repo sha \<and> reachable repo sha"

lemma attributed_iff: "attribute_revision repo sha = Attributed \<longleftrightarrow> revision_resolvable (collected repo) sha"
  by (auto simp: attribute_revision_def revision_resolvable_def collected_def)

lemma unresolvable_iff: "attribute_revision repo sha = Unresolvable \<longleftrightarrow> \<not> revision_resolvable (gr_resolves repo) sha"
  by (simp add: attribute_revision_def)

lemma scan_revisions_Inr:
  "scan_revisions con epoch = Inr revs \<longleftrightarrow>
     (\<exists>led rows. db_ledger con = Some led \<and> db_ledger_has_revision con \<and> db_regime con = Some rows
        \<and> db_has_revision con
        \<and> revs = map (\<lambda>(k, g). (k, cited_entry g)) (group_by citation_key (post_epoch epoch led rows)))"
  by (auto simp: scan_revisions_def split: option.splits bool.splits)

lemma set_group_by_image: "set (group_by f xs) = (\<lambda>x. (f x, filter (\<lambda>y. f y = f x) xs)) ` set xs"
  by (simp add: group_by_def image_image)

definition cited_line :: "git_repo \<Rightarrow> citation list \<Rightarrow> citation \<Rightarrow> revision_line" where
  "cited_line repo cs c =
     \<lparr>rl_key = citation_key c, rl_status = attribute_revision repo (citation_key c),
      rl_use = cited_entry (filter (\<lambda>x. citation_key x = citation_key c) cs)\<rparr>"

lemma set_revision_lines:
  "set (revision_lines repo (map (\<lambda>(k, g). (k, cited_entry g)) (group_by citation_key cs)))
   = cited_line repo cs ` set cs"
  by (simp add: revision_lines_def cited_line_def set_group_by_image image_image)

lemma offenders_by_keys:
  "fst ` set (offenders_by git key stamp rows)
   = key ` {r \<in> set rows. \<not> revision_resolvable git (rev_key (stamp r))}"
proof -
  let ?bad = "\<lambda>r. \<not> revision_resolvable git (rev_key (stamp r))"
  let ?F = "\<lambda>x. (key x, bad_revisions git (map stamp (filter (\<lambda>y. key y = key x) rows)))"
  have F: "snd (?F x) \<noteq> [] \<longleftrightarrow> (\<exists>y \<in> set rows. key y = key x \<and> ?bad y)" for x
    by (auto simp: bad_revisions_iff)
  have "set (offenders_by git key stamp rows) = {p \<in> ?F ` set rows. snd p \<noteq> []}"
    by (auto simp: offenders_by_def set_group_by_image)
  also have "\<dots> = ?F ` {x \<in> set rows. snd (?F x) \<noteq> []}" by blast
  finally have "fst ` set (offenders_by git key stamp rows) = key ` {x \<in> set rows. snd (?F x) \<noteq> []}"
    by (simp only: image_image fst_conv)
  also have "\<dots> = key ` {x \<in> set rows. ?bad x}" unfolding F
  proof (rule set_eqI, rule iffI)
    fix k
    assume "k \<in> key ` {x \<in> set rows. \<exists>y \<in> set rows. key y = key x \<and> ?bad y}"
    then obtain y where "y \<in> set rows" "k = key y" "?bad y" by auto
    then show "k \<in> key ` {x \<in> set rows. ?bad x}" by simp
  qed blast
  finally show ?thesis .
qed

text \<open>
  The check of a database passes exactly when both tables carry revisions and every revision cited
  from the epoch on resolves and is reached by a ref; a stamp that is missing or dirty never passes.
\<close>

theorem reachability_passes_iff:
  "snd (run_reachability repo (Some con)) = 0 \<longleftrightarrow>
     (\<exists>led rows. db_ledger con = Some led \<and> db_ledger_has_revision con \<and> db_regime con = Some rows
        \<and> db_has_revision con
        \<and> list_all (\<lambda>c. revision_resolvable (collected repo) (citation_key c))
            (post_epoch REVISION_EPOCH_TS led rows))"
proof (cases "scan_revisions con REVISION_EPOCH_TS")
  case (Inl e)
  then show ?thesis using scan_revisions_Inr [of con REVISION_EPOCH_TS]
    by (auto simp: run_reachability_def)
next
  case (Inr revs)
  then obtain led rows where c: "db_ledger con = Some led" "db_ledger_has_revision con" "db_regime con = Some rows"
      "db_has_revision con"
    and revs: "revs = map (\<lambda>(k, g). (k, cited_entry g)) (group_by citation_key (post_epoch REVISION_EPOCH_TS led rows))"
    by (auto simp: scan_revisions_Inr)
  have "filter (\<lambda>l. rl_status l \<noteq> Attributed) (revision_lines repo revs) = []
      \<longleftrightarrow> list_all (\<lambda>c. revision_resolvable (collected repo) (citation_key c)) (post_epoch REVISION_EPOCH_TS led rows)"
    by (auto simp: filter_empty_conv revs set_revision_lines cited_line_def list_all_iff simp flip: attributed_iff)
  with Inr c show ?thesis by (simp add: run_reachability_def Let_def)
qed

lemma resolvable_mono:
  "(\<And>sha. g sha \<Longrightarrow> g' sha) \<Longrightarrow> revision_resolvable g sha \<Longrightarrow> revision_resolvable g' sha"
  by (simp add: revision_resolvable_def)

lemma offenders_none:
  "(\<And>r. r \<in> set rows \<Longrightarrow> revision_resolvable git (rev_key (stamp r))) \<Longrightarrow> offenders_by git key stamp rows = []"
  using offenders_by_keys [of git key stamp rows] by (cases "offenders_by git key stamp rows") auto

lemma clear_gate_changes_nothing:
  assumes "rg_structure gate = []" "rg_direction gate = []"
  shows "apply_revision_gate gate rows = rows"
proof -
  have "revision_gate_row gate = id"
    using assms by (simp add: fun_eq_iff revision_gate_row_def revision_offenders_def gate_entry_def)
  then show ?thesis by (simp add: apply_revision_gate_def)
qed

text \<open>
  A pass is a promise about the grader: no verdict is stripped by the code-revision gate, today or
  after the repository has lost commits, as long as what is lost is reached by no ref.
\<close>

theorem passing_check_outlives_collection:
  assumes "snd (run_reachability repo (Some con)) = 0" and "\<And>sha. collected repo sha \<Longrightarrow> later sha"
  shows "apply_revision_gate (revision_gate later con) rows = rows"
proof -
  obtain led rs where c: "db_ledger con = Some led" "db_ledger_has_revision con" "db_regime con = Some rs" "db_has_revision con"
    and ok: "list_all (\<lambda>c. revision_resolvable (collected repo) (citation_key c)) (post_epoch REVISION_EPOCH_TS led rs)"
    using assms(1) unfolding reachability_passes_iff by blast
  have ok: "revision_resolvable later (citation_key c)" if "c \<in> set (post_epoch REVISION_EPOCH_TS led rs)" for c
    using ok that resolvable_mono [of "collected repo" later, OF assms(2)] by (auto simp: list_all_iff)
  have "offenders_by later ro_kind ro_revision (filter (\<lambda>r. REVISION_EPOCH_TS \<le> ro_ts r) rs) = []"
  proof (rule offenders_none)
    show "revision_resolvable later (rev_key (ro_revision r))" if "r \<in> set (filter (\<lambda>r. REVISION_EPOCH_TS \<le> ro_ts r) rs)" for r
      using ok [of "regime_citation r"] that by (auto simp: post_epoch_def regime_citation_def citation_key_def)
  qed
  moreover have "offenders_by later ledger_horizon pl_revision (filter (\<lambda>r. REVISION_EPOCH_TS \<le> pl_at r) led) = []"
  proof (rule offenders_none)
    show "revision_resolvable later (rev_key (pl_revision r))" if "r \<in> set (filter (\<lambda>r. REVISION_EPOCH_TS \<le> pl_at r) led)" for r
      using ok [of "ledger_citation r"] that by (auto simp: post_epoch_def ledger_citation_def citation_key_def)
  qed
  ultimately show ?thesis using c by (intro clear_gate_changes_nothing) (simp_all add: revision_gate_def)
qed

text \<open>The families of the lines of a status, and the families a gate strips, in the report's names.\<close>

definition reported :: "(attribution \<Rightarrow> bool) \<Rightarrow> revision_line list \<Rightarrow> string set" where
  "reported P offs = (\<Union>l \<in> {l \<in> set offs. P (rl_status l)}. fst ` set (cr_families (rl_use l)))"

definition shown_family :: "string \<Rightarrow> string" where
  "shown_family k = (if k = [] then ''(none)'' else k)"

definition stripped_families :: "revision_gate_result \<Rightarrow> string set" where
  "stripped_families gate = shown_family ` fst ` (set (rg_structure gate) \<union> set (rg_direction gate))"

lemma label_citations:
  "family_label (regime_citation r) = shown_family (ro_kind r)"
  "family_label (ledger_citation q) = shown_family (ledger_horizon q)"
  "citation_key (regime_citation r) = rev_key (ro_revision r)"
  "citation_key (ledger_citation q) = rev_key (pl_revision q)"
  "ci_ts (regime_citation r) = ro_ts r" "ci_ts (ledger_citation q) = pl_at q"
  by (simp_all add: family_label_def shown_family_def regime_citation_def ledger_citation_def
      ledger_horizon_def citation_key_def rev_key_def split: option.splits)

lemma cited_families: "fst ` set (cr_families (cited_entry g)) = family_label ` set g"
  by (simp add: cited_entry_def image_image set_group_by_image)

lemma reported_lines:
  "reported P (filter (\<lambda>l. rl_status l \<noteq> Attributed) (revision_lines repo
      (map (\<lambda>(k, g). (k, cited_entry g)) (group_by citation_key cs))))
   = family_label ` {c \<in> set cs. attribute_revision repo (citation_key c) \<noteq> Attributed
        \<and> P (attribute_revision repo (citation_key c))}"
  (is "?lhs = family_label ` ?C")
proof -
  have "{l \<in> set (filter (\<lambda>l. rl_status l \<noteq> Attributed) (revision_lines repo
      (map (\<lambda>(k, g). (k, cited_entry g)) (group_by citation_key cs)))). P (rl_status l)} = cited_line repo cs ` ?C"
    unfolding set_filter set_revision_lines by (auto simp: cited_line_def)
  then have "?lhs = (\<Union>c \<in> ?C. family_label ` {x \<in> set cs. citation_key x = citation_key c})"
    by (simp add: reported_def cited_line_def cited_families)
  also have "\<dots> = family_label ` (\<Union>c \<in> ?C. {x \<in> set cs. citation_key x = citation_key c})"
    by (simp only: image_UN)
  also have "(\<Union>c \<in> ?C. {x \<in> set cs. citation_key x = citation_key c}) = ?C"
    by (rule set_eqI) (simp, metis)
  finally show ?thesis .
qed

lemma stripped_rows:
  assumes "db_ledger con = Some led" "db_ledger_has_revision con" "db_regime con = Some rows" "db_has_revision con"
  shows "stripped_families (revision_gate git con)
    = family_label ` {c \<in> set (post_epoch REVISION_EPOCH_TS led rows). \<not> revision_resolvable git (citation_key c)}"
proof -
  have "{c \<in> set (post_epoch REVISION_EPOCH_TS led rows). \<not> revision_resolvable git (citation_key c)}
      = ledger_citation ` {q \<in> set led. REVISION_EPOCH_TS \<le> pl_at q \<and> \<not> revision_resolvable git (rev_key (pl_revision q))}
      \<union> regime_citation ` {r \<in> set rows. REVISION_EPOCH_TS \<le> ro_ts r \<and> \<not> revision_resolvable git (rev_key (ro_revision r))}"
    by (auto simp: post_epoch_def label_citations)
  then show ?thesis using assms
    by (simp add: stripped_families_def revision_gate_def offenders_by_keys image_Un image_image label_citations
        Un_commute conj_assoc)
qed

text \<open>
  C36. An alarm names exactly what the grader will do: the families on its unresolvable lines are those
  the code-revision gate strips now, and the families on all its lines are those the gate strips once
  everything no ref reaches has been collected.
\<close>

theorem alarm_names_the_families:
  assumes "fst (run_reachability repo (Some con)) = Some (offs, n)"
  shows "reported (\<lambda>s. s = Unresolvable) offs = stripped_families (revision_gate (gr_resolves repo) con)
    \<and> reported (\<lambda>_. True) offs = stripped_families (revision_gate (collected repo) con)"
proof -
  obtain led rows where c: "db_ledger con = Some led" "db_ledger_has_revision con" "db_regime con = Some rows" "db_has_revision con"
    and offs: "offs = filter (\<lambda>l. rl_status l \<noteq> Attributed) (revision_lines repo
        (map (\<lambda>(k, g). (k, cited_entry g)) (group_by citation_key (post_epoch REVISION_EPOCH_TS led rows))))"
    using assms by (auto simp: run_reachability_def scan_revisions_Inr Let_def split: sum.splits)
  show ?thesis unfolding offs reported_lines stripped_rows [OF c]
    by (simp add: attributed_iff unresolvable_iff) (auto simp flip: attributed_iff unresolvable_iff)
qed

section \<open>Instances\<close>

text \<open>
  A commit whose ref was deleted still resolves: the gate strips nothing today, the check says that
  the family 1w will be stripped, and after the collection it is.
\<close>

definition orphan_repo :: git_repo where
  "orphan_repo = \<lparr>gr_resolves = (\<lambda>s. s \<in> {''kept'', ''orphan''}),
     gr_unreached = (\<lambda>s. if s = ''kept'' then Some [] else if s = ''orphan'' then Some ''orphan'' else None)\<rparr>"

definition cited_db :: "string \<Rightarrow> database" where
  "cited_db sha = empty_db\<lparr>db_has_revision := True, db_regime := Some [], db_ledger_has_revision := True,
     db_ledger := Some [\<lparr>pl_at = REVISION_EPOCH_TS, pl_horizon = Some ''1d'', pl_revision = Some ''kept''\<rparr>,
       \<lparr>pl_at = REVISION_EPOCH_TS, pl_horizon = Some ''1w'', pl_revision = Some sha\<rparr>]\<rparr>"

theorem alarm_names_the_families_witness:
  "\<exists>offs. run_reachability orphan_repo (Some (cited_db ''orphan'')) = (Some (offs, 2), 1)
     \<and> reported (\<lambda>_. True) offs = {''1w''}
     \<and> stripped_families (revision_gate (collected orphan_repo) (cited_db ''orphan'')) = {''1w''}
     \<and> stripped_families (revision_gate (gr_resolves orphan_repo) (cited_db ''orphan'')) = {}"
proof -
  have r: "run_reachability orphan_repo (Some (cited_db ''orphan''))
      = (Some ([\<lparr>rl_key = ''orphan'', rl_status = Unreachable,
          rl_use = \<lparr>cr_families = [(''1w'', 1)], cr_newest = REVISION_EPOCH_TS\<rparr>\<rparr>], 2), 1)"
    by code_simp
  then show ?thesis using alarm_names_the_families [of orphan_repo "cited_db ''orphan''"]
    by (auto simp: reported_def)
qed

theorem passing_check_outlives_collection_witness:
  "snd (run_reachability orphan_repo (Some (cited_db ''kept''))) = 0
   \<and> apply_revision_gate (revision_gate (\<lambda>s. s = ''kept'') (cited_db ''kept'')) sample_rows = sample_rows"
proof -
  have z: "snd (run_reachability orphan_repo (Some (cited_db ''kept''))) = 0" by code_simp
  have "apply_revision_gate (revision_gate (\<lambda>s. s = ''kept'') (cited_db ''kept'')) sample_rows = sample_rows"
    by (rule passing_check_outlives_collection [OF z])
      (auto simp: collected_def orphan_repo_def reachable_def strip_def is_ws_def split: if_splits)
  with z show ?thesis by simp
qed

end
