(* ===== verification/Accuracy_Goals.thy ===== *)
theory Accuracy_Goals
  imports Skill_Record Market_Tables
begin

text \<open>
  \<open>ops/accuracy_gates.py\<close> and \<open>ops/accuracy_baseline.py\<close>: the gates and the success criterion of the
  self-improvement loop. Both read the forecasts through the same fold, one observation per symbol,
  horizon and UTC day; the gates ask whether a day has collapsed onto one side and whether the record
  beats the majority side, the baseline compares fifteen figures with frozen ones. A group without an
  order comes out in the order of its key. The baseline file is the typed content the tool itself
  writes; printing, the time stamp and the self-test are left out.
\<close>

section \<open>One observation per key\<close>

record goal_obs =
  ob_symbol :: int
  ob_horizon :: string
  ob_day :: int
  ob_prob :: real
  ob_up :: int

definition mean_by :: "('a \<Rightarrow> real) \<Rightarrow> 'a list \<Rightarrow> real" where
  "mean_by f xs = (\<Sum>x\<leftarrow>xs. f x) / of_nat (length xs)"

definition avg_by :: "('a \<Rightarrow> real) \<Rightarrow> 'a list \<Rightarrow> real option" where
  "avg_by f xs = (if xs = [] then None else Some (mean_by f xs))"

definition obs_key :: "outcome_row \<Rightarrow> int \<times> string \<times> int" where
  "obs_key r = (po_symbol r, po_horizon r, po_ts r div 86400)"

definition folded :: "(int \<times> string \<times> int) \<times> outcome_row list \<Rightarrow> goal_obs" where
  "folded = (\<lambda>((s, h, d), g). \<lparr>ob_symbol = s, ob_horizon = h, ob_day = d,
     ob_prob = mean_by (\<lambda>r. the (po_prob r)) g, ob_up = the (max_opt (map (\<lambda>r. the (po_up r)) g))\<rparr>)"

definition goal_fold :: "outcome_row list \<Rightarrow> goal_obs list" where
  "goal_fold rows =
     map folded (group_by obs_key (filter (\<lambda>r. po_prob r \<noteq> None \<and> po_up r \<noteq> None) rows))"

definition at_horizon :: "string \<Rightarrow> goal_obs list \<Rightarrow> goal_obs list" where
  "at_horizon h obs = filter (\<lambda>x. ob_horizon x = h) obs"

definition issued_obs :: "goal_obs list \<Rightarrow> goal_obs list" where
  "issued_obs obs = filter (\<lambda>x. ob_prob x \<noteq> 1 / 2) obs"

definition called_right :: "goal_obs \<Rightarrow> bool" where
  "called_right x \<longleftrightarrow> (ob_prob x > 1 / 2 \<and> ob_up x = 1) \<or> (ob_prob x < 1 / 2 \<and> ob_up x = 0)"

section \<open>The gates\<close>

definition up_share :: "goal_obs list \<Rightarrow> real" where
  "up_share g = mean_by (\<lambda>x. if ob_prob x > 1 / 2 then 1 else 0) g"

definition sql_limit :: "int \<Rightarrow> 'a list \<Rightarrow> 'a list" where
  "sql_limit n xs = (if n < 0 then xs else take (nat n) xs)"

definition xsection_days :: "string \<Rightarrow> int \<Rightarrow> outcome_row list \<Rightarrow> (int \<times> int \<times> real) list" where
  "xsection_days h days rows =
     sql_limit days (rev (map (\<lambda>(d, g). (d, int (length g), up_share g))
       (group_by ob_day (at_horizon h (goal_fold rows)))))"

text \<open>The status; \<^term>\<open>None\<close> is a database that does not open or has no table, which raises.\<close>

definition gate_xsection :: "string \<Rightarrow> int \<Rightarrow> real \<Rightarrow> real \<Rightarrow> outcome_row list option \<Rightarrow> nat" where
  "gate_xsection h days lo hi table =
     (case table of
        None \<Rightarrow> 1
      | Some rows \<Rightarrow>
          (let shown = xsection_days h days rows
           in if shown = [] then 1
              else if list_ex (\<lambda>(_, _, u). u < lo \<or> hi < u) shown then 1 else 0))"

definition day_calls :: "goal_obs list \<Rightarrow> int \<times> real" where
  "day_calls g = (int (length (issued_obs g)), of_int (count_if called_right (issued_obs g)))"

definition naive_day_rows :: "string \<Rightarrow> outcome_row list \<Rightarrow> (int \<times> real) list" where
  "naive_day_rows h rows =
     filter (\<lambda>(n, _). 0 < n) (map (\<lambda>(_, g). day_calls g) (group_by ob_day (at_horizon h (goal_fold rows))))"

record naive_figures =
  nf_eligible :: int
  nf_issued :: int
  nf_up_rate :: "real option"

definition naive_pool :: "string \<Rightarrow> outcome_row list \<Rightarrow> naive_figures" where
  "naive_pool h rows =
     (let obs = at_horizon h (goal_fold rows)
      in \<lparr>nf_eligible = int (length obs), nf_issued = int (length (issued_obs obs)),
          nf_up_rate = avg_by (\<lambda>x. of_int (ob_up x)) (issued_obs obs)\<rparr>)"

definition folded_majority :: "real \<Rightarrow> real" where
  "folded_majority up_rate = max up_rate (1 - up_rate)"

definition pooled_accuracy :: "(int \<times> real) list \<Rightarrow> real" where
  "pooled_accuracy days =
     (let n = sum_list (map fst days)
      in if n = 0 then 0 else sum_list (map snd days) / of_int n)"

definition naive_tallies :: "real \<Rightarrow> (int \<times> real) list \<Rightarrow> skill_tally list" where
  "naive_tallies naive days = map (\<lambda>(n, h). (n, h, of_int n * naive)) days"

definition gate_beats_naive :: "string \<Rightarrow> real \<Rightarrow> nat list list \<Rightarrow> outcome_row list option \<Rightarrow> nat" where
  "gate_beats_naive h min_issue_rate picks table =
     (case table of
        None \<Rightarrow> 1
      | Some rows \<Rightarrow>
          (let pool = naive_pool h rows; days = naive_day_rows h rows
           in if nf_issued pool = 0 then 1
              else case nf_up_rate pool of
                     None \<Rightarrow> 1
                   | Some up_rate \<Rightarrow>
                       (let res = skill_resolvable (naive_tallies (folded_majority up_rate) days) picks
                        in if of_int (nf_issued pool) / of_int (nf_eligible pool) < min_issue_rate then 1
                           else if \<not> rs_resolvable res then 2
                           else if rs_hi res < 0 then 1
                           else 0)))"

section \<open>The figures of the baseline\<close>

record goal_db =
  gd_outcomes :: "outcome_row list option"
  gd_regime :: "regime_row list option"
  gd_has_naive :: bool

record goal_stat =
  gs_value :: "real option"
  gs_higher :: bool
  gs_guard :: "string option"

type_synonym goal_stats = "(string \<times> goal_stat) list"

definition stat :: "real option \<Rightarrow> goal_stat" where
  "stat v = \<lparr>gs_value = v, gs_higher = True, gs_guard = None\<rparr>"

text \<open>The six entries of a horizon: accuracy and lift are guarded by coverage.\<close>

definition horizon_entries ::
    "string \<Rightarrow> real option \<Rightarrow> real \<Rightarrow> real option \<Rightarrow> real option \<Rightarrow> real option \<Rightarrow> real option \<Rightarrow> goal_stats" where
  "horizon_entries h coverage n acc naive lifted brier =
     [(''coverage_'' @ h, stat coverage), (''n_'' @ h, stat (Some n)),
      (''acc_'' @ h, (stat acc)\<lparr>gs_guard := Some (''coverage_'' @ h)\<rparr>), (''naive_'' @ h, stat naive),
      (''lift_'' @ h, (stat lifted)\<lparr>gs_guard := Some (''coverage_'' @ h)\<rparr>),
      (''brier_'' @ h, (stat brier)\<lparr>gs_higher := False\<rparr>)]"

text \<open>Their values; a statement that fails answers nothing.\<close>

definition horizon_stats :: "outcome_row list option \<Rightarrow> string \<Rightarrow> goal_stats" where
  "horizon_stats table h =
     (let obs = (case table of None \<Rightarrow> [] | Some rows \<Rightarrow> at_horizon h (goal_fold rows));
          calls = issued_obs obs;
          coverage = (if obs = [] then None else Some (of_nat (length calls) / of_nat (length obs)));
          acc = avg_by (\<lambda>x. if called_right x then 1 else 0) calls;
          naive = map_option folded_majority (avg_by (\<lambda>x. of_int (ob_up x)) calls);
          lifted = Option.bind acc (\<lambda>a. map_option (\<lambda>n. a - n) naive);
          brier = avg_by (\<lambda>x. (ob_prob x - of_int (ob_up x)) * (ob_prob x - of_int (ob_up x))) calls
      in horizon_entries h coverage (of_nat (length calls)) acc naive lifted brier)"

definition structural_stats :: "goal_db \<Rightarrow> goal_stats" where
  "structural_stats db =
     (let rows = (case gd_regime db of None \<Rightarrow> [] | Some rs \<Rightarrow> rs);
          graded = filter (\<lambda>r. ro_correct r \<noteq> None) rows;
          paired = filter (\<lambda>r. ro_actual r \<noteq> None \<and> ro_naive r \<noteq> None) graded;
          correct = (\<lambda>r. of_int (the (ro_correct r)))
      in [(''structural_graded_frac'', stat (if rows = [] then None
             else Some (of_nat (length graded) / of_nat (length rows)))),
          (''structural_acc'', stat (avg_by correct graded)),
          (''structural_lift'', stat (if \<not> gd_has_naive db \<or> paired = [] then None
             else Some (mean_by correct paired - mean_by (\<lambda>r. if ro_naive r = ro_actual r then 1 else 0) paired)))])"

definition compute_stats :: "goal_db \<Rightarrow> goal_stats" where
  "compute_stats db =
     horizon_stats (gd_outcomes db) ''1d'' @ horizon_stats (gd_outcomes db) ''1w'' @ structural_stats db"

section \<open>Progress\<close>

definition pct_change :: "bool \<Rightarrow> real option \<Rightarrow> real option \<Rightarrow> real option" where
  "pct_change higher base cur =
     (case (base, cur) of
        (Some b, Some c) \<Rightarrow>
          if b = 0 then None
          else Some ((if higher then c - b else b - c) / \<bar>b\<bar> * 100)
      | _ \<Rightarrow> None)"

record goal_verdict =
  gp_base :: "real option"
  gp_now :: "real option"
  gp_change :: "real option"
  gp_met :: bool
  gp_blocked :: "string option"

definition guard_change :: "goal_stats \<Rightarrow> goal_stats \<Rightarrow> string \<Rightarrow> real option" where
  "guard_change base cur g =
     pct_change
       (case map_of cur g of Some s \<Rightarrow> gs_higher s
         | None \<Rightarrow> (case map_of base g of Some s \<Rightarrow> gs_higher s | None \<Rightarrow> True))
       (Option.bind (map_of base g) gs_value) (Option.bind (map_of cur g) gs_value)"

definition progress_entry ::
    "goal_stats \<Rightarrow> goal_stats \<Rightarrow> real \<Rightarrow> real \<Rightarrow> goal_stat \<Rightarrow> goal_stat \<Rightarrow> goal_verdict" where
  "progress_entry base cur target tol b c =
     (let change = pct_change (gs_higher c) (gs_value b) (gs_value c);
          met = (case change of None \<Rightarrow> False | Some p \<Rightarrow> target - 1 / 10 ^ 9 \<le> p);
          guard = (case gs_guard c of Some g \<Rightarrow> Some g | None \<Rightarrow> gs_guard b);
          blocked = (case guard of
                       Some g \<Rightarrow> if g \<noteq> [] \<and> met
                          \<and> (case guard_change base cur g of None \<Rightarrow> False | Some p \<Rightarrow> p < - tol)
                          then Some g else None
                     | None \<Rightarrow> None)
      in \<lparr>gp_base = gs_value b, gp_now = gs_value c, gp_change = change,
          gp_met = (met \<and> blocked = None), gp_blocked = blocked\<rparr>)"

definition goal_progress :: "goal_stats \<Rightarrow> goal_stats \<Rightarrow> real \<Rightarrow> real \<Rightarrow> (string \<times> goal_verdict) list" where
  "goal_progress base cur target tol =
     List.map_filter (\<lambda>k. case (map_of base k, map_of cur k) of
         (Some b, Some c) \<Rightarrow> Some (k, progress_entry base cur target tol b c)
       | _ \<Rightarrow> None) (remdups (sort (map fst base)))"

section \<open>The command\<close>

record goal_args =
  ga_snapshot :: bool
  ga_force :: bool
  ga_report :: bool
  ga_require :: bool
  ga_json :: bool
  ga_target :: real
  ga_tol :: real

text \<open>The baseline file after the run, the progress written, and the status.\<close>

type_synonym goal_outcome = "goal_stats option \<times> (string \<times> goal_verdict) list option \<times> nat"

text \<open>The counts are bound only where the table is printed; reading them elsewhere raises.\<close>

definition goal_report :: "goal_args \<Rightarrow> goal_stats option \<Rightarrow> goal_db option \<Rightarrow> goal_outcome" where
  "goal_report a file db =
     (case file of
        None \<Rightarrow> (file, None, 2)
      | Some base \<Rightarrow>
          (case db of
             None \<Rightarrow> (file, None, 1)
           | Some con \<Rightarrow>
               (let prog = goal_progress base (compute_stats con) (ga_target a) (ga_tol a);
                    met = count_if (\<lambda>(_, e). gp_met e) prog;
                    behind = (if ga_json a then None else Some (met < int (length prog)))
                in (file, Some prog,
                    if \<not> ga_require a then 0
                    else case behind of None \<Rightarrow> 1 | Some b \<Rightarrow> if b then 1 else 0))))"

definition goal_main :: "goal_args \<Rightarrow> goal_stats option \<Rightarrow> goal_db option \<Rightarrow> goal_outcome" where
  "goal_main a file db =
     (let report = (if \<not> ga_snapshot a \<and> \<not> ga_report a then file \<noteq> None else ga_report a);
          snapshot = (ga_snapshot a \<or> \<not> ga_report a \<and> \<not> report)
      in if snapshot
         then if file \<noteq> None \<and> \<not> ga_force a then (file, None, 2)
              else case db of None \<Rightarrow> (file, None, 1) | Some con \<Rightarrow> (Some (compute_stats con), None, 0)
         else if report then goal_report a file db else (file, None, 0))"

section \<open>Replication decides nothing\<close>

lemma filter_copies: "filter P (concat (replicate k xs)) = concat (replicate k (filter P xs))"
  by (induction k) simp_all

lemma sum_copies: "(\<Sum>x\<leftarrow>concat (replicate k xs). f x) = of_nat k * (\<Sum>x\<leftarrow>xs. f x)" for f :: "'a \<Rightarrow> real"
  by (induction k) (simp_all add: algebra_simps)

lemma length_copies: "length (concat (replicate k xs)) = k * length xs"
  by (induction k) simp_all

lemma mean_copies: "mean_by f (concat (replicate (Suc k) xs)) = mean_by f xs"
  unfolding mean_by_def sum_copies length_copies of_nat_mult by simp

lemma set_copies: "set (concat (replicate (Suc k) xs)) = set xs"
  by (induction k) auto

lemma sorted_keys_unique: "set xs = set ys \<Longrightarrow> remdups (sort xs) = remdups (sort ys)" for xs :: "'k::linorder list"
  by (rule sorted_distinct_set_unique) (simp_all add: sorted_remdups)

lemma group_by_copies:
  "group_by f (concat (replicate (Suc k) xs)) = map (\<lambda>(c, g). (c, concat (replicate (Suc k) g))) (group_by f xs)"
proof -
  have "set (map f (concat (replicate (Suc k) xs))) = set (map f xs)"
    unfolding set_map set_copies ..
  then have "remdups (sort (map f (concat (replicate (Suc k) xs)))) = remdups (sort (map f xs))"
    by (rule sorted_keys_unique)
  then show ?thesis by (simp only: group_by_def filter_copies map_map comp_def case_prod_conv)
qed

lemma max_opt_set:
  assumes "set xs = set ys"
  shows "max_opt xs = max_opt ys"
proof -
  have e: "max_opt xs = Some m \<longleftrightarrow> max_opt ys = Some m" for m by (simp only: max_opt_Some assms)
  show ?thesis
  proof (cases "max_opt ys")
    case None
    then show ?thesis using assms by simp
  next
    case (Some m)
    with e [of m] show ?thesis by simp
  qed
qed

lemma max_opt_copies: "max_opt (map f (concat (replicate (Suc k) xs))) = max_opt (map f xs)" for f :: "'a \<Rightarrow> int"
  by (rule max_opt_set) (simp only: set_map set_copies)

lemma folded_copies: "folded (c, concat (replicate (Suc k) g)) = folded (c, g)"
  unfolding folded_def by (simp only: case_prod_conv mean_copies max_opt_copies split: prod.split) simp

lemma goal_fold_copies: "goal_fold (concat (replicate (Suc k) rows)) = goal_fold rows"
  unfolding goal_fold_def filter_copies group_by_copies map_map
  by (rule map_cong [OF refl]) (simp only: comp_def folded_copies case_prod_unfold prod.collapse)

text \<open>
  C38. Counting every forecast several times changes nothing: with each row of the table repeated, both
  gates exit as before and all fifteen figures stay what they are.
\<close>

theorem replicas_decide_nothing:
  fixes rows :: "outcome_row list" and k :: nat
  defines "copies \<equiv> concat (replicate (Suc k) rows)"
  shows "gate_xsection h days lo hi (Some copies) = gate_xsection h days lo hi (Some rows)
    \<and> gate_beats_naive h least picks (Some copies) = gate_beats_naive h least picks (Some rows)
    \<and> compute_stats (db\<lparr>gd_outcomes := Some copies\<rparr>) = compute_stats (db\<lparr>gd_outcomes := Some rows\<rparr>)"
proof (intro conjI)
  have f: "goal_fold copies = goal_fold rows" unfolding copies_def by (rule goal_fold_copies)
  show "gate_xsection h days lo hi (Some copies) = gate_xsection h days lo hi (Some rows)"
    by (simp add: gate_xsection_def xsection_days_def f)
  show "gate_beats_naive h least picks (Some copies) = gate_beats_naive h least picks (Some rows)"
    by (simp add: gate_beats_naive_def naive_pool_def naive_day_rows_def f)
  show "compute_stats (db\<lparr>gd_outcomes := Some copies\<rparr>) = compute_stats (db\<lparr>gd_outcomes := Some rows\<rparr>)"
    by (simp add: compute_stats_def horizon_stats_def structural_stats_def f)
qed

section \<open>The two tools read the same record\<close>

definition goal_value :: "goal_stats \<Rightarrow> string \<Rightarrow> real option" where
  "goal_value stats k = Option.bind (map_of stats k) gs_value"

lemma horizon_values:
  fixes table h
  defines "obs \<equiv> (case table of None \<Rightarrow> [] | Some rows \<Rightarrow> at_horizon h (goal_fold rows))"
  shows "goal_value (horizon_stats table h) (''coverage_'' @ h)
      = (if obs = [] then None else Some (of_nat (length (issued_obs obs)) / of_nat (length obs)))"
    and "goal_value (horizon_stats table h) (''acc_'' @ h) = avg_by (\<lambda>x. if called_right x then 1 else 0) (issued_obs obs)"
    and "goal_value (horizon_stats table h) (''naive_'' @ h)
      = map_option folded_majority (avg_by (\<lambda>x. of_int (ob_up x)) (issued_obs obs))"
    and "goal_value (horizon_stats table h) (''lift_'' @ h)
      = Option.bind (goal_value (horizon_stats table h) (''acc_'' @ h)) (\<lambda>a.
          map_option (\<lambda>n. a - n) (goal_value (horizon_stats table h) (''naive_'' @ h)))"
  by (simp_all add: goal_value_def horizon_stats_def horizon_entries_def Let_def stat_def obs_def)

lemma sum_called: "(\<Sum>x\<leftarrow>xs. if called_right x then 1 else (0 :: real)) = of_int (count_if called_right xs)"
  by (induction xs) simp_all

lemma issued_filter: "issued_obs (filter P xs) = filter P (issued_obs xs)"
  by (simp add: issued_obs_def conj_commute)

lemma pooled_days:
  fixes obs
  defines "days \<equiv> filter (\<lambda>(n, _). 0 < n) (map (\<lambda>(_, g). day_calls g) (group_by ob_day obs))"
  shows "sum_list (map fst days) = int (length (issued_obs obs))"
    and "sum_list (map snd days) = of_int (count_if called_right (issued_obs obs))"
proof -
  have zero: "fst (day_calls g) = 0 \<Longrightarrow> snd (day_calls g) = 0" "0 \<le> fst (day_calls g)" for g
    by (simp_all add: day_calls_def)
  have n: "sum_list (map fst (filter (\<lambda>(n, _). 0 < n) (map (\<lambda>(_, g). day_calls g) gs)))
      = (\<Sum>(_, g)\<leftarrow>gs. fst (day_calls g))" for gs :: "(int \<times> goal_obs list) list"
    using zero(2) by (induction gs) (auto simp: case_prod_unfold not_less order_antisym)
  have s: "sum_list (map snd (filter (\<lambda>(n, _). 0 < n) (map (\<lambda>(_, g). day_calls g) gs)))
      = (\<Sum>(_, g)\<leftarrow>gs. snd (day_calls g))" for gs :: "(int \<times> goal_obs list) list"
    using zero by (induction gs) (auto simp: case_prod_unfold not_less order_antisym)
  have g1: "fst (day_calls g) = (\<Sum>x\<leftarrow>g. if ob_prob x \<noteq> 1 / 2 then 1 else 0)" for g
    by (induction g) (simp_all add: day_calls_def issued_obs_def)
  have g2: "snd (day_calls g) = (\<Sum>x\<leftarrow>g. if ob_prob x \<noteq> 1 / 2 \<and> called_right x then 1 else 0)" for g
    by (induction g) (simp_all add: day_calls_def issued_obs_def)
  show "sum_list (map fst days) = int (length (issued_obs obs))"
    unfolding days_def n g1 sum_group using g1 [of obs] by (simp add: day_calls_def)
  show "sum_list (map snd days) = of_int (count_if called_right (issued_obs obs))"
    unfolding days_def s g2 sum_group using g2 [of obs] by (simp add: day_calls_def)
qed

text \<open>
  The gate and the baseline agree: coverage is the gate's issue rate, the naive figure its folded
  majority, the accuracy the one it pools from its days, and the lift their difference.
\<close>

theorem gate_agrees_with_baseline:
  fixes h rows
  defines "stats \<equiv> horizon_stats (Some rows) h" and "pool \<equiv> naive_pool h rows"
  shows "goal_value stats (''coverage_'' @ h)
      = (if nf_eligible pool = 0 then None else Some (of_int (nf_issued pool) / of_int (nf_eligible pool)))
    \<and> goal_value stats (''acc_'' @ h)
      = (if nf_issued pool = 0 then None else Some (pooled_accuracy (naive_day_rows h rows)))
    \<and> goal_value stats (''naive_'' @ h) = map_option folded_majority (nf_up_rate pool)
    \<and> goal_value stats (''lift_'' @ h)
      = map_option (\<lambda>u. pooled_accuracy (naive_day_rows h rows) - folded_majority u) (nf_up_rate pool)"
proof (intro conjI)
  have days: "sum_list (map fst (naive_day_rows h rows)) = int (length (issued_obs (at_horizon h (goal_fold rows))))"
    "sum_list (map snd (naive_day_rows h rows))
      = of_int (count_if called_right (issued_obs (at_horizon h (goal_fold rows))))"
    unfolding naive_day_rows_def by (rule pooled_days)+
  have pool: "nf_eligible pool = int (length (at_horizon h (goal_fold rows)))"
    "nf_issued pool = int (length (issued_obs (at_horizon h (goal_fold rows))))"
    "nf_up_rate pool = avg_by (\<lambda>x. of_int (ob_up x)) (issued_obs (at_horizon h (goal_fold rows)))"
    by (simp_all add: pool_def naive_pool_def Let_def)
  have acc: "avg_by (\<lambda>x. if called_right x then 1 else 0) (issued_obs (at_horizon h (goal_fold rows)))
      = (if nf_issued pool = 0 then None else Some (pooled_accuracy (naive_day_rows h rows)))"
    by (simp add: avg_by_def mean_by_def sum_called pool pooled_accuracy_def days Let_def)
  show "goal_value stats (''coverage_'' @ h)
      = (if nf_eligible pool = 0 then None else Some (of_int (nf_issued pool) / of_int (nf_eligible pool)))"
    unfolding stats_def horizon_values option.case pool by simp
  show "goal_value stats (''acc_'' @ h)
      = (if nf_issued pool = 0 then None else Some (pooled_accuracy (naive_day_rows h rows)))"
    unfolding stats_def horizon_values option.case by (rule acc)
  show "goal_value stats (''naive_'' @ h) = map_option folded_majority (nf_up_rate pool)"
    unfolding stats_def horizon_values option.case pool by simp
  show "goal_value stats (''lift_'' @ h)
      = map_option (\<lambda>u. pooled_accuracy (naive_day_rows h rows) - folded_majority u) (nf_up_rate pool)"
    unfolding stats_def horizon_values option.case acc by (simp add: pool avg_by_def)
qed

section \<open>What a pass means\<close>

lemma resolvable_above:
  "rs_resolvable (skill_resolvable ts picks) \<and> \<not> rs_hi (skill_resolvable ts picks) < 0
   \<longleftrightarrow> 0 < rs_lo (skill_resolvable ts picks) \<and> 0 \<le> rs_hi (skill_resolvable ts picks)"
  by (auto simp: skill_resolvable_def refuse_skill_def Let_def)

lemma resolvable_two_days: "0 < rs_lo (skill_resolvable ts picks) \<Longrightarrow> 2 \<le> length ts"
  by (auto simp: skill_resolvable_def refuse_skill_def Let_def split: if_splits)

text \<open>
  The majority gate passes exactly when something was called, enough was called, and the day-blocked
  interval of accuracy over the majority side lies above zero; then there are two days or more. One
  day of evidence, or an interval that contains zero, never passes.
\<close>

theorem beats_naive_passes_iff:
  "gate_beats_naive h least picks (Some rows) = 0 \<longleftrightarrow>
     (\<exists>u. nf_issued (naive_pool h rows) \<noteq> 0 \<and> nf_up_rate (naive_pool h rows) = Some u
        \<and> least \<le> of_int (nf_issued (naive_pool h rows)) / of_int (nf_eligible (naive_pool h rows))
        \<and> 2 \<le> length (naive_day_rows h rows)
        \<and> 0 < rs_lo (skill_resolvable (naive_tallies (folded_majority u) (naive_day_rows h rows)) picks)
        \<and> 0 \<le> rs_hi (skill_resolvable (naive_tallies (folded_majority u) (naive_day_rows h rows)) picks))"
proof (cases "nf_up_rate (naive_pool h rows)")
  case None
  then show ?thesis by (simp add: gate_beats_naive_def Let_def)
next
  case (Some u)
  let ?r = "skill_resolvable (naive_tallies (folded_majority u) (naive_day_rows h rows)) picks"
  have "0 < rs_lo ?r \<Longrightarrow> 2 \<le> length (naive_day_rows h rows)"
    by (drule resolvable_two_days) (simp add: naive_tallies_def)
  with Some resolvable_above [of "naive_tallies (folded_majority u) (naive_day_rows h rows)" picks]
  show ?thesis by (auto simp: gate_beats_naive_def Let_def not_less)
qed

lemma up_share_bounds: "g \<noteq> [] \<Longrightarrow> list_all (\<lambda>x. 1 / 2 < ob_prob x) g \<Longrightarrow> up_share g = 1"
  "list_all (\<lambda>x. ob_prob x \<le> 1 / 2) g \<Longrightarrow> up_share g = 0"
proof -
  have "(\<Sum>x\<leftarrow>g. if 1 / 2 < ob_prob x then 1 else 0) = (of_nat (length g) :: real)" if "list_all (\<lambda>x. 1 / 2 < ob_prob x) g"
    using that by (induction g) auto
  then show "g \<noteq> [] \<Longrightarrow> list_all (\<lambda>x. 1 / 2 < ob_prob x) g \<Longrightarrow> up_share g = 1"
    by (simp add: up_share_def mean_by_def)
  have "(\<Sum>x\<leftarrow>g. if 1 / 2 < ob_prob x then 1 else 0) = (0 :: real)" if "list_all (\<lambda>x. ob_prob x \<le> 1 / 2) g"
    using that by (induction g) auto
  then show "list_all (\<lambda>x. ob_prob x \<le> 1 / 2) g \<Longrightarrow> up_share g = 0"
    by (simp add: up_share_def mean_by_def)
qed

lemma set_sql_limit: "set (sql_limit n xs) \<subseteq> set xs"
  by (auto simp: sql_limit_def dest: in_set_takeD)

text \<open>
  A collapsed day never passes: behind every day a passing run shows there is a symbol called up and a
  symbol that was not, so one market call published as many forecasts is refused.
\<close>

theorem collapsed_days_are_refused:
  assumes "gate_xsection h days lo hi (Some rows) = 0" and "0 < lo" and "hi < 1"
    and "(d, n, u) \<in> set (xsection_days h days rows)"
  shows "\<exists>x \<in> set (at_horizon h (goal_fold rows)). \<exists>y \<in> set (at_horizon h (goal_fold rows)).
    ob_day x = d \<and> ob_day y = d \<and> 1 / 2 < ob_prob x \<and> ob_prob y \<le> 1 / 2"
proof -
  have "(d, n, u) \<in> set (rev (map (\<lambda>(d, g). (d, int (length g), up_share g))
      (group_by ob_day (at_horizon h (goal_fold rows)))))"
    using assms(4) unfolding xsection_days_def by (rule set_mp [OF set_sql_limit])
  then obtain g where g: "(d, g) \<in> set (group_by ob_day (at_horizon h (goal_fold rows)))" and u: "u = up_share g"
    by auto
  have "\<not> list_ex (\<lambda>(_, _, u). u < lo \<or> hi < u) (xsection_days h days rows)"
    using assms(1) by (simp add: gate_xsection_def Let_def split: if_splits)
  then have band: "lo \<le> u" "u \<le> hi" using assms(4) by (force simp: list_ex_iff not_less)+
  have "\<not> list_all (\<lambda>x. 1 / 2 < ob_prob x) g"
    using up_share_bounds(1) [OF group_nonempty [OF g]] band assms(3) u by auto
  moreover have "\<not> list_all (\<lambda>x. ob_prob x \<le> 1 / 2) g" using up_share_bounds(2) [of g] band assms(2) u by auto
  ultimately obtain x y where "x \<in> set g" "y \<in> set g" "1 / 2 < ob_prob x" "ob_prob y \<le> 1 / 2"
    by (auto simp: list_all_iff not_less not_le)
  with group_keyed [OF g] show ?thesis by blast
qed

section \<open>Abstention\<close>

definition loop_horizons :: "string list" where "loop_horizons = [''1d'', ''1w'']"

text \<open>The entry of a horizon in the fifteen is that of its six.\<close>

lemma map_of_front: "k \<in> fst ` set xs \<Longrightarrow> map_of (xs @ ys) k = map_of xs k"
  by (induction xs) auto

lemma map_of_back: "k \<notin> fst ` set xs \<Longrightarrow> map_of (xs @ ys) k = map_of ys k"
  by (induction xs) auto

lemma entry_keys:
  "fst ` set (horizon_entries h c n a v l b)
   = (\<lambda>q. q @ h) ` {''coverage_'', ''n_'', ''acc_'', ''naive_'', ''lift_'', ''brier_''}"
  by (simp only: horizon_entries_def list.set image_insert image_empty fst_conv)

lemma other_horizon: "(p @ ''1w'' :: string) \<notin> (\<lambda>q. q @ ''1d'') ` S"
proof
  assume "(p @ ''1w'' :: string) \<in> (\<lambda>q. q @ ''1d'') ` S"
  then obtain q where "p @ ''1w'' = (q @ ''1d'' :: string)" by blast
  then have "last (p @ ''1w'') = last (q @ ''1d'')" by (rule arg_cong)
  then show False by simp
qed

lemma entries_lookup:
  assumes "h \<in> set loop_horizons" "p \<in> {''coverage_'', ''acc_'', ''naive_'', ''lift_''}"
  shows "map_of (horizon_entries ''1d'' c n a v l b @ horizon_entries ''1w'' c' n' a' v' l' b' @ ys) (p @ h)
    = map_of (if h = ''1d'' then horizon_entries ''1d'' c n a v l b else horizon_entries ''1w'' c' n' a' v' l' b') (p @ h)"
proof (cases "h = ''1d''")
  case True
  have k: "p @ h \<in> fst ` set (horizon_entries ''1d'' c n a v l b)" using assms(2) by (simp only: entry_keys True) blast
  show ?thesis unfolding map_of_front [OF k] using True by (simp only: if_True simp_thms)
next
  case False
  then have h: "h = ''1w''" using assms(1) by (simp add: loop_horizons_def)
  have nk: "p @ h \<notin> fst ` set (horizon_entries ''1d'' c n a v l b)" unfolding entry_keys h by (rule other_horizon)
  have k: "p @ h \<in> fst ` set (horizon_entries ''1w'' c' n' a' v' l' b')"
    using assms(2) by (simp only: entry_keys h) blast
  show ?thesis unfolding map_of_back [OF nk] map_of_front [OF k] using False by (simp only: if_False)
qed

definition horizon_entry :: "string \<Rightarrow> goal_db \<Rightarrow> string \<Rightarrow> goal_stat option" where
  "horizon_entry p db h = map_of (horizon_stats (gd_outcomes db) h) (p @ h)"

lemma horizon_stats_entries: "\<exists>c n a v l b. horizon_stats table h = horizon_entries h c n a v l b"
  unfolding horizon_stats_def Let_def by (intro exI, rule refl)

lemma stats_lookup:
  assumes "h \<in> set loop_horizons" "p \<in> {''coverage_'', ''acc_'', ''naive_'', ''lift_''}"
  shows "map_of (compute_stats db) (p @ h) = horizon_entry p db h"
proof -
  obtain c n a v l b where d: "horizon_stats (gd_outcomes db) ''1d'' = horizon_entries ''1d'' c n a v l b"
    using horizon_stats_entries by blast
  obtain c' n' a' v' l' b' where w: "horizon_stats (gd_outcomes db) ''1w'' = horizon_entries ''1w'' c' n' a' v' l' b'"
    using horizon_stats_entries by blast
  have "map_of (compute_stats db) (p @ h)
      = map_of (if h = ''1d'' then horizon_stats (gd_outcomes db) ''1d'' else horizon_stats (gd_outcomes db) ''1w'') (p @ h)"
    unfolding compute_stats_def d w by (rule entries_lookup [OF assms])
  then show ?thesis using assms(1) by (auto simp: horizon_entry_def loop_horizons_def)
qed

lemma stats_value:
  assumes "h \<in> set loop_horizons" "p \<in> {''coverage_'', ''acc_'', ''naive_'', ''lift_''}"
  shows "goal_value (compute_stats db) (p @ h) = goal_value (horizon_stats (gd_outcomes db) h) (p @ h)"
  unfolding goal_value_def stats_lookup [OF assms] horizon_entry_def ..

lemma guarded_entry:
  assumes "h \<in> set loop_horizons" "p \<in> {''acc_'', ''lift_''}" "map_of (compute_stats db) (p @ h) = Some s"
  shows "gs_guard s = Some (''coverage_'' @ h)"
proof -
  obtain c n a v l b where e: "horizon_stats (gd_outcomes db) h = horizon_entries h c n a v l b"
    using horizon_stats_entries by blast
  have p: "p \<in> {''coverage_'', ''acc_'', ''naive_'', ''lift_''}" using assms(2) by blast
  have "map_of (horizon_entries h c n a v l b) (p @ h) = Some s"
    using assms(3) unfolding stats_lookup [OF assms(1) p] horizon_entry_def e .
  then show ?thesis using assms(2) by (auto simp: horizon_entries_def)
qed

lemma coverage_entry:
  assumes "h \<in> set loop_horizons"
  shows "\<exists>s. map_of (compute_stats db) (''coverage_'' @ h) = Some s \<and> gs_higher s"
proof -
  obtain c n a v l b where e: "horizon_stats (gd_outcomes db) h = horizon_entries h c n a v l b"
    using horizon_stats_entries by blast
  have p: "''coverage_'' \<in> {''coverage_'', ''acc_'', ''naive_'', ''lift_''}" by blast
  show ?thesis unfolding stats_lookup [OF assms p] horizon_entry_def e
    by (simp add: horizon_entries_def stat_def)
qed

lemma scored_has_coverage:
  assumes "h \<in> set loop_horizons" "p \<in> {''acc_'', ''lift_''}" "goal_value (compute_stats db) (p @ h) = Some v"
  shows "\<exists>c. goal_value (compute_stats db) (''coverage_'' @ h) = Some c \<and> 0 < c"
proof -
  let ?obs = "case gd_outcomes db of None \<Rightarrow> [] | Some rows \<Rightarrow> at_horizon h (goal_fold rows)"
  let ?H = "horizon_stats (gd_outcomes db) h"
  have v: "goal_value (compute_stats db) (''coverage_'' @ h) = goal_value ?H (''coverage_'' @ h)"
    by (rule stats_value [OF assms(1)]) blast
  have "goal_value ?H (p @ h) = Some v"
    using assms(3) stats_value [OF assms(1), of p] assms(2) by fastforce
  then have "goal_value ?H (''acc_'' @ h) \<noteq> None"
    using assms(2) unfolding insert_iff empty_iff horizon_values(4)
    by (elim disjE) (auto simp only: bind_eq_Some_conv horizon_values(4))
  then have "issued_obs ?obs \<noteq> []" unfolding horizon_values(2) avg_by_def by presburger
  moreover then have "?obs \<noteq> []" unfolding issued_obs_def by force
  ultimately show ?thesis unfolding v horizon_values(1) by simp
qed

lemma goal_progress_mem:
  "(k, e) \<in> set (goal_progress base cur target tol) \<Longrightarrow>
     \<exists>b c. map_of base k = Some b \<and> map_of cur k = Some c \<and> e = progress_entry base cur target tol b c"
  by (auto simp: goal_progress_def map_filter_def split: option.splits)

lemma met_has_change:
  assumes "gp_met (progress_entry base cur target tol b c)"
  shows "\<exists>v. gs_value b = Some v" and "\<exists>v. gs_value c = Some v"
    and "gs_guard c = Some g \<Longrightarrow> g \<noteq> [] \<Longrightarrow> guard_change base cur g = Some p \<Longrightarrow> - tol \<le> p"
  using assms
  by (auto simp: progress_entry_def pct_change_def Let_def split: option.splits if_splits)

lemma met_reaches_target:
  assumes "gp_met (progress_entry base cur target tol b c)"
  shows "\<exists>p. pct_change (gs_higher c) (gs_value b) (gs_value c) = Some p \<and> target - 1 / 10 ^ 9 \<le> p"
  using assms by (auto simp: progress_entry_def Let_def split: option.splits)

text \<open>
  C37. Abstaining cannot buy the goal: where accuracy or lift counts as improved against a frozen baseline,
  both records called something on that horizon, and coverage has fallen by no more than the
  tolerance. There is no record for which the guard is skipped.
\<close>

theorem abstention_buys_no_goal:
  assumes "(k, e) \<in> set (goal_progress (compute_stats db0) (compute_stats db1) target tol)"
    and "gp_met e" and "h \<in> set loop_horizons" and "k \<in> {''acc_'' @ h, ''lift_'' @ h}"
  shows "\<exists>c0 c1. goal_value (compute_stats db0) (''coverage_'' @ h) = Some c0 \<and> 0 < c0
    \<and> goal_value (compute_stats db1) (''coverage_'' @ h) = Some c1 \<and> c0 * (1 - tol / 100) \<le> c1"
proof -
  obtain p where p: "p \<in> {''acc_'', ''lift_''}" and k: "k = p @ h" using assms(4) by blast
  obtain b c where b: "map_of (compute_stats db0) (p @ h) = Some b" and c: "map_of (compute_stats db1) (p @ h) = Some c"
    and e: "e = progress_entry (compute_stats db0) (compute_stats db1) target tol b c"
    using goal_progress_mem [OF assms(1)] unfolding k by blast
  note met = met_has_change [OF assms(2) [unfolded e]]
  obtain vb vc where "goal_value (compute_stats db0) (p @ h) = Some vb" "goal_value (compute_stats db1) (p @ h) = Some vc"
    using met(1,2) b c by (auto simp: goal_value_def)
  then obtain c0 c1 where c0: "goal_value (compute_stats db0) (''coverage_'' @ h) = Some c0" "0 < c0"
    and c1: "goal_value (compute_stats db1) (''coverage_'' @ h) = Some c1"
    using scored_has_coverage [OF assms(3) p] by blast
  obtain s where s: "map_of (compute_stats db1) (''coverage_'' @ h) = Some s" "gs_higher s"
    using coverage_entry [OF assms(3)] by blast
  have "guard_change (compute_stats db0) (compute_stats db1) (''coverage_'' @ h) = Some ((c1 - c0) / c0 * 100)"
    using c0 c1 s unfolding goal_value_def guard_change_def by (simp add: pct_change_def)
  then have "- tol \<le> (c1 - c0) / c0 * 100"
    using met(3) [OF guarded_entry [OF assms(3) p c]] by simp
  then have "c0 * (1 - tol / 100) \<le> c1" using c0(2) by (simp add: field_simps)
  with c0 c1 show ?thesis by blast
qed

section \<open>Goals that cannot be met\<close>

lemma coverage_le_1:
  assumes "h \<in> set loop_horizons" "goal_value (compute_stats db) (''coverage_'' @ h) = Some c"
  shows "c \<le> 1"
proof -
  let ?obs = "case gd_outcomes db of None \<Rightarrow> [] | Some rows \<Rightarrow> at_horizon h (goal_fold rows)"
  have "c = of_nat (length (issued_obs ?obs)) / of_nat (length ?obs)" "?obs \<noteq> []"
    using assms(2) stats_value [OF assms(1), of "''coverage_''" db] unfolding horizon_values(1)
    by (auto split: if_splits)
  moreover have "length (issued_obs ?obs) \<le> length ?obs" by (simp add: issued_obs_def)
  ultimately show ?thesis by (simp add: divide_le_eq)
qed

text \<open>
  The goal asks every figure to rise by the target, coverage too, which is never above one: a baseline
  that called 92 of 100 keys cannot be improved by ten per cent, and the loop never ends.
\<close>

lemma saturated_coverage_never_meets:
  assumes "goal_value (compute_stats db0) (''coverage_'' @ h) = Some c0" "92 / 100 \<le> c0" "h \<in> set loop_horizons"
    and "(''coverage_'' @ h, e) \<in> set (goal_progress (compute_stats db0) (compute_stats db1) 10 tol)"
  shows "\<not> gp_met e"
proof
  assume m: "gp_met e"
  obtain b c where b: "map_of (compute_stats db0) (''coverage_'' @ h) = Some b"
    and c: "map_of (compute_stats db1) (''coverage_'' @ h) = Some c"
    and e: "e = progress_entry (compute_stats db0) (compute_stats db1) 10 tol b c"
    using goal_progress_mem [OF assms(4)] by blast
  have hi: "gs_higher c" using coverage_entry [OF assms(3), of db1] c by auto
  have vb: "gs_value b = Some c0" using assms(1) b by (simp add: goal_value_def)
  obtain c1 where vc: "gs_value c = Some c1" using met_has_change(2) m e by blast
  then have "c1 \<le> 1" using coverage_le_1 [OF assms(3), of db1] c by (simp add: goal_value_def)
  moreover have "10 - 1 / 10 ^ 9 \<le> (c1 - c0) / c0 * 100"
    using met_reaches_target [OF m [unfolded e]] hi assms(2) by (simp add: vb vc pct_change_def)
  ultimately show False using assms(2) by (simp add: field_simps)
qed

text \<open>
  With the report printed as JSON the counts of met goals are never bound, and a run that requires the
  goal ends with an exception, whatever was met.
\<close>

lemma json_report_never_meets:
  "ga_report a \<Longrightarrow> \<not> ga_snapshot a \<Longrightarrow> ga_json a \<Longrightarrow> ga_require a \<Longrightarrow> snd (snd (goal_main a file db)) \<noteq> 0"
  by (simp add: goal_main_def goal_report_def Let_def split: option.split)

section \<open>Instances\<close>

definition called :: "int \<Rightarrow> int \<Rightarrow> real \<Rightarrow> int \<Rightarrow> outcome_row" where
  "called s d p u = \<lparr>po_symbol = s, po_horizon = ''1d'', po_ts = d * 86400, po_prob = Some p, po_up = Some u,
     po_resolved = Some 0, po_settle = None\<rparr>"

text \<open>Two symbols on one day, the first record with one right call of two and the second with two.\<close>

definition goal_sample :: "real \<Rightarrow> goal_db" where
  "goal_sample p = \<lparr>gd_outcomes = Some [called 1 0 (3 / 4) 1, called 2 0 p 0], gd_regime = None, gd_has_naive = True\<rparr>"

lemma sample_gate: "gate_xsection ''1d'' 10 (1 / 20) (19 / 20) (gd_outcomes (goal_sample (1 / 4))) = 0"
  by code_simp

lemma sample_days: "xsection_days ''1d'' 10 [called 1 0 (3 / 4) 1, called 2 0 (1 / 4) 0] = [(0, 2, 1 / 2)]"
  by code_simp

theorem collapsed_days_are_refused_witness:
  "\<exists>x \<in> set (at_horizon ''1d'' (goal_fold [called 1 0 (3 / 4) 1, called 2 0 (1 / 4) 0])).
   \<exists>y \<in> set (at_horizon ''1d'' (goal_fold [called 1 0 (3 / 4) 1, called 2 0 (1 / 4) 0])).
     ob_day x = 0 \<and> ob_day y = 0 \<and> 1 / 2 < ob_prob x \<and> ob_prob y \<le> 1 / 2"
  by (rule collapsed_days_are_refused [where days = 10 and lo = "1 / 20" and hi = "19 / 20" and n = 2 and u = "1 / 2"])
    (use sample_gate in \<open>simp_all add: goal_sample_def sample_days\<close>)

lemma sample_progress:
  "map_option gp_met (map_of (goal_progress (compute_stats (goal_sample (3 / 4))) (compute_stats (goal_sample (1 / 4))) 10 1)
     ''acc_1d'') = Some True"
  by code_simp

theorem abstention_buys_no_goal_witness:
  "\<exists>c0 c1. goal_value (compute_stats (goal_sample (3 / 4))) (''coverage_'' @ ''1d'') = Some c0 \<and> 0 < c0
    \<and> goal_value (compute_stats (goal_sample (1 / 4))) (''coverage_'' @ ''1d'') = Some c1 \<and> c0 * (1 - 1 / 100) \<le> c1"
proof -
  obtain e where e: "map_of (goal_progress (compute_stats (goal_sample (3 / 4))) (compute_stats (goal_sample (1 / 4))) 10 1)
      ''acc_1d'' = Some e" "gp_met e"
    using sample_progress by auto
  show ?thesis
    by (rule abstention_buys_no_goal [OF map_of_SomeD [OF e(1)] e(2)]) (simp_all add: loop_horizons_def)
qed

end
