(* ===== verification/Revalidation_Gate.thy ===== *)
theory Revalidation_Gate
  imports Docs_Gate
begin

text \<open>
  \<open>tools/check_revalidation.py\<close>: the committed answer of the structural revalidation must be there and
  fresh at both ends. A stamp whose figures are withheld may name the full snapshot, which is then
  checked in its place: \<open>main\<close> calls itself. Files are a map of the checkout, by plain relative paths;
  a name that is no plain path is not followed. The texts printed and the self-check are left out.
\<close>

section \<open>One file\<close>

text \<open>What \<open>json.load\<close> makes of a file, with bare constants refused; \<^term>\<open>None\<close> is an error it raises.\<close>

type_synonym reval_files = "string \<Rightarrow> json option option"

definition MAX_AGE_DAYS :: real where "MAX_AGE_DAYS = 35"
definition MAX_FUTURE_SKEW_DAYS :: real where "MAX_FUTURE_SKEW_DAYS = 1"

definition STATUS :: string where "STATUS = ''ops/revalidation-status.json''"

definition plain_path :: "string \<Rightarrow> bool" where
  "plain_path p \<longleftrightarrow> list_all (\<lambda>c. c \<noteq> [] \<and> c \<noteq> ''.'' \<and> c \<noteq> ''..'') (split_char (CHR ''/'') p) \<and> CHR 0x5C \<notin> set p"

text \<open>\<open>_is_rate\<close>: an integer beyond the range of floats raises.\<close>

definition FLOAT_RANGE :: int where "FLOAT_RANGE = 2 ^ 1024 - 2 ^ 970"

definition is_rate :: "json \<Rightarrow> bool py" where
  "is_rate j =
     (case j of
        JInt n \<Rightarrow> if FLOAT_RANGE \<le> \<bar>n\<bar> then Inl OverflowErr else Inr (0 \<le> n \<and> n \<le> 1)
      | JFloat (Fin x) \<Rightarrow> Inr (0 \<le> x \<and> x \<le> 1)
      | _ \<Rightarrow> Inr False)"

text \<open>The instant of \<open>generated\<close>; unlike the readers elsewhere this one does not strip.\<close>

definition reval_instant :: "string \<Rightarrow> real option py" where
  "reval_instant text = (if strip text \<noteq> text then Inr None else iso_instant text)"

datatype reval_next = Halt "nat py" | Follow string

definition arm_accuracy :: "obj \<Rightarrow> string \<Rightarrow> json py" where
  "arm_accuracy arms k = py_bind (dict_or_empty (jget k arms)) (\<lambda>a. Inr (jget ''accuracy'' a))"

text \<open>The two arms of a snapshot with figures.\<close>

definition check_arms :: "obj \<Rightarrow> nat py" where
  "check_arms d =
     py_bind (dict_or_empty (jget ''arms'' d)) (\<lambda>arms.
     py_bind (arm_accuracy arms ''active_only'') (\<lambda>active.
     py_bind (arm_accuracy arms ''survivorship_clean'') (\<lambda>clean.
       if active = JNull \<or> clean = JNull then Inr 1
       else py_bind (is_rate active) (\<lambda>a.
              if \<not> a then Inr 1
              else py_bind (is_rate clean) (\<lambda>c. Inr (if c then 0 else 1))))))"

text \<open>A stamp without figures passes, or hands over to the snapshot it names where that is a file.\<close>

definition withheld_next :: "live_env \<Rightarrow> reval_files \<Rightarrow> string \<Rightarrow> obj \<Rightarrow> reval_next" where
  "withheld_next ev files path d =
     (if map_of d ''arms'' \<noteq> None then Halt (Inr 1)
      else if \<not> truthy (jget ''full_snapshot'' d) then Halt (Inr 0)
      else case py_text ev (jget ''full_snapshot'' d) of
             Inl e \<Rightarrow> Halt (Inl e)
           | Inr full \<Rightarrow>
               (if \<not> plain_path full then Halt (Inl OutOfModel)
                else if files full \<noteq> None \<and> full \<noteq> path then Follow full else Halt (Inr 0)))"

definition too_early :: "real \<Rightarrow> real \<Rightarrow> bool" where
  "too_early now t \<longleftrightarrow> (now - t) / 86400 < - MAX_FUTURE_SKEW_DAYS"

definition too_old :: "real \<Rightarrow> real \<Rightarrow> bool" where
  "too_old now t \<longleftrightarrow> MAX_AGE_DAYS < max ((now - t) / 86400) 0"

definition check_dated :: "live_env \<Rightarrow> real \<Rightarrow> reval_files \<Rightarrow> string \<Rightarrow> obj \<Rightarrow> real \<Rightarrow> reval_next" where
  "check_dated ev now files path d t =
     (if too_early now t \<or> too_old now t then Halt (Inr 1)
      else if truthy (jget ''withheld'' d) then withheld_next ev files path d
      else Halt (check_arms d))"

definition reval_step :: "live_env \<Rightarrow> real \<Rightarrow> reval_files \<Rightarrow> string \<Rightarrow> reval_next" where
  "reval_step ev now files path =
     (case files path of
        None \<Rightarrow> Halt (Inr 1)
      | Some None \<Rightarrow> Halt (Inr 1)
      | Some (Some doc) \<Rightarrow>
          (case as_obj doc of
             Inl e \<Rightarrow> Halt (Inl e)
           | Inr d \<Rightarrow>
               (if \<not> truthy (jget ''generated'' d) then Halt (Inr 1)
                else case py_bind (py_text ev (jget ''generated'' d)) reval_instant of
                       Inl e \<Rightarrow> Halt (Inl e)
                     | Inr None \<Rightarrow> Halt (Inr 1)
                     | Inr (Some t) \<Rightarrow> check_dated ev now files path d t)))"

section \<open>The chain of files\<close>

text \<open>\<^term>\<open>None\<close> is a chain that never ends; the interpreter runs out of stack on it.\<close>

partial_function (option) check_revalidation ::
  "live_env \<Rightarrow> real \<Rightarrow> reval_files \<Rightarrow> string \<Rightarrow> nat py option" where
  "check_revalidation ev now files path =
     (case reval_step ev now files path of
        Halt r \<Rightarrow> Some r
      | Follow full \<Rightarrow> check_revalidation ev now files full)"

text \<open>The files a run opens, from the one it is given.\<close>

inductive opens_file :: "live_env \<Rightarrow> real \<Rightarrow> reval_files \<Rightarrow> string \<Rightarrow> string \<Rightarrow> bool"
  for ev now files start where
  given: "opens_file ev now files start start"
| named: "opens_file ev now files start p \<Longrightarrow> reval_step ev now files p = Follow q \<Longrightarrow> opens_file ev now files start q"

inductive_cases opens_named: "opens_file ev now files start q"

lemmas check_revalidation_induct =
  check_revalidation.raw_induct [rotated, consumes 1, case_names call]

lemma opens_next:
  "reval_step ev now files p = Follow q \<Longrightarrow> opens_file ev now files q r \<Longrightarrow> opens_file ev now files p r"
proof (rotate_tac, induction rule: opens_file.induct)
  case given
  then show ?case by (rule opens_file.named [OF opens_file.given])
next
  case (named x y)
  then show ?case by (blast intro: opens_file.named)
qed

text \<open>A run that ends ends at a file it opened.\<close>

lemma ends_at_opened:
  "check_revalidation ev now files path = Some r \<Longrightarrow>
     \<exists>q. opens_file ev now files path q \<and> reval_step ev now files q = Halt r"
proof (induction ev now files path r rule: check_revalidation_induct)
  case (call f ev now files path r)
  show ?case
  proof (cases "reval_step ev now files path")
    case (Halt x)
    then have "reval_step ev now files path = Halt r" using call(2) by simp
    then show ?thesis using opens_file.given by blast
  next
    case (Follow full)
    then have "f ev now files full = Some r" using call(2) by simp
    from call(1) [OF this] show ?thesis using opens_next [OF Follow] by blast
  qed
qed

section \<open>What a pass certifies\<close>

definition stamped_at :: "live_env \<Rightarrow> reval_files \<Rightarrow> string \<Rightarrow> obj \<Rightarrow> real \<Rightarrow> bool" where
  "stamped_at ev files p d t \<longleftrightarrow> files p = Some (Some (JObj d))
     \<and> py_bind (py_text ev (jget ''generated'' d)) reval_instant = Inr (Some t)"

definition current :: "real \<Rightarrow> real \<Rightarrow> bool" where
  "current now t \<longleftrightarrow> now - 35 * 86400 \<le> t \<and> t \<le> now + 86400"

lemma current_iff: "current now t \<longleftrightarrow> \<not> too_early now t \<and> \<not> too_old now t"
  by (auto simp: current_def too_early_def too_old_def MAX_AGE_DAYS_def MAX_FUTURE_SKEW_DAYS_def less_max_iff_disj field_simps)

lemma as_obj_Inr: "as_obj j = Inr d \<longleftrightarrow> j = JObj d"
  by (cases j) simp_all

text \<open>Every file that is passed over or passed is stamped within the two bounds.\<close>

lemma step_dated:
  assumes "reval_step ev now files p = r" "r \<noteq> Halt (Inr 1)" "\<And>e. r \<noteq> Halt (Inl e)"
  shows "\<exists>d t. stamped_at ev files p d t \<and> current now t \<and> check_dated ev now files p d t = r"
  using assms
  by (auto simp: reval_step_def stamped_at_def current_iff check_dated_def as_obj_Inr
      split: option.splits sum.splits if_splits)

lemma followed_withheld:
  "check_dated ev now files p d t = Follow q \<Longrightarrow>
     truthy (jget ''withheld'' d) \<and> map_of d ''arms'' = None \<and> files q \<noteq> None \<and> q \<noteq> p"
  by (auto simp: check_dated_def withheld_next_def split: if_splits sum.splits)

definition rate :: "json \<Rightarrow> bool" where
  "rate j \<longleftrightarrow> (\<exists>x. operand j = Inr (Fin x) \<and> 0 \<le> x \<and> x \<le> 1 \<and> is_plain_number j)"

lemma is_rate_True: "is_rate j = Inr True \<Longrightarrow> rate j"
  by (auto simp: is_rate_def rate_def is_plain_number_def split: json.splits pyfloat.splits if_splits)

text \<open>The value of a run is that of every file it opens.\<close>

lemma same_value:
  "opens_file ev now files path p \<Longrightarrow> check_revalidation ev now files p = check_revalidation ev now files path"
proof (induction rule: opens_file.induct)
  case (named p q)
  then show ?case by (simp add: check_revalidation.simps [of ev now files p])
qed simp

text \<open>A stamp that hands over to no other file: it names none, one that is not there, or itself.\<close>

definition names_no_next :: "live_env \<Rightarrow> reval_files \<Rightarrow> string \<Rightarrow> obj \<Rightarrow> bool" where
  "names_no_next ev files q d \<longleftrightarrow> truthy (jget ''full_snapshot'' d) \<longrightarrow>
     (\<exists>full. py_text ev (jget ''full_snapshot'' d) = Inr full \<and> (files full = None \<or> full = q))"

definition states_both_rates :: "obj \<Rightarrow> bool" where
  "states_both_rates d \<longleftrightarrow> (\<exists>arms a c. dict_or_empty (jget ''arms'' d) = Inr arms
     \<and> arm_accuracy arms ''active_only'' = Inr a \<and> arm_accuracy arms ''survivorship_clean'' = Inr c
     \<and> rate a \<and> rate c)"

lemma final_file:
  assumes "check_dated ev now files q d t = Halt (Inr 0)"
  shows "if truthy (jget ''withheld'' d) then map_of d ''arms'' = None \<and> names_no_next ev files q d
         else states_both_rates d"
  using assms
  by (auto simp: check_dated_def withheld_next_def names_no_next_def states_both_rates_def check_arms_def
      py_bind_Inr is_rate_True split: if_splits sum.splits)

text \<open>
  C39. A pass is current at both ends: every file the run opened is an object stamped no more than 35 days
  ago and no more than a day ahead, and so is the last one, which states both accuracies as numbers
  between 0 and 1 or withholds its figures. A stamp that withholds its figures is the last one only
  where it carries none and names no full snapshot that is there to be checked in its place.
\<close>

theorem passing_revalidation_is_current:
  assumes "check_revalidation ev now files path = Some (Inr 0)"
  shows "(\<exists>q d. opens_file ev now files path q \<and> files q = Some (Some (JObj d))
      \<and> (if truthy (jget ''withheld'' d) then map_of d ''arms'' = None \<and> names_no_next ev files q d
         else states_both_rates d))
    \<and> (\<forall>p. opens_file ev now files path p \<longrightarrow> (\<exists>d t. stamped_at ev files p d t \<and> current now t))"
proof (intro conjI allI impI)
  obtain q where q: "opens_file ev now files path q" "reval_step ev now files q = Halt (Inr 0)"
    using ends_at_opened [OF assms] by blast
  obtain d t where d: "stamped_at ev files q d t" "check_dated ev now files q d t = Halt (Inr 0)"
    using step_dated [OF q(2)] by auto
  from final_file [OF d(2)] q(1) d(1)
  show "\<exists>q d. opens_file ev now files path q \<and> files q = Some (Some (JObj d))
      \<and> (if truthy (jget ''withheld'' d) then map_of d ''arms'' = None \<and> names_no_next ev files q d
         else states_both_rates d)"
    unfolding stamped_at_def by blast
next
  fix p
  assume "opens_file ev now files path p"
  then have v: "check_revalidation ev now files p = Some (Inr 0)" using assms same_value by simp
  have "reval_step ev now files p \<noteq> Halt (Inr 1)" "reval_step ev now files p \<noteq> Halt (Inl e)" for e
    using v by (auto simp: check_revalidation.simps [of ev now files p])
  then show "\<exists>d t. stamped_at ev files p d t \<and> current now t"
    using step_dated [OF refl, of ev now files p] by blast
qed

lemma returns_iff:
  "(\<exists>r. check_revalidation ev now files path = Some r)
     \<longleftrightarrow> (\<exists>p r. opens_file ev now files path p \<and> reval_step ev now files p = Halt r)"
proof
  assume "\<exists>r. check_revalidation ev now files path = Some r"
  then show "\<exists>p r. opens_file ev now files path p \<and> reval_step ev now files p = Halt r"
    using ends_at_opened by blast
next
  assume "\<exists>p r. opens_file ev now files path p \<and> reval_step ev now files p = Halt r"
  then obtain p r where opened: "opens_file ev now files path p" and h: "reval_step ev now files p = Halt r" by blast
  have "check_revalidation ev now files path = Some r"
    using same_value [OF opened] h by (simp add: check_revalidation.simps [of ev now files p])
  then show "\<exists>r. check_revalidation ev now files path = Some r" by blast
qed

text \<open>
  The gate returns exactly when some file it opens does not hand over to another one; the guard
  against a file that names itself covers the chains of one file only.
\<close>

theorem returns_iff_chain_ends:
  "(\<exists>r. check_revalidation ev now files path = Some r)
     \<longleftrightarrow> (\<exists>p r. opens_file ev now files path p \<and> reval_step ev now files p = Halt r)"
  by (rule returns_iff)

section \<open>Instances\<close>

definition stamp_naming :: "string \<Rightarrow> obj" where
  "stamp_naming full = [(''generated'', JStr ''2026-01-01T00:00:00Z''), (''withheld'', JStr ''licence''),
     (''full_snapshot'', JStr full)]"

definition full_figures :: obj where
  "full_figures = [(''generated'', JStr ''2026-01-01T00:00:00Z''),
     (''arms'', JObj [(''active_only'', JObj [(''accuracy'', JFloat (Fin (8 / 10)))]),
                      (''survivorship_clean'', JObj [(''accuracy'', JFloat (Fin (85 / 100)))])])]"

definition two_files :: "obj \<Rightarrow> reval_files" where
  "two_files d = [''a.json'' \<mapsto> Some (JObj (stamp_naming ''b.json'')), ''b.json'' \<mapsto> Some (JObj d)]"

lemma sample_instant: "reval_instant ''2026-01-01T00:00:00Z'' = Inr (Some 1767225600)"
  by code_simp

lemma stamp_hands_over:
  "0 < x \<Longrightarrow> x < 35 * 86400 \<Longrightarrow> plain_path full \<Longrightarrow> full \<noteq> [] \<Longrightarrow> full \<noteq> path \<Longrightarrow> files full \<noteq> None
   \<Longrightarrow> files path = Some (Some (JObj (stamp_naming full)))
   \<Longrightarrow> reval_step ev (1767225600 + x) files path = Follow full"
  using current_iff [of "1767225600 + x" 1767225600]
  by (simp add: reval_step_def stamp_naming_def sample_instant check_dated_def withheld_next_def current_def)

lemma figures_pass:
  "0 < x \<Longrightarrow> x < 35 * 86400 \<Longrightarrow> files path = Some (Some (JObj full_figures))
   \<Longrightarrow> reval_step ev (1767225600 + x) files path = Halt (Inr 0)"
  using current_iff [of "1767225600 + x" 1767225600]
  by (simp add: reval_step_def full_figures_def sample_instant check_dated_def current_def check_arms_def
      arm_accuracy_def dict_or_empty_def is_rate_def)

lemma stamp_paths: "plain_path ''a.json''" "plain_path ''b.json''" by code_simp+

definition plain_env :: live_env where
  "plain_env = \<lparr>ev_publish = None, ev_withhold = None, ev_registry = NoFile, ev_status = None,
     ev_reval = None, ev_reval_ops = None, ev_repr = (\<lambda>_. [])\<rparr>"

theorem passing_revalidation_is_current_witness:
  "check_revalidation plain_env 1767312000 (two_files full_figures) ''a.json'' = Some (Inr 0)
   \<and> (\<exists>d t. stamped_at plain_env (two_files full_figures) ''b.json'' d t \<and> current 1767312000 t)
   \<and> (\<exists>q d. two_files full_figures q = Some (Some (JObj d)) \<and> \<not> truthy (jget ''withheld'' d)
        \<and> states_both_rates d)"
proof -
  let ?F = "two_files full_figures"
  have a: "reval_step plain_env 1767312000 ?F ''a.json'' = Follow ''b.json''"
    using stamp_hands_over [of 86400 "''b.json''" "''a.json''" ?F plain_env] stamp_paths by (simp add: two_files_def)
  have b: "reval_step plain_env 1767312000 ?F ''b.json'' = Halt (Inr 0)"
    using figures_pass [of 86400 ?F "''b.json''" plain_env] by (simp add: two_files_def)
  have z: "check_revalidation plain_env 1767312000 ?F ''a.json'' = Some (Inr 0)"
    by (simp add: check_revalidation.simps a b)
  have opened: "opens_file plain_env 1767312000 ?F ''a.json'' ''b.json''"
    by (rule opens_file.named [OF opens_file.given a])
  note pass = passing_revalidation_is_current [OF z]
  obtain q d where q: "?F q = Some (Some (JObj d))"
    "if truthy (jget ''withheld'' d) then map_of d ''arms'' = None \<and> names_no_next plain_env ?F q d
     else states_both_rates d"
    using pass by blast
  have names: "\<not> names_no_next plain_env ?F ''a.json'' (stamp_naming ''b.json'')"
    by (simp add: names_no_next_def stamp_naming_def two_files_def)
  have "(q = ''a.json'' \<and> d = stamp_naming ''b.json'') \<or> d = full_figures"
    using q(1) by (simp add: two_files_def split: if_splits)
  moreover have "truthy (jget ''withheld'' (stamp_naming ''b.json''))" "\<not> truthy (jget ''withheld'' full_figures)"
    by (simp_all add: stamp_naming_def full_figures_def)
  ultimately have "\<not> truthy (jget ''withheld'' d) \<and> states_both_rates d" using q(2) names by auto
  with q(1) pass opened z show ?thesis by blast
qed

text \<open>Two stamps that name each other: each is a file other than itself, and the check never returns.\<close>

lemma two_stamps_never_return:
  "check_revalidation ev 1767312000 (two_files (stamp_naming ''a.json'')) ''a.json'' = None"
proof -
  let ?F = "two_files (stamp_naming ''a.json'')"
  have a: "reval_step ev 1767312000 ?F ''a.json'' = Follow ''b.json''"
    using stamp_hands_over [of 86400 "''b.json''" "''a.json''" ?F ev] stamp_paths by (simp add: two_files_def)
  have b: "reval_step ev 1767312000 ?F ''b.json'' = Follow ''a.json''"
    using stamp_hands_over [of 86400 "''a.json''" "''b.json''" ?F ev] stamp_paths by (simp add: two_files_def)
  have "p = ''a.json'' \<or> p = ''b.json''" if "opens_file ev 1767312000 ?F ''a.json'' p" for p
    using that by (induction rule: opens_file.induct) (use a b in auto)
  then have "\<not> (\<exists>p r. opens_file ev 1767312000 ?F ''a.json'' p \<and> reval_step ev 1767312000 ?F p = Halt r)"
    using a b by (metis reval_next.distinct(1))
  then show ?thesis unfolding returns_iff [symmetric] by simp
qed

end
