(* ===== verification/Prereg_Readiness.thy ===== *)
theory Prereg_Readiness
  imports Structural_Grading Docs_Gate
begin

text \<open>
  \<open>tools/prereg_readiness.py\<close>: when a structural kind can first be resolved and first carry a verdict,
  against the date that was claimed for it. The arithmetic of the dates is set against the blocks the
  grader really forms. A run answers with the rows of its report and its status; the prose and the
  self-check are left out.
\<close>

section \<open>The dates of a kind\<close>

definition trading_to_calendar :: "int \<Rightarrow> real \<Rightarrow> int" where
  "trading_to_calendar bars per =
     (if bars \<le> 0 then 0 else trunc (of_int bars * per + 999 / 1000))"

record ready_dates =
  rd_resolution :: int
  rd_gate_call :: int
  rd_verdict :: int
  rd_independent :: int

definition readiness :: "int \<Rightarrow> int \<Rightarrow> int \<Rightarrow> int \<Rightarrow> real \<Rightarrow> ready_dates py" where
  "readiness first_call_day horizon_days min_blocks min_independent per =
     (if horizon_days < 1 \<or> min_blocks < 1 then Inl ValueErr
      else let gate = first_call_day + (min_blocks - 1) * horizon_days
           in Inr \<lparr>rd_resolution = first_call_day + trading_to_calendar horizon_days per,
                   rd_gate_call = gate,
                   rd_verdict = gate + trading_to_calendar horizon_days per,
                   rd_independent = min_independent\<rparr>)"

text \<open>The defaults of the parameters.\<close>

definition default_readiness :: "int \<Rightarrow> int \<Rightarrow> ready_dates py" where
  "default_readiness first_call_day horizon_days = readiness first_call_day horizon_days 10 30 (7 / 5)"

section \<open>The report\<close>

text \<open>Integer division of SQL: towards zero, and \<open>NULL\<close> for a zero divisor.\<close>

definition sql_div :: "int \<Rightarrow> int \<Rightarrow> int option" where
  "sql_div a b = (if b = 0 then None else Some (sgn a * sgn b * (\<bar>a\<bar> div \<bar>b\<bar>)))"

record ready_row =
  rr_kind :: string
  rr_first_call :: int
  rr_calls :: int
  rr_horizon :: int
  rr_resolved :: int
  rr_quarantined :: int
  rr_blocks :: int

definition least :: "int list \<Rightarrow> int" where
  "least xs = (case min_opt xs of Some m \<Rightarrow> m | None \<Rightarrow> 0)"

definition ready_row_of :: "string \<times> regime_row list \<Rightarrow> ready_row" where
  "ready_row_of = (\<lambda>(k, g).
     \<lparr>rr_kind = k,
      rr_first_call = least (map (\<lambda>r. the (sql_div (ro_ts r) 86400)) g),
      rr_calls = int (length g),
      rr_horizon = least (map ro_horizon_days g),
      rr_resolved = count_if (\<lambda>r. ro_resolved r \<noteq> None) g,
      rr_quarantined = count_if (\<lambda>r. ro_naive r = None) g,
      rr_blocks = int (length (remdups (List.map_filter (\<lambda>r. sql_div (ro_day r) (ro_horizon_days r)) g)))\<rparr>)"

definition ready_rows :: "database \<Rightarrow> ready_row list py" where
  "ready_rows con =
     (case db_regime con of
        None \<Rightarrow> Inl OperationalErr
      | Some rows \<Rightarrow> if db_has_naive con then Inr (map ready_row_of (group_by ro_kind rows)) else Inl OperationalErr)"

text \<open>\<open>date.fromisoformat\<close>: \<^term>\<open>None\<close> is its \<open>ValueError\<close>, the basic and the week forms are not followed.\<close>

definition claimed_day_of :: "string \<Rightarrow> int option py" where
  "claimed_day_of s =
     (if length s = 10 \<and> s ! 4 = CHR ''-'' \<and> s ! 7 = CHR ''-'' then
        Inr (if valid_date s then Some (day_number (number_at 0 4 s) (number_at 5 2 s) (number_at 8 2 s)) else None)
      else if length s \<in> {7, 8, 10} then Inl OutOfModel
      else Inr None)"

record ready_finding =
  rf_row :: ready_row
  rf_resolution :: int
  rf_verdict :: int
  rf_short_by :: "int option"      \<comment> \<open>\<^term>\<open>None\<close> is on track\<close>

definition finding_of :: "int \<Rightarrow> ready_row \<Rightarrow> ready_finding py" where
  "finding_of claimed row =
     py_bind (default_readiness (rr_first_call row) (rr_horizon row)) (\<lambda>r.
       Inr \<lparr>rf_row = row, rf_resolution = rd_resolution r, rf_verdict = rd_verdict r,
            rf_short_by = (if rd_verdict r \<le> claimed then None else Some (rd_verdict r - claimed))\<rparr>)"

record ready_report =
  ry_findings :: "ready_finding list"
  ry_worst :: int
  ry_quarantined :: int
  ry_resolvable :: bool            \<comment> \<open>the sentence printed about the claimed date\<close>

definition ready_report_of :: "int \<Rightarrow> ready_finding list \<Rightarrow> ready_report" where
  "ready_report_of claimed fs =
     \<lparr>ry_findings = fs,
      ry_worst = fold (\<lambda>f w. if w < rf_verdict f then rf_verdict f else w) fs 0,
      ry_quarantined = (\<Sum>f\<leftarrow>fs. rr_quarantined (rf_row f)),
      ry_resolvable = list_ex (\<lambda>f. 0 < rr_resolved (rf_row f) \<and> rf_resolution f \<le> claimed) fs\<rparr>"

text \<open>The status of \<open>report\<close>; an exception nobody catches ends the process with 1.\<close>

definition ready_status :: "int \<Rightarrow> ready_report \<Rightarrow> nat" where
  "ready_status claimed rep = (if list_ex (\<lambda>f. claimed < rf_verdict f) (ry_findings rep) then 1 else 0)"

definition ready_run :: "database option \<Rightarrow> string \<Rightarrow> ready_report option \<times> nat py" where
  "ready_run db claimed_date =
     (case claimed_day_of claimed_date of
        Inl e \<Rightarrow> (None, Inl e)
      | Inr None \<Rightarrow> (None, Inr 2)
      | Inr (Some claimed) \<Rightarrow>
          (case db of
             None \<Rightarrow> (None, Inr 2)
           | Some con \<Rightarrow>
               (case ready_rows con of
                  Inl _ \<Rightarrow> (None, Inr 2)
                | Inr [] \<Rightarrow> (None, Inr 2)
                | Inr rows \<Rightarrow>
                    (case py_map (finding_of claimed) rows of
                       Inl e \<Rightarrow> (None, Inr 1)
                     | Inr fs \<Rightarrow> (Some (ready_report_of claimed fs), Inr (ready_status claimed (ready_report_of claimed fs)))))))"

section \<open>The dates and the grader's blocks\<close>

text \<open>Rounding up: the calendar wait is the ceiling of the trading days times seven fifths.\<close>

lemma calendar_is_ceiling:
  assumes "0 < bars"
  shows "trading_to_calendar bars (7 / 5) = (7 * bars + 4) div 5"
proof -
  have "of_int bars * (7 / 5) + 999 / 1000 \<ge> (0 :: real)" using assms by simp
  moreover have "\<lfloor>of_int bars * (7 / 5) + 999 / 1000 :: real\<rfloor> = (7 * bars + 4) div 5"
  proof (rule floor_unique)
    have "7 * bars + 4 = 5 * ((7 * bars + 4) div 5) + (7 * bars + 4) mod 5" by simp
    moreover have "0 \<le> (7 * bars + 4) mod 5" "(7 * bars + 4) mod 5 \<le> 4" by (simp_all add: zle_diff1_eq [symmetric])
    ultimately have "5 * ((7 * bars + 4) div 5) \<le> 7 * bars + 4" "7 * bars \<le> 5 * ((7 * bars + 4) div 5)"
      by linarith+
    then have "5 * of_int ((7 * bars + 4) div 5) \<le> 7 * of_int bars + (4 :: real)"
      "7 * of_int bars \<le> 5 * (of_int ((7 * bars + 4) div 5) :: real)" by linarith+
    then show "of_int ((7 * bars + 4) div 5) \<le> of_int bars * (7 / 5) + (999 / 1000 :: real)"
      "of_int bars * (7 / 5) + 999 / 1000 < of_int ((7 * bars + 4) div 5) + (1 :: real)"
      by (simp_all add: field_simps)
  qed
  ultimately show ?thesis using assms by (simp add: trading_to_calendar_def trunc_def)
qed

lemma gap_reaches:
  "sorted_wrt (\<lambda>a b. a + w \<le> b) ds \<Longrightarrow> \<forall>d \<in> set ds. (f::int) \<le> d \<Longrightarrow> i < length ds \<Longrightarrow> f + int i * w \<le> ds ! i"
proof (induction ds arbitrary: f i)
  case (Cons d ds)
  show ?case
  proof (cases i)
    case (Suc j)
    have "\<forall>x \<in> set ds. d + w \<le> x" using Cons.prems(1) by simp
    with Cons.IH [of "d + w" j] Cons.prems Suc have "d + w + int j * w \<le> ds ! j" by simp
    moreover have "f \<le> d" using Cons.prems(2) by simp
    ultimately show ?thesis by (simp add: Suc algebra_simps)
  qed (use Cons.prems in simp)
qed simp

lemma blocks_reach_the_gate:
  assumes "g_ci (clustered_ci_blocks z rows h) = Some ci" and "\<And>d. d \<in> fst ` set rows \<Longrightarrow> first \<le> d"
  shows "\<exists>d \<in> fst ` set rows. first + 9 * max 1 h \<le> d"
proof -
  let ?ds = "map fst (horizon_blocks rows h)"
  have in_rows: "d \<in> fst ` set rows" if "d \<in> set ?ds" for d using that horizon_blocks_anchor [of _ rows h] by auto
  have "10 \<le> length ?ds"
    using blocks_credible [OF assms(1)] length_filter_le order_trans
    by (fastforce simp: credible_clusters_def MIN_DISTINCT_BLOCKS_def)
  then have nine: "9 < length ?ds" by simp
  have "first + int 9 * hd_width h \<le> ?ds ! 9"
    by (rule gap_reaches [OF horizon_blocks_spaced _ nine]) (use assms(2) in_rows in blast)
  then have "first + 9 * max 1 h \<le> ?ds ! 9" by (simp add: hd_width_def)
  then show ?thesis using in_rows [OF nth_mem [OF nine]] by (rule bexI)
qed

lemma least_le: "x \<in> set xs \<Longrightarrow> least xs \<le> x"
  by (auto simp: least_def min_opt_Some split: option.split)

lemma py_map_source: "py_map f xs = Inr ys \<Longrightarrow> y \<in> set ys \<Longrightarrow> \<exists>x \<in> set xs. f x = Inr y"
  by (induction xs arbitrary: ys) (auto simp: py_bind_Inr)

text \<open>The calls of a kind the grader counts for the model.\<close>

definition graded_calls :: "database \<Rightarrow> string \<Rightarrow> regime_row list" where
  "graded_calls con kind = filter (\<lambda>r. ro_kind r = kind)
     (model_rows con (case db_regime con of None \<Rightarrow> [] | Some rows \<Rightarrow> rows))"

lemma tally_days_fst:
  assumes "d \<in> fst ` set (days_of k (tally_days hit rows))"
  shows "\<exists>r \<in> set rows. key_of r = k \<and> ro_day r = d"
proof -
  obtain ds where ds: "map_of (tally_days hit rows) k = Some ds" "d \<in> fst ` set ds"
    using assms by (cases "map_of (tally_days hit rows) k") (simp_all add: days_of_def)
  from map_of_SomeD [OF ds(1)] ds(2) obtain g where "(k, g) \<in> set (group_by key_of rows)" "d \<in> ro_day ` set g"
    by (auto simp: tally_days_def set_group_by)
  then show ?thesis by (auto simp: set_group_by)
qed

text \<open>A structural row with an interval comes from the blocks of one horizon of its kind.\<close>

lemma structural_interval:
  assumes "grade_structural z con = Inr rows" "row \<in> set rows" "r_family row = ''structure''" "r_ci row \<noteq> None"
  obtains calls h ci where "db_regime con = Some calls"
    "\<exists>r \<in> set calls. key_of r = (r_predictor row, h)"
    "g_ci (clustered_ci_blocks z (days_of (r_predictor row, h) (tally_days is_correct (model_rows con calls))) h) = Some ci"
proof -
  obtain si claims where si: "fetch_structural con = Inr si"
    and rows: "rows = grade_structural_days z (si_totals si) (si_days si) claims (si_naive si)
      (Some (measure_universe_completeness (Some con) ''regime_outcomes''))"
    using assms(1) by (auto simp: grade_structural_def py_bind_Inr)
  obtain calls where calls: "db_regime con = Some calls"
    and totals: "si_totals si = map (\<lambda>(k, g). total_row k g)
        (group_by key_of (filter (\<lambda>r. in_epoch r \<and> superseded_clause con r) calls))"
    and days: "si_days si = tally_days is_correct (model_rows con calls)"
    using si by (auto simp: fetch_structural_def split: option.splits)
  obtain t where t: "t \<in> set (si_totals si)"
    and row: "row \<in> set (grade_kind z (si_days si) claims (si_naive si)
      (survivorship_stamp (Some (measure_universe_completeness (Some con) ''regime_outcomes''))) t)"
    using assms(2) by (auto simp: rows grade_structural_days_def)
  have "\<exists>r \<in> set calls. key_of r = (to_kind t, to_days t)"
  proof -
    obtain k g where "t = total_row k g"
      "(k, g) \<in> set (group_by key_of (filter (\<lambda>r. in_epoch r \<and> superseded_clause con r) calls))"
      using t by (auto simp: totals)
    then show ?thesis by (auto simp: total_row_def set_group_by)
  qed
  moreover obtain ng pre sv where "row = structural_row t pre
      (clustered_ci_blocks z (days_of (to_kind t, to_days t) (si_days si)) (to_days t)) ng sv"
    using row assms(3) by (auto simp: grade_kind_def Let_def benchmark_row_def simp del: blocks_fields split: if_splits)
  then have "r_predictor row = to_kind t"
    and "g_ci (clustered_ci_blocks z (days_of (to_kind t, to_days t) (si_days si)) (to_days t)) \<noteq> None"
    using assms(4) by (auto simp: structural_row_def Let_def simp del: blocks_fields split: if_splits)
  ultimately show ?thesis using that [OF calls, of "to_days t"] by (auto simp: days simp del: blocks_fields)
qed

text \<open>The settlement days of its graded calls span nine horizons.\<close>

lemma interval_spans_nine_horizons:
  assumes "grade_structural z con = Inr rows" "row \<in> set rows" "r_family row = ''structure''" "r_ci row \<noteq> None"
  shows "\<exists>calls. db_regime con = Some calls \<and> (\<exists>r \<in> set calls. ro_kind r = r_predictor row \<and>
    (\<exists>x \<in> set (graded_calls con (r_predictor row)). \<exists>y \<in> set (graded_calls con (r_predictor row)).
       9 * max 1 (ro_horizon_days r) \<le> ro_day y - ro_day x))"
proof -
  obtain calls h ci where calls: "db_regime con = Some calls"
    and key: "\<exists>r \<in> set calls. key_of r = (r_predictor row, h)"
    and ci: "g_ci (clustered_ci_blocks z (days_of (r_predictor row, h) (tally_days is_correct (model_rows con calls))) h) = Some ci"
    using structural_interval [OF assms] by blast
  let ?ds = "fst ` set (days_of (r_predictor row, h) (tally_days is_correct (model_rows con calls)))"
  have call: "\<exists>x \<in> set (graded_calls con (r_predictor row)). ro_day x = d" if "d \<in> ?ds" for d
    using tally_days_fst [OF that] calls by (auto simp: graded_calls_def key_of_def)
  obtain d where d: "d \<in> ?ds" using blocks_reach_the_gate [OF ci, of "Min ?ds"] by auto
  then have first: "Min ?ds \<in> ?ds" by (intro Min_in) auto
  obtain e where e: "e \<in> ?ds" "Min ?ds + 9 * max 1 h \<le> e"
    using blocks_reach_the_gate [OF ci, of "Min ?ds"] by auto
  obtain x y where xy: "x \<in> set (graded_calls con (r_predictor row))" "y \<in> set (graded_calls con (r_predictor row))"
    and "ro_day x = Min ?ds" "ro_day y = e"
    using call [OF first] call [OF e(1)] by blast
  with e(2) have span: "9 * max 1 h \<le> ro_day y - ro_day x" by linarith
  obtain r where "r \<in> set calls" "ro_kind r = r_predictor row" "ro_horizon_days r = h"
    using key by (auto simp: key_of_def)
  with calls xy span show ?thesis by blast
qed

lemma ready_run_reports:
  assumes "ready_run (Some con) claimed = (Some rep, st)"
  shows "\<exists>c reports. ready_rows con = Inr reports \<and> py_map (finding_of c) reports = Inr (ry_findings rep)"
proof -
  obtain c where c: "claimed_day_of claimed = Inr (Some c)"
    using assms by (auto simp: ready_run_def split: sum.splits option.splits)
  obtain reports where r: "ready_rows con = Inr reports" "reports \<noteq> []"
    using assms c by (cases "ready_rows con") (auto simp: ready_run_def split: list.splits)
  have "py_map (finding_of c) reports = Inr (ry_findings rep)"
    using assms c r
    by (cases "py_map (finding_of c) reports"; cases reports) (auto simp: ready_run_def ready_report_of_def)
  with r show ?thesis by blast
qed

lemma reported_finding:
  assumes "ready_run (Some con) claimed = (Some rep, st)" "f \<in> set (ry_findings rep)" "db_regime con = Some calls"
  shows "\<exists>dates. default_readiness (rr_first_call (rf_row f)) (rr_horizon (rf_row f)) = Inr dates
      \<and> rf_verdict f = rd_verdict dates
      \<and> (\<forall>r \<in> set calls. ro_kind r = rr_kind (rf_row f) \<longrightarrow> rr_horizon (rf_row f) \<le> ro_horizon_days r)"
proof -
  obtain c reports where run: "ready_rows con = Inr reports" "py_map (finding_of c) reports = Inr (ry_findings rep)"
    using ready_run_reports [OF assms(1)] by blast
  obtain q where q: "q \<in> set reports" "finding_of c q = Inr f"
    using py_map_source [OF run(2) assms(2)] by blast
  from q(2) have d: "\<exists>dates. default_readiness (rr_first_call q) (rr_horizon q) = Inr dates
      \<and> rf_verdict f = rd_verdict dates" and fq: "rf_row f = q"
    by (auto simp: finding_of_def py_bind_Inr)
  have "q \<in> ready_row_of ` set (group_by ro_kind calls)"
    using run(1) q(1) assms(3) by (auto simp add: ready_rows_def simp del: set_map simp flip: set_map split: if_splits)
  then obtain k g where kg: "q = ready_row_of (k, g)" "(k, g) \<in> set (group_by ro_kind calls)"
    by (metis imageE prod.collapse)
  then have k: "q = ready_row_of (k, filter (\<lambda>r. ro_kind r = k) calls)" by (simp add: set_group_by)
  have "rr_horizon q \<le> ro_horizon_days r" if "r \<in> set calls" "ro_kind r = rr_kind q" for r
  proof -
    have "ro_kind r = k" using that(2) by (simp add: k ready_row_of_def)
    then have "ro_horizon_days r \<in> set (map ro_horizon_days (filter (\<lambda>r. ro_kind r = k) calls))"
      using that(1) by simp
    from least_le [OF this] show ?thesis by (simp add: k ready_row_of_def)
  qed
  then show ?thesis using d by (simp add: fq)
qed

text \<open>
  C40. What the gate date of the readiness report bounds. Where the grader publishes an interval for a
  kind of the report, the settlement days of the graded calls span at least the wait the report adds
  to its first call. So the gate date is a lower bound wherever no graded call settles on a day
  before the report's first call; calls that do bring it forward by as much as they trail it.
\<close>

theorem no_interval_before_the_gate:
  assumes "grade_structural z con = Inr rows" "row \<in> set rows" "r_family row = ''structure''" "r_ci row \<noteq> None"
    and "ready_run (Some con) claimed = (Some rep, st)" "f \<in> set (ry_findings rep)"
    and "rr_kind (rf_row f) = r_predictor row"
  shows "\<exists>dates. default_readiness (rr_first_call (rf_row f)) (rr_horizon (rf_row f)) = Inr dates
    \<and> rf_verdict f = rd_verdict dates
    \<and> (\<exists>x \<in> set (graded_calls con (r_predictor row)). \<exists>y \<in> set (graded_calls con (r_predictor row)).
         rd_gate_call dates - rr_first_call (rf_row f) \<le> ro_day y - ro_day x)
    \<and> ((\<forall>x \<in> set (graded_calls con (r_predictor row)). rr_first_call (rf_row f) \<le> ro_day x)
        \<longrightarrow> (\<exists>y \<in> set (graded_calls con (r_predictor row)). rd_gate_call dates \<le> ro_day y))"
proof -
  obtain calls r x y where calls: "db_regime con = Some calls" and r: "r \<in> set calls" "ro_kind r = r_predictor row"
    and x: "x \<in> set (graded_calls con (r_predictor row))" and y: "y \<in> set (graded_calls con (r_predictor row))"
    and span: "9 * max 1 (ro_horizon_days r) \<le> ro_day y - ro_day x"
    using interval_spans_nine_horizons [OF assms(1-4)] by blast
  obtain dates where d: "default_readiness (rr_first_call (rf_row f)) (rr_horizon (rf_row f)) = Inr dates"
    "rf_verdict f = rd_verdict dates" "rr_horizon (rf_row f) \<le> ro_horizon_days r"
    using reported_finding [OF assms(5,6) calls] r assms(7) by auto
  have "rd_gate_call dates = rr_first_call (rf_row f) + 9 * rr_horizon (rf_row f)"
    using d(1) by (auto simp: default_readiness_def readiness_def Let_def split: if_splits)
  then have gap: "rd_gate_call dates - rr_first_call (rf_row f) \<le> ro_day y - ro_day x" using span d(3) by linarith
  have "(\<forall>x \<in> set (graded_calls con (r_predictor row)). rr_first_call (rf_row f) \<le> ro_day x)
      \<longrightarrow> (\<exists>y \<in> set (graded_calls con (r_predictor row)). rd_gate_call dates \<le> ro_day y)"
  proof
    assume "\<forall>x \<in> set (graded_calls con (r_predictor row)). rr_first_call (rf_row f) \<le> ro_day x"
    with x have "rr_first_call (rf_row f) \<le> ro_day x" by blast
    with gap have "rd_gate_call dates \<le> ro_day y" by linarith
    with y show "\<exists>y \<in> set (graded_calls con (r_predictor row)). rd_gate_call dates \<le> ro_day y" by blast
  qed
  with d(1,2) gap x y show ?thesis by blast
qed

section \<open>Settlement days that trail\<close>

text \<open>
  Forty calls made on day 20660, each on a symbol whose last bar is up to nine days old. They fill ten
  blocks of one day at once, and the grader publishes an interval; the gate date of the report is
  nine days later.
\<close>

definition stale_call :: "int \<Rightarrow> bool \<Rightarrow> regime_row" where
  "stale_call d hit =
     \<lparr>ro_id = 0, ro_symbol = d, ro_kind = ''vol1'', ro_ts = 20660 * 86400, ro_day = d, ro_horizon_days = 1,
      ro_historical = 1 / 2, ro_resolved = Some 1800000000, ro_actual = Some ''up'',
      ro_correct = Some (if hit then 1 else 0), ro_naive = None, ro_revision = None, ro_superseded = None\<rparr>"

definition stale_calls :: "regime_row list" where
  "stale_calls = concat (map (\<lambda>(d, hits). map (stale_call d) hits)
     [(20651, [True, True, True, False]), (20652, [True, False, False, False]),
      (20653, [True, True, True, False]), (20654, [True, False, False, False]),
      (20655, [True, True, True, False]), (20656, [True, False, False, False]),
      (20657, [True, True, True, False]), (20658, [True, False, False, False]),
      (20659, [True, True, True, False]), (20660, [True, False, False, False])])"

definition stale_db :: database where
  "stale_db = empty_db\<lparr>db_regime := Some stale_calls, db_has_naive := True\<rparr>"

definition stale_days :: "day_row list" where
  "stale_days = map (\<lambda>(d, n, h). (20651 + d, n, h)) ten_days"

lemma stale_tallies: "tally_days is_correct (model_rows stale_db stale_calls) = [((''vol1'', 1), stale_days)]"
  unfolding stale_days_def ten_days_rows by code_simp

lemma stale_blocks: "horizon_blocks stale_days 1 = stale_days"
  unfolding stale_days_def ten_days_rows by code_simp

lemma stale_report: "ready_rows stale_db =
    Inr [\<lparr>rr_kind = ''vol1'', rr_first_call = 20660, rr_calls = 40, rr_horizon = 1, rr_resolved = 40,
          rr_quarantined = 40, rr_blocks = 10\<rparr>]"
  by code_simp

lemma stale_interval: "\<exists>ci. g_ci (clustered_ci_blocks 2 stale_days 1) = Some ci"
proof -
  have "map snd (horizon_blocks stale_days 1) = map snd (horizon_blocks ten_days 1)"
    by (simp add: stale_blocks ten_days_blocks) (simp add: stale_days_def ten_days_rows)
  then show ?thesis using ten_days_interval by simp
qed

lemma stale_grade:
  "\<exists>rows row. grade_structural 2 stale_db = Inr rows \<and> row \<in> set rows \<and> r_family row = ''structure''
     \<and> r_predictor row = ''vol1'' \<and> r_ci row \<noteq> None"
proof -
  let ?g = "clustered_ci_blocks 2 stale_days 1"
  have regime: "db_regime stale_db = Some stale_calls" by (simp add: stale_db_def)
  have "map fst (group_by key_of (filter (\<lambda>r. in_epoch r \<and> superseded_clause stale_db r) stale_calls)) = [(''vol1'', 1)]"
    by code_simp
  then obtain g where g: "group_by key_of (filter (\<lambda>r. in_epoch r \<and> superseded_clause stale_db r) stale_calls)
      = [((''vol1'', 1), g)]"
    by (auto simp: map_eq_Cons_conv simp del: group_by_keys)
  let ?t = "total_row (''vol1'', 1) g"
  obtain si where si: "fetch_structural stale_db = Inr si" "si_totals si = [?t]" "si_days si = [((''vol1'', 1), stale_days)]"
    by (simp add: fetch_structural_def regime g stale_tallies)
  have claims: "fetch_prereg_claims stale_db = Inr []" by (simp add: fetch_prereg_claims_def stale_db_def empty_db_def)
  have n: "MIN_INDEPENDENT_N \<le> g_n ?g"
    by (simp add: stale_days_def ten_days_rows tally_n_def MIN_INDEPENDENT_N_def)
  let ?sv = "survivorship_stamp (Some (measure_universe_completeness (Some stale_db) ''regime_outcomes''))"
  let ?ng = "clustered_ci_blocks 2 (days_of (''vol1'', 1) (si_naive si)) 1"
  let ?row = "structural_row ?t None ?g ?ng ?sv"
  obtain rest where "grade_structural 2 stale_db = Inr (?row # rest)"
    by (simp add: grade_structural_def si claims grade_structural_days_def grade_kind_def Let_def total_row_def days_of_def)
  moreover have "r_family ?row = ''structure'' \<and> r_predictor ?row = ''vol1'' \<and> r_ci ?row \<noteq> None"
    using n stale_interval by (auto simp: structural_row_def Let_def total_row_def simp del: blocks_fields)
  ultimately show ?thesis by (meson list.set_intros(1))
qed

lemma stale_run:
  "\<exists>rep st. ready_run (Some stale_db) ''2026-08-07'' = (Some rep, st) \<and> map rf_row (ry_findings rep) =
     [\<lparr>rr_kind = ''vol1'', rr_first_call = 20660, rr_calls = 40, rr_horizon = 1, rr_resolved = 40,
       rr_quarantined = 40, rr_blocks = 10\<rparr>]"
proof -
  have c: "claimed_day_of ''2026-08-07'' = Inr (Some 20672)" by code_simp
  show ?thesis
    by (simp add: ready_run_def c stale_report finding_of_def default_readiness_def readiness_def Let_def
        ready_report_of_def)
qed

theorem no_interval_before_the_gate_witness:
  "\<exists>rows row dates. grade_structural 2 stale_db = Inr rows \<and> row \<in> set rows \<and> r_ci row \<noteq> None
     \<and> default_readiness 20660 1 = Inr dates \<and> rd_gate_call dates = 20669
     \<and> (\<exists>x \<in> set (graded_calls stale_db ''vol1''). \<exists>y \<in> set (graded_calls stale_db ''vol1'').
          9 \<le> ro_day y - ro_day x)"
proof -
  obtain rows row where g: "grade_structural 2 stale_db = Inr rows" "row \<in> set rows" "r_family row = ''structure''"
    "r_predictor row = ''vol1''" "r_ci row \<noteq> None"
    using stale_grade by blast
  obtain rep st f where f: "ready_run (Some stale_db) ''2026-08-07'' = (Some rep, st)" "f \<in> set (ry_findings rep)"
    "rr_kind (rf_row f) = ''vol1''" "rr_first_call (rf_row f) = 20660" "rr_horizon (rf_row f) = 1"
    using stale_run by (auto simp: map_eq_Cons_conv)
  obtain dates x y where d: "default_readiness 20660 1 = Inr dates"
    and xy: "x \<in> set (graded_calls stale_db ''vol1'')" "y \<in> set (graded_calls stale_db ''vol1'')"
      "rd_gate_call dates - 20660 \<le> ro_day y - ro_day x"
    using no_interval_before_the_gate [OF g(1,2,3,5) f(1,2)] f(3,4,5) g(4) by auto
  have "rd_gate_call dates = 20669"
    using d by (auto simp: default_readiness_def readiness_def Let_def)
  with g(1,2,5) d xy show ?thesis by (intro exI [of _ rows] exI [of _ row] exI [of _ dates]) auto
qed

text \<open>So settlement days that trail let the grader publish before the date the report calls conservative.\<close>

lemma stale_calls_reach_the_gate_early:
  "(\<exists>rows row. grade_structural 2 stale_db = Inr rows \<and> row \<in> set rows \<and> r_predictor row = ''vol1'' \<and> r_ci row \<noteq> None)
   \<and> list_all (\<lambda>r. ro_ts r div 86400 = 20660) (graded_calls stale_db ''vol1'')
   \<and> map_sum id rd_gate_call (default_readiness 20660 1) = Inr 20669"
proof (intro conjI)
  show "\<exists>rows row. grade_structural 2 stale_db = Inr rows \<and> row \<in> set rows \<and> r_predictor row = ''vol1'' \<and> r_ci row \<noteq> None"
    using stale_grade by blast
  show "list_all (\<lambda>r. ro_ts r div 86400 = 20660) (graded_calls stale_db ''vol1'')" by code_simp
qed (simp add: default_readiness_def readiness_def Let_def)

end
