(* ===== verification/Spec2Isabelle.thy ===== *)
theory Spec2Isabelle
  imports Registry_Run Resolver_Liveness Public_Certificate Docs_Partials Anchor_Checks Listing_Status
    Revision_Reachability Accuracy_Goals Revalidation_Gate Prereg_Readiness
begin

text \<open>
  SignalDeck forecasts the direction and the regime of market symbols, stores every forecast in an
  append-only hash chain, and publishes how its forecasts turned out. The daemon is written in Go;
  what is published about the record is computed by the Python tools under \<open>tools/\<close>. This library
  models those tools: definitions are translated from the sources function by function, carry the
  sources' names, and compute.

  \<^bold>\<open>The parts and how they interact.\<close> Once a day a pipeline runs over the daemon's SQLite database.
  \<^item> \<open>deployment_drift.py\<close> first asks whether the live database may be graded at all: baselines on
    every graded structural row, the frozen exempt set, the judgment ledger, the deployed revision.
  \<^item> \<open>accuracy_registry.py\<close> is the grader. It refuses to run unless the pre-registration chain pins
    its own digest and its floors, and unless \<open>research_liveness.py\<close> finds a corroborating row for
    every narrated search. It folds the calls to one per symbol and trading day, scores blocks of
    days, prices the intervals by the rows published and the looks taken, derives verdicts, and
    withholds them where the chain, the revision stamps or the null probe do not allow them.
  \<^item> \<open>selection_honesty.py\<close>, with \<open>skillpower.py\<close> and \<open>skillschema.py\<close>, adds to every graded row of
    the registry a block that says what its number can bear.
  \<^item> \<open>publication_gate.py\<close> asserts that the registry is complete before it is moved into place.
  \<^item> \<open>live_accuracy.py\<close> renders the registry into the documents and fails a build that types a
    figure by hand.
  \<^item> \<open>docs_gate.py\<close> checks the repository's prose against a measured snapshot of the data: claims, figures
    typed by hand, stale blocks, labels of backtests; it also builds the blocks and the snapshot.
  \<^item> \<open>structural_liveness.py\<close> asks whether the worker still settles what has come due,
    \<open>survivorship_status.py\<close> reports the listing evidence of every graded symbol as of a date,
    \<open>anchor_liveness.py\<close> how far publication of the signed anchors lags, and \<open>anchor_fallback.py\<close>
    recomputes the published line without the daemon. \<open>ledger_revision_reachability.py\<close> warns before
    commits the ledger cites are collected, \<open>check_revalidation.py\<close> asks for a fresh revalidation,
    \<open>prereg_readiness.py\<close> computes when a registered kind can first carry a verdict, and
    \<open>ops/accuracy_gates.py\<close> with \<open>ops/accuracy_baseline.py\<close> are the gates and the success criterion of
    the self-improvement loop.
  \<^item> \<open>make_repro_snapshot.py\<close> exports the grading inputs, so that the grader can be run without the
    database; \<open>verify_public_record.py\<close> is what a reader runs against the published commitments.

  \<^bold>\<open>Theories.\<close> Each opens with the file and the functions it models.
  \<^item> Shared: \<open>SD_Prelude\<close> (exceptions as values, strings, dates, grouping and SQL's aggregates),
    \<open>Py_Json\<close> and \<open>Py_Num\<close> (documents, conversions, IEEE comparisons, formats), \<open>Market_Tables\<close> (one
    record per table of \<open>schema.sql\<close>), \<open>Sha256\<close> (over \<^typ>\<open>32 word\<close>), \<open>Normal_Quantile\<close>.
  \<^item> The grader: \<open>Score_Intervals\<close>, \<open>Evidence_Blocks\<close>, \<open>Verdicts\<close>, \<open>Day_Fold\<close>, \<open>Population\<close>,
    \<open>Measures\<close>, \<open>Multiplicity\<close>, \<open>Registry_Rows\<close>, \<open>Grading\<close>, \<open>Structural_Grading\<close>, \<open>Chain_Gates\<close>,
    \<open>Registry_Run\<close> (\<open>main\<close> and its exit status), and \<open>Research_Liveness\<close>.
  \<^item> After the grader: \<open>Skill_Record\<close>, \<open>Selection_Honesty\<close>, \<open>Publication_Gate\<close>,
    \<open>Doc_Blocks\<close>, \<open>Live_Accuracy\<close> and \<open>Live_Publication\<close>.
  \<^item> The documentation gate: \<open>Doc_Claims\<close> (forbidden claims and their negations), \<open>Docs_Gate\<close> (the
    checks and the three modes), \<open>Docs_Gate_Facts\<close> (what a clean check certifies, the two contracts,
    the withheld snapshot) and \<open>Docs_Partials\<close> (built blocks, and the figures the check lets stand).
  \<^item> Around it: \<open>Deployment_Drift\<close>, \<open>Resolver_Liveness\<close>, \<open>Listing_Status\<close>, \<open>Anchor_Checks\<close>,
    \<open>Revision_Reachability\<close>, \<open>Revalidation_Gate\<close>, \<open>Prereg_Readiness\<close>, \<open>Accuracy_Goals\<close>,
    \<open>Snapshot\<close>, \<open>Public_Record\<close> and \<open>Public_Certificate\<close>.
  \<^item> This theory holds the properties that span the gates and the grader.

  \<^bold>\<open>What the lemmas show.\<close>
  \<^item> Invariants and safety: every published interval carries the price of the rows published and the
    largest family and looks on record; nothing is graded without registration and liveness; gates
    only withhold; a boot has no restart gap after it; a merge changes only the honesty blocks; two
    ledgers that pass against the same public statements carry the same forecasts where their text
    fields hold no bar; a listing report for a past date depends only on the rows dated up to then, and
    its figures balance; a figure in the documents stands only in a block that carries the text of its
    partial.
  \<^item> Function: folds, censuses, horizon blocks, claims and gates do what their specifications say on
    every branch; exit statuses are equivalent to the condition they stand for.
  \<^item> Refinement and equivalence: the paged chain check is one walk over the ledger; a merge is
    idempotent; the drift gate and the grader's own probe agree; withholding the counts of a snapshot
    decides none of the rules that read it, a blank refusal reason apart; the reachability check names the families the grader's gate
    will strip; the goals do not depend on how often a forecast is stored.
  \<^item> Round trips: canonical texts, exported tallies, the quarantine message, spliced documents,
    built blocks.
  \<^item> Error behaviour: a sum type carries every exception and every refusal of the sources; theorems
    name the inputs on which a tool that says it never raises does raise.
  \<^item> Termination: functions with a non-structural recursion come with their measure. The two
    loops that may run for ever, over the pages of a site and over the files revalidation stamps
    name, are partial functions into options: each is shown when it returns, and an input on which it
    does not.

  \<^bold>\<open>Reading the model.\<close> A float is a \<^typ>\<open>real\<close> and its arithmetic exact (where a document may carry
  them, infinities and not-a-number follow IEEE 754), so bounds are bounds of the formulas, not of
  their rounding. Strings are lists of UTF-8 bytes. A JSON text is the text together with what the
  parser makes of it. SQL's NULL and Python's None are \<^term>\<open>None\<close>; primary keys rule out ties the
  statements would leave to the engine; a missing table is the driver's \<open>OperationalError\<close>. The
  constructor \<^term>\<open>OutOfModel\<close> marks runs that are not followed, and no theorem claims a result for
  them. Where a message only reports what is carried elsewhere, it is a constructor with its fields.
  Parameters of the definitions stand for what is not in the repository: what \<open>git\<close>, \<open>openssl\<close> and a
  site answer, the grader's own bytes, the resamples a seeded generator draws, the shortest decimal
  of a float.

  \<^bold>\<open>Not modelled.\<close> The Go daemon and the web front end (other languages); shell and launchd glue under
  \<open>ops/\<close>; the hypothesis studies under \<open>research/\<close> and the price studies under \<open>tools/\<close>, one-off
  floating-point computations over licensed price data that keep no state; printing and the writing of
  JSON and CSV files; the definition-of-done runner, which starts the other tools and the test suites
  as subprocesses; the price-series and \<open>%.10g\<close> float exports of the snapshot; ISO timestamps in
  forms the pipeline does not write; tests.
\<close>

section \<open>The database run\<close>

lemma withholds_price: "withholds r r' \<Longrightarrow> r_price r' = r_price r"
  unfolding withholds_def by (blast dest: bare_price)

text \<open>
  C3. A run against the database grades only behind its preconditions: the newest protocol record
  of the chain registers the running grader, and no narrated search or registered forecast is
  left uncorroborated (a database without worker runs has narrated nothing).
\<close>

theorem no_grade_without_registration:
  assumes "run_database pf con now reg = Inr rx"
  shows "\<exists>d. newest_grading_protocol con = Inr (Some d)
    \<and> grader_registration_error pf (Some d) = None
    \<and> rx_protocol_seq rx = protocol_seq d
    \<and> (db_worker_runs con = None \<or> blocking_violations con now = Inr [])"
proof -
  from assms obtain protocol looks g0 g rows
    where reg: "require_registered_grader pf con = Inr protocol"
      and live: "require_research_liveness con now = Inr ()"
      and rx: "rx = database_registry pf con protocol g rows"
    by (rule run_databaseE)
  from reg obtain rec where new: "newest_grading_protocol con = Inr rec"
    and out: "(case grader_registration_error pf rec of Some err \<Rightarrow> Inl (Refuses err)
      | None \<Rightarrow> Inr (case rec of Some d \<Rightarrow> d | None \<Rightarrow> [])) = Inr protocol"
    by (auto simp: require_registered_grader_def run_bind_Inr of_py_Inr)
  then have ok: "grader_registration_error pf rec = None"
    and p: "protocol = (case rec of Some d \<Rightarrow> d | None \<Rightarrow> [])"
    by (auto split: option.splits)
  then obtain d where d: "rec = Some d" by (cases rec) (simp_all add: grader_registration_error_def)
  have "db_worker_runs con = None \<or> blocking_violations con now = Inr []"
    using live by (auto simp: require_research_liveness_def run_bind_Inr of_py_Inr split: if_splits)
  with new ok p d rx show ?thesis by (simp add: database_registry_def Let_def)
qed

definition pinned_spec :: "platform \<Rightarrow> (string \<times> json) list" where
  "pinned_spec pf = (''graderSha256'', JStr (self_sha256 pf)) # expected_floors"

definition pinned_db :: "platform \<Rightarrow> database" where
  "pinned_db pf = two_calls\<lparr>db_regime := Some [], db_prereg := Some
     [\<lparr>pr_seq = 3, pr_ts = 0, pr_kind = ''grading-protocol'',
       pr_spec = Blob ''{}'' (Some (JObj (pinned_spec pf))), pr_hash = ''h''\<rparr>]\<rparr>"

lemma pinned_registered:
  "require_registered_grader pf (pinned_db pf) = Inr ((''_seq'', JInt 3) # pinned_spec pf)"
proof -
  have rec: "newest_grading_protocol (pinned_db pf) = Inr (Some ((''_seq'', JInt 3) # pinned_spec pf))"
    by (simp add: newest_grading_protocol_def pinned_db_def newest_of_def)
  have "grader_registration_error pf (Some ((''_seq'', JInt 3) # pinned_spec pf)) = None"
    unfolding grader_registration_error_def pinned_spec_def expected_floors_def
    by (simp add: py_eq_def Let_def)
  with rec show ?thesis by (simp add: require_registered_grader_def)
qed

lemma pinned_runs: "\<exists>rx. run_database pf (pinned_db pf) now NoFile = Inr rx"
proof -
  have live: "require_research_liveness (pinned_db pf) now = Inr ()"
    by (simp add: require_research_liveness_def pinned_db_def two_calls_def empty_db_def)
  have looks: "looks_taken (pinned_db pf) NoFile = Inr 1"
    by (simp add: looks_taken_def pinned_db_def chain_looks_def look_specs_def LOOK_KIND_def
        published_looks_def published_int_def)
  have fam: "raise_family_floor (pinned_db pf) NoFile = Inr initial_grader"
    by (simp add: raise_family_floor_def pinned_db_def chain_families_def look_specs_def LOOK_KIND_def
        published_family_def published_int_def set_family_floor_def initial_grader_def)
  have claims: "fetch_prereg_claims (pinned_db pf) = Inr []"
    by (simp add: fetch_prereg_claims_def pinned_db_def newest_per_kind_def group_by_def map_filter_def
        max_opt_def claim_of_def bands_of_def pinned_spec_def expected_floors_def)
  have "\<exists>rows. grade_db (pinned_db pf) s g = Inr rows" for s g
    by (simp add: grade_db_def grade_structural_def claims)
      (simp add: fetch_structural_def pinned_db_def)
  then have "\<exists>out. graded_run (grade_db (pinned_db pf) s) 1 g = Inr out" for s g
    by (auto simp: graded_run_def run_bind_Inr of_py_Inr)
  then show ?thesis
    by (auto simp: run_database_def pinned_registered live looks fam run_bind_Inr split: prod.splits)
qed

theorem no_grade_without_registration_witness:
  "\<exists>rx. run_database sample_platform (pinned_db sample_platform) 0 NoFile = Inr rx
     \<and> (\<exists>d. newest_grading_protocol (pinned_db sample_platform) = Inr (Some d)
          \<and> grader_registration_error sample_platform (Some d) = None)"
  using pinned_runs [of sample_platform 0] no_grade_without_registration [of sample_platform "pinned_db sample_platform" 0 NoFile] by blast

text \<open>
  C1. Every interval a database run publishes is priced for everything it shows and everything
  shown before: the family is at least the number of published rows, the largest family on the
  chain and the one of the last published registry, the looks are at least those of the chain and
  of that registry, every row carries that price, and the interval of every row and of its breadth
  is the one computed at the quantile of exactly that divisor, which is never below the uncorrected
  one: Wilson's formula at the accuracy and the effective sample the row publishes.
\<close>

theorem published_rows_are_priced:
  assumes "run_database pf con now reg = Inr rx"
  shows "\<exists>m cf pf' cl pl. gr_mult (rx_grader rx) = m
    \<and> chain_families con = Inr cf \<and> published_family reg = Inr pf'
    \<and> chain_looks con = Inr cl \<and> published_looks reg = Inr pl
    \<and> int (length (rx_rows rx)) \<le> px_family_size m \<and> max cf pf' \<le> px_family_size m
    \<and> max cl pl \<le> px_looks m
    \<and> px_divisor m = px_family_size m * px_looks m
    \<and> px_z m = z_of_divisor (px_divisor m) \<and> UNCORRECTED_Z \<le> px_z m
    \<and> (\<forall>r \<in> set (rx_rows rx). r_price r = Some m \<and> priced_at (px_z m) r)"
proof -
  from assms obtain protocol looks g0 g rows
    where looks: "looks_taken con reg = Inr looks" and floor: "raise_family_floor con reg = Inr g0"
      and grade: "grade_with_multiplicity
        (\<lambda>g. rows_or_none (grade_db con (measure_settlement_quarantine (Some con)) g)) looks g0 = (g, rows)"
      and rx: "rx = database_registry pf con protocol g rows"
    by (rule run_databaseE)
  from looks obtain cl pl where l: "chain_looks con = Inr cl" "published_looks reg = Inr pl"
      "looks = max 1 (max cl pl)"
    by (auto simp: looks_taken_def py_bind_Inr)
  from raise_family_floor_floor [OF floor] obtain cf p
    where f: "chain_families con = Inr cf" "published_family reg = Inr p"
      "gr_family_floor g0 = max 1 (max cf p)"
    by blast
  have g: "g = set_multiplicity (int (length rows)) looks g0"
    by (rule db_grading.family_priced(4) [OF grade])
  have rows: "rx_rows rx = gated_rows (null_amendment_probe con) (revision_gate (pf_git pf) con) rows"
    by (simp add: rx database_registry_def Let_def)
  have len: "length (rx_rows rx) = length rows" by (simp add: rows both_gates.gate_length)
  have "r_price r = Some (gr_mult g)" if "r \<in> set rows" for r
    using db_grading.stamped [of r con "measure_settlement_quarantine (Some con)" looks g0] that
    by (simp add: grade)
  then have "r_price r = Some (gr_mult g)" if "r \<in> set (rx_rows rx)" for r
    using that unfolding rows by (metis both_gates.gate_from withholds_price)
  moreover have "priced_at (px_z (gr_mult g)) r" if "r \<in> set (rx_rows rx)" for r
    using that gated_priced [of r _ _ g con "measure_settlement_quarantine (Some con)"]
    unfolding rows db_grading.family_priced(3) [OF grade] by (simp add: current_z_def)
  ultimately have price: "\<forall>r \<in> set (rx_rows rx). r_price r = Some (gr_mult g) \<and> priced_at (px_z (gr_mult g)) r"
    by blast
  have gr: "rx_grader rx = g" by (simp add: rx database_registry_def Let_def)
  define fam where "fam = max 1 (max (int (length rows)) (gr_family_floor g0))"
  define lk where "lk = max 1 looks"
  have m: "gr_mult g = \<lparr>px_family_size = fam, px_looks = lk, px_divisor = fam * lk,
      px_corrected_alpha = MAX_ALPHA / of_int (fam * lk), px_z = z_of_divisor (fam * lk)\<rparr>"
    by (simp add: g set_multiplicity_mult Let_def fam_def lk_def)
  have "int (length (rx_rows rx)) \<le> fam" "max cf p \<le> fam" "max cl pl \<le> lk"
    by (simp_all add: fam_def lk_def len f(3) l(3) le_max_iff_disj)
  then show ?thesis
    using price l(1,2) f(1,2) unfolding gr
    by (intro exI [of _ "gr_mult g"] exI conjI) (assumption | simp add: m z_of_divisor_ge)+
qed

theorem published_rows_are_priced_witness:
  "\<exists>rx. run_database sample_platform (pinned_db sample_platform) 0 NoFile = Inr rx
     \<and> int (length (rx_rows rx)) \<le> px_family_size (gr_mult (rx_grader rx))"
  using pinned_runs [of sample_platform 0] published_rows_are_priced [of sample_platform "pinned_db sample_platform" 0 NoFile] by blast

text \<open>
  C2. The gates of a database run can only withhold: the published rows are, one by one and in
  order, the rows of the grading at the published price, each with all its numbers, and a verdict,
  claim verdict or retire flag is either the graded one or absent.
\<close>

theorem publication_only_withholds:
  assumes "run_database pf con now reg = Inr rx"
  shows "\<exists>rows. grade_db con (rx_settlement rx) (rx_grader rx) = Inr rows
    \<and> list_all2 withholds (stamp_multiplicity (rx_grader rx) rows) (rx_rows rx)"
proof -
  let ?s = "measure_settlement_quarantine (Some con)"
  from assms obtain protocol looks g0 g rows
    where grade: "grade_with_multiplicity (\<lambda>g. rows_or_none (grade_db con ?s g)) looks g0 = (g, rows)"
      and rx: "rx = database_registry pf con protocol g rows"
    by (rule run_databaseE)
  have "\<exists>rs. grade_db con ?s g = Inr rs"
    using assms grade_db_blind [of con ?s g] 
    by (auto simp: run_database_def graded_run_def run_bind_Inr of_py_Inr) (metis Inl_Inr_False)
  then obtain rs where rs: "grade_db con ?s g = Inr rs" ..
  have "rows = stamp_multiplicity g rs"
    using db_grading.family_priced(3) [OF grade] by (simp add: rs rows_or_none_def)
  moreover have "list_all2 withholds rows (gated_rows (null_amendment_probe con)
      (revision_gate (pf_git pf) con) rows)"
    by (rule both_gates.gate_withholds)
  ultimately show ?thesis using rs by (simp add: rx database_registry_def Let_def)
qed

theorem publication_only_withholds_witness:
  "\<exists>rx rows. run_database sample_platform (pinned_db sample_platform) 0 NoFile = Inr rx
     \<and> list_all2 withholds (stamp_multiplicity (rx_grader rx) rows) (rx_rows rx)"
  using pinned_runs [of sample_platform 0] publication_only_withholds [of sample_platform "pinned_db sample_platform" 0 NoFile] by blast

text \<open>
  A registry published from a database leaves with status 1 exactly when some call at or after
  the null amendment, of a kind whose writer requires a frozen baseline and outside the frozen
  quarantine, carries none; otherwise the status is 0.
\<close>

theorem exit_status_is_the_invariant:
  assumes "run_database pf con now reg = Inr rx"
  shows "exit_status (Inr rx) = (case db_regime con of
     Some rows \<Rightarrow> (if db_has_naive con \<and> unmatched_nulls con rows \<noteq> [] then 1 else 0)
   | None \<Rightarrow> 0)"
proof -
  from assms obtain protocol g rows where "rx = database_registry pf con protocol g rows"
    by (rule run_databaseE)
  then show ?thesis
    by (auto simp: exit_status_def database_registry_def fetch_chain_presence_def Let_def
        split: option.splits bool.splits)
qed

theorem exit_status_is_the_invariant_witness:
  "\<exists>rx. run_database sample_platform (pinned_db sample_platform) 0 NoFile = Inr rx \<and> exit_status (Inr rx) = 0"
proof -
  obtain rx where rx: "run_database sample_platform (pinned_db sample_platform) 0 NoFile = Inr rx" using pinned_runs by blast
  from exit_status_is_the_invariant [OF rx] rx show ?thesis
    by (auto simp: pinned_db_def unmatched_nulls_def)
qed

section \<open>The snapshot run\<close>

text \<open>
  A bundle that names no grader yields no verdict: every row of a run against a snapshot
  without a protocol record is published without a verdict and without a claim verdict, with the
  predictors of the grading and in their order.
\<close>

theorem unregistered_bundle_has_no_verdict:
  assumes "load_snapshot pf snap allow_legacy = Inr si" and "sp_protocol si = None"
    and "run_snapshot pf snap allow_legacy reg = Inr rx"
  shows "(\<forall>r \<in> set (rx_rows rx). r_verdict r = None \<and> r_claim_verdict r = None)
    \<and> map r_predictor (rx_rows rx) = map r_predictor (grade_snapshot si (rx_grader rx))"
proof -
  from assms obtain looks where run: "(case grade_with_multiplicity (grade_snapshot si) looks initial_grader
      of (g, rows) \<Rightarrow> Inr (snapshot_registry allow_legacy si g rows)) = (Inr rx :: registry run)"
    by (fastforce simp: run_snapshot_def run_bind_Inr of_py_Inr)
  obtain g rows where grade: "grade_with_multiplicity (grade_snapshot si) looks initial_grader = (g, rows)"
    by (cases "grade_with_multiplicity (grade_snapshot si) looks initial_grader")
  with run have rx: "rx = snapshot_registry allow_legacy si g rows" by simp
  have "r_verdict r = None \<and> r_claim_verdict r = None" if "r \<in> set (drop_unregistered None rows)" for r
    using that by (auto simp: drop_unregistered_def drop_verdict_def)
  then have none: "r_verdict r = None \<and> r_claim_verdict r = None"
    if "r \<in> set (drop_untargeted allow_legacy (sp_claims si) (drop_unregistered None rows))" for r
    using that by (auto simp: drop_untargeted_def drop_verdict_def split: if_splits)
  have "map r_predictor (drop_untargeted a cs rs) = map r_predictor rs" for a cs rs
    by (simp add: drop_untargeted_def drop_verdict_def comp_def if_distrib [of r_predictor])
  moreover have "rows = stamp_multiplicity g (grade_snapshot si g)"
    by (rule snapshot_grading.family_priced(3) [OF grade])
  ultimately have "map r_predictor (rx_rows rx) = map r_predictor (grade_snapshot si g)"
    using assms(2) unregistered_gate.gate_predictors [of None rows]
    by (simp add: rx snapshot_registry_def stamp_multiplicity_def comp_def)
  with none assms(2) show ?thesis by (simp add: rx snapshot_registry_def)
qed

theorem unregistered_bundle_has_no_verdict_witness:
  "\<exists>rx. run_snapshot sample_platform legacy_bundle True NoFile = Inr rx \<and> (\<forall>r \<in> set (rx_rows rx). r_verdict r = None)"
proof -
  have "\<exists>si. load_snapshot sample_platform legacy_bundle True = Inr si \<and> sp_protocol si = None"
    by (simp add: load_snapshot_def legacy_bundle_def read_file_def read_optional_def missing_files_def
        FILES_def load_directional_def load_days_def load_protocol_def Let_def)
  then obtain si where si: "load_snapshot sample_platform legacy_bundle True = Inr si" "sp_protocol si = None" by blast
  have "\<exists>rx. run_snapshot sample_platform legacy_bundle True NoFile = Inr rx"
    by (simp add: run_snapshot_def si snapshot_looks_def published_looks_def published_int_def
        split: prod.split)
  then obtain rx where rx: "run_snapshot sample_platform legacy_bundle True NoFile = Inr rx" ..
  from unregistered_bundle_has_no_verdict [OF si rx] rx show ?thesis by blast
qed

text \<open>
  The retire flag outlives the verdict it reads. Dropping the verdicts of a bundle that names
  no grader leaves every row's retire flag as graded, so a row whose FAILED verdict was withheld
  is still published with \<open>retire: true\<close>, which the daemon consumes.
\<close>

theorem snapshot_keeps_the_retire_flag:
  "map r_retire (rx_rows (snapshot_registry allow_legacy (si\<lparr>sp_protocol := None\<rparr>) g rows))
     = map r_retire rows
   \<and> map r_verdict (rx_rows (snapshot_registry allow_legacy (si\<lparr>sp_protocol := None\<rparr>) g rows))
     = map (\<lambda>_. None) rows"
  by (simp add: snapshot_registry_def drop_untargeted_def drop_unregistered_def drop_verdict_def
      comp_def if_distrib [of r_retire] if_distrib [of r_verdict])

end
